(* ===== verification/Emz_Prelude.thy ===== *)
theory Emz_Prelude
  imports Main "HOL-Library.Word"
begin

text \<open>
  What every component of the model shares: bytes and byte strings, the Python exceptions the
  modelled code can raise and the result type that carries them, slices and slice assignment of
  byte strings, and the conversions \<open>int.to_bytes\<close> / \<open>int.from_bytes\<close>.
  The lemmas here are the generic ones the component proofs rest on; the collection
  \<open>res_simps\<close> unfolds the result monad.
\<close>

unbundle bit_operations_syntax

named_theorems res_simps \<open>unfolding of results and exceptions\<close>

section \<open>Bytes and results\<close>

type_synonym byte = "8 word"
type_synonym bytes = "byte list"

datatype py_error =
    IndexError
  | KeyError string
  | ValueError string
  | OverflowError
  | OSError string
  | AttributeError string
  | AssertionError string
  | RuntimeError string
  | BoardError string
  | SystemExit string
  | TimeoutError
  | WrongBuild string
  | TypeError string
  | ZeroDivisionError

type_synonym 'a res = "py_error + 'a"

definition res_bind :: "'a res \<Rightarrow> ('a \<Rightarrow> 'b res) \<Rightarrow> 'b res" where
  "res_bind m f = (case m of Inl e \<Rightarrow> Inl e | Inr x \<Rightarrow> f x)"

definition res_guard :: "bool \<Rightarrow> py_error \<Rightarrow> unit res" where
  "res_guard c e = (if c then Inr () else Inl e)"

lemma res_bind_simps [simp]:
  "res_bind (Inl e) f = Inl e"
  "res_bind (Inr x) f = f x"
  by (simp_all add: res_bind_def)

lemma res_guard_simps [simp]:
  "res_guard True e = Inr ()"
  "res_guard False e = Inl e"
  by (simp_all add: res_guard_def)

lemma res_bind_Inr_iff [res_simps]:
  "res_bind m f = Inr y \<longleftrightarrow> (\<exists>x. m = Inr x \<and> f x = Inr y)"
  by (cases m) simp_all

lemma res_guard_Inr_iff [res_simps]: "res_guard c e = Inr u \<longleftrightarrow> c"
  by (simp add: res_guard_def)

lemma res_bind_if [res_simps]:
  "res_bind (if c then m else n) f = (if c then res_bind m f else res_bind n f)"
  by simp

lemma res_bind_assoc: "res_bind (res_bind m f) g = res_bind m (\<lambda>x. res_bind (f x) g)"
  by (cases m) simp_all

text \<open>A computation that raises nothing.\<close>

definition returns :: "'a res \<Rightarrow> bool" where
  "returns m = (case m of Inl _ \<Rightarrow> False | Inr _ \<Rightarrow> True)"

lemma returns_simps [simp]: "returns (Inr x)" "\<not> returns (Inl e)"
  by (simp_all add: returns_def)

lemma returns_iff: "returns m \<longleftrightarrow> (\<exists>y. m = Inr y)"
  by (cases m) simp_all

lemma returns_bind: "returns m \<Longrightarrow> (\<And>x. m = Inr x \<Longrightarrow> returns (f x)) \<Longrightarrow> returns (res_bind m f)"
  by (cases m) simp_all

lemma case_prod_eq_iff [res_simps]:
  "(case p of (a, b) \<Rightarrow> f a b) = y \<longleftrightarrow> (\<exists>a b. p = (a, b) \<and> f a b = y)"
  by (cases p) simp

section \<open>Slices and slice assignment\<close>

text \<open>\<open>xs[a:b]\<close> for \<open>0 <= a\<close> and \<open>0 <= b\<close>; out-of-range bounds are clamped, as in Python.\<close>

definition slice :: "'a list \<Rightarrow> nat \<Rightarrow> nat \<Rightarrow> 'a list" where
  "slice xs a b = take (b - a) (drop a xs)"

text \<open>\<open>xs[:k]\<close> for an integer \<open>k\<close>: a negative \<open>k\<close> counts from the end.\<close>

definition slice_upto :: "'a list \<Rightarrow> int \<Rightarrow> 'a list" where
  "slice_upto xs k = (if k < 0 then take (nat (int (length xs) + k)) xs else take (nat k) xs)"

text \<open>\<open>xs[a:b] = ys\<close> on a \<open>bytearray\<close>, for \<open>0 <= a <= b\<close>: the bytes at \<open>a..b-1\<close> are replaced
  by \<open>ys\<close>, whatever the length of \<open>ys\<close>.\<close>

definition put_slice :: "'a list \<Rightarrow> nat \<Rightarrow> nat \<Rightarrow> 'a list \<Rightarrow> 'a list" where
  "put_slice xs a b ys = take a xs @ ys @ drop b xs"

text \<open>\<open>xs[i]\<close> for \<open>0 <= i\<close>.\<close>

definition py_nth :: "'a list \<Rightarrow> nat \<Rightarrow> 'a res" where
  "py_nth xs i = (if i < length xs then Inr (xs ! i) else Inl IndexError)"

lemma length_slice [simp]: "length (slice xs a b) = min (b - a) (length xs - a)"
  by (simp add: slice_def)

lemma slice_append_left: "b \<le> length xs \<Longrightarrow> slice (xs @ ys) a b = slice xs a b"
  by (simp add: slice_def)

lemma slice_append_right:
  "length xs \<le> a \<Longrightarrow> slice (xs @ ys) a b = slice ys (a - length xs) (b - length xs)"
  by (simp add: slice_def)

lemma slice_all: "length xs \<le> b \<Longrightarrow> slice xs 0 b = xs"
  by (simp add: slice_def)

lemma slice_add_append:
  "slice (xs @ ys @ zs) (length xs) (length xs + length ys) = ys"
  by (simp add: slice_def)

lemma length_put_slice:
  "a \<le> b \<Longrightarrow> b \<le> length xs \<Longrightarrow> length ys = b - a \<Longrightarrow> length (put_slice xs a b ys) = length xs"
  by (simp add: put_slice_def)

lemma slice_put_slice_same:
  assumes "a \<le> length xs" and "length ys = b - a"
  shows "slice (put_slice xs a b ys) a b = ys"
  using assms by (simp add: slice_def put_slice_def)

lemma put_slice_put_slice:
  assumes "a \<le> b" "b \<le> length xs" "length ys = b - a"
  shows "put_slice (put_slice xs a b ys) a b zs = put_slice xs a b zs"
  using assms by (simp add: put_slice_def)

lemma put_slice_slice_id: "a \<le> b \<Longrightarrow> put_slice xs a b (slice xs a b) = xs"
proof -
  assume "a \<le> b"
  then have "drop b xs = drop (b - a) (drop a xs)" by simp
  then show ?thesis by (simp only: put_slice_def slice_def append_take_drop_id)
qed

lemma take_put_slice:
  assumes "a \<le> b" "b \<le> k" "b \<le> length xs" "length ys = b - a"
  shows "take k (put_slice xs a b ys) = put_slice (take k xs) a b ys"
proof -
  have la: "length (take a xs) = a" using assms by simp
  have mk: "min k a = a" "min a k = a" using assms by simp_all
  have "b - a \<le> k - a" using assms by linarith
  then have "take (k - a) (ys @ drop b xs) = ys @ drop b (take k xs)"
    using assms by (simp add: take_drop)
  then show ?thesis
    by (simp only: put_slice_def take_append la take_take mk)
qed

lemma slice_upto_nat: "slice_upto xs (int k) = take k xs"
  by (simp add: slice_upto_def)

section \<open>Integers as byte strings\<close>

fun le_bytes :: "nat \<Rightarrow> nat \<Rightarrow> bytes" where
  "le_bytes 0 n = []"
| "le_bytes (Suc k) n = word_of_nat (n mod 256) # le_bytes k (n div 256)"

definition be_bytes :: "nat \<Rightarrow> nat \<Rightarrow> bytes" where
  "be_bytes k n = rev (le_bytes k n)"

text \<open>\<open>n.to_bytes(k, "little")\<close> and \<open>n.to_bytes(k, "big")\<close> raise when \<open>n\<close> does not fit.\<close>

definition to_bytes_le :: "nat \<Rightarrow> nat \<Rightarrow> bytes res" where
  "to_bytes_le k n = (if n < 256 ^ k then Inr (le_bytes k n) else Inl OverflowError)"

definition to_bytes_be :: "nat \<Rightarrow> nat \<Rightarrow> bytes res" where
  "to_bytes_be k n = (if n < 256 ^ k then Inr (be_bytes k n) else Inl OverflowError)"

fun from_bytes_le :: "bytes \<Rightarrow> nat" where
  "from_bytes_le [] = 0"
| "from_bytes_le (b # bs) = unat b + 256 * from_bytes_le bs"

definition from_bytes_be :: "bytes \<Rightarrow> nat" where
  "from_bytes_be bs = from_bytes_le (rev bs)"

lemma unat_byte_lt [simp]: "unat (b :: byte) < 256"
  using unsigned_less [of b] by simp

lemma unat_byte_of_nat: "n < 256 \<Longrightarrow> unat (word_of_nat n :: byte) = n"
  by (simp add: unat_of_nat)

lemma length_le_bytes [simp]: "length (le_bytes k n) = k"
  by (induction k arbitrary: n) auto

lemma length_be_bytes [simp]: "length (be_bytes k n) = k"
  by (simp add: be_bytes_def)

lemma from_le_bytes: "n < 256 ^ k \<Longrightarrow> from_bytes_le (le_bytes k n) = n"
proof (induction k arbitrary: n)
  case 0
  then show ?case by simp
next
  case (Suc k)
  then have "n div 256 < 256 ^ k"
    by (simp add: less_mult_imp_div_less mult.commute)
  with Suc.IH show ?case by (simp add: unat_of_nat)
qed

lemma from_be_bytes: "n < 256 ^ k \<Longrightarrow> from_bytes_be (be_bytes k n) = n"
  by (simp add: from_bytes_be_def be_bytes_def from_le_bytes)

lemma le_bytes_from: "le_bytes (length bs) (from_bytes_le bs) = bs"
  by (induction bs) (auto simp: unat_of_nat)

lemma be_bytes_from: "be_bytes (length bs) (from_bytes_be bs) = bs"
  using le_bytes_from [of "rev bs"] by (simp add: be_bytes_def from_bytes_be_def)

lemma from_bytes_le_less: "from_bytes_le bs < 256 ^ length bs"
proof (induction bs)
  case Nil
  then show ?case by simp
next
  case (Cons b bs)
  have "unat b < 256" by simp
  moreover have "Suc (from_bytes_le bs) \<le> 256 ^ length bs" using Cons by simp
  then have "256 * from_bytes_le bs + 256 \<le> 256 * 256 ^ length bs" by simp
  ultimately have "unat b + 256 * from_bytes_le bs < 256 * 256 ^ length bs" by linarith
  then show ?case by simp
qed

lemma from_bytes_be_less: "from_bytes_be bs < 256 ^ length bs"
  using from_bytes_le_less [of "rev bs"] by (simp add: from_bytes_be_def)

lemma from_bytes_le_inj: "length xs = length ys \<Longrightarrow> from_bytes_le xs = from_bytes_le ys \<Longrightarrow> xs = ys"
  by (metis le_bytes_from)

lemma be_bytes_2: "be_bytes 2 n = [word_of_nat (n div 256 mod 256), word_of_nat (n mod 256)]"
  by (simp add: be_bytes_def numeral_2_eq_2)

lemma from_bytes_be_2: "from_bytes_be [a, b] = 256 * unat a + unat b"
  by (simp add: from_bytes_be_def)

lemma to_bytes_le_Inr_iff [res_simps]:
  "to_bytes_le k n = Inr bs \<longleftrightarrow> n < 256 ^ k \<and> bs = le_bytes k n"
  by (auto simp: to_bytes_le_def)

lemma to_bytes_be_Inr_iff [res_simps]:
  "to_bytes_be k n = Inr bs \<longleftrightarrow> n < 256 ^ k \<and> bs = be_bytes k n"
  by (auto simp: to_bytes_be_def)

lemma xor_cancel_left: "a XOR (a XOR b) = (b :: nat)"
  by (simp flip: xor.assoc)

section \<open>Zipped comparison\<close>

text \<open>\<open>enumerate(zip(xs, ys))\<close>: pairs stop at the shorter list.\<close>

lemma zip_all_eq_iff:
  "length xs = length ys \<Longrightarrow> (\<forall>(x, y) \<in> set (zip xs ys). x = y) \<longleftrightarrow> xs = ys"
  by (induction xs ys rule: list_induct2) auto

lemma filter_enumerate_Nil:
  "filter (\<lambda>(i, x). Q x) (enumerate n xs) = [] \<longleftrightarrow> (\<forall>x\<in>set xs. \<not> Q x)"
  by (induction xs arbitrary: n) auto

lemma filter_enumerate_zip_Nil:
  assumes "length xs = length ys"
  shows "filter (\<lambda>(i, x, y). x \<noteq> y) (enumerate n (zip xs ys)) = [] \<longleftrightarrow> xs = ys"
  using zip_all_eq_iff [OF assms] filter_enumerate_Nil [of "\<lambda>(x, y). x \<noteq> y" n "zip xs ys"]
  by fastforce

lemma find_upt_iff:
  "find P [0..<n] = Some i \<longleftrightarrow> i < n \<and> P i \<and> (\<forall>j<i. \<not> P j)"
  by (auto simp: find_Some_iff)

end
