(* ===== verification/Emz_Text.thy ===== *)
theory Emz_Text
  imports Emz_Prelude "HOL-Library.Sublist" "HOL-Library.AList"
begin

text \<open>
  The part of Python's \<open>str\<close>, \<open>os.path\<close> and \<open>re\<close> that the host-side scripts use, on
  strings of 8-bit characters: \<open>strip\<close>, \<open>split\<close>, \<open>splitlines\<close>, \<open>in\<close>, \<open>count\<close>,
  \<open>join\<close>, \<open>lower\<close>, decimal and hexadecimal numerals, POSIX \<open>basename\<close>, \<open>dirname\<close>,
  \<open>splitext\<close> and \<open>join\<close>, and scanning a text with a matcher the way
  \<open>finditer\<close> and \<open>search\<close> do (leftmost match first, matches do not overlap). Every regular
  expression of the scripts is deterministic (each repetition is followed by a character outside
  its class), so a matcher is a function that returns the captured groups and the rest.
\<close>

section \<open>Characters\<close>

definition py_space :: "char \<Rightarrow> bool" where
  "py_space c = (c \<in> set [CHR '' '', CHR 0x0A, CHR 0x0D, CHR 0x09, CHR 0x0B, CHR 0x0C,
     CHR 0x1C, CHR 0x1D, CHR 0x1E, CHR 0x1F, CHR 0x85, CHR 0xA0])"

definition py_digit :: "char \<Rightarrow> bool" where
  "py_digit c = (c \<in> set ''0123456789'')"

definition py_hex :: "char \<Rightarrow> bool" where
  "py_hex c = (c \<in> set ''0123456789abcdefABCDEF'')"

definition word_char :: "char \<Rightarrow> bool" where
  "word_char c = (c \<in> set ''abcdefghijklmnopqrstuvwxyzABCDEFGHIJKLMNOPQRSTUVWXYZ0123456789_'')"

definition line_break :: "char \<Rightarrow> bool" where
  "line_break c = (c \<in> set [CHR 0x0A, CHR 0x0D, CHR 0x0B, CHR 0x0C, CHR 0x1C, CHR 0x1D,
     CHR 0x1E, CHR 0x85])"

definition lower_char :: "char \<Rightarrow> char" where
  "lower_char c = (case map_of (zip ''ABCDEFGHIJKLMNOPQRSTUVWXYZ'' ''abcdefghijklmnopqrstuvwxyz'') c of
     None \<Rightarrow> c | Some d \<Rightarrow> d)"

definition upper_char :: "char \<Rightarrow> char" where
  "upper_char c = (case map_of (zip ''abcdefghijklmnopqrstuvwxyz'' ''ABCDEFGHIJKLMNOPQRSTUVWXYZ'') c of
     None \<Rightarrow> c | Some d \<Rightarrow> d)"

definition lower :: "string \<Rightarrow> string" where
  "lower = map lower_char"

definition upper :: "string \<Rightarrow> string" where
  "upper = map upper_char"

section \<open>Strings\<close>

definition lstrip :: "string \<Rightarrow> string" where
  "lstrip = dropWhile py_space"

definition rstrip :: "string \<Rightarrow> string" where
  "rstrip s = rev (dropWhile py_space (rev s))"

definition strip :: "string \<Rightarrow> string" where
  "strip s = rstrip (lstrip s)"

text \<open>\<open>sub in s\<close>.\<close>

fun contains :: "string \<Rightarrow> string \<Rightarrow> bool" where
  "contains sub [] = (sub = [])"
| "contains sub (c # cs) = (prefix sub (c # cs) \<or> contains sub cs)"

text \<open>\<open>s.count(sub)\<close> for a non-empty \<open>sub\<close>; \<open>k\<close> counts the characters of the last occurrence
  that are still to be skipped.\<close>

fun count_from :: "nat \<Rightarrow> string \<Rightarrow> string \<Rightarrow> nat" where
  "count_from k sub [] = 0"
| "count_from k sub (c # cs) =
    (if 0 < k then count_from (k - 1) sub cs
     else if prefix sub (c # cs) then Suc (count_from (length sub - 1) sub cs)
     else count_from 0 sub cs)"

definition count_str :: "string \<Rightarrow> string \<Rightarrow> nat" where
  "count_str s sub = count_from 0 sub s"

text \<open>\<open>s.splitlines()\<close>; \<open>cur\<close> is the current line, reversed.\<close>

fun lines_from :: "string \<Rightarrow> string \<Rightarrow> string list" where
  "lines_from cur [] = (if cur = [] then [] else [rev cur])"
| "lines_from cur [c] = (if line_break c then [rev cur] else [rev (c # cur)])"
| "lines_from cur (c # d # cs) =
    (if c = CHR 0x0D \<and> d = CHR 0x0A then rev cur # lines_from [] cs
     else if line_break c then rev cur # lines_from [] (d # cs)
     else lines_from (c # cur) (d # cs))"

definition splitlines :: "string \<Rightarrow> string list" where
  "splitlines = lines_from []"

text \<open>\<open>s.split()\<close>.\<close>

fun words_from :: "string \<Rightarrow> string \<Rightarrow> string list" where
  "words_from cur [] = (if cur = [] then [] else [rev cur])"
| "words_from cur (c # cs) =
    (if py_space c then (if cur = [] then words_from [] cs else rev cur # words_from [] cs)
     else words_from (c # cur) cs)"

definition split_ws :: "string \<Rightarrow> string list" where
  "split_ws = words_from []"

text \<open>\<open>s.split(sep)\<close> for a one-character separator.\<close>

fun split_at :: "char \<Rightarrow> string \<Rightarrow> string list" where
  "split_at sep [] = [[]]"
| "split_at sep (c # cs) =
    (if c = sep then [] # split_at sep cs
     else (case split_at sep cs of [] \<Rightarrow> [[c]] | w # ws \<Rightarrow> (c # w) # ws))"

fun join :: "string \<Rightarrow> string list \<Rightarrow> string" where
  "join sep [] = []"
| "join sep [w] = w"
| "join sep (w # v # ws) = w @ sep @ join sep (v # ws)"

definition quoted :: "string \<Rightarrow> string" where
  "quoted s = CHR 0x22 # s @ [CHR 0x22]"

lemma split_at_nonempty: "split_at sep s \<noteq> []"
  by (induction s) (auto split: list.splits)

lemma join_split_at: "join [sep] (split_at sep s) = s"
proof (induction s)
  case (Cons c cs)
  obtain w ws where s: "split_at sep cs = w # ws"
    using split_at_nonempty [of sep cs] by (cases "split_at sep cs") auto
  show ?case using Cons.IH s by (cases ws) auto
qed simp

lemma split_at_plain: "sep \<notin> set s \<Longrightarrow> split_at sep s = [s]"
  by (induction s) auto

section \<open>Numerals\<close>

fun dec_digit :: "nat \<Rightarrow> char" where
  "dec_digit n = ''0123456789'' ! (n mod 10)"

fun show_nat :: "nat \<Rightarrow> string" where
  "show_nat n = (if n < 10 then [dec_digit n] else show_nat (n div 10) @ [dec_digit n])"

declare show_nat.simps [simp del]

definition show_int :: "int \<Rightarrow> string" where
  "show_int n = (if n < 0 then CHR ''-'' # show_nat (nat (- n)) else show_nat (nat n))"

definition digit_value :: "char \<Rightarrow> nat" where
  "digit_value c = (case map_of (zip ''0123456789abcdefABCDEF''
     [0, 1, 2, 3, 4, 5, 6, 7, 8, 9, 10, 11, 12, 13, 14, 15, 10, 11, 12, 13, 14, 15]) c of
     None \<Rightarrow> 0 | Some v \<Rightarrow> v)"

text \<open>\<open>int(s, base)\<close> on a string of digits of that base (the regular expressions that find the
  strings admit nothing else); the empty string is a \<open>ValueError\<close>.\<close>

definition int_of :: "nat \<Rightarrow> string \<Rightarrow> nat res" where
  "int_of base s = (if s = [] then Inl (ValueError ''invalid literal for int()'')
     else Inr (foldl (\<lambda>n c. base * n + digit_value c) 0 s))"

lemma digit_value_table: "\<forall>m \<in> set [0..<10]. digit_value (''0123456789'' ! m) = m"
  by code_simp

lemma digit_value_dec_digit: "digit_value (dec_digit n) = n mod 10"
  using digit_value_table by simp

lemma show_nat_digits: "list_all py_digit (show_nat n)"
proof (induction n rule: show_nat.induct)
  case (1 n)
  have "''0123456789'' ! (n mod 10) \<in> set ''0123456789''" by (rule nth_mem) simp
  then have "py_digit (dec_digit n)" unfolding py_digit_def dec_digit.simps .
  then show ?case using 1 by (subst show_nat.simps) (simp del: dec_digit.simps)
qed

lemma show_nat_nonempty: "show_nat n \<noteq> []"
  by (subst show_nat.simps) simp

lemma foldl_show_nat: "foldl (\<lambda>n c. 10 * n + digit_value c) 0 (show_nat n) = n"
proof (induction n rule: show_nat.induct)
  case (1 n)
  show ?case
    by (subst show_nat.simps)
      (use 1 in \<open>auto simp: digit_value_dec_digit simp del: dec_digit.simps\<close>)
qed

lemma int_of_show_nat: "int_of 10 (show_nat n) = Inr n"
  by (simp add: int_of_def show_nat_nonempty foldl_show_nat)

section \<open>Paths\<close>

definition basename :: "string \<Rightarrow> string" where
  "basename p = last (split_at (CHR ''/'') p)"

text \<open>\<open>os.path.dirname\<close> for the separators \<open>P\<close>.\<close>

definition dirname :: "(char \<Rightarrow> bool) \<Rightarrow> string \<Rightarrow> string" where
  "dirname P p =
    (let head = rev (dropWhile (\<lambda>c. \<not> P c) (rev p))
     in if list_all P head then head else rev (dropWhile P (rev head)))"

text \<open>\<open>os.path.splitext(p)[0]\<close> for a file name without a directory: a leading dot does not start
  an extension.\<close>

definition stem :: "string \<Rightarrow> string" where
  "stem b =
    (let parts = split_at (CHR ''.'') b
     in if list_all (\<lambda>w. w = []) (butlast parts) then b else join ''.'' (butlast parts))"

section \<open>Scanning a text with a matcher\<close>

type_synonym 'a matcher = "string \<Rightarrow> ('a \<times> string) option"

definition m_lit :: "string \<Rightarrow> string \<Rightarrow> string option" where
  "m_lit w s = (if prefix w s then Some (drop (length w) s) else None)"

definition m_some :: "(char \<Rightarrow> bool) \<Rightarrow> string matcher" where
  "m_some P s = (if takeWhile P s = [] then None else Some (takeWhile P s, dropWhile P s))"

fun m_word :: "string list \<Rightarrow> string matcher" where
  "m_word [] s = None"
| "m_word (w # ws) s = (if prefix w s then Some (w, drop (length w) s) else m_word ws s)"

text \<open>The groups of the matches of \<open>re.finditer\<close>: after a match, \<open>k\<close> characters of it are
  still to be skipped.\<close>

fun scan :: "'a matcher \<Rightarrow> nat \<Rightarrow> string \<Rightarrow> 'a list" where
  "scan m k [] = []"
| "scan m k (c # cs) =
    (if 0 < k then scan m (k - 1) cs
     else (case m (c # cs) of
         None \<Rightarrow> scan m 0 cs
       | Some (a, rest) \<Rightarrow> a # scan m (length cs - length rest) cs))"

definition finditer :: "'a matcher \<Rightarrow> string \<Rightarrow> 'a list" where
  "finditer m s = scan m 0 s"

definition search :: "'a matcher \<Rightarrow> string \<Rightarrow> 'a option" where
  "search m s = (case finditer m s of [] \<Rightarrow> None | a # _ \<Rightarrow> Some a)"

text \<open>\<open>re.search\<close> of a pattern that starts with \<open>^\<close> under \<open>re.MULTILINE\<close>: only the
  beginning of the text and the places after a newline are tried.\<close>

fun search_bol :: "bool \<Rightarrow> 'a matcher \<Rightarrow> string \<Rightarrow> 'a option" where
  "search_bol bol m [] = None"
| "search_bol bol m (c # cs) =
    (case (if bol then m (c # cs) else None) of
       Some (a, _) \<Rightarrow> Some a
     | None \<Rightarrow> search_bol (c = CHR 0x0A) m cs)"

lemma scan_none: "(\<And>t. m t = None) \<Longrightarrow> scan m k s = []"
  by (induction s arbitrary: k) simp_all

section \<open>Subprocesses\<close>

text \<open>What running a command gives: return code, \<open>stdout\<close> and \<open>stderr\<close>, a timeout, or a
  program that could not be started.\<close>

datatype proc_result =
    Completed int string string
  | Timed_out
  | Not_started string

section \<open>Dictionaries\<close>

text \<open>A dictionary in insertion order, and \<open>d.update(new)\<close>.\<close>

definition dict_update :: "(string \<times> 'a) list \<Rightarrow> (string \<times> 'a) list \<Rightarrow> (string \<times> 'a) list" where
  "dict_update d new = fold (\<lambda>(k, v). AList.update k v) new d"

lemma map_of_dict_update: "map_of (dict_update d new) = map_of d ++ map_of (rev new)"
proof (induction new arbitrary: d)
  case (Cons kv new)
  then show ?case
    by (cases kv) (simp add: dict_update_def AList.update_conv' map_add_assoc [symmetric] map_add_def fun_eq_iff
        split: option.splits)
qed (simp add: dict_update_def)

lemma distinct_dict_update: "distinct (map fst d) \<Longrightarrow> distinct (map fst (dict_update d new))"
proof (induction new arbitrary: d)
  case (Cons kv new)
  then show ?case by (cases kv) (simp add: dict_update_def AList.distinct_update)
qed (simp add: dict_update_def)

lemma map_of_rev: "distinct (map fst al) \<Longrightarrow> map_of (rev al) = map_of al"
  by (rule map_of_inject_set [THEN iffD2]) (simp_all add: rev_map [symmetric])

end
