(* ===== verification/Emz_Io.thy ===== *)
theory Emz_Io
  imports Emz_Text
begin

text \<open>
  Programs that talk to hardware. A script runs against a world that holds, as lists, what the
  outside will answer (register reads, lines of a serial port, readings of the clock) and the log
  of what the script did. A computation ends with a value, with an exception, or is \<open>Starved\<close>:
  the answers ran out before it was over. Loops that poll are recursive in the list they poll,
  so they are total, and a theorem that a loop ends says which answers are enough.

  The second part is the decoding of status words into named bit fields, which the board scripts
  share, with the fact that a table of fields that tile a word loses no bit of it.
\<close>

section \<open>Computations\<close>

datatype ('s, 'a) outcome =
    Done 'a 's
  | Raised py_error 's
  | Starved

type_synonym ('s, 'a) io = "'s \<Rightarrow> ('s, 'a) outcome"

definition io_ret :: "'a \<Rightarrow> ('s, 'a) io" where
  "io_ret x = (\<lambda>s. Done x s)"

definition io_raise :: "py_error \<Rightarrow> ('s, 'a) io" where
  "io_raise e = (\<lambda>s. Raised e s)"

definition io_bind :: "('s, 'a) io \<Rightarrow> ('a \<Rightarrow> ('s, 'b) io) \<Rightarrow> ('s, 'b) io" where
  "io_bind m f = (\<lambda>s. case m s of Done x s' \<Rightarrow> f x s' | Raised e s' \<Rightarrow> Raised e s' | Starved \<Rightarrow> Starved)"

definition io_seq :: "('s, 'a) io \<Rightarrow> ('s, 'b) io \<Rightarrow> ('s, 'b) io" where
  "io_seq m n = io_bind m (\<lambda>_. n)"

definition res_io :: "'a res \<Rightarrow> ('s, 'a) io" where
  "res_io r = (case r of Inl e \<Rightarrow> io_raise e | Inr x \<Rightarrow> io_ret x)"

definition io_modify :: "('s \<Rightarrow> 's) \<Rightarrow> ('s, unit) io" where
  "io_modify f = (\<lambda>s. Done () (f s))"

definition io_get :: "('s \<Rightarrow> 'a) \<Rightarrow> ('s, 'a) io" where
  "io_get f = (\<lambda>s. Done (f s) s)"

text \<open>\<open>try: m finally: close\<close>\<close>

definition io_finally :: "('s, 'a) io \<Rightarrow> ('s \<Rightarrow> 's) \<Rightarrow> ('s, 'a) io" where
  "io_finally m close = (\<lambda>s. case m s of
     Done x s' \<Rightarrow> Done x (close s') | Raised e s' \<Rightarrow> Raised e (close s') | Starved \<Rightarrow> Starved)"

text \<open>The same with a clean-up that can fail itself; its exception takes the place of the first.\<close>

definition io_ensure :: "('s, 'a) io \<Rightarrow> ('s, unit) io \<Rightarrow> ('s, 'a) io" where
  "io_ensure m c = (\<lambda>s. case m s of
     Done x t \<Rightarrow> (case c t of Done _ u \<Rightarrow> Done x u | Raised e u \<Rightarrow> Raised e u | Starved \<Rightarrow> Starved)
   | Raised e t \<Rightarrow> (case c t of Done _ u \<Rightarrow> Raised e u | Raised e' u \<Rightarrow> Raised e' u | Starved \<Rightarrow> Starved)
   | Starved \<Rightarrow> Starved)"

text \<open>\<open>try: m except matching as e: handler e\<close>\<close>

definition io_catch :: "('s, 'a) io \<Rightarrow> (py_error \<Rightarrow> bool) \<Rightarrow> (py_error \<Rightarrow> ('s, 'a) io) \<Rightarrow> ('s, 'a) io" where
  "io_catch m matching handler = (\<lambda>s. case m s of
     Raised e s' \<Rightarrow> if matching e then handler e s' else Raised e s' | r \<Rightarrow> r)"

text \<open>The next answer of a list of answers, each a value or an exception.\<close>

definition io_answer :: "('s \<Rightarrow> 'a res list) \<Rightarrow> ('a res list \<Rightarrow> 's \<Rightarrow> 's) \<Rightarrow> ('s, 'a) io" where
  "io_answer list_of set_list = (\<lambda>s. case list_of s of
     [] \<Rightarrow> Starved
   | Inr x # rest \<Rightarrow> Done x (set_list rest s)
   | Inl e # rest \<Rightarrow> Raised e (set_list rest s))"

named_theorems io_simps \<open>evaluation of computations\<close>

lemma io_ret_apply [simp, io_simps]: "io_ret x s = Done x s"
  by (simp add: io_ret_def)

lemma io_raise_apply [simp, io_simps]: "io_raise e s = Raised e s"
  by (simp add: io_raise_def)

lemma io_modify_apply [simp, io_simps]: "io_modify f s = Done () (f s)"
  by (simp add: io_modify_def)

lemma io_get_apply [simp, io_simps]: "io_get f s = Done (f s) s"
  by (simp add: io_get_def)

lemma io_bind_Done [io_simps]:
  "io_bind m f s = Done y t \<longleftrightarrow> (\<exists>x s'. m s = Done x s' \<and> f x s' = Done y t)"
  by (simp add: io_bind_def split: outcome.split)

lemma io_seq_Done [io_simps]:
  "io_seq m n s = Done y t \<longleftrightarrow> (\<exists>x s'. m s = Done x s' \<and> n s' = Done y t)"
  by (simp add: io_seq_def io_bind_Done)

lemma io_bind_Raised:
  "io_bind m f s = Raised e t \<longleftrightarrow> m s = Raised e t \<or> (\<exists>x s'. m s = Done x s' \<and> f x s' = Raised e t)"
  by (auto simp: io_bind_def split: outcome.split)

lemma io_seq_Raised:
  "io_seq m n s = Raised e t \<longleftrightarrow> m s = Raised e t \<or> (\<exists>x s'. m s = Done x s' \<and> n s' = Raised e t)"
  by (simp add: io_seq_def io_bind_Raised)

lemma io_bind_eq [simp]: "m s = Done x s' \<Longrightarrow> io_bind m f s = f x s'"
  by (simp add: io_bind_def)

lemma io_seq_eq [simp]: "m s = Done x s' \<Longrightarrow> io_seq m n s = n s'"
  by (simp add: io_seq_def)

lemma io_finally_Done [io_simps]:
  "io_finally m c s = Done x t \<longleftrightarrow> (\<exists>s'. m s = Done x s' \<and> t = c s')"
  by (auto simp: io_finally_def split: outcome.split)

lemma io_finally_Raised:
  "io_finally m c s = Raised e t \<longleftrightarrow> (\<exists>s'. m s = Raised e s' \<and> t = c s')"
  by (auto simp: io_finally_def split: outcome.split)

lemma io_answer_Done [io_simps]:
  "io_answer g f s = Done x t \<longleftrightarrow> (\<exists>rest. g s = Inr x # rest \<and> t = f rest s)"
  by (auto simp: io_answer_def split: list.split sum.split)

lemma io_answer_Raised:
  "io_answer g f s = Raised e t \<longleftrightarrow> (\<exists>rest. g s = Inl e # rest \<and> t = f rest s)"
  by (auto simp: io_answer_def split: list.split sum.split)

text \<open>The state a computation leaves, if it is not starved, and what holds of every such state.
  \<open>io_keeps R m\<close>: whatever the outcome of \<open>m\<close>, the state it leaves is related by \<open>R\<close> to the
  one it started in.\<close>

fun final :: "('s, 'a) outcome \<Rightarrow> 's option" where
  "final (Done x s) = Some s"
| "final (Raised e s) = Some s"
| "final Starved = None"

lemma final_ensure:
  "final (io_ensure m c s) = Some t \<Longrightarrow> \<exists>s'. final (m s) = Some s' \<and> final (c s') = Some t"
  by (auto simp: io_ensure_def split: outcome.splits)

lemma final_seq:
  "final (io_seq m n s) = Some t \<longleftrightarrow>
    (\<exists>e. m s = Raised e t) \<or> (\<exists>x u. m s = Done x u \<and> final (n u) = Some t)"
  by (auto simp: io_seq_def io_bind_def split: outcome.split)

definition io_keeps :: "('s \<Rightarrow> 's \<Rightarrow> bool) \<Rightarrow> ('s, 'a) io \<Rightarrow> bool" where
  "io_keeps R m \<longleftrightarrow> (\<forall>s t. final (m s) = Some t \<longrightarrow> R s t)"

lemma io_keepsI: "(\<And>s t. final (m s) = Some t \<Longrightarrow> R s t) \<Longrightarrow> io_keeps R m"
  by (simp add: io_keeps_def)

lemma io_keepsD: "io_keeps R m \<Longrightarrow> final (m s) = Some t \<Longrightarrow> R s t"
  by (simp add: io_keeps_def)

lemma io_keeps_bind:
  assumes "io_keeps R m" "\<And>x. io_keeps R (f x)" "transp R"
  shows "io_keeps R (io_bind m f)"
proof (rule io_keepsI)
  fix s t assume t: "final (io_bind m f s) = Some t"
  show "R s t"
  proof (cases "m s")
    case (Done x s')
    then have "R s s'" "R s' t"
      using t io_keepsD [OF assms(1), of s s'] io_keepsD [OF assms(2), of x s' t] by simp_all
    then show ?thesis using assms(3) by (rule transpD [rotated 1])
  next
    case (Raised e s')
    then show ?thesis using t io_keepsD [OF assms(1), of s s'] by (simp add: io_bind_def)
  qed (use t in \<open>simp add: io_bind_def\<close>)
qed

lemma io_keeps_seq: "io_keeps R m \<Longrightarrow> io_keeps R n \<Longrightarrow> transp R \<Longrightarrow> io_keeps R (io_seq m n)"
  by (simp add: io_seq_def io_keeps_bind)

lemma io_keeps_ret: "reflp R \<Longrightarrow> io_keeps R (io_ret x)"
  by (simp add: io_keeps_def reflpD)

lemma io_keeps_raise: "reflp R \<Longrightarrow> io_keeps R (io_raise e)"
  by (simp add: io_keeps_def reflpD)

lemma io_keeps_if: "io_keeps R m \<Longrightarrow> io_keeps R n \<Longrightarrow> io_keeps R (if c then m else n)"
  by simp

section \<open>Bit fields\<close>

type_synonym field = "string \<times> nat \<times> nat"

text \<open>\<open>{name: (st >> lsb) & ((1 << w) - 1) for name, lsb, w in fields}\<close>\<close>

definition decode_fields :: "field list \<Rightarrow> nat \<Rightarrow> (string \<times> nat) list" where
  "decode_fields fields st =
    map (\<lambda>(name, lsb, w). (name, drop_bit lsb st AND (push_bit w 1 - 1))) fields"

text \<open>The fields follow each other without gap or overlap from bit \<open>lo\<close> to bit \<open>hi\<close>.\<close>

fun tiles :: "nat \<Rightarrow> field list \<Rightarrow> nat \<Rightarrow> bool" where
  "tiles lo [] hi = (lo = hi)"
| "tiles lo ((name, lsb, w) # fs) hi = (lsb = lo \<and> tiles (lo + w) fs hi)"

text \<open>A word put together from its fields.\<close>

definition encode_fields :: "field list \<Rightarrow> (string \<times> nat) list \<Rightarrow> nat" where
  "encode_fields fields vals = sum_list (map2 (\<lambda>(_, lsb, _) (_, v). v * 2 ^ lsb) fields vals)"

lemma field_value: "drop_bit lsb st AND (push_bit w 1 - 1) = (st div 2 ^ lsb) mod 2 ^ w" for st :: nat
proof -
  have "drop_bit lsb st AND (push_bit w 1 - 1) = take_bit w (drop_bit lsb st)"
    by (simp only: take_bit_eq_mask mask_eq_exp_minus_1 push_bit_eq_mult mult_1)
  then show ?thesis by (simp add: take_bit_eq_mod drop_bit_eq_div)
qed

lemma encode_decode_from:
  "tiles lo fs hi \<Longrightarrow> encode_fields fs (decode_fields fs st) = (st div 2 ^ lo mod 2 ^ (hi - lo)) * 2 ^ lo
    \<and> lo \<le> hi"
proof (induction lo fs hi rule: tiles.induct)
  case (1 lo hi)
  then show ?case by (simp add: encode_fields_def decode_fields_def)
next
  case (2 lo name lsb w fs hi)
  have l: "lsb = lo" and t: "tiles (lo + w) fs hi" using 2(2) by simp_all
  have ih: "encode_fields fs (decode_fields fs st) = (st div 2 ^ (lo + w) mod 2 ^ (hi - (lo + w))) * 2 ^ (lo + w)"
    and le: "lo + w \<le> hi" using 2(1) [OF t] by simp_all
  let ?x = "st div 2 ^ lo"
  have "?x mod 2 ^ (hi - lo) = ?x mod (2 ^ w * 2 ^ (hi - (lo + w)))"
    using le by (simp flip: power_add)
  also have "\<dots> = 2 ^ w * (?x div 2 ^ w mod 2 ^ (hi - (lo + w))) + ?x mod 2 ^ w"
    by (rule mod_mult2_eq)
  finally have "?x mod 2 ^ (hi - lo) = ?x mod 2 ^ w + (st div 2 ^ (lo + w) mod 2 ^ (hi - (lo + w))) * 2 ^ w"
    by (simp add: div_mult2_eq power_add)
  then have "(?x mod 2 ^ (hi - lo)) * 2 ^ lo
      = (?x mod 2 ^ w) * 2 ^ lo + (st div 2 ^ (lo + w) mod 2 ^ (hi - (lo + w))) * 2 ^ (lo + w)"
    by (simp add: algebra_simps power_add)
  moreover have "encode_fields ((name, lsb, w) # fs) (decode_fields ((name, lsb, w) # fs) st)
      = (?x mod 2 ^ w) * 2 ^ lo + encode_fields fs (decode_fields fs st)"
    unfolding encode_fields_def decode_fields_def by (simp add: l field_value [simplified])
  ultimately show ?case using ih le by simp
qed

lemma encode_decode:
  assumes "tiles 0 fs n" and "st < 2 ^ n"
  shows "encode_fields fs (decode_fields fs st) = st"
  using encode_decode_from [OF assms(1), of st] assms(2) by simp

end
