(* ===== verification/Emz_RgmiiLb.thy ===== *)
theory Emz_RgmiiLb
  imports Emz_Io Complex_Main
begin

text \<open>
  \<open>fpga/arty_a7/scripts/rgmii_lb_selftest.py\<close>: the RGMII pad-loopback self-test over JTAG. The
  world holds the words the EIO will read and the readings of the host clock, in seconds as exact
  rationals; the log has the output words, the sleeps and the check results. Progress lines are
  not modelled, and the counters of a check's wording are left out of its name.
\<close>

section \<open>Constants\<close>

definition LB_MARKER :: nat where "LB_MARKER = 0xB0C"

definition LB_FIELDS :: "field list" where
  "LB_FIELDS = [
    (''tx_frames'', 0, 32), (''rx_ok'', 32, 32), (''rx_ok_big'', 64, 32), (''rx_bad'', 96, 32),
    (''rx_terror'', 128, 32), (''seq_gap'', 160, 32), (''max_ok_len'', 192, 16),
    (''first_bad_len'', 208, 16), (''first_bad_seq'', 224, 16), (''init_done'', 240, 1),
    (''run'', 241, 1), (''mmcm_locked'', 242, 1), (''idelay_rdy'', 243, 1), (''marker'', 244, 12),
    (''speed'', 256, 2), (''tap'', 258, 5), (''pause_rx_en'', 263, 1), (''max_gap'', 264, 32),
    (''pause_ok'', 296, 16), (''pause_bad'', 312, 16)]"

definition SPEEDS :: "(string \<times> nat) list" where
  "SPEEDS = [(''1000'', 0), (''100'', 1), (''10'', 2)]"

definition CLK_NS :: nat where "CLK_NS = 8"

definition QUANTUM_NS :: "(string \<times> nat) list" where
  "QUANTUM_NS = [(''1000'', 512), (''100'', 5120), (''10'', 51200)]"

definition FRAME_NS :: "(string \<times> nat) list" where
  "FRAME_NS = map (\<lambda>(name, q). (name, 9038 * 8 * q div 512)) QUANTUM_NS"

text \<open>\<open>-(-4 * FRAME_NS["1000"] // QUANTUM_NS["1000"])\<close>\<close>

definition MIN_QUANTA :: nat where
  "MIN_QUANTA = nat (- ((- 4 * int (the (map_of FRAME_NS ''1000''))) div int (the (map_of QUANTUM_NS ''1000''))))"

definition XON_HOLD_S :: rat where "XON_HOLD_S = 1 / 2"

section \<open>The self-test object\<close>

datatype lb_act =
    LbWrite nat
  | LbSleep rat
  | LbReport string bool

record lb =
  l_reads :: "nat res list"
  l_times :: "rat list"
  l_log :: "lb_act list"
  l_speed :: nat
  l_tap :: nat
  l_quanta :: nat
  l_rx_en :: nat
  l_running :: nat

definition lb_act :: "lb_act \<Rightarrow> (lb, unit) io" where
  "lb_act a = io_modify (\<lambda>s. s\<lparr>l_log := l_log s @ [a]\<rparr>)"

definition lb_sleep :: "rat \<Rightarrow> (lb, unit) io" where
  "lb_sleep d = lb_act (LbSleep d)"

definition lb_time :: "(lb, rat) io" where
  "lb_time = (\<lambda>s. case l_times s of [] \<Rightarrow> Starved | t # ts \<Rightarrow> Done t (s\<lparr>l_times := ts\<rparr>))"

definition with_times :: "(rat list \<Rightarrow> (lb, 'a) io) \<Rightarrow> (lb, 'a) io" where
  "with_times m = (\<lambda>s. m (l_times s) s)"

text \<open>The word \<open>write\<close> puts on the outputs.\<close>

definition lb_word :: "nat \<Rightarrow> nat \<Rightarrow> nat \<Rightarrow> nat \<Rightarrow> nat \<Rightarrow> nat \<Rightarrow> nat \<Rightarrow> nat \<Rightarrow> nat" where
  "lb_word running clear speed tap load quanta rx_en send =
    running OR push_bit 1 clear OR push_bit 2 speed OR push_bit 4 tap OR push_bit 9 load
    OR push_bit 10 quanta OR push_bit 26 rx_en OR push_bit 27 send"

definition lb_write :: "nat option \<Rightarrow> nat \<Rightarrow> nat \<Rightarrow> nat \<Rightarrow> (lb, unit) io" where
  "lb_write run clear load send =
    io_seq (io_modify (\<lambda>s. case run of None \<Rightarrow> s | Some r \<Rightarrow> s\<lparr>l_running := r\<rparr>))
      (\<lambda>s. lb_act (LbWrite (lb_word (l_running s) clear (l_speed s) (l_tap s) load (l_quanta s)
         (l_rx_en s) send)) s)"

abbreviation lb_update :: "(lb, unit) io" where
  "lb_update \<equiv> lb_write None 0 0 0"

type_synonym lb_status = "(string \<times> nat) list"

definition lb_item :: "lb_status \<Rightarrow> string \<Rightarrow> nat" where
  "lb_item d k = the (map_of d k)"

definition lb_status :: "(lb, lb_status) io" where
  "lb_status = io_bind (io_answer l_reads (\<lambda>xs s. s\<lparr>l_reads := xs\<rparr>))
     (\<lambda>raw. io_ret (decode_fields LB_FIELDS (drop_bit 64 raw)))"

definition set_tap :: "nat \<Rightarrow> (lb, unit) io" where
  "set_tap tap =
    io_seq (io_modify (\<lambda>s. s\<lparr>l_tap := tap\<rparr>)) (io_seq (lb_write (Some 0) 0 0 0)
    (io_seq (lb_write None 0 1 0) (io_seq lb_update
    (io_bind lb_status (\<lambda>s.
     if lb_item s ''tap'' \<noteq> tap then io_raise (SystemExit ''tap did not load'') else io_ret ())))))"

text \<open>Polling the status for two seconds: whether a good one was seen in time.\<close>

fun poll_from :: "(lb_status \<Rightarrow> bool) \<Rightarrow> rat \<Rightarrow> rat list \<Rightarrow> (lb, bool) io" where
  "poll_from good t0 [] = (\<lambda>s. Starved)"
| "poll_from good t0 (t # ts) =
    io_seq (io_modify (\<lambda>s. s\<lparr>l_times := ts\<rparr>))
      (if t - t0 < 2
       then io_bind lb_status (\<lambda>d. if good d then io_ret True else poll_from good t0 ts)
       else io_ret False)"

definition poll :: "(lb_status \<Rightarrow> bool) \<Rightarrow> (lb, bool) io" where
  "poll good = io_bind lb_time (\<lambda>t0. with_times (poll_from good t0))"

definition set_speed :: "nat \<Rightarrow> (lb, unit) io" where
  "set_speed code =
    io_seq (io_modify (\<lambda>s. s\<lparr>l_speed := code\<rparr>)) (io_seq (lb_write (Some 0) 0 0 0)
    (io_bind (poll (\<lambda>d. lb_item d ''speed'' = code \<and> lb_item d ''init_done'' \<noteq> 0)) (\<lambda>ok.
     if ok then lb_sleep (1 / 20) else io_raise (SystemExit ''speed was not written to CTRL''))))"

definition set_pause_rx :: "nat \<Rightarrow> (lb, unit) io" where
  "set_pause_rx rx_en =
    io_seq (io_modify (\<lambda>s. s\<lparr>l_rx_en := rx_en\<rparr>)) (io_seq lb_update
    (io_bind (poll (\<lambda>d. lb_item d ''pause_rx_en'' = rx_en \<and> lb_item d ''init_done'' \<noteq> 0)) (\<lambda>ok.
     if ok then io_ret () else io_raise (SystemExit ''PAUSE rx_en was not written to PAUSE_CTRL''))))"

definition send_pause :: "nat \<Rightarrow> (lb, unit) io" where
  "send_pause quanta =
    io_seq (io_modify (\<lambda>s. s\<lparr>l_quanta := quanta\<rparr>)) (io_seq lb_update
    (io_seq (lb_write None 0 0 1) lb_update))"

definition lb_start :: "(lb, unit) io" where
  "lb_start = io_seq (lb_write (Some 0) 1 0 0) (io_seq (lb_sleep (1 / 20))
     (io_seq lb_update (lb_write (Some 1) 0 0 0)))"

definition lb_stop :: "(lb, lb_status) io" where
  "lb_stop = io_seq (lb_write (Some 0) 0 0 0) (io_seq (lb_sleep 1) lb_status)"

text \<open>The traffic loop of \<open>run\<close>. \<open>interval or seconds\<close>: an interval of 0 counts as none.\<close>

fun run_from :: "rat \<Rightarrow> rat option \<Rightarrow> rat \<Rightarrow> rat list \<Rightarrow> (lb, unit) io" where
  "run_from seconds interval t0 [] = (\<lambda>s. Starved)"
| "run_from seconds interval t0 (t # ts) =
    io_seq (io_modify (\<lambda>s. s\<lparr>l_times := ts\<rparr>))
     (if t - t0 < seconds then
        (case ts of
           [] \<Rightarrow> (\<lambda>s. Starved)
         | t2 # ts2 \<Rightarrow>
             (case interval of
                Some i \<Rightarrow>
                  io_seq (lb_sleep (min i (max 0 (seconds - (t2 - t0)))))
                   (io_seq lb_status
                     (case ts2 of
                        [] \<Rightarrow> (\<lambda>s. Starved)
                      | t3 # ts3 \<Rightarrow> run_from seconds interval t0 ts3))
              | None \<Rightarrow>
                  io_seq (lb_sleep (min seconds (max 0 (seconds - (t2 - t0)))))
                    (run_from seconds interval t0 ts2)))
      else io_ret ())"

definition lb_run :: "rat \<Rightarrow> rat option \<Rightarrow> (lb, lb_status) io" where
  "lb_run seconds interval =
    io_seq (lb_write (Some 0) 1 0 0) (io_seq (lb_sleep (1 / 20)) (io_seq lb_update
    (io_seq (lb_write (Some 1) 0 0 0)
    (io_seq (io_bind lb_time (\<lambda>t0.
        with_times (run_from seconds (if interval = Some 0 then None else interval) t0))) lb_stop))))"

definition clean :: "lb_status \<Rightarrow> bool" where
  "clean s \<longleftrightarrow> 0 < lb_item s ''tx_frames'' \<and> lb_item s ''rx_ok'' = lb_item s ''tx_frames''
     \<and> lb_item s ''rx_bad'' = 0 \<and> lb_item s ''rx_terror'' = 0 \<and> lb_item s ''seq_gap'' = 0"

fun sweep_from :: "rat \<Rightarrow> nat list \<Rightarrow> (lb, nat list) io" where
  "sweep_from seconds [] = io_ret []"
| "sweep_from seconds (tap # taps) =
    io_seq (set_tap tap) (io_bind (lb_run seconds None) (\<lambda>s.
    io_bind (sweep_from seconds taps) (\<lambda>passing.
    io_ret (if clean s then tap # passing else passing))))"

definition sweep :: "rat \<Rightarrow> (lb, nat list) io" where
  "sweep seconds = io_seq (set_speed 0) (sweep_from seconds [0..<32])"

text \<open>\<open>best\<close> and \<open>cur\<close> of \<open>longest_run\<close>.\<close>

fun longest_from :: "nat list \<Rightarrow> nat list \<Rightarrow> nat list \<Rightarrow> nat list" where
  "longest_from best cur [] = best"
| "longest_from best cur (tap # taps) =
    (let cur = (if cur \<noteq> [] \<and> tap = last cur + 1 then cur @ [tap] else [tap])
     in longest_from (if length cur > length best then cur else best) cur taps)"

definition longest_run :: "nat list \<Rightarrow> nat list" where
  "longest_run taps = longest_from [] [] taps"

section \<open>The PAUSE tests\<close>

text \<open>\<open>report\<close>: logs a check and counts it if it failed.\<close>

definition lb_report :: "string \<Rightarrow> bool \<Rightarrow> (lb, nat) io" where
  "lb_report check ok = io_seq (lb_act (LbReport check ok)) (io_ret (if ok then 0 else 1))"

fun lb_reports :: "(string \<times> bool) list \<Rightarrow> (lb, nat) io" where
  "lb_reports [] = io_ret 0"
| "lb_reports ((check, ok) # checks) =
    io_bind (lb_report check ok) (\<lambda>a. io_bind (lb_reports checks) (\<lambda>b. io_ret (a + b)))"

definition ns :: "nat \<Rightarrow> rat" where
  "ns n = of_nat n / 10 ^ 9"

text \<open>\<open>one\<close>: a PAUSE of \<open>q\<close> quanta during traffic; the final status, the longest gap in ns and
  the failed checks.\<close>

definition pause_one :: "nat \<Rightarrow> nat \<Rightarrow> string \<Rightarrow> nat \<Rightarrow> nat \<Rightarrow> (lb, lb_status \<times> nat \<times> nat) io" where
  "pause_one q_ns f_ns label rx_en q =
    io_seq (set_pause_rx rx_en) (io_seq lb_start
    (io_seq (lb_sleep (1 / 10 + ns (3 * f_ns)))
    (io_seq (send_pause q)
    (io_seq (lb_sleep (ns (q * q_ns) + ns (3 * f_ns) + 1 / 10))
    (io_bind lb_stop (\<lambda>s.
     io_bind (lb_report (label @ '': data frames exact and in order'') (clean s)) (\<lambda>fails.
     io_ret (s, lb_item s ''max_gap'' * CLK_NS, fails))))))))"

definition pause_fields_right :: "lb_status \<Rightarrow> nat \<Rightarrow> bool" where
  "pause_fields_right s sent \<longleftrightarrow> lb_item s ''pause_ok'' = sent \<and> lb_item s ''pause_bad'' = 0"

definition honored_checks :: "nat \<Rightarrow> nat \<Rightarrow> lb_status \<Rightarrow> nat \<Rightarrow> (string \<times> bool) list" where
  "honored_checks dur f_ns s gap =
    [(''honored: frame came back with every checked field right'', pause_fields_right s 1),
     (''honored: max_gap is the pause within two frames'', abs (int gap - int dur) \<le> int (2 * f_ns))]"

definition ignored_checks :: "nat \<Rightarrow> lb_status \<Rightarrow> nat \<Rightarrow> (string \<times> bool) list" where
  "ignored_checks f_ns s gap =
    [(''ignored: frame came back with every checked field right'', pause_fields_right s 1),
     (''ignored: max_gap within two frames'', gap \<le> 2 * f_ns)]"

text \<open>A send write and the clock readings around it.\<close>

definition send_edge :: "(lb, rat \<times> rat) io" where
  "send_edge = io_bind lb_time (\<lambda>t0. io_seq (lb_write None 0 0 1) (io_bind lb_time (\<lambda>t1. io_ret (t0, t1))))"

text \<open>The refreshes of a held pause: each round reads the clock for the loop condition and for the
  sleep and sends between two more readings.\<close>

fun refresh_from :: "rat \<Rightarrow> rat \<Rightarrow> (rat \<times> rat) list \<Rightarrow> rat list \<Rightarrow> (lb, (rat \<times> rat) list) io" where
  "refresh_from refresh_s limit edges (t # u # p0 # p1 # ts) =
    (if t + refresh_s < limit then
       io_seq (lb_sleep (max 0 (fst (last edges) + refresh_s - u)))
        (io_seq (io_modify (\<lambda>s. s\<lparr>l_times := ts\<rparr>))
        (io_seq (lb_write None 0 0 1)
        (io_seq lb_update
          (refresh_from refresh_s limit (edges @ [(p0, p1)]) ts))))
     else io_seq (io_modify (\<lambda>s. s\<lparr>l_times := u # p0 # p1 # ts\<rparr>)) (io_ret edges))"
| "refresh_from refresh_s limit edges (t # ts) =
    (if t + refresh_s < limit then (\<lambda>s. Starved)
     else io_seq (io_modify (\<lambda>s. s\<lparr>l_times := ts\<rparr>)) (io_ret edges))"
| "refresh_from refresh_s limit edges [] = (\<lambda>s. Starved)"

text \<open>The smallest margin by which a pause took effect before the one before it could run out.\<close>

definition xon_slack :: "rat \<Rightarrow> rat \<Rightarrow> (rat \<times> rat) list \<Rightarrow> rat \<times> rat \<Rightarrow> rat" where
  "xon_slack full_s f_s edges x =
    Min (set (map2 (\<lambda>(p0, _) (_, n1). p0 + full_s - (n1 + 2 * f_s)) edges (tl edges @ [x])))"

definition xon_once :: "rat \<Rightarrow> rat \<Rightarrow> (lb, lb_status \<times> (rat \<times> rat) list \<times> (rat \<times> rat) \<times> rat) io" where
  "xon_once full_s f_s =
    io_seq (set_pause_rx 1)
    (io_seq (io_modify (\<lambda>s. s\<lparr>l_quanta := 0xFFFF\<rparr>))
    (io_seq lb_start
    (io_seq (lb_sleep (1 / 10 + 3 * f_s))
    (io_bind send_edge (\<lambda>e0.
     io_seq lb_update
    (io_bind (with_times (refresh_from (full_s / 8) (fst e0 + XON_HOLD_S) [e0])) (\<lambda>edges.
     io_bind send_edge (\<lambda>e1.
     io_seq (io_modify (\<lambda>s. s\<lparr>l_quanta := 0\<rparr>))
    (io_seq lb_update
    (io_bind send_edge (\<lambda>x.
     io_seq lb_update
    (io_bind lb_time (\<lambda>now.
     io_seq (lb_sleep (max 0 (fst e1 + full_s - now) + 3 * f_s + 1 / 10))
    (io_bind lb_stop (\<lambda>s.
     io_ret (s, edges @ [e1], x, xon_slack full_s f_s (edges @ [e1]) x))))))))))))))))"

text \<open>At most three attempts; the last one counts even if it is void.\<close>

fun xon_attempts :: "nat \<Rightarrow> rat \<Rightarrow> rat \<Rightarrow> (lb, lb_status \<times> (rat \<times> rat) list \<times> (rat \<times> rat) \<times> rat) io" where
  "xon_attempts 0 full_s f_s = xon_once full_s f_s"
| "xon_attempts (Suc n) full_s f_s = io_bind (xon_once full_s f_s) (\<lambda>r.
     if 0 < snd (snd (snd r)) then io_ret r else xon_attempts n full_s f_s)"

definition xon_checks ::
  "rat \<Rightarrow> rat \<Rightarrow> lb_status \<Rightarrow> (rat \<times> rat) list \<Rightarrow> rat \<times> rat \<Rightarrow> rat \<Rightarrow> (string \<times> bool) list" where
  "xon_checks full_s f_s s edges x slack =
    (let (on0, on1) = hd edges; (x0, x1) = x; last0 = fst (last edges); sent = length edges;
         valid = (0 < slack);
         gap = ns (lb_item s ''max_gap'' * CLK_NS);
         lo = x0 - on1 - 2 * f_s;
         hi = x1 - on0 + 2 * f_s + 1 / 1000;
         ignored = last0 + full_s - on1 - 2 * f_s
     in [(''XON: data frames exact and in order'', clean s),
         (''XON: all PAUSE frames came back with every checked field right'', pause_fields_right s (sent + 1)),
         (''XON: each pause took effect before the last could run out'', valid),
         (''XON: the 0xffff pauses stopped TX until the Q=0 frame'', valid \<and> lo \<le> gap),
         (''XON: TX resumed within two frames (+1 ms) of the Q=0 frame's write'', gap \<le> hi)]
        @ (if ignored > hi
           then [(''XON: that was the Q=0 frame, not the 0xffff pause running out'',
                  valid \<and> lo \<le> gap \<and> gap \<le> hi)]
           else []))"

definition pause_tests :: "string \<Rightarrow> nat \<Rightarrow> (lb, nat) io" where
  "pause_tests name quanta =
    (let q_ns = the (map_of QUANTUM_NS name); f_ns = the (map_of FRAME_NS name);
         dur = quanta * q_ns; full_s = ns (0xFFFF * q_ns); f_s = ns f_ns
     in io_bind (pause_one q_ns f_ns ''honored'' 1 quanta) (\<lambda>(s, gap, f1).
        io_bind (lb_reports (honored_checks dur f_ns s gap)) (\<lambda>f2.
        io_bind (pause_one q_ns f_ns ''ignored'' 0 quanta) (\<lambda>(s, gap, f3).
        io_bind (lb_reports (ignored_checks f_ns s gap)) (\<lambda>f4.
        io_bind (xon_attempts 2 full_s f_s) (\<lambda>(s, edges, x, slack).
        io_bind (lb_reports (xon_checks full_s f_s s edges x slack)) (\<lambda>f5.
        io_seq (set_pause_rx 0) (io_ret (f1 + f2 + f3 + f4 + f5)))))))))"

section \<open>The run\<close>

record lb_args =
  a_speeds :: "string list"
  a_seconds :: rat
  a_tap :: "nat option"
  a_sweep :: bool
  a_sweep_seconds :: rat
  a_interval :: rat
  a_no_pause :: bool
  a_pause_quanta :: nat

definition speed_checks :: "lb_status \<Rightarrow> (string \<times> bool) list" where
  "speed_checks s =
    [(''frames were sent'', 0 < lb_item s ''tx_frames''),
     (''every frame came back exact and clean'', lb_item s ''rx_ok'' = lb_item s ''tx_frames''),
     (''frames > 4083 B came back exact'', 0 < lb_item s ''rx_ok_big''),
     (''longest exact frame is 9014 B (9018 with FCS)'', lb_item s ''max_ok_len'' = 9014),
     (''no bad frames'', lb_item s ''rx_bad'' = 0),
     (''no terror'', lb_item s ''rx_terror'' = 0),
     (''no sequence gaps'', lb_item s ''seq_gap'' = 0)]"

fun test_speeds :: "lb_args \<Rightarrow> string list \<Rightarrow> (lb, nat) io" where
  "test_speeds a [] = io_ret 0"
| "test_speeds a (name # names) =
    (case map_of SPEEDS name of
       None \<Rightarrow> io_raise (KeyError name)
     | Some code \<Rightarrow>
         io_seq (set_speed code)
         (io_bind (lb_run (a_seconds a) (Some (a_interval a))) (\<lambda>s.
          io_bind (lb_reports (speed_checks s)) (\<lambda>f1.
          io_bind (if a_no_pause a then io_ret 0 else pause_tests name (a_pause_quanta a)) (\<lambda>f2.
          io_bind (test_speeds a names) (\<lambda>f3. io_ret (f1 + f2 + f3)))))))"

text \<open>The tap to use: the given one, or the middle of the longest passing run.\<close>

definition pick_tap :: "lb_args \<Rightarrow> nat list \<Rightarrow> nat option \<times> nat" where
  "pick_tap a passing =
    (let win = longest_run passing
     in if win \<noteq> [] then
          (case a_tap a of None \<Rightarrow> (Some (win ! (length win div 2)), 0) | Some t \<Rightarrow> (Some t, 0))
        else (a_tap a, 1))"

definition lb_ready :: "lb_status \<Rightarrow> bool" where
  "lb_ready s \<longleftrightarrow> lb_item s ''init_done'' \<noteq> 0 \<and> lb_item s ''mmcm_locked'' \<noteq> 0 \<and> lb_item s ''idelay_rdy'' \<noteq> 0"

text \<open>\<open>main\<close>: the exit code. A usage error is \<open>argparse\<close>'s exit.\<close>

definition lb_main :: "lb_args \<Rightarrow> (lb, nat) io" where
  "lb_main a =
    (if (case a_tap a of None \<Rightarrow> False | Some t \<Rightarrow> \<not> t \<le> 31) then io_raise (SystemExit ''--tap must be 0..31'')
     else if \<not> (MIN_QUANTA \<le> a_pause_quanta a \<and> a_pause_quanta a \<le> 0xFFFF)
     then io_raise (SystemExit ''--pause-quanta'')
     else io_bind lb_status (\<lambda>s.
       if lb_item s ''marker'' \<noteq> LB_MARKER then io_raise (SystemExit ''self-test marker'')
       else if \<not> lb_ready s then io_raise (SystemExit ''self-test not ready'')
       else io_seq (io_modify (\<lambda>w. w\<lparr>l_speed := lb_item s ''speed'', l_tap := lb_item s ''tap'',
                l_rx_en := lb_item s ''pause_rx_en''\<rparr>))
        (io_bind (if a_sweep a then io_bind (sweep (a_sweep_seconds a)) (\<lambda>passing. io_ret (pick_tap a passing))
              else io_ret (a_tap a, 0)) (\<lambda>(tap, f1).
         io_seq (case tap of None \<Rightarrow> io_ret () | Some t \<Rightarrow> set_tap t)
        (io_bind (test_speeds a (a_speeds a)) (\<lambda>f2.
         io_seq (set_speed 0) (io_ret (if f1 + f2 \<noteq> 0 then 1 else 0))))))))"

section \<open>Lemmas\<close>

lemma LB_FIELDS_tiles: "tiles 0 LB_FIELDS 328"
  by (simp add: LB_FIELDS_def)

text \<open>The bits of a word put together from shifted parts.\<close>

definition bit_field :: "nat \<Rightarrow> nat \<Rightarrow> nat \<Rightarrow> nat" where
  "bit_field lsb w x = take_bit w (drop_bit lsb x)"

lemma bit_field_or: "bit_field l w (x OR y) = bit_field l w x OR bit_field l w y"
  by (simp add: bit_field_def)

lemma bit_field_same: "v < 2 ^ w \<Longrightarrow> bit_field l w (push_bit l v) = v"
  by (simp add: bit_field_def push_bit_eq_mult drop_bit_eq_div take_bit_eq_mod)

lemma bit_field_above: "l + w \<le> k \<Longrightarrow> bit_field l w (push_bit k v) = 0"
proof -
  assume "l + w \<le> k"
  then have "(2 :: nat) ^ k = 2 ^ (k - l - w) * 2 ^ w * 2 ^ l" by (simp flip: power_add)
  then have "push_bit k v = (v * 2 ^ (k - l - w) * 2 ^ w) * 2 ^ l" by (simp add: push_bit_eq_mult)
  then show ?thesis by (simp add: bit_field_def drop_bit_eq_div take_bit_eq_mod)
qed

lemma bit_field_below: "v < 2 ^ m \<Longrightarrow> k + m \<le> l \<Longrightarrow> bit_field l w (push_bit k v) = 0"
proof -
  assume v: "v < 2 ^ m" and k: "k + m \<le> l"
  have "push_bit k v < 2 ^ (k + m)" using v by (simp add: push_bit_eq_mult power_add mult.commute)
  also have "\<dots> \<le> (2 :: nat) ^ l" using k by simp
  finally show ?thesis by (simp add: bit_field_def drop_bit_eq_div)
qed

lemma bit_field_below0: "v < 2 ^ m \<Longrightarrow> m \<le> l \<Longrightarrow> bit_field l w v = 0"
  using bit_field_below [of v m 0 l w] by simp

lemma bit_field_same0: "v < 2 ^ w \<Longrightarrow> bit_field 0 w v = v"
  using bit_field_same [of v w 0] by simp

text \<open>Segments of consecutive numbers.\<close>

fun consecutive :: "nat list \<Rightarrow> bool" where
  "consecutive (x # y # xs) = (y = x + 1 \<and> consecutive (y # xs))"
| "consecutive xs = True"

lemma consecutive_snoc:
  "consecutive (xs @ [x]) \<longleftrightarrow> consecutive xs \<and> (xs = [] \<or> x = last xs + 1)"
  by (induction xs rule: consecutive.induct) auto

lemma consecutive_append_left: "consecutive (xs @ ys) \<Longrightarrow> consecutive xs"
  by (induction xs rule: consecutive.induct) (cases ys, auto)

text \<open>What the two lists of \<open>longest_run\<close> are after the taps \<open>done\<close>: \<open>cur\<close> is the longest
  consecutive segment that ends there, \<open>best\<close> the longest anywhere.\<close>

definition longest_inv :: "nat list \<Rightarrow> nat list \<Rightarrow> nat list \<Rightarrow> bool" where
  "longest_inv best cur seen \<longleftrightarrow>
    consecutive best \<and> consecutive cur \<and> sublist best seen \<and> suffix cur seen
    \<and> (\<forall>seg. suffix seg seen \<and> consecutive seg \<longrightarrow> length seg \<le> length cur)
    \<and> (\<forall>seg. sublist seg seen \<and> consecutive seg \<longrightarrow> length seg \<le> length best)"

lemma sublist_snoc_iff: "sublist seg (xs @ [x]) \<longleftrightarrow> sublist seg xs \<or> suffix seg (xs @ [x])"
proof
  assume "sublist seg (xs @ [x])"
  then obtain ps ss where e: "xs @ [x] = ps @ seg @ ss" by (auto simp: sublist_def)
  show "sublist seg xs \<or> suffix seg (xs @ [x])"
  proof (cases ss rule: rev_cases)
    case Nil
    then show ?thesis using e by (auto simp: suffix_def)
  next
    case (snoc ss' y)
    then have "xs = ps @ seg @ ss'" using e by simp
    then show ?thesis by (auto simp: sublist_def)
  qed
next
  assume "sublist seg xs \<or> suffix seg (xs @ [x])"
  then show "sublist seg (xs @ [x])"
    by (metis sublist_append_rightI sublist_order.order_trans suffix_imp_sublist)
qed

lemma longest_inv_step:
  assumes inv: "longest_inv best cur seen"
    and cur': "cur' = (if cur \<noteq> [] \<and> tap = last cur + 1 then cur @ [tap] else [tap])"
    and best': "best' = (if length cur' > length best then cur' else best)"
  shows "longest_inv best' cur' (seen @ [tap])"
proof -
  have suf: "length seg \<le> length cur'" if "suffix seg (seen @ [tap])" "consecutive seg" for seg
  proof (cases seg rule: rev_cases)
    case (snoc ys y)
    then have y: "y = tap" "suffix ys seen" using that(1) by (auto simp: suffix_def)
    have c: "consecutive ys" "ys = [] \<or> tap = last ys + 1"
      using that(2) snoc y by (simp_all add: consecutive_snoc)
    show ?thesis
    proof (cases "ys = []")
      case False
      have "length ys \<le> length cur" using inv y c by (simp add: longest_inv_def)
      moreover have "suffix cur seen" using inv by (simp add: longest_inv_def)
      ultimately have "suffix ys cur" using y(2) by (metis suffix_length_suffix)
      then have "last ys = last cur" "cur \<noteq> []" using False by (auto simp: suffix_def)
      then show ?thesis using \<open>length ys \<le> length cur\<close> snoc c False by (simp add: cur')
    qed (simp add: snoc cur')
  qed simp
  have cc: "consecutive cur'" "suffix cur' (seen @ [tap])"
    using inv by (auto simp: longest_inv_def cur' consecutive_snoc suffix_def)
  have bb: "consecutive best" "sublist best seen"
    "\<And>seg. sublist seg seen \<Longrightarrow> consecutive seg \<Longrightarrow> length seg \<le> length best"
    using inv by (simp_all add: longest_inv_def)
  have "sublist best' (seen @ [tap])" "consecutive best'"
    using cc bb by (auto simp: best' sublist_snoc_iff)
  moreover have "length seg \<le> length best'" if "sublist seg (seen @ [tap])" "consecutive seg" for seg
    using that suf [of seg] bb(3) [of seg] unfolding sublist_snoc_iff best' by fastforce
  ultimately show ?thesis using suf cc by (simp add: longest_inv_def)
qed

lemma longest_from_inv:
  "longest_inv best cur seen \<Longrightarrow> \<exists>cur'. longest_inv (longest_from best cur taps) cur' (seen @ taps)"
proof (induction taps arbitrary: best cur seen)
  case (Cons tap taps)
  from longest_inv_step [OF Cons.prems refl refl, of tap] Cons.IH show ?case
    by (fastforce simp: Let_def)
qed auto

text \<open>Failed checks in the log.\<close>

definition failed :: "lb \<Rightarrow> nat" where
  "failed s = length (filter (\<lambda>a. case a of LbReport _ ok \<Rightarrow> \<not> ok | _ \<Rightarrow> False) (l_log s))"

text \<open>\<open>counts a g m\<close>: if \<open>a\<close> failures were counted before \<open>m\<close>, then what \<open>m\<close> returns, read
  by \<open>g\<close>, counts those and the ones \<open>m\<close> logs.  \<open>quiet m\<close>: \<open>m\<close> logs none.\<close>

definition counts :: "nat \<Rightarrow> ('a \<Rightarrow> nat) \<Rightarrow> (lb, 'a) io \<Rightarrow> bool" where
  "counts a g m \<longleftrightarrow> (\<forall>s x t. m s = Done x t \<longrightarrow> g x + failed s = a + failed t)"

definition quiet :: "(lb, 'a) io \<Rightarrow> bool" where
  "quiet m \<longleftrightarrow> (\<forall>s x t. m s = Done x t \<longrightarrow> failed t = failed s)"

lemma quiet_bind: "quiet m \<Longrightarrow> (\<And>x. quiet (f x)) \<Longrightarrow> quiet (io_bind m f)"
  unfolding quiet_def io_bind_Done by metis

lemma quiet_seq: "quiet m \<Longrightarrow> quiet n \<Longrightarrow> quiet (io_seq m n)"
  unfolding io_seq_def by (rule quiet_bind)

lemma counts_bind:
  assumes "counts 0 g m" "\<And>x. counts (a + g x) h (f x)"
  shows "counts a h (io_bind m f)"
  unfolding counts_def io_bind_Done
proof (intro allI impI, elim exE conjE)
  fix s x t y s'
  assume "m s = Done y s'" "f y s' = Done x t"
  then have "g y + failed s = failed s'" "h x + failed s' = a + g y + failed t"
    using assms unfolding counts_def by fastforce+
  then show "h x + failed s = a + failed t" by linarith
qed

lemma counts_quiet: "quiet m \<Longrightarrow> (\<And>x. counts a h (f x)) \<Longrightarrow> counts a h (io_bind m f)"
  unfolding counts_def quiet_def io_bind_Done by metis

lemma counts_quiet_seq: "quiet m \<Longrightarrow> counts a h n \<Longrightarrow> counts a h (io_seq m n)"
  unfolding io_seq_def by (rule counts_quiet)

lemma counts_ret: "h x = a \<Longrightarrow> counts a h (io_ret x)"
  by (simp add: counts_def)

lemma counts_raise: "counts a h (io_raise e)"
  by (simp add: counts_def)

lemma quiet_ret: "quiet (io_ret x)"
  by (simp add: quiet_def)

lemma quiet_raise: "quiet (io_raise e)"
  by (simp add: quiet_def)

lemma quiet_starved: "quiet (\<lambda>s. Starved)"
  by (simp add: quiet_def)

lemma quiet_if: "(c \<Longrightarrow> quiet m) \<Longrightarrow> (\<not> c \<Longrightarrow> quiet n) \<Longrightarrow> quiet (if c then m else n)"
  by simp

lemma quiet_modify: "(\<And>s. l_log (f s) = l_log s) \<Longrightarrow> quiet (io_modify f)"
  by (simp add: quiet_def failed_def)

lemma quiet_act: "(\<And>c ok. a \<noteq> LbReport c ok) \<Longrightarrow> quiet (lb_act a)"
  by (auto simp: quiet_def failed_def lb_act_def split: lb_act.split)

lemma quiet_reads: "quiet (io_answer l_reads (\<lambda>xs s. s\<lparr>l_reads := xs\<rparr>))"
  by (auto simp: quiet_def failed_def io_answer_Done)

lemma quiet_time: "quiet lb_time"
  by (auto simp: quiet_def failed_def lb_time_def split: list.splits)

lemma quiet_times: "(\<And>ts. quiet (m ts)) \<Longrightarrow> quiet (with_times m)"
  by (simp add: quiet_def with_times_def)

lemmas quiet_intros = quiet_bind quiet_seq quiet_ret quiet_raise quiet_starved quiet_if quiet_act
  quiet_reads quiet_time

lemma quiet_status: "quiet lb_status"
  unfolding lb_status_def by (intro quiet_intros)

lemma quiet_write: "quiet (lb_write run clear load send)"
  by (auto simp: quiet_def lb_write_def lb_act_def io_seq_Done failed_def split: option.splits)

lemma quiet_sleep: "quiet (lb_sleep d)"
  unfolding lb_sleep_def by (intro quiet_act) simp

lemma quiet_poll_from: "quiet (poll_from good t0 ts)"
proof (induction good t0 ts rule: poll_from.induct)
  case (2 good t0 t ts)
  show ?case unfolding poll_from.simps
    by (intro quiet_intros quiet_status quiet_modify) (use 2 in simp_all)
qed (simp add: quiet_starved)

lemma quiet_poll: "quiet (poll good)"
  unfolding poll_def by (intro quiet_bind quiet_time quiet_times quiet_poll_from)

lemmas quiet_ops = quiet_intros quiet_status quiet_write quiet_sleep quiet_poll

lemma quiet_set_tap: "quiet (set_tap t)"
  unfolding set_tap_def by (intro quiet_ops quiet_modify) simp

lemma quiet_set_speed: "quiet (set_speed c)"
  unfolding set_speed_def by (intro quiet_ops quiet_modify) simp

lemma quiet_set_pause_rx: "quiet (set_pause_rx c)"
  unfolding set_pause_rx_def by (intro quiet_ops quiet_modify) simp

lemma quiet_send_pause: "quiet (send_pause q)"
  unfolding send_pause_def by (intro quiet_ops quiet_modify) simp

lemma quiet_start: "quiet lb_start"
  unfolding lb_start_def by (intro quiet_ops)

lemma quiet_stop: "quiet lb_stop"
  unfolding lb_stop_def by (intro quiet_ops)

lemma quiet_run_from: "quiet (run_from seconds interval t0 ts)"
proof (induction seconds interval t0 ts rule: run_from.induct)
  case (2 seconds interval t0 t ts)
  show ?case unfolding run_from.simps
    by (intro quiet_seq quiet_modify quiet_if quiet_ret)
      (use 2 in \<open>auto split: list.split option.split intro!: quiet_seq quiet_sleep quiet_status quiet_starved
        simp del: run_from.simps\<close>)
qed (simp add: quiet_starved)

lemma quiet_run: "quiet (lb_run seconds interval)"
  unfolding lb_run_def by (intro quiet_ops quiet_times quiet_run_from quiet_stop)

lemma quiet_refresh: "quiet (refresh_from r l edges ts)"
proof (induction r l edges ts rule: refresh_from.induct)
  case (1 r l edges t u p0 p1 ts)
  show ?case unfolding refresh_from.simps
    by (intro quiet_ops quiet_modify) (use 1 in simp_all)
qed (unfold refresh_from.simps, (intro quiet_starved quiet_if quiet_seq quiet_modify quiet_ret; simp)+)

lemma quiet_send_edge: "quiet send_edge"
  unfolding send_edge_def by (intro quiet_ops)

lemma quiet_xon_once: "quiet (xon_once full_s f_s)"
  unfolding xon_once_def
  by (intro quiet_ops quiet_modify quiet_times quiet_refresh quiet_send_edge quiet_stop quiet_start
      quiet_set_pause_rx) simp_all

lemma quiet_xon_attempts: "quiet (xon_attempts n full_s f_s)"
proof (induction n)
  case (Suc n)
  show ?case unfolding xon_attempts.simps by (intro quiet_bind quiet_if quiet_ret quiet_xon_once Suc)
qed (simp add: quiet_xon_once)

lemma quiet_sweep_from: "quiet (sweep_from seconds taps)"
proof (induction taps)
  case (Cons tap taps)
  show ?case unfolding sweep_from.simps by (intro quiet_bind quiet_seq quiet_ret quiet_set_tap quiet_run Cons)
qed (simp only: sweep_from.simps quiet_ret)

lemma quiet_sweep: "quiet (sweep seconds)"
  unfolding sweep_def by (intro quiet_ops quiet_set_speed quiet_sweep_from)

lemma counts_report: "counts 0 (\<lambda>n. n) (lb_report check ok)"
  by (auto simp: counts_def lb_report_def lb_act_def failed_def io_seq_Done)

lemma counts_reports: "counts 0 (\<lambda>n. n) (lb_reports cs)"
proof (induction cs rule: lb_reports.induct)
  case (2 check ok checks)
  show ?case unfolding lb_reports.simps
    by (intro counts_bind [OF counts_report] counts_bind [OF 2] counts_ret) simp
qed (simp only: lb_reports.simps counts_ret)

lemma counts_pause_one: "counts 0 (\<lambda>(_, _, f). f) (pause_one q_ns f_ns label rx_en q)"
  unfolding pause_one_def
  by (intro counts_quiet_seq counts_quiet counts_bind [OF counts_report] counts_ret
      quiet_set_pause_rx quiet_start quiet_sleep quiet_send_pause quiet_stop) simp

lemma counts_pause_tests: "counts 0 (\<lambda>n. n) (pause_tests name quanta)"
  unfolding pause_tests_def Let_def split_beta
  by (intro counts_bind [OF counts_pause_one] counts_bind [OF counts_reports]
      counts_quiet [OF quiet_xon_attempts] counts_quiet_seq [OF quiet_set_pause_rx] counts_ret)
    (simp add: split_beta)

lemma counts_test_speeds: "counts 0 (\<lambda>n. n) (test_speeds a names)"
proof (induction names)
  case (Cons name names)
  have p: "counts 0 (\<lambda>n. n) (if a_no_pause a then io_ret 0 else pause_tests name (a_pause_quanta a))"
    by (cases "a_no_pause a") (simp_all only: if_True if_False counts_ret counts_pause_tests)
  have "counts 0 (\<lambda>n. n) (io_seq (set_speed code)
         (io_bind (lb_run (a_seconds a) (Some (a_interval a))) (\<lambda>s.
          io_bind (lb_reports (speed_checks s)) (\<lambda>f1.
          io_bind (if a_no_pause a then io_ret 0 else pause_tests name (a_pause_quanta a)) (\<lambda>f2.
          io_bind (test_speeds a names) (\<lambda>f3. io_ret (f1 + f2 + f3)))))))" for code
    by (intro counts_quiet_seq [OF quiet_set_speed] counts_quiet [OF quiet_run]
        counts_bind [OF counts_reports] counts_bind [OF p] counts_bind [OF Cons.IH] counts_ret) simp
  then show ?case by (simp only: test_speeds.simps split: option.split) (simp only: counts_raise simp_thms)
qed (simp only: test_speeds.simps counts_ret)

lemma poll_from_seen:
  "poll_from good t0 ts s = Done True t \<Longrightarrow>
    \<exists>raw. Inr raw \<in> set (l_reads s) \<and> good (decode_fields LB_FIELDS (drop_bit 64 raw))"
proof (induction good t0 ts arbitrary: s rule: poll_from.induct)
  case (2 good t0 t1 ts)
  let ?s = "s\<lparr>l_times := ts\<rparr>"
  have "t1 - t0 < 2" using 2(2) by (auto split: if_splits)
  then obtain raw rest where raw: "l_reads s = Inr raw # rest"
    and k: "(if good (decode_fields LB_FIELDS (drop_bit 64 raw)) then io_ret True
      else poll_from good t0 ts) (?s\<lparr>l_reads := rest\<rparr>) = Done True t"
    using 2(2) by (auto simp: io_bind_Done lb_status_def io_answer_Done)
  show ?case
  proof (cases "good (decode_fields LB_FIELDS (drop_bit 64 raw))")
    case False
    then show ?thesis using 2(1) [OF \<open>t1 - t0 < 2\<close> False, of "?s\<lparr>l_reads := rest\<rparr>"] k raw by auto
  qed (use raw in auto)
qed simp

section \<open>Theorems\<close>

text \<open>The status fields tile the 328 bits above the EIO's 64, so decoding loses nothing.\<close>

theorem lb_status_lossless:
  "st < 2 ^ 328 \<Longrightarrow> encode_fields LB_FIELDS (decode_fields LB_FIELDS st) = st"
  by (rule encode_decode [OF LB_FIELDS_tiles])

theorem lb_status_lossless_witness:
  "encode_fields LB_FIELDS (decode_fields LB_FIELDS (0xB0C * 2 ^ 244 + 99)) = 0xB0C * 2 ^ 244 + 99"
  by (rule lb_status_lossless) simp

text \<open>The parts of the output word do not overlap: for arguments within their widths, each is read
  back from its documented bits ([0] run, [1] clear, [3:2] speed, [8:4] tap, [9] load, [25:10]
  quanta, [26] PAUSE enable, [27] PAUSE send).\<close>

theorem lb_word_fields:
  assumes "running < 2" "clear < 2" "speed < 4" "tap < 32" "load < 2" "quanta < 65536" "rx_en < 2" "send < 2"
  shows "let w = lb_word running clear speed tap load quanta rx_en send in
    bit_field 0 1 w = running \<and> bit_field 1 1 w = clear \<and> bit_field 2 2 w = speed
    \<and> bit_field 4 5 w = tap \<and> bit_field 9 1 w = load \<and> bit_field 10 16 w = quanta
    \<and> bit_field 26 1 w = rx_en \<and> bit_field 27 1 w = send"
proof -
  have b: "running < 2 ^ 1" "clear < 2 ^ 1" "speed < 2 ^ 2" "tap < 2 ^ 5" "load < 2 ^ 1"
    "quanta < 2 ^ 16" "rx_en < 2 ^ 1" "send < 2 ^ 1"
    using assms(1-8) by simp_all
  note e = bit_field_or bit_field_above bit_field_below0 [OF b(1)] bit_field_below [OF b(2)]
    bit_field_below [OF b(3)] bit_field_below [OF b(4)] bit_field_below [OF b(5)]
    bit_field_below [OF b(6)] bit_field_below [OF b(7)] bit_field_below [OF b(8)]
    bit_field_same0 [OF b(1)] bit_field_same [OF b(2)] bit_field_same [OF b(3)] bit_field_same [OF b(4)]
    bit_field_same [OF b(5)] bit_field_same [OF b(6)] bit_field_same [OF b(7)] bit_field_same [OF b(8)]
  show ?thesis unfolding Let_def lb_word_def by (intro conjI) (simp_all add: e del: One_nat_def)
qed

text \<open>C29: \<open>longest_run\<close> returns a contiguous stretch of consecutive taps, and no contiguous stretch of
  consecutive taps is longer.\<close>

theorem longest_run_longest:
  "consecutive (longest_run taps) \<and> sublist (longest_run taps) taps
    \<and> \<not> (\<exists>seg. sublist seg taps \<and> consecutive seg \<and> length (longest_run taps) < length seg)"
proof -
  have "longest_inv [] [] []" by (simp add: longest_inv_def suffix_def)
  from longest_from_inv [OF this, of taps] show ?thesis
    by (auto simp: longest_run_def longest_inv_def not_less)
qed

text \<open>C21: The reasoning behind the XON test. Let each PAUSE frame take effect at some time between the
  start of its send write and two frames after its end, and hold TX for \<open>full\<close>. If the slack is
  positive, then the pauses cover the whole time from the first one's effect to the effect of the
  Q = 0 frame: at every instant some pause is in force.\<close>

theorem xon_pause_continuous:
  assumes "edges \<noteq> []" and "0 < xon_slack full f edges x"
    and "length e = Suc (length edges)"
    and "\<And>i. i < length e \<Longrightarrow> fst ((edges @ [x]) ! i) \<le> e ! i \<and> e ! i \<le> snd ((edges @ [x]) ! i) + 2 * f"
    and "e ! 0 \<le> t" and "t \<le> e ! length edges"
  shows "\<exists>k < length edges. e ! k \<le> t \<and> t < e ! k + full"
proof -
  let ?n = "length edges"
  have nxt: "e ! Suc k < e ! k + full" if k: "k < ?n" for k
  proof -
    let ?f = "\<lambda>(p0, _ :: rat) (_ :: rat, n1). p0 + full - (n1 + 2 * f)"
    have len: "length (tl edges @ [x]) = ?n" using assms(1) by (cases edges) simp_all
    have "map2 ?f edges (tl edges @ [x]) ! k = ?f (edges ! k) ((tl edges @ [x]) ! k)"
      using k len by simp
    then have "?f (edges ! k) ((tl edges @ [x]) ! k) \<in> set (map2 ?f edges (tl edges @ [x]))"
      using k len by (metis (no_types, lifting) length_map length_zip min.idem nth_mem)
    then have "0 < ?f (edges ! k) ((tl edges @ [x]) ! k)"
      using assms(2) unfolding xon_slack_def by (meson List.finite_set Min_le order_less_le_trans)
    moreover have "(tl edges @ [x]) ! k = (edges @ [x]) ! Suc k"
      using assms(1) by (cases edges) simp_all
    moreover have "fst ((edges @ [x]) ! k) \<le> e ! k" "e ! Suc k \<le> snd ((edges @ [x]) ! Suc k) + 2 * f"
      using assms(3, 4) k by auto
    ultimately show ?thesis using k by (auto simp: nth_append split_beta)
  qed
  define k where "k = Max {i. i < ?n \<and> e ! i \<le> t}"
  have ne: "0 \<in> {i. i < ?n \<and> e ! i \<le> t}" using assms(1, 5) by simp
  have kin: "k \<in> {i. i < ?n \<and> e ! i \<le> t}" unfolding k_def by (rule Max_in) (use ne in auto)
  have "t < e ! k + full"
  proof (cases "Suc k = ?n")
    case True
    then show ?thesis using nxt [of k] assms(6) kin by auto
  next
    case False
    then have "Suc k < ?n" using kin by simp
    moreover have "Suc k \<notin> {i. i < ?n \<and> e ! i \<le> t}"
    proof
      assume "Suc k \<in> {i. i < ?n \<and> e ! i \<le> t}"
      then have "Suc k \<le> k" unfolding k_def by (rule Max_ge [rotated]) simp
      then show False by simp
    qed
    ultimately show ?thesis using nxt [of k] by auto
  qed
  then show ?thesis using kin by auto
qed

text \<open>Selecting a speed returns only after a status word that shows the speed and the end of the
  initialisation, read within two seconds of the write; otherwise the script exits.\<close>

theorem set_speed_confirmed:
  assumes "set_speed code s = Done () t"
  shows "\<exists>raw. Inr raw \<in> set (l_reads s)
    \<and> lb_item (decode_fields LB_FIELDS (drop_bit 64 raw)) ''speed'' = code
    \<and> lb_item (decode_fields LB_FIELDS (drop_bit 64 raw)) ''init_done'' \<noteq> 0"
proof -
  from assms obtain s1 s2 ok s3 where
    1: "lb_write (Some 0) 0 0 0 (s\<lparr>l_speed := code\<rparr>) = Done () s1"
    and 2: "poll (\<lambda>d. lb_item d ''speed'' = code \<and> lb_item d ''init_done'' \<noteq> 0) s1 = Done True s2"
    unfolding set_speed_def by (auto simp: io_seq_Done io_bind_Done split: if_splits)
  have r1: "l_reads s1 = l_reads s"
    using 1 by (auto simp: lb_write_def lb_act_def io_seq_Done)
  from 2 obtain t0 ts where
    "poll_from (\<lambda>d. lb_item d ''speed'' = code \<and> lb_item d ''init_done'' \<noteq> 0) t0 ts (s1\<lparr>l_times := ts\<rparr>)
      = Done True s2"
    by (auto simp: poll_def io_bind_Done lb_time_def with_times_def split: list.splits)
  from poll_from_seen [OF this] show ?thesis using r1 by simp
qed

text \<open>The exit code counts every check: without the tap sweep, a run that ends returns 0 exactly
  when it reported no failed check.\<close>

theorem lb_main_exit:
  assumes "lb_main a s = Done c t" and "\<not> a_sweep a"
  shows "c = (if failed t = failed s then 0 else 1)"
proof -
  have q: "quiet (case tap of None \<Rightarrow> io_ret () | Some t \<Rightarrow> set_tap t)" for tap
    by (cases tap) (simp_all only: option.case quiet_ret quiet_set_tap)
  have loop: "counts 0 (\<lambda>n. n) (io_seq (case a_tap a of None \<Rightarrow> io_ret () | Some t \<Rightarrow> set_tap t)
      (io_bind (test_speeds a (a_speeds a)) (\<lambda>f2. io_seq (set_speed 0) (io_ret f2))))"
    by (intro counts_quiet_seq [OF q] counts_bind [OF counts_test_speeds]
        counts_quiet_seq [OF quiet_set_speed] counts_ret) simp
  from assms obtain st s1 s2 u s3 f s4 s5 where
    1: "lb_status s = Done st s1"
    and 2: "s2 = s1\<lparr>l_speed := lb_item st ''speed'', l_tap := lb_item st ''tap'',
                l_rx_en := lb_item st ''pause_rx_en''\<rparr>"
    and 3: "(case a_tap a of None \<Rightarrow> io_ret () | Some t \<Rightarrow> set_tap t) s2 = Done u s3"
    and 4: "test_speeds a (a_speeds a) s3 = Done f s4"
    and 5: "set_speed 0 s4 = Done s5 t" and c: "c = (if f \<noteq> 0 then 1 else 0)"
    unfolding lb_main_def
    by (auto simp: io_bind_Done io_seq_Done split: if_splits)
  have "failed s2 = failed s" using 1 2 quiet_status by (simp add: quiet_def failed_def) 
  moreover have "f + failed s2 = failed t"
    using loop 3 4 5 unfolding counts_def by (fastforce simp: io_seq_Done io_bind_Done)
  ultimately show ?thesis using c by auto
qed

section \<open>Sample runs\<close>

theorem lb_word_fields_witness:
  "let w = lb_word 1 0 2 17 1 8192 1 1 in bit_field 10 16 w = 8192 \<and> bit_field 4 5 w = 17"
  using lb_word_fields [of 1 0 2 17 1 8192 1 1] by (simp only: Let_def)

text \<open>Two pauses of ten time units, a refresh after five, and the Q = 0 frame at nine.\<close>

theorem xon_pause_continuous_witness:
  "\<exists>k < 2. [1, 5, 9 :: rat] ! k \<le> 7 \<and> (7 :: rat) < [1, 5, 9] ! k + 10"
proof -
  have slack: "0 < xon_slack 10 1 [(0, 1), (4, 5)] (8, 9 :: rat)" by (simp add: xon_slack_def)
  have bounds: "fst (([(0, 1), (4, 5)] @ [(8, 9)]) ! i) \<le> [1, 5, 9 :: rat] ! i
      \<and> [1, 5, 9 :: rat] ! i \<le> snd (([(0, 1), (4, 5)] @ [(8, 9)]) ! i) + 2 * 1"
    if "i < length [1, 5, 9 :: rat]" for i
    using that by (auto simp: less_Suc_eq)
  show ?thesis
    using xon_pause_continuous [OF _ slack _ bounds, of 7] by (simp add: numeral_2_eq_2)
qed

text \<open>A 10M run: the board answers with a good status at every read.\<close>

definition good_word :: "nat \<Rightarrow> nat" where
  "good_word speed = 2 ^ 64 * (5 + 5 * 2 ^ 32 + 2 ^ 64 + 9014 * 2 ^ 192 + 2 ^ 240 + 2 ^ 242 + 2 ^ 243
     + 0xB0C * 2 ^ 244 + speed * 2 ^ 256)"

definition good_status :: "nat \<Rightarrow> lb_status" where
  "good_status speed = decode_fields LB_FIELDS (drop_bit 64 (good_word speed))"

lemma good_status_items:
  "lb_item (good_status 2) ''speed'' = 2" "lb_item (good_status 0) ''speed'' = 0"
  "lb_item (good_status 2) ''init_done'' = 1" "lb_item (good_status 0) ''init_done'' = 1"
  "lb_item (good_status 2) ''mmcm_locked'' = 1" "lb_item (good_status 2) ''idelay_rdy'' = 1"
  "lb_item (good_status 2) ''marker'' = LB_MARKER" "lb_item (good_status 2) ''tx_frames'' = 5"
  "lb_item (good_status 2) ''rx_ok'' = 5" "lb_item (good_status 2) ''rx_ok_big'' = 1"
  "lb_item (good_status 2) ''max_ok_len'' = 9014" "lb_item (good_status 2) ''rx_bad'' = 0"
  "lb_item (good_status 2) ''rx_terror'' = 0" "lb_item (good_status 2) ''seq_gap'' = 0"
  by (simp_all add: good_status_def good_word_def decode_fields_def LB_FIELDS_def lb_item_def
      field_value [simplified] drop_bit_eq_div LB_MARKER_def)

definition good_lb :: lb where
  "good_lb = \<lparr>l_reads = [Inr (good_word 2), Inr (good_word 2), Inr (good_word 2), Inr (good_word 0)],
     l_times = [0, 1, 2, 30, 31, 32], l_log = [], l_speed = 0, l_tap = 0, l_quanta = 0, l_rx_en = 0,
     l_running = 0\<rparr>"

definition good_args :: lb_args where
  "good_args = \<lparr>a_speeds = [''10''], a_seconds = 20, a_tap = None, a_sweep = False, a_sweep_seconds = 1,
     a_interval = 10, a_no_pause = True, a_pause_quanta = 8192\<rparr>"

lemma status_good:
  "l_reads s = Inr (good_word n) # rest \<Longrightarrow> lb_status s = Done (good_status n) (s\<lparr>l_reads := rest\<rparr>)"
  by (simp add: lb_status_def io_bind_def io_answer_def good_status_def)

theorem set_speed_confirmed_witness: "\<exists>t. set_speed 2 good_lb = Done () t
    \<and> (\<exists>raw. Inr raw \<in> set (l_reads good_lb)
        \<and> lb_item (decode_fields LB_FIELDS (drop_bit 64 raw)) ''speed'' = 2)"
proof -
  obtain t where t: "set_speed 2 good_lb = Done () t"
    by (simp add: set_speed_def io_seq_def io_bind_def lb_write_def lb_act_def poll_def with_times_def
        lb_time_def good_lb_def status_good good_status_items lb_sleep_def)
  from set_speed_confirmed [OF t] show ?thesis using t by auto
qed

theorem lb_main_exit_witness: "\<exists>t. lb_main good_args good_lb = Done 0 t \<and> failed t = failed good_lb"
proof -
  have q: "MIN_QUANTA = 565" by (simp add: MIN_QUANTA_def FRAME_NS_def QUANTUM_NS_def)
  obtain t where t: "lb_main good_args good_lb = Done 0 t"
    by (simp add: lb_main_def q good_args_def good_lb_def status_good good_status_items lb_ready_def
        io_seq_def io_bind_def SPEEDS_def set_speed_def lb_write_def lb_act_def poll_def with_times_def
        lb_time_def lb_sleep_def lb_run_def lb_stop_def speed_checks_def lb_report_def)
  from lb_main_exit [OF t] show ?thesis using t by (auto simp: good_args_def split: if_splits)
qed

end
