(* ===== verification/Emz_Serial.thy ===== *)
theory Emz_Serial
  imports Emz_Text Complex_Main
begin

text \<open>
  \<open>fpga/arty_a7/scripts/serial_monitor.py\<close>: the host side of the Arty A7 hardware test, which
  reads the UART output of the board, judges it, and then tests the network. The lines of the
  serial port come with the reading of the clock (seconds since the start) at which the loop asks
  for them; the results of the host's commands are parameters. A report line is modelled as its
  subject and whether it says PASS.
\<close>

section \<open>Numbers\<close>

text \<open>\<open>int(s, 16)\<close>: sign, optional prefix, underscores between digits.\<close>

definition strip_sign :: "string \<Rightarrow> bool \<times> string" where
  "strip_sign s = (case s of c # cs \<Rightarrow> (if c = CHR ''-'' then (True, cs)
     else if c = CHR ''+'' then (False, cs) else (False, s)) | [] \<Rightarrow> (False, []))"

definition strip_0x :: "string \<Rightarrow> string" where
  "strip_0x s = (if prefix ''0x'' s \<or> prefix ''0X'' s
     then (let r = drop 2 s in if prefix ''_'' r then tl r else r) else s)"

definition py_int16 :: "string \<Rightarrow> int option" where
  "py_int16 s =
    (let (neg, body) = strip_sign (strip s);
         parts = split_at (CHR ''_'') (strip_0x body);
         n = foldl (\<lambda>n c. 16 * n + int (digit_value c)) 0 (concat parts)
     in if \<exists>p \<in> set parts. p = [] \<or> \<not> list_all py_hex p then None
        else Some (if neg then - n else n))"

section \<open>Host commands\<close>

definition BOARD_MAC :: string where "BOARD_MAC = ''02-00-00-00-00-01''"

record port =
  p_device :: string
  p_vid :: "nat option"
  p_pid :: "nat option"
  p_serial :: "string option"
  p_desc :: "string option"

definition or_empty :: "string option \<Rightarrow> string" where
  "or_empty x = (case x of Some s \<Rightarrow> s | None \<Rightarrow> [])"

definition is_arty_uart :: "port \<Rightarrow> bool" where
  "is_arty_uart p \<longleftrightarrow> p_vid p = Some 0x0403 \<and> p_pid p = Some 0x6010
     \<and> suffix ''B'' (or_empty (p_serial p))"

definition is_ftdi :: "port \<Rightarrow> bool" where
  "is_ftdi p \<longleftrightarrow> (let desc = lower (or_empty (p_desc p)) in
     p_vid p = Some 0x0403 \<or> contains ''digilent'' desc \<or> contains ''ft2232'' desc
     \<or> contains ''usb serial'' desc)"

definition find_arty_port :: "port list \<Rightarrow> string option" where
  "find_arty_port ports =
    (case List.find is_arty_uart ports of
       Some p \<Rightarrow> Some (p_device p)
     | None \<Rightarrow> (case List.find is_ftdi ports of
         Some p \<Rightarrow> Some (p_device p)
       | None \<Rightarrow> (case ports of p # _ \<Rightarrow> Some (p_device p) | [] \<Rightarrow> None)))"

definition ping_command :: "string \<Rightarrow> string \<Rightarrow> nat \<Rightarrow> nat \<Rightarrow> nat \<Rightarrow> string list" where
  "ping_command sys ip count timeout_ms len =
    (if prefix ''win'' (lower sys) then
       [''ping'', ''-n'', show_nat count, ''-w'', show_nat timeout_ms, ''-l'', show_nat len, ip]
     else if lower sys = ''darwin'' then
       [''ping'', ''-c'', show_nat count, ''-W'', show_nat timeout_ms, ''-s'', show_nat len, ip]
     else
       [''ping'', ''-c'', show_nat count, ''-W'', show_nat (max 1 (timeout_ms div 1000)), ''-s'',
        show_nat len, ip])"

definition spaces0 :: "string \<Rightarrow> string" where
  "spaces0 = dropWhile py_space"

text \<open>\<open>Received\s*=\s*(\d+)\<close>, and the last place on the line where it matches: \<open>.*\<close> in front of
  it is greedy and does not cross a newline.\<close>

definition count_after :: "string \<Rightarrow> string matcher" where
  "count_after word s =
    Option.bind (m_lit word s) (\<lambda>s. Option.bind (m_lit ''='' (spaces0 s)) (\<lambda>s.
    m_some py_digit (spaces0 s)))"

fun line_last :: "'a matcher \<Rightarrow> 'a matcher" where
  "line_last m [] = m []"
| "line_last m (c # cs) =
    (if c = CHR 0x0A then m (c # cs)
     else (case line_last m cs of Some r \<Rightarrow> Some r | None \<Rightarrow> m (c # cs)))"

definition ping_windows_re :: "(string \<times> string) matcher" where
  "ping_windows_re s =
    Option.bind (count_after ''Sent'' s) (\<lambda>(a, s).
    Option.bind (line_last (count_after ''Received'') s) (\<lambda>(b, s). Some ((a, b), s)))"

definition ping_posix_re :: "(string \<times> string) matcher" where
  "ping_posix_re s =
    Option.bind (m_some py_digit s) (\<lambda>(a, s). Option.bind (m_some py_space s) (\<lambda>(_, s).
    Option.bind (m_lit ''packets transmitted,'' s) (\<lambda>s. Option.bind (m_some py_space s) (\<lambda>(_, s).
    Option.bind (m_some py_digit s) (\<lambda>(b, s). Option.bind (m_some py_space s) (\<lambda>(_, s).
    Option.bind (m_lit ''received'' (case m_lit ''packets '' s of Some r \<Rightarrow> r | None \<Rightarrow> s)) (\<lambda>s.
    Some ((a, b), s))))))))"

definition nat_of_digits :: "string \<Rightarrow> nat" where
  "nat_of_digits s = foldl (\<lambda>n c. 10 * n + digit_value c) 0 s"

text \<open>\<open>run_ping_test\<close>: the counts the ping command prints; none printed, a timeout and a missing
  command count as no reply.\<close>

definition run_ping_test :: "nat \<Rightarrow> proc_result \<Rightarrow> nat \<times> nat" where
  "run_ping_test count result =
    (case result of
       Completed rc out err \<Rightarrow>
         (case search ping_windows_re out of
            Some (a, b) \<Rightarrow> (nat_of_digits a, nat_of_digits b)
          | None \<Rightarrow> (case search ping_posix_re out of
              Some (a, b) \<Rightarrow> (nat_of_digits a, nat_of_digits b)
            | None \<Rightarrow> (count, 0)))
     | _ \<Rightarrow> (count, 0))"

text \<open>A MAC address at the beginning of a text: six pairs of hexadecimal digits.\<close>

fun mac_pairs :: "nat \<Rightarrow> string matcher" where
  "mac_pairs n (a # b # cs) =
    (if py_hex a \<and> py_hex b then
       (case n of
          0 \<Rightarrow> Some ([a, b], cs)
        | Suc m \<Rightarrow>
            (case cs of
               c # ds \<Rightarrow> (if c = CHR '':'' \<or> c = CHR ''-''
                  then map_option (\<lambda>(r, rest). (a # b # c # r, rest)) (mac_pairs m ds) else None)
             | [] \<Rightarrow> None))
     else None)"
| "mac_pairs n s = None"

definition mac_text :: "string \<Rightarrow> string" where
  "mac_text m = upper (map (\<lambda>c. if c = CHR '':'' then CHR ''-'' else c) m)"

definition check_arp_posix :: "string option \<Rightarrow> (string list \<Rightarrow> proc_result) \<Rightarrow> string \<Rightarrow> string option" where
  "check_arp_posix arp run ip =
    (case arp of
       None \<Rightarrow> None
     | Some tool \<Rightarrow>
         if tool = [] then None
         else (case run [tool, ''-n'', ip] of
            Completed rc out err \<Rightarrow> map_option mac_text (search (mac_pairs 5) out)
          | _ \<Rightarrow> None))"

definition check_arp_windows :: "string option \<Rightarrow> (string list \<Rightarrow> proc_result) \<Rightarrow> string \<Rightarrow> string option" where
  "check_arp_windows powershell run ip =
    (case powershell of
       None \<Rightarrow> None
     | Some tool \<Rightarrow>
         if tool = [] then None
         else (case run [tool, ''-NoProfile'', ''-Command'',
                ''Get-NetNeighbor -IPAddress '' @ ip @ '' -ErrorAction SilentlyContinue ''
                @ ''| Select-Object -ExpandProperty LinkLayerAddress''] of
            Completed rc out err \<Rightarrow> (if strip out = [] then None else Some (strip out))
          | _ \<Rightarrow> None))"

definition check_arp_table ::
  "string \<Rightarrow> (string \<Rightarrow> string option) \<Rightarrow> (string list \<Rightarrow> proc_result) \<Rightarrow> string \<Rightarrow> string option" where
  "check_arp_table sys which run ip =
    (if prefix ''win'' (lower sys) then
       check_arp_windows (case which ''powershell'' of
           Some p \<Rightarrow> (if p = [] then which ''pwsh'' else Some p) | None \<Rightarrow> which ''pwsh'') run ip
     else check_arp_posix (which ''arp'') run ip)"

section \<open>The UART\<close>

definition FIELD_NAMES :: "string list" where
  "FIELD_NAMES = [''VER'', ''SCR'', ''PHY1'', ''PHY2'', ''BMCR'', ''LINK'', ''TX'', ''RX'']"

definition tag :: "string \<Rightarrow> string" where
  "tag name = name @ '': ''"

record monitor =
  m_results :: "string \<rightharpoonup> string"
  m_done :: bool
  m_pings :: nat

definition monitor_init :: monitor where
  "monitor_init = \<lparr>m_results = Map.empty, m_done = False, m_pings = 0\<rparr>"

text \<open>One line, already stripped: the first prefix it has decides. The first TX line starts the
  pings in the background.\<close>

definition monitor_line :: "string \<Rightarrow> monitor \<Rightarrow> monitor" where
  "monitor_line line m =
    (case List.find (\<lambda>name. prefix (tag name) line) FIELD_NAMES of
       Some name \<Rightarrow>
         m\<lparr>m_results := (m_results m)(name \<mapsto> drop (length (tag name)) line),
           m_pings := (if name = ''TX'' \<and> m_pings m = 0 then 1 else m_pings m)\<rparr>
     | None \<Rightarrow> if line = ''DONE'' then m\<lparr>m_done := True\<rparr> else m)"

text \<open>The reading loop, against the readings of the clock and the lines (or the exception of the
  serial port) that follow them. \<open>None\<close>: the input ended before the loop did.\<close>

fun monitor_loop :: "rat \<Rightarrow> (rat \<times> string option) list \<Rightarrow> monitor \<Rightarrow> monitor option" where
  "monitor_loop timeout [] m = None"
| "monitor_loop timeout ((t, r) # rest) m =
    (if t < timeout \<and> \<not> m_done m then
       (case r of
          None \<Rightarrow> Some m
        | Some line \<Rightarrow> monitor_loop timeout rest
            (if strip line = [] then m else monitor_line (strip line) m))
     else Some m)"

section \<open>The verdicts\<close>

type_synonym report_lines = "(string \<times> bool) list"

definition check_field :: "(string \<rightharpoonup> string) \<Rightarrow> string \<Rightarrow> string \<Rightarrow> bool \<Rightarrow> string \<times> bool" where
  "check_field results name expected prefix_match =
    (case results name of
       None \<Rightarrow> (name, False)
     | Some actual \<Rightarrow>
         (name, if prefix_match then prefix (upper expected) (upper actual)
                else upper actual = upper expected))"

definition check_bmcr :: "(string \<rightharpoonup> string) \<Rightarrow> string \<times> bool" where
  "check_bmcr results =
    (case results ''BMCR'' of
       None \<Rightarrow> (''BMCR'', False)
     | Some bmcr \<Rightarrow>
         let v = (case py_int16 bmcr of Some v \<Rightarrow> v | None \<Rightarrow> -1)
         in (''BMCR'', v AND 0x1000 \<noteq> 0 \<and> \<not> v AND 0x0800 \<noteq> 0))"

definition check_tx :: "(string \<rightharpoonup> string) \<Rightarrow> string \<times> bool" where
  "check_tx results = (case results ''TX'' of None \<Rightarrow> (''TX'', False) | Some v \<Rightarrow> (''TX'', v \<noteq> ''0000''))"

definition check_rx :: "(string \<rightharpoonup> string) \<Rightarrow> string \<times> bool" where
  "check_rx results =
    (case results ''RX'' of
       None \<Rightarrow> (''RX'', False)
     | Some v \<Rightarrow> if prefix ''TO'' v then (''RX'', False) else (''RX'', v \<noteq> ''0000''))"

definition uart_report :: "(string \<rightharpoonup> string) \<Rightarrow> report_lines" where
  "uart_report results =
    (let link = (case results ''LINK'' of Some l \<Rightarrow> l | None \<Rightarrow> ''?'')
     in [check_field results ''VER'' ''0002454D'' False,
         check_field results ''SCR'' ''DEADBEEF'' False,
         check_field results ''PHY1'' ''2000'' False,
         check_field results ''PHY2'' ''5C9'' True,
         check_bmcr results,
         (''LINK'', link = ''UP'')]
        @ (if link = ''UP'' then [check_tx results, check_rx results] else []))"

record network =
  n_ping :: "nat \<times> nat"
  n_mac :: "string option"
  n_sustained :: "nat \<times> nat"

definition arp_ok :: "string option \<Rightarrow> bool \<Rightarrow> bool" where
  "arp_ok mac icmp_ok =
    (let mac = (case mac of Some m \<Rightarrow> m | None \<Rightarrow> [])
     in if mac \<noteq> [] \<and> upper mac = upper BOARD_MAC then True
        else if mac \<noteq> [] then False
        else if icmp_ok then True
        else False)"

definition network_report :: "int \<Rightarrow> network \<Rightarrow> report_lines" where
  "network_report sustained n =
    (let icmp_ok = (18 \<le> snd (n_ping n))
     in [(''ICMP'', icmp_ok), (''ARP'', arp_ok (n_mac n) icmp_ok)]
        @ (if sustained \<le> 0 then []
           else [(''ICMP sustained'', (sustained * 9 + 9) div 10 \<le> int (snd (n_sustained n)))]))"

text \<open>The verdict after the loop; whether \<open>DONE\<close> was seen only changes a warning.\<close>

definition monitor_report :: "int \<Rightarrow> network \<Rightarrow> monitor \<Rightarrow> report_lines" where
  "monitor_report sustained n m =
    uart_report (m_results m)
    @ (if m_results m ''LINK'' = Some ''UP'' then network_report sustained n else [])"

definition run_monitor :: "bool \<Rightarrow> rat \<Rightarrow> int \<Rightarrow> network \<Rightarrow> (rat \<times> string option) list \<Rightarrow> bool option" where
  "run_monitor port_opens timeout sustained n input =
    (if \<not> port_opens then Some False
     else map_option (\<lambda>m. list_all snd (monitor_report sustained n m))
            (monitor_loop timeout input monitor_init))"

definition monitor_exit :: "string option \<Rightarrow> port list \<Rightarrow> (string \<Rightarrow> bool option) \<Rightarrow> nat option" where
  "monitor_exit arg ports run =
    (case (case arg of Some p \<Rightarrow> (if p = [] then find_arty_port ports else Some p)
           | None \<Rightarrow> find_arty_port ports) of
       None \<Rightarrow> Some 1
     | Some p \<Rightarrow> if p = [] then Some 1 else map_option (\<lambda>ok. if ok then 0 else 1) (run p))"

section \<open>Lemmas\<close>

lemma monitor_loop_append:
  "monitor_loop timeout xs m = Some r \<Longrightarrow> monitor_loop timeout (xs @ ys) m = Some r"
  by (induction timeout xs m rule: monitor_loop.induct) (auto split: option.splits if_splits)


lemma mac_pairs_Some:
  "mac_pairs n s = Some (m, rest) \<Longrightarrow>
    length m = 3 * n + 2 \<and> list_all (\<lambda>c. py_hex c \<or> c = CHR '':'' \<or> c = CHR ''-'') m"
proof (induction n s arbitrary: m rule: mac_pairs.induct)
  case (1 n a b cs)
  then show ?case by (auto split: if_splits nat.splits list.splits)
qed simp_all

lemma scan_Some: "a \<in> set (scan m k s) \<Longrightarrow> \<exists>t r. m t = Some (a, r)"
  by (induction s arbitrary: k) (auto split: if_splits option.splits)

lemma search_Some: "search m s = Some a \<Longrightarrow> \<exists>t r. m t = Some (a, r)"
  unfolding search_def finditer_def using scan_Some [of a m 0 s] by (cases "scan m 0 s") auto

lemma mac_char_table:
  "list_all (\<lambda>c. upper_char (if c = CHR '':'' then CHR ''-'' else c) \<in> set ''0123456789ABCDEF-'')
    ''0123456789abcdefABCDEF:-''"
  by code_simp

lemma mac_text_chars:
  assumes "list_all (\<lambda>c. py_hex c \<or> c = CHR '':'' \<or> c = CHR ''-'') m"
  shows "list_all (\<lambda>c. c \<in> set ''0123456789ABCDEF-'') (mac_text m)"
proof -
  have "upper_char (if c = CHR '':'' then CHR ''-'' else c) \<in> set ''0123456789ABCDEF-''"
    if "py_hex c \<or> c = CHR '':'' \<or> c = CHR ''-''" for c
  proof -
    have "c \<in> set ''0123456789abcdefABCDEF:-''" using that unfolding py_hex_def by auto
    then show ?thesis using mac_char_table unfolding list_all_iff by blast
  qed
  then show ?thesis using assms by (simp add: mac_text_def upper_def list_all_iff)
qed

lemma monitor_loop_ends:
  assumes "timeout \<le> t"
  shows "\<exists>r. monitor_loop timeout (xs @ [(t, x)]) m = Some r"
proof (induction xs arbitrary: m)
  case (Cons a xs)
  obtain u y where a: "a = (u, y)" by force
  show ?case using Cons.IH by (cases y) (auto simp: a)
qed (use assms in simp)

text \<open>The lines the loop takes in: up to the clock running out, the port failing, or \<open>DONE\<close>.\<close>

fun taken :: "rat \<Rightarrow> (rat \<times> string option) list \<Rightarrow> string list" where
  "taken timeout [] = []"
| "taken timeout ((t, r) # rest) =
    (if t < timeout then
       (case r of None \<Rightarrow> []
        | Some line \<Rightarrow> if strip line = ''DONE'' then [''DONE''] else strip line # taken timeout rest)
     else [])"

definition line_field :: "string \<Rightarrow> string \<Rightarrow> string option" where
  "line_field name line = (if prefix (tag name) line then Some (drop (length (tag name)) line) else None)"

text \<open>No two tags begin the same line.\<close>

lemma tags_differ:
  "list_all (\<lambda>a. list_all (\<lambda>b. a = b \<or> \<not> prefix (tag a) (tag b)) FIELD_NAMES) FIELD_NAMES"
  by code_simp

lemma find_field:
  assumes "prefix (tag name) line" and "name \<in> set FIELD_NAMES"
  shows "List.find (\<lambda>name. prefix (tag name) line) FIELD_NAMES = Some name"
proof -
  obtain n where n: "List.find (\<lambda>name. prefix (tag name) line) FIELD_NAMES = Some n"
    using assms by (metis (no_types, lifting) find_None_iff option.exhaust)
  then have "prefix (tag n) line" "n \<in> set FIELD_NAMES"
    by (auto simp: find_Some_iff)
  then have "prefix (tag n) (tag name) \<or> prefix (tag name) (tag n)"
    using assms(1) prefix_same_cases by blast
  then have "n = name"
    using tags_differ assms(2) \<open>n \<in> set FIELD_NAMES\<close> by (auto simp: list_all_iff)
  then show ?thesis using n by simp
qed

lemma monitor_line_field:
  assumes "name \<in> set FIELD_NAMES"
  shows "m_results (monitor_line line m) name
    = (case line_field name line of Some v \<Rightarrow> Some v | None \<Rightarrow> m_results m name)"
proof (cases "prefix (tag name) line")
  case True
  then show ?thesis using find_field [OF True assms] by (simp add: monitor_line_def line_field_def)
next
  case False
  then show ?thesis
    by (auto simp: monitor_line_def line_field_def find_Some_iff split: option.split)
qed

lemma monitor_line_done: "m_done (monitor_line line m) \<longleftrightarrow> m_done m \<or> line = ''DONE''"
proof (cases "line = ''DONE''")
  case True
  have "List.find (\<lambda>name. prefix (tag name) ''DONE'') FIELD_NAMES = None" by code_simp
  then show ?thesis using True by (simp add: monitor_line_def)
qed (auto simp: monitor_line_def split: option.split)

lemma done_no_field: "name \<in> set FIELD_NAMES \<Longrightarrow> line_field name ''DONE'' = None"
proof -
  have "list_all (\<lambda>name. line_field name ''DONE'' = None) FIELD_NAMES" by code_simp
  then show "name \<in> set FIELD_NAMES \<Longrightarrow> line_field name ''DONE'' = None" by (simp add: list_all_iff)
qed

lemma empty_no_field: "line_field name [] = None"
  by (simp add: line_field_def tag_def)

definition last_field :: "string \<Rightarrow> string list \<Rightarrow> string option" where
  "last_field name lines = foldl (\<lambda>acc line. case line_field name line of Some v \<Rightarrow> Some v | None \<Rightarrow> acc) None lines"

lemma monitor_loop_results:
  assumes "monitor_loop timeout input m = Some r" and "\<not> m_done m" and "name \<in> set FIELD_NAMES"
  shows "m_results r name = foldl (\<lambda>acc line. case line_field name line of Some v \<Rightarrow> Some v | None \<Rightarrow> acc)
      (m_results m name) (taken timeout input)
    \<and> (m_done r \<longleftrightarrow> ''DONE'' \<in> set (taken timeout input))"
  using assms(1, 2)
proof (induction timeout input m rule: monitor_loop.induct)
  case (2 timeout t r' rest m)
  show ?case
  proof (cases "t < timeout")
    case False
    then show ?thesis using 2 by simp
  next
    case True
    show ?thesis
    proof (cases r')
      case None
      then show ?thesis using 2 True by simp
    next
      case (Some line)
      let ?m = "if strip line = [] then m else monitor_line (strip line) m"
      have loop: "monitor_loop timeout rest ?m = Some r" using 2 True Some by simp
      have res: "m_results ?m name = (case line_field name (strip line) of Some v \<Rightarrow> Some v | None \<Rightarrow> m_results m name)"
        by (simp add: monitor_line_field [OF assms(3)] empty_no_field)
      show ?thesis
      proof (cases "strip line = ''DONE''")
        case True
        then have d: "m_done ?m" by (simp add: monitor_line_done)
        then have "r = ?m" using loop by (cases rest) auto
        then show ?thesis using True d Some \<open>t < timeout\<close> res
          by (simp add: done_no_field [OF assms(3)])
      next
        case False
        then have "\<not> m_done ?m" using 2(3) by (simp add: monitor_line_done)
        then show ?thesis
          using 2(1) [OF _ Some, OF _ loop] True 2(3) False Some res by simp
      qed
    qed
  qed
qed simp

section \<open>Theorems\<close>

text \<open>What the monitor knows of a field when the loop ends is what the last line with its tag said,
  among the lines up to \<open>DONE\<close>, the timeout or a failure of the port.\<close>

theorem monitor_keeps_last_line:
  assumes "monitor_loop timeout input monitor_init = Some r" and "name \<in> set FIELD_NAMES"
  shows "m_results r name = last_field name (taken timeout input)
    \<and> (m_done r \<longleftrightarrow> ''DONE'' \<in> set (taken timeout input))"
  using monitor_loop_results [OF assms(1) _ assms(2)] by (simp add: monitor_init_def last_field_def)


text \<open>The MAC read from the POSIX neighbour table is always in the form it is compared in: 17
  characters, upper-case hexadecimal digits and dashes.\<close>

theorem check_arp_posix_form:
  assumes "check_arp_posix arp run ip = Some m"
  shows "length m = 17 \<and> list_all (\<lambda>c. c \<in> set ''0123456789ABCDEF-'') m"
proof -
  obtain out raw where "search (mac_pairs 5) out = Some raw" and m: "m = mac_text raw"
    using assms by (auto simp: check_arp_posix_def split: option.splits if_splits proc_result.splits)
  then obtain t r where "mac_pairs 5 t = Some (raw, r)" using search_Some by metis
  then have "length raw = 17" "list_all (\<lambda>c. py_hex c \<or> c = CHR '':'' \<or> c = CHR ''-'') raw"
    using mac_pairs_Some [of 5 t raw r] by simp_all
  then show ?thesis using mac_text_chars [of raw] m by (simp add: mac_text_def upper_def)
qed

definition uart_lines :: "string list" where
  "uart_lines = [''emacZero self test'', ''VER: 0002454d'', ''SCR: DEADBEEF'', ''PHY1: 2000'',
     ''PHY2: 5C90'', ''BMCR: 1000'', ''LINK: UP'', ''TX: 0001'', ''RX: 0004'']"

definition uart_input :: "string list \<Rightarrow> (rat \<times> string option) list" where
  "uart_input lines = map (\<lambda>l. (1, Some l)) lines @ [(16, Some [])]"

definition good_net :: network where
  "good_net = \<lparr>n_ping = (20, 19), n_mac = Some BOARD_MAC, n_sustained = (0, 0)\<rparr>"

lemma uart_taken:
  "taken 15 (uart_input uart_lines) = uart_lines"
  "taken 15 (uart_input (uart_lines @ [''DONE''])) = uart_lines @ [''DONE'']"
  by code_simp+

lemma uart_fields:
  assumes "lines = uart_lines \<or> lines = uart_lines @ [''DONE'']"
  shows "map (\<lambda>name. last_field name lines) FIELD_NAMES
    = map Some [''0002454d'', ''DEADBEEF'', ''2000'', ''5C90'', ''1000'', ''UP'', ''0001'', ''0004'']"
proof -
  have "map (\<lambda>name. last_field name uart_lines) FIELD_NAMES
    = map Some [''0002454d'', ''DEADBEEF'', ''2000'', ''5C90'', ''1000'', ''UP'', ''0001'', ''0004'']"
    "map (\<lambda>name. last_field name (uart_lines @ [''DONE''])) FIELD_NAMES
    = map Some [''0002454d'', ''DEADBEEF'', ''2000'', ''5C90'', ''1000'', ''UP'', ''0001'', ''0004'']"
    by code_simp+
  then show ?thesis using assms by blast
qed

lemma uart_loop:
  obtains r where "monitor_loop 15 (uart_input lines) monitor_init = Some r"
  using monitor_loop_ends [of 15 16 "map (\<lambda>l. (1, Some l)) lines" "Some []" monitor_init]
  by (auto simp: uart_input_def)

theorem monitor_keeps_last_line_witness:
  "\<exists>r. monitor_loop 15 (uart_input (uart_lines @ [''DONE''])) monitor_init = Some r
    \<and> m_results r ''VER'' = Some ''0002454d'' \<and> m_done r"
proof -
  obtain r where r: "monitor_loop 15 (uart_input (uart_lines @ [''DONE''])) monitor_init = Some r"
    by (rule uart_loop)
  have "last_field ''VER'' (uart_lines @ [''DONE'']) = Some ''0002454d''"
    using uart_fields [of "uart_lines @ [''DONE'']"] by (simp add: FIELD_NAMES_def)
  then show ?thesis
    using r monitor_keeps_last_line [OF r, of "''VER''"] by (simp add: uart_taken FIELD_NAMES_def)
qed

lemma uart_values:
  "upper ''0002454d'' = ''0002454D''" "upper ''DEADBEEF'' = ''DEADBEEF''" "upper ''2000'' = ''2000''"
  "upper ''5C90'' = ''5C90''" "py_int16 ''1000'' = Some 4096" "upper BOARD_MAC = BOARD_MAC"
  by code_simp+

lemma uart_results:
  assumes "lines = uart_lines \<or> lines = uart_lines @ [''DONE'']"
    and "monitor_loop 15 (uart_input lines) monitor_init = Some r"
  shows "m_results r ''VER'' = Some ''0002454d''" "m_results r ''SCR'' = Some ''DEADBEEF''"
    "m_results r ''PHY1'' = Some ''2000''" "m_results r ''PHY2'' = Some ''5C90''"
    "m_results r ''BMCR'' = Some ''1000''" "m_results r ''LINK'' = Some ''UP''"
    "m_results r ''TX'' = Some ''0001''" "m_results r ''RX'' = Some ''0004''"
proof -
  have t: "taken 15 (uart_input lines) = lines" using assms(1) uart_taken by auto
  have f: "m_results r name = last_field name lines" if "name \<in> set FIELD_NAMES" for name
    using monitor_loop_results [OF assms(2) _ that] t by (simp add: monitor_init_def last_field_def)
  show "m_results r ''VER'' = Some ''0002454d''" "m_results r ''SCR'' = Some ''DEADBEEF''"
    "m_results r ''PHY1'' = Some ''2000''" "m_results r ''PHY2'' = Some ''5C90''"
    "m_results r ''BMCR'' = Some ''1000''" "m_results r ''LINK'' = Some ''UP''"
    "m_results r ''TX'' = Some ''0001''" "m_results r ''RX'' = Some ''0004''"
    using uart_fields [OF assms(1)] by (simp_all add: f FIELD_NAMES_def)
qed


text \<open>A board that falls silent before \<open>DONE\<close> still passes: with every field received, the
  missing \<open>DONE\<close> is only a warning.\<close>

theorem monitor_passes_without_done:
  "run_monitor True 15 0 good_net (uart_input uart_lines) = Some True
    \<and> ''DONE'' \<notin> set (taken 15 (uart_input uart_lines))"
proof -
  obtain r where r: "monitor_loop 15 (uart_input uart_lines) monitor_init = Some r"
    by (rule uart_loop)
  note v = uart_results [OF _ r, simplified]
  have u: "upper ''0002454D'' = ''0002454D''" "upper ''5C9'' = ''5C9''" by code_simp+
  have "list_all snd (monitor_report 0 good_net r)"
    by (simp add: monitor_report_def uart_report_def check_field_def check_bmcr_def check_tx_def
        check_rx_def v u uart_values network_report_def arp_ok_def good_net_def)
  moreover have "''DONE'' \<notin> set uart_lines" by code_simp
  ultimately show ?thesis using r by (simp add: run_monitor_def uart_taken)
qed

theorem check_arp_posix_form_witness:
  "\<exists>m. check_arp_posix (Some ''arp'') (\<lambda>_. Completed 0 ''at 02:00:00:00:0a:01 [ether]'' []) ''1.2.3.4'' = Some m
    \<and> length m = 17"
proof -
  have "search (mac_pairs 5) ''at 02:00:00:00:0a:01 [ether]'' = Some ''02:00:00:00:0a:01''" by code_simp
  then have c: "check_arp_posix (Some ''arp'') (\<lambda>_. Completed 0 ''at 02:00:00:00:0a:01 [ether]'' []) ''1.2.3.4''
      = Some (mac_text ''02:00:00:00:0a:01'')"
    by (simp add: check_arp_posix_def)
  show ?thesis using check_arp_posix_form [OF c] c by blast
qed

end
