(* ===== verification/Emz_Board.thy ===== *)
theory Emz_Board
  imports Emz_RgmiiLb Emz_Serial
begin

text \<open>
  Three Arty A7 host scripts.
  \<open>fpga/arty_a7/scripts/udp_iperf_stats.py\<close> asks the board for its iperf sink counters over UDP,
  \<open>fpga/arty_a7/scripts/run_hw_regression.py\<close> probes the board the same way and then runs its
  profiles, and \<open>fpga/arty_a7/scripts/gmii_lb_selftest.py\<close> drives the GMII loopback self-test
  through the fcapz command line. The socket, the child processes and the clock answer from lists;
  the log has what the scripts sent, ran and printed as commands. Other printed text is left out.
\<close>

section \<open>The counter query\<close>

datatype board_act =
    SockOpen
  | SockSend bytes string nat
  | SockClose
  | RunCmd "string list"
  | PrintCmd string

record board =
  b_sent :: "unit res list"
  b_recv :: "bytes res list"
  b_codes :: "int res list"
  b_log :: "board_act list"

definition b_act :: "board_act \<Rightarrow> (board, unit) io" where
  "b_act a = io_modify (\<lambda>s. s\<lparr>b_log := b_log s @ [a]\<rparr>)"

definition b_sendto :: "bytes \<Rightarrow> string \<Rightarrow> nat \<Rightarrow> (board, unit) io" where
  "b_sendto data ip port =
    io_seq (b_act (SockSend data ip port)) (io_answer b_sent (\<lambda>xs s. s\<lparr>b_sent := xs\<rparr>))"

definition b_recvfrom :: "(board, bytes) io" where
  "b_recvfrom = io_answer b_recv (\<lambda>xs s. s\<lparr>b_recv := xs\<rparr>)"

definition b_close :: "board \<Rightarrow> board" where
  "b_close s = s\<lparr>b_log := b_log s @ [SockClose]\<rparr>"

text \<open>\<open>str.encode("ascii")\<close>\<close>

definition ascii :: "string \<Rightarrow> bytes" where
  "ascii s = map (\<lambda>c. word_of_nat (of_char c)) s"

definition encode_ascii :: "string \<Rightarrow> bytes res" where
  "encode_ascii s = (if list_all (\<lambda>c. of_char c < (128 :: nat)) s then Inr (ascii s) else Inl (ValueError ''ascii''))"

text \<open>\<open>struct.unpack\<close> of big-endian unsigned fields of the given byte widths, and its inverse.\<close>

fun unpack_be :: "nat list \<Rightarrow> bytes \<Rightarrow> nat list" where
  "unpack_be [] bs = []"
| "unpack_be (w # ws) bs = from_bytes_be (take w bs) # unpack_be ws (drop w bs)"

definition struct_unpack :: "nat list \<Rightarrow> bytes \<Rightarrow> nat list res" where
  "struct_unpack ws bs = (if length bs = sum_list ws then Inr (unpack_be ws bs) else Inl (ValueError ''struct''))"

definition struct_pack :: "nat list \<Rightarrow> nat list \<Rightarrow> bytes" where
  "struct_pack ws vs = concat (map2 be_bytes ws vs)"

text \<open>\<open>"!7I I H H"\<close>\<close>

definition STATS_FORMAT :: "nat list" where
  "STATS_FORMAT = replicate 7 4 @ [4, 2, 2]"

text \<open>\<open>socket.inet_ntoa(struct.pack("!I", n))\<close>\<close>

definition inet_ntoa :: "nat \<Rightarrow> string" where
  "inet_ntoa n = join ''.'' (map (\<lambda>b. show_nat (unat b)) (be_bytes 4 n))"

definition stats_reply :: "bytes \<Rightarrow> bool" where
  "stats_reply data \<longleftrightarrow>
    \<not> (length data \<noteq> 44 \<or> take 4 data \<noteq> ascii ''IPS0'' \<or> slice data 40 44 \<noteq> ascii ''DONE'')"

definition STATS_PORT :: nat where "STATS_PORT = 9996"

record sink_stats =
  packets :: nat
  bytes_seen :: nat
  first_seq :: nat
  last_seq :: nat
  seq_gaps :: nat
  out_of_order :: nat
  final_packets :: nat
  last_src_ip :: string
  last_src_port :: nat
  sink_flags :: nat

definition sink_stats_of :: "nat list \<Rightarrow> sink_stats" where
  "sink_stats_of f = \<lparr>packets = f ! 0, bytes_seen = f ! 1, first_seq = f ! 2, last_seq = f ! 3,
     seq_gaps = f ! 4, out_of_order = f ! 5, final_packets = f ! 6, last_src_ip = inet_ntoa (f ! 7),
     last_src_port = f ! 8, sink_flags = f ! 9\<rparr>"

text \<open>One request and its reply; the socket is closed whatever happens once its timeout is set.\<close>

definition b_request :: "string \<Rightarrow> nat \<Rightarrow> bytes res \<Rightarrow> rat \<Rightarrow> (board, bytes) io" where
  "b_request ip port payload timeout =
    io_seq (b_act SockOpen)
      (if timeout < 0 then io_raise (ValueError ''timeout'')
       else io_finally
         (case payload of Inl e \<Rightarrow> io_raise e | Inr data \<Rightarrow> io_seq (b_sendto data ip port) b_recvfrom)
         b_close)"

definition query :: "string \<Rightarrow> nat \<Rightarrow> string \<Rightarrow> rat \<Rightarrow> (board, sink_stats) io" where
  "query ip port command timeout =
    io_bind (b_request ip port (encode_ascii command) timeout) (\<lambda>data.
     if \<not> stats_reply data then io_raise (RuntimeError ''unexpected stats reply'')
     else io_bind (res_io (struct_unpack STATS_FORMAT (slice data 4 40))) (\<lambda>f.
       io_ret (sink_stats_of f)))"

definition iperf_stats_main :: "string \<Rightarrow> nat \<Rightarrow> bool \<Rightarrow> rat \<Rightarrow> (board, sink_stats) io" where
  "iperf_stats_main ip port clear timeout = query ip port (if clear then ''C'' else ''G'') timeout"

section \<open>The regression profiles\<close>

record profile =
  pr_description :: string
  pr_argv :: "string list"

definition PROFILES :: "(string \<times> profile) list" where
  "PROFILES = [
    (''bidirectional-smoke'',
      \<lparr>pr_description = ''Short simultaneous UDP check with host-stable Python pacing'',
       pr_argv = [''udp_bidirectional_test.py'', ''--secs'', ''5'', ''--host-mbps'', ''70'',
         ''--fpga-ifg-cycles'', ''8000'', ''--min-mbps'', ''60'', ''--max-loss-pct'', ''1'']\<rparr>),
    (''bidirectional-long'',
      \<lparr>pr_description = ''60 s bidirectional stress profile used for line-rate work'',
       pr_argv = [''udp_bidirectional_test.py'', ''--secs'', ''60'', ''--host-mbps'', ''99'',
         ''--fpga-ifg-cycles'', ''8000'', ''--min-mbps'', ''50'', ''--max-loss-pct'', ''5'']\<rparr>)]"

record reg_args =
  r_profiles :: "string list"
  r_profile :: "string list"
  r_list :: bool
  r_dry_run :: bool
  r_board :: string
  r_timeout :: rat
  r_skip_probe :: bool
  r_python :: string
  r_dir :: string

definition profile_command :: "string \<Rightarrow> string \<Rightarrow> profile \<Rightarrow> string \<Rightarrow> string list" where
  "profile_command dir python spec ip =
    [python, dir @ ''/'' @ hd (pr_argv spec)] @ tl (pr_argv spec)
    @ (if ip \<noteq> [] then [''--board'', ip] else [])"

definition cmd_text :: "string list \<Rightarrow> string" where
  "cmd_text cmd = join '' '' (map (\<lambda>arg. if CHR '' '' \<in> set arg then [CHR 0x22] @ arg @ [CHR 0x22] else arg) cmd)"

definition probe_board :: "string \<Rightarrow> rat \<Rightarrow> (board, nat \<times> nat) io" where
  "probe_board ip timeout =
    io_bind (b_request ip STATS_PORT (Inr (ascii ''G'')) timeout) (\<lambda>data.
     if \<not> stats_reply data then io_raise (RuntimeError ''unexpected probe reply'')
     else io_bind (res_io (struct_unpack STATS_FORMAT (slice data 4 40))) (\<lambda>f. io_ret (f ! 0, f ! 1)))"

text \<open>\<open>except OSError\<close> and \<open>except RuntimeError\<close>\<close>

fun probe_error :: "py_error \<Rightarrow> bool" where
  "probe_error (OSError _) = True"
| "probe_error TimeoutError = True"
| "probe_error (RuntimeError _) = True"
| "probe_error _ = False"

definition reg_run :: "string list \<Rightarrow> (board, int) io" where
  "reg_run cmd = io_seq (b_act (RunCmd cmd)) (io_answer b_codes (\<lambda>xs s. s\<lparr>b_codes := xs\<rparr>))"

fun run_profiles :: "reg_args \<Rightarrow> string list \<Rightarrow> (board, int) io" where
  "run_profiles a [] = io_ret 0"
| "run_profiles a (name # names) =
    (case map_of PROFILES name of
       None \<Rightarrow> io_raise (KeyError name)
     | Some spec \<Rightarrow>
         let cmd = profile_command (r_dir a) (r_python a) spec (r_board a)
         in io_seq (b_act (PrintCmd (cmd_text cmd)))
           (if r_dry_run a then run_profiles a names
            else io_bind (reg_run cmd) (\<lambda>code. if code \<noteq> 0 then io_ret code else run_profiles a names)))"

definition reg_selected :: "reg_args \<Rightarrow> string list" where
  "reg_selected a = (let selected = r_profile a @ r_profiles a
     in if selected = [] then [''bidirectional-smoke''] else selected)"

definition reg_main :: "reg_args \<Rightarrow> (board, int) io" where
  "reg_main a =
    (if r_list a then io_ret 0
     else if \<exists>name \<in> set (reg_selected a). map_of PROFILES name = None
     then io_raise (SystemExit ''unknown profile(s)'')
     else io_bind (if \<not> r_dry_run a \<and> \<not> r_skip_probe a
         then io_catch (io_bind (probe_board (r_board a) (r_timeout a)) (\<lambda>_. io_ret True)) probe_error
                (\<lambda>_. io_ret False)
         else io_ret True) (\<lambda>ok.
       if ok then run_profiles a (reg_selected a) else io_ret 2))"

section \<open>Lemmas\<close>

lemma length_struct_pack: "length vs = length ws \<Longrightarrow> length (struct_pack ws vs) = sum_list ws"
  by (induction vs ws rule: list_induct2) (simp_all add: struct_pack_def)

lemma unpack_pack:
  "list_all2 (\<lambda>w v. v < 256 ^ w) ws vs \<Longrightarrow> unpack_be ws (struct_pack ws vs) = vs"
  by (induction ws vs rule: list_all2_induct) (simp_all add: struct_pack_def from_be_bytes)

lemma pack_unpack:
  "length bs = sum_list ws \<Longrightarrow> struct_pack ws (unpack_be ws bs) = bs
    \<and> list_all2 (\<lambda>w v. v < 256 ^ w) ws (unpack_be ws bs)"
proof (induction ws arbitrary: bs)
  case (Cons w ws)
  have l: "length (take w bs) = w" using Cons.prems by simp
  have "from_bytes_be (take w bs) < 256 ^ w" "be_bytes w (from_bytes_be (take w bs)) = take w bs"
    using from_bytes_be_less [of "take w bs"] be_bytes_from [of "take w bs"] unfolding l by simp_all
  moreover have "length (drop w bs) = sum_list ws" using Cons.prems by simp
  ultimately show ?case using Cons.IH [of "drop w bs"] by (simp add: struct_pack_def)
qed (simp add: struct_pack_def)

text \<open>The accepted replies are the packed counters between the two marks.\<close>

definition stats_packet :: "nat list \<Rightarrow> bytes" where
  "stats_packet vs = ascii ''IPS0'' @ struct_pack STATS_FORMAT vs @ ascii ''DONE''"

definition stats_values :: "nat list \<Rightarrow> bool" where
  "stats_values vs \<longleftrightarrow> list_all2 (\<lambda>w v. v < 256 ^ w) STATS_FORMAT vs"

lemma ascii_length [simp]: "length (ascii s) = length s"
  by (simp add: ascii_def)

lemma STATS_FORMAT_sum: "sum_list STATS_FORMAT = 36" "length STATS_FORMAT = 10"
  by (simp_all add: STATS_FORMAT_def eval_nat_numeral)

lemma struct_pack_36: "stats_values vs \<Longrightarrow> length (struct_pack STATS_FORMAT vs) = 36"
  by (simp add: stats_values_def length_struct_pack STATS_FORMAT_sum list_all2_lengthD [symmetric])

lemma stats_reply_iff: "stats_reply data \<longleftrightarrow> (\<exists>vs. stats_values vs \<and> data = stats_packet vs)"
proof
  assume "stats_reply data"
  then have d: "length data = 44" "take 4 data = ascii ''IPS0''" "take 4 (drop 40 data) = ascii ''DONE''"
    by (simp_all add: stats_reply_def slice_def drop_take)
  let ?body = "take 36 (drop 4 data)"
  have "data = take 4 data @ ?body @ take 4 (drop 40 data)"
    using d(1) append_take_drop_id [of 4 data] append_take_drop_id [of 36 "drop 4 data"] by simp
  moreover have "length ?body = sum_list STATS_FORMAT" using d(1) by (simp add: STATS_FORMAT_sum)
  ultimately show "\<exists>vs. stats_values vs \<and> data = stats_packet vs"
    unfolding stats_values_def stats_packet_def
    using pack_unpack [of ?body STATS_FORMAT] d(2,3) by (intro exI [of _ "unpack_be STATS_FORMAT ?body"]) simp
next
  assume "\<exists>vs. stats_values vs \<and> data = stats_packet vs"
  then obtain vs where vs: "stats_values vs" "data = stats_packet vs" by blast
  then have l: "length (struct_pack STATS_FORMAT vs) = 36"
    by (simp add: struct_pack_36)
  then show "stats_reply data"
    using vs(2) by (simp add: stats_reply_def stats_packet_def slice_def)
qed

lemma stats_packet_unpack:
  assumes "stats_values vs"
  shows "struct_unpack STATS_FORMAT (slice (stats_packet vs) 4 40) = Inr vs"
proof -
  have l: "length (struct_pack STATS_FORMAT vs) = 36"
    using assms by (rule struct_pack_36)
  then have "slice (stats_packet vs) 4 40 = struct_pack STATS_FORMAT vs"
    by (simp add: stats_packet_def slice_def)
  then show ?thesis using assms l by (simp add: struct_unpack_def STATS_FORMAT_sum unpack_pack stats_values_def)
qed

lemma b_request_run:
  assumes "b_sent s = Inr () # ss" and "b_recv s = Inr data # rs" and "0 \<le> timeout"
  shows "b_request ip port (Inr payload) timeout s = Done data (s\<lparr>b_sent := ss, b_recv := rs,
    b_log := b_log s @ [SockOpen, SockSend payload ip port, SockClose]\<rparr>)"
  using assms by (simp add: b_request_def b_act_def b_sendto_def b_recvfrom_def b_close_def io_seq_def io_bind_def
      io_finally_def io_answer_def)

lemma b_request_final:
  assumes "final (b_request ip port payload timeout s) = Some t"
  shows "\<exists>sent. b_log t = b_log s @ SockOpen # sent
    \<and> (0 \<le> timeout \<longrightarrow> last sent = SockClose \<and> sent \<noteq> []
      \<and> (\<forall>x \<in> set (butlast sent). \<exists>data. payload = Inr data \<and> x = SockSend data ip port))"
  using assms
  by (auto simp: b_request_def b_act_def b_sendto_def b_recvfrom_def b_close_def io_seq_def io_bind_def
      io_finally_def io_answer_def split: sum.splits list.splits if_splits)

text \<open>What \<open>run_profiles\<close> runs: up to and with the first command that fails.\<close>

definition upto_failure :: "int list \<Rightarrow> nat" where
  "upto_failure cs = (let k = length (takeWhile (\<lambda>c. c = 0) cs) in if k < length cs then Suc k else k)"

definition run_code :: "int list \<Rightarrow> int" where
  "run_code cs = (case List.find (\<lambda>c. c \<noteq> 0) cs of Some c \<Rightarrow> c | None \<Rightarrow> 0)"

definition commands :: "board_act list \<Rightarrow> string list list" where
  "commands acts = concat (map (\<lambda>x. case x of RunCmd cmd \<Rightarrow> [cmd] | _ \<Rightarrow> []) acts)"

definition profile_cmd :: "reg_args \<Rightarrow> string \<Rightarrow> string list" where
  "profile_cmd a name = profile_command (r_dir a) (r_python a) (the (map_of PROFILES name)) (r_board a)"

lemma run_profiles_run:
  assumes "b_codes s = map Inr cs @ rest" and "length cs = length names"
    and "list_all (\<lambda>name. map_of PROFILES name \<noteq> None) names" and "\<not> r_dry_run a"
  shows "\<exists>t new. run_profiles a names s = Done (run_code cs) t \<and> b_log t = b_log s @ new
    \<and> commands new = map (profile_cmd a) (take (upto_failure cs) names)"
  using assms(1-3)
proof (induction names arbitrary: cs s)
  case Nil
  then show ?case by (simp add: run_code_def commands_def)
next
  case (Cons name names)
  then obtain c cs' where cs: "cs = c # cs'" "length cs' = length names" by (cases cs) auto
  obtain spec where spec: "map_of PROFILES name = Some spec" using Cons.prems(3) by auto
  let ?cmd = "profile_command (r_dir a) (r_python a) spec (r_board a)"
  let ?s = "s\<lparr>b_log := b_log s @ [PrintCmd (cmd_text ?cmd), RunCmd ?cmd], b_codes := map Inr cs' @ rest\<rparr>"
  have step: "run_profiles a (name # names) s = (if c \<noteq> 0 then Done c ?s else run_profiles a names ?s)"
    using spec assms(4) Cons.prems(1) cs
    by (simp add: Let_def b_act_def reg_run_def io_seq_def io_bind_def io_answer_def)
  show ?case
  proof (cases "c = 0")
    case False
    then show ?thesis using spec unfolding step
      by (intro exI [of _ ?s] exI [of _ "[PrintCmd (cmd_text ?cmd), RunCmd ?cmd]"])
        (simp add: cs run_code_def upto_failure_def commands_def profile_cmd_def)
  next
    case True
    obtain t new where t: "run_profiles a names ?s = Done (run_code cs') t" "b_log t = b_log ?s @ new"
      "commands new = map (profile_cmd a) (take (upto_failure cs') names)"
      using Cons.IH [of ?s cs'] Cons.prems(3) cs by auto
    then show ?thesis using spec True unfolding step
      by (intro exI [of _ t] exI [of _ "[PrintCmd (cmd_text ?cmd), RunCmd ?cmd] @ new"])
        (simp add: cs run_code_def upto_failure_def commands_def profile_cmd_def Let_def)
  qed
qed

section \<open>Theorems\<close>

text \<open>C34: The query accepts exactly the packed forms of ten counters of the widths of the format, and
  returns these counters; a reply of any other form is refused. The socket is closed either way.\<close>

theorem query_roundtrip:
  assumes "b_sent s = Inr () # ss" and "b_recv s = Inr data # rs" and "0 \<le> timeout"
    and "list_all (\<lambda>c. of_char c < (128 :: nat)) command"
  shows "\<exists>t. b_log t = b_log s @ [SockOpen, SockSend (ascii command) ip port, SockClose]
    \<and> (if \<exists>vs. stats_values vs \<and> data = stats_packet vs
       then \<exists>vs. stats_values vs \<and> data = stats_packet vs
          \<and> query ip port command timeout s = Done (sink_stats_of vs) t
       else \<exists>msg. query ip port command timeout s = Raised (RuntimeError msg) t)"
proof -
  let ?t = "s\<lparr>b_sent := ss, b_recv := rs,
    b_log := b_log s @ [SockOpen, SockSend (ascii command) ip port, SockClose]\<rparr>"
  have r: "b_request ip port (encode_ascii command) timeout s = Done data ?t"
    using b_request_run [OF assms(1-3)] assms(4) by (simp add: encode_ascii_def)
  show ?thesis
  proof (cases "stats_reply data")
    case True
    then obtain vs where vs: "stats_values vs" "data = stats_packet vs" by (auto simp: stats_reply_iff)
    then have "query ip port command timeout s = Done (sink_stats_of vs) ?t"
      using True r by (simp add: query_def res_io_def stats_packet_unpack)
    then show ?thesis using vs by (intro exI [of _ ?t]) auto
  next
    case False
    then have "query ip port command timeout s = Raised (RuntimeError ''unexpected stats reply'') ?t"
      using r by (simp add: query_def)
    then show ?thesis using False by (intro exI [of _ ?t]) (auto simp: stats_reply_iff)
  qed
qed

text \<open>Known profiles on a board that is not probed: the profiles run in the given order up to the
  first that fails, and the exit code is that of this one, or 0.\<close>

theorem regression_runs:
  assumes "\<not> r_list a" and "r_skip_probe a" and "\<not> r_dry_run a"
    and "list_all (\<lambda>name. map_of PROFILES name \<noteq> None) (reg_selected a)"
    and "b_codes s = map Inr cs @ rest" and "length cs = length (reg_selected a)"
  shows "\<exists>t new. reg_main a s = Done (run_code cs) t \<and> b_log t = b_log s @ new
    \<and> commands new = map (profile_cmd a) (take (upto_failure cs) (reg_selected a))"
proof -
  have "reg_main a s = run_profiles a (reg_selected a) s"
    using assms(1-4) by (auto simp: reg_main_def list_all_iff)
  then show ?thesis using run_profiles_run [OF assms(5,6,4,3)] by simp
qed

text \<open>A board that does not answer its probe with counters runs no profile: the exit code is 2 and
  nothing but the probe is in the log.\<close>

theorem regression_probe_fails:
  assumes "\<not> r_list a" and "\<not> r_skip_probe a" and "\<not> r_dry_run a" and "0 \<le> r_timeout a"
    and "list_all (\<lambda>name. map_of PROFILES name \<noteq> None) (reg_selected a)"
    and "b_sent s = Inr () # ss"
    and "b_recv s = Inl (OSError e) # rs \<or> b_recv s = Inl TimeoutError # rs
      \<or> b_recv s = Inr data # rs \<and> \<not> stats_reply data"
  shows "\<exists>t. reg_main a s = Done 2 t
    \<and> b_log t = b_log s @ [SockOpen, SockSend (ascii ''G'') (r_board a) STATS_PORT, SockClose]"
proof -
  have m: "reg_main a s = io_bind (io_catch (io_bind (probe_board (r_board a) (r_timeout a)) (\<lambda>_. io_ret True)) probe_error
                (\<lambda>_. io_ret False)) (\<lambda>ok. if ok then run_profiles a (reg_selected a) else io_ret 2) s"
    using assms(1-3,5) by (auto simp: reg_main_def list_all_iff)
  from assms(7) show ?thesis
    unfolding m probe_board_def b_request_def b_act_def b_sendto_def b_recvfrom_def b_close_def
    using assms(4,6) by (elim disjE) (simp_all add: io_seq_def io_bind_def io_finally_def io_answer_def io_catch_def)
qed

section \<open>Witnesses\<close>

definition board_sample :: "bytes \<Rightarrow> int list \<Rightarrow> board" where
  "board_sample reply codes = \<lparr>b_sent = [Inr ()], b_recv = [Inr reply], b_codes = map Inr codes, b_log = []\<rparr>"

theorem query_roundtrip_witness:
  "\<exists>t. b_log t = b_log (board_sample (stats_packet [1, 1472, 0, 0, 0, 0, 0, 0xC0A88901, 5001, 1]) [])
      @ [SockOpen, SockSend (ascii ''G'') ''192.168.137.200'' 9996, SockClose]
    \<and> (if \<exists>vs. stats_values vs \<and> stats_packet [1, 1472, 0, 0, 0, 0, 0, 0xC0A88901, 5001, 1] = stats_packet vs
       then \<exists>vs. stats_values vs \<and> stats_packet [1, 1472, 0, 0, 0, 0, 0, 0xC0A88901, 5001, 1] = stats_packet vs
          \<and> query ''192.168.137.200'' 9996 ''G'' 1
              (board_sample (stats_packet [1, 1472, 0, 0, 0, 0, 0, 0xC0A88901, 5001, 1]) []) = Done (sink_stats_of vs) t
       else \<exists>msg. query ''192.168.137.200'' 9996 ''G'' 1
              (board_sample (stats_packet [1, 1472, 0, 0, 0, 0, 0, 0xC0A88901, 5001, 1]) []) = Raised (RuntimeError msg) t)"
  by (rule query_roundtrip) (simp_all add: board_sample_def)

definition reg_sample :: "bool \<Rightarrow> reg_args" where
  "reg_sample skip = \<lparr>r_profiles = [''bidirectional-long''], r_profile = [''bidirectional-smoke''], r_list = False,
     r_dry_run = False, r_board = ''192.168.137.200'', r_timeout = 1, r_skip_probe = skip,
     r_python = ''python3'', r_dir = ''fpga/arty_a7/scripts''\<rparr>"

theorem regression_runs_witness:
  "\<exists>t new. reg_main (reg_sample True) (board_sample [] [3, 0]) = Done (run_code [3, 0]) t
    \<and> b_log t = b_log (board_sample [] [3, 0]) @ new
    \<and> commands new = map (profile_cmd (reg_sample True)) (take (upto_failure [3, 0]) (reg_selected (reg_sample True)))"
  by (rule regression_runs [where rest = "[]"]) (simp_all add: board_sample_def reg_sample_def reg_selected_def PROFILES_def)

theorem regression_probe_fails_witness:
  "\<exists>t. reg_main (reg_sample False) (board_sample [] []) = Done 2 t
    \<and> b_log t = b_log (board_sample [] []) @ [SockOpen, SockSend (ascii ''G'') (r_board (reg_sample False)) STATS_PORT, SockClose]"
  by (rule regression_probe_fails [where ss = "[]" and rs = "[]" and data = "[]" and e = "[]"])
    (simp_all add: board_sample_def reg_sample_def reg_selected_def PROFILES_def stats_reply_def)

end
