(* ===== verification/Emz_Seq.thy ===== *)
theory Emz_Seq
  imports Emz_Prelude
begin

text \<open>
  What the receive loops of the throughput tests share: a state that counts datagrams, the numbers
  missing between them and the datagrams that come late. \<open>sfp_perf_test.py\<close> and
  \<open>udp_bidirectional_test.py\<close> each have such a loop.
\<close>

section \<open>The contract\<close>

locale seq_counter =
  fixes step :: "'d \<Rightarrow> 's \<Rightarrow> 's"
    and num :: "'d \<Rightarrow> nat"
    and good :: "'d \<Rightarrow> bool"
    and prev :: "'s \<Rightarrow> nat option"
    and pkts :: "'s \<Rightarrow> nat"
    and gaps :: "'s \<Rightarrow> nat"
    and late :: "'s \<Rightarrow> nat"
  assumes prev_step: "good d \<Longrightarrow> prev (step d s) = Some (num d)"
    and pkts_step: "good d \<Longrightarrow> pkts (step d s) = pkts s + 1"
    and in_order: "good d \<Longrightarrow> prev s = Some p \<Longrightarrow> p < num d \<Longrightarrow>
      gaps (step d s) = gaps s + (num d - p - 1) \<and> late (step d s) = late s"
    and out_of_order: "good d \<Longrightarrow> prev s = Some p \<Longrightarrow> \<not> p < num d \<Longrightarrow>
      gaps (step d s) = gaps s \<and> late (step d s) = late s + 1"
begin

lemma late_mono: "list_all good ds \<Longrightarrow> prev s = Some p \<Longrightarrow> late s \<le> late (fold step ds s)"
proof (induction ds arbitrary: s p)
  case (Cons d ds)
  have "late s \<le> late (step d s)"
    using Cons.prems in_order [of d s p] out_of_order [of d s p] by (cases "p < num d") simp_all
  also have "late (step d s) \<le> late (fold step ds (step d s))"
    using Cons.prems prev_step by (intro Cons.IH) simp_all
  finally show ?case by simp
qed simp

text \<open>Nothing came late exactly if the numbers increase.\<close>

lemma late_iff:
  "list_all good ds \<Longrightarrow> prev s = Some p \<Longrightarrow>
    late (fold step ds s) = late s \<longleftrightarrow> sorted_wrt (<) (p # map num ds)"
proof (induction ds arbitrary: s p)
  case (Cons d ds)
  have d: "good d" "list_all good ds" using Cons.prems(1) by simp_all
  note ih = Cons.IH [OF d(2) prev_step [OF d(1)], of s]
  show ?case
  proof (cases "p < num d")
    case True
    then have "late (step d s) = late s" using in_order [OF d(1) Cons.prems(2)] by blast
    then show ?thesis using ih True by (auto intro: less_trans)
  next
    case False
    then have "late (step d s) = late s + 1" using out_of_order [OF d(1) Cons.prems(2)] by blast
    then have "late (fold step (d # ds) s) \<noteq> late s"
      using late_mono [OF d(2) prev_step [OF d(1)], of s] by simp
    then show ?thesis using False by auto
  qed
qed simp

lemma late_start:
  assumes "\<And>d. good d \<Longrightarrow> late (step d s) = late s" and "list_all good ds"
  shows "late (fold step ds s) = late s \<longleftrightarrow> sorted_wrt (<) (map num ds)"
proof (cases ds)
  case (Cons d es)
  then have "good d" "list_all good es" using assms(2) by simp_all
  then show ?thesis using late_iff [of es "step d s"] prev_step [of d s] assms(1) [of d] Cons by simp
qed simp

text \<open>Then the datagrams and the gaps make up the span of the numbers.\<close>

lemma span:
  "list_all good ds \<Longrightarrow> prev s = Some p \<Longrightarrow> sorted_wrt (<) (p # map num ds) \<Longrightarrow>
    pkts (fold step ds s) + gaps (fold step ds s) = pkts s + gaps s + (last (p # map num ds) - p)
    \<and> p \<le> last (p # map num ds)"
proof (induction ds arbitrary: s p)
  case (Cons d ds)
  have d: "good d" "list_all good ds" "p < num d" "sorted_wrt (<) (num d # map num ds)"
    using Cons.prems by simp_all
  have "pkts (step d s) + gaps (step d s) = pkts s + gaps s + (num d - p)"
    using in_order [OF d(1) Cons.prems(2) d(3)] pkts_step [OF d(1), of s] d(3) by simp
  then show ?case
    using Cons.IH [OF d(2) prev_step [OF d(1)] d(4), of s] d(3) by auto
qed simp

lemma prev_fold: "list_all good ds \<Longrightarrow> ds \<noteq> [] \<Longrightarrow> prev (fold step ds s) = Some (num (last ds))"
  by (induction ds rule: rev_induct) (simp_all add: prev_step)

end

text \<open>A counter that passes over what is not good.\<close>

locale filtering_counter = seq_counter +
  assumes ignored: "\<not> good d \<Longrightarrow> prev (step d s) = prev s \<and> pkts (step d s) = pkts s
    \<and> gaps (step d s) = gaps s \<and> late (step d s) = late s"
    and depends: "prev s = prev s' \<Longrightarrow> pkts s = pkts s' \<Longrightarrow> gaps s = gaps s' \<Longrightarrow> late s = late s' \<Longrightarrow>
      gaps (step d s) = gaps (step d s') \<and> late (step d s) = late (step d s')"
begin

lemma fold_good:
  "prev s = prev s' \<Longrightarrow> pkts s = pkts s' \<Longrightarrow> gaps s = gaps s' \<Longrightarrow> late s = late s' \<Longrightarrow>
    prev (fold step ds s) = prev (fold step (filter good ds) s')
    \<and> pkts (fold step ds s) = pkts (fold step (filter good ds) s')
    \<and> gaps (fold step ds s) = gaps (fold step (filter good ds) s')
    \<and> late (fold step ds s) = late (fold step (filter good ds) s')"
proof (induction ds arbitrary: s s')
  case (Cons d ds)
  show ?case
  proof (cases "good d")
    case True
    then show ?thesis
      using Cons.IH [of "step d s" "step d s'"] depends [OF Cons.prems, of d] Cons.prems(2)
        prev_step [OF True] pkts_step [OF True] by simp
  next
    case False
    then show ?thesis using Cons.IH [of "step d s" s'] Cons.prems ignored [OF False] by simp
  qed
qed simp

text \<open>The counters of a whole run, from a state that has seen nothing.\<close>

lemma run_span:
  assumes "prev s = None" and "pkts s = 0" and "gaps s = 0" and "late s = 0"
    and first: "\<And>d. good d \<Longrightarrow> gaps (step d s) = 0 \<and> late (step d s) = 0"
    and ns: "ns = map num (filter good ds)"
  shows "pkts (fold step ds s) = length ns \<and> (late (fold step ds s) = 0 \<longleftrightarrow> sorted_wrt (<) ns)
    \<and> (ns \<noteq> [] \<and> sorted_wrt (<) ns \<longrightarrow>
        pkts (fold step ds s) + gaps (fold step ds s) = last ns - hd ns + 1 \<and> hd ns \<le> last ns)"
proof -
  let ?f = "fold step (filter good ds) s"
  have obs: "pkts (fold step ds s) = pkts ?f" "gaps (fold step ds s) = gaps ?f" "late (fold step ds s) = late ?f"
    using fold_good [of s s ds] by simp_all
  have len: "pkts (fold step es u) = pkts u + length es" if "list_all good es" for es u
    using that by (induction es arbitrary: u) (simp_all add: pkts_step)
  show ?thesis
  proof (cases "filter good ds")
    case Nil
    then show ?thesis unfolding obs ns using assms(2-4) by simp
  next
    case (Cons d es)
    have "list_all good (d # es)" unfolding Cons [symmetric] by (simp add: list_all_iff)
    then have g: "good d" "list_all good es" by simp_all
    have s1: "prev (step d s) = Some (num d)" "pkts (step d s) = 1" "gaps (step d s) = 0" "late (step d s) = 0"
      using prev_step [OF g(1)] pkts_step [OF g(1)] first [OF g(1)] assms(2) by simp_all
    have l: "late (fold step es (step d s)) = 0 \<longleftrightarrow> sorted_wrt (<) (num d # map num es)"
      using late_iff [OF g(2) s1(1)] s1(4) by simp
    show ?thesis
      unfolding obs ns Cons using l len [OF g(2), of "step d s"] span [OF g(2) s1(1)] s1(2, 3) by simp
  qed
qed

end

end
