(* ===== verification/Emz_Perf.thy ===== *)
theory Emz_Perf
  imports Emz_Board Emz_Seq
begin

text \<open>
  \<open>fpga/zcu106/scripts/sfp_perf_test.py\<close>: the 1 Gb/s throughput test of the SFP0 demo. The world
  holds what the board answers to the counter queries, the readings of the NIC's counters, the
  datagrams of every blast with the readings of the clock after each, and the outcome of every send.
  The printed lines, the pacing of the sender and the NIC commands of the operating systems are left
  out.
\<close>

section \<open>The world\<close>

datatype perf_act =
    PfQuery bytes string nat
  | PfTrigger bytes string nat
  | PfConnect string nat
  | PfSend bytes
  | PfSleep rat

type_synonym nic = "string \<rightharpoonup> int"

record perf =
  p_replies :: "bytes option res list"
  p_nic :: "nic res list"
  p_blasts :: "(bytes \<times> rat) list list"
  p_sends :: "bool list"
  p_elapsed :: "rat list"
  p_log :: "perf_act list"

definition p_act :: "perf_act \<Rightarrow> (perf, unit) io" where
  "p_act a = io_modify (\<lambda>s. s\<lparr>p_log := p_log s @ [a]\<rparr>)"

definition SINK_PORT :: nat where "SINK_PORT = 5001"

definition BLAST_PORT :: nat where "BLAST_PORT = 9997"

definition ETH_OVERHEAD :: nat where "ETH_OVERHEAD = 14 + 20 + 8 + 4 + 8 + 12"

definition line_rate_fps :: "nat \<Rightarrow> rat" where
  "line_rate_fps payload = 125000000 / of_nat (payload + ETH_OVERHEAD)"

definition perf_mbps :: "int \<Rightarrow> rat \<Rightarrow> rat" where
  "perf_mbps nbytes secs = (if 0 < secs then of_int nbytes * 8 / secs / 1000000 else 0)"

section \<open>Counters\<close>

definition nic_counters :: "string \<Rightarrow> (perf, nic option) io" where
  "nic_counters name =
    (if name = [] then io_ret None
     else io_bind (io_answer p_nic (\<lambda>xs s. s\<lparr>p_nic := xs\<rparr>)) (\<lambda>c. io_ret (Some c)))"

definition nic_delta :: "nic option \<Rightarrow> nic option \<Rightarrow> nic option" where
  "nic_delta a b = (case (a, b) of
     (Some x, Some y) \<Rightarrow> Some (\<lambda>k. case (x k, y k) of (Some i, Some j) \<Rightarrow> Some (j - i) | _ \<Rightarrow> None)
   | _ \<Rightarrow> None)"

definition nic_item :: "nic \<Rightarrow> string \<Rightarrow> int" where
  "nic_item d k = the (d k)"

record sink_counts =
  k_packets :: nat
  k_bytes :: nat
  k_seq_gaps :: nat
  k_out_of_order :: nat

definition p_reply :: "(perf, bytes option) io" where
  "p_reply = io_answer p_replies (\<lambda>xs s. s\<lparr>p_replies := xs\<rparr>)"

text \<open>\<open>None\<close> is a timeout, after which the query is sent again; any other error of the socket ends it.\<close>

fun query_from :: "nat \<Rightarrow> string \<Rightarrow> string \<Rightarrow> (perf, sink_counts) io" where
  "query_from 0 board command = io_raise (RuntimeError ''no stats reply'')"
| "query_from (Suc n) board command =
    io_seq (p_act (PfQuery (ascii command) board STATS_PORT))
    (io_bind p_reply (\<lambda>r. case r of
       None \<Rightarrow> query_from n board command
     | Some data \<Rightarrow>
         if \<not> stats_reply data then io_raise (RuntimeError ''unexpected stats reply'')
         else io_bind (res_io (struct_unpack STATS_FORMAT (slice data 4 40))) (\<lambda>f.
           io_ret \<lparr>k_packets = f ! 0, k_bytes = f ! 1, k_seq_gaps = f ! 4, k_out_of_order = f ! 5\<rparr>)))"

definition query_stats :: "string \<Rightarrow> string \<Rightarrow> (perf, sink_counts) io" where
  "query_stats board command = query_from 5 board command"

section \<open>FPGA to host\<close>

definition perf_trigger :: "string \<Rightarrow> nat \<Rightarrow> nat \<Rightarrow> nat \<Rightarrow> (perf, unit) io" where
  "perf_trigger board port count payload =
    (if count < 2 ^ 32 \<and> port < 2 ^ 16 \<and> payload < 2 ^ 16
     then p_act (PfTrigger (replicate 3 0 @ be_bytes 4 count @ be_bytes 2 port @ be_bytes 2 payload)
            board BLAST_PORT)
     else io_raise (ValueError ''struct''))"

text \<open>What \<open>BlastReceiver.run\<close> keeps while it receives. \<open>recv_into\<close> overwrites the front of the buffer.\<close>

record blast =
  bl_buf :: bytes
  bl_n :: nat
  bl_bytes :: nat
  bl_bad_len :: nat
  bl_gaps :: nat
  bl_ooo :: nat
  bl_expect :: nat
  bl_first :: "rat option"
  bl_last :: "rat option"

definition blast_init :: blast where
  "blast_init = \<lparr>bl_buf = replicate 2048 0, bl_n = 0, bl_bytes = 0, bl_bad_len = 0, bl_gaps = 0, bl_ooo = 0,
     bl_expect = 0, bl_first = None, bl_last = None\<rparr>"

definition blast_seq :: "bytes \<Rightarrow> nat" where
  "blast_seq buf = push_bit 24 (unat (buf ! 0)) OR push_bit 16 (unat (buf ! 1)) OR push_bit 8 (unat (buf ! 2))
     OR unat (buf ! 3)"

definition blast_step :: "nat \<Rightarrow> bytes \<Rightarrow> rat \<Rightarrow> blast \<Rightarrow> blast" where
  "blast_step payload data t b =
    (let got = take 2048 data; k = length got; buf = got @ drop k (bl_buf b);
         seq = blast_seq buf; expect = bl_expect b
     in \<lparr>bl_buf = buf, bl_n = bl_n b + 1, bl_bytes = bl_bytes b + k,
         bl_bad_len = (if k \<noteq> payload then bl_bad_len b + 1 else bl_bad_len b),
         bl_gaps = (if seq \<noteq> expect \<and> expect < seq then bl_gaps b + (seq - expect) else bl_gaps b),
         bl_ooo = (if seq \<noteq> expect \<and> \<not> expect < seq then bl_ooo b + 1 else bl_ooo b),
         bl_expect = seq + 1,
         bl_first = (case bl_first b of None \<Rightarrow> Some t | Some u \<Rightarrow> Some u), bl_last = Some t\<rparr>)"

text \<open>The datagrams that come before the socket times out.\<close>

fun blast_recv :: "nat \<Rightarrow> nat \<Rightarrow> (bytes \<times> rat) list \<Rightarrow> blast \<Rightarrow> blast" where
  "blast_recv count payload [] b = b"
| "blast_recv count payload ((data, t) # rest) b =
    (if bl_n b < count then blast_recv count payload rest (blast_step payload data t b) else b)"

record rx_result =
  r_received :: nat
  r_bytes :: nat
  r_bad_len :: nat
  r_seq_gaps :: nat
  r_out_of_order :: nat
  r_secs :: rat
  r_last_seq :: int

text \<open>A reading of 0 counts as none.\<close>

definition blast_result :: "blast \<Rightarrow> rx_result" where
  "blast_result b =
    \<lparr>r_received = bl_n b, r_bytes = bl_bytes b, r_bad_len = bl_bad_len b, r_seq_gaps = bl_gaps b,
     r_out_of_order = bl_ooo b,
     r_secs = (case (bl_first b, bl_last b) of
         (Some f, Some l) \<Rightarrow> (if f \<noteq> 0 \<and> l \<noteq> 0 \<and> f < l then l - f else 0)
       | _ \<Rightarrow> 0),
     r_last_seq = int (bl_expect b) - 1\<rparr>"

text \<open>The loss that is printed is a quotient by \<open>count\<close>.\<close>

definition report_rx :: "nat \<Rightarrow> rx_result \<Rightarrow> nic option \<Rightarrow> bool res" where
  "report_rx count r nic_d =
    (if count = 0 then Inl ZeroDivisionError
     else let ok = (r_out_of_order r = 0 \<and> r_bad_len r = 0)
     in Inr (case nic_d of
          Some d \<Rightarrow> ok \<and> int count \<le> nic_item d ''rx_pkts'' \<and> nic_item d ''rx_err'' = 0
        | None \<Rightarrow> ok \<and> r_received r = count))"

record perf_args =
  pa_board :: string
  pa_nic :: string
  pa_tests :: string
  pa_count :: nat
  pa_listen_port :: nat

definition p_blast :: "(perf, (bytes \<times> rat) list) io" where
  "p_blast = (\<lambda>s. case p_blasts s of [] \<Rightarrow> Starved | b # bs \<Rightarrow> Done b (s\<lparr>p_blasts := bs\<rparr>))"

definition test_rx :: "perf_args \<Rightarrow> nat \<Rightarrow> nat \<Rightarrow> (perf, bool) io" where
  "test_rx a payload count =
    io_bind (nic_counters (pa_nic a)) (\<lambda>nic0.
    io_seq (perf_trigger (pa_board a) (pa_listen_port a) count payload)
    (io_bind p_blast (\<lambda>data.
     io_bind (nic_counters (pa_nic a)) (\<lambda>nic1.
     res_io (report_rx count (blast_result (blast_recv count payload data blast_init)) (nic_delta nic0 nic1))))))"

text \<open>One size of the sweep: the counter is read until it stops moving.\<close>

fun sweep_settle :: "'a list \<Rightarrow> string \<Rightarrow> nic option \<Rightarrow> int option \<Rightarrow> (perf, unit) io" where
  "sweep_settle [] name nic0 seen = (\<lambda>s. Starved)"
| "sweep_settle (_ # left) name nic0 seen =
    io_seq (p_act (PfSleep (3 / 2)))
    (io_bind (nic_counters name) (\<lambda>now.
     case nic_delta nic0 now of
       None \<Rightarrow> io_raise (TypeError ''NoneType'')
     | Some d \<Rightarrow>
         if Some (nic_item d ''rx_pkts'') = seen then io_ret ()
         else sweep_settle left name nic0 (Some (nic_item d ''rx_pkts''))))"

fun sweep_sizes :: "perf_args \<Rightarrow> nat list \<Rightarrow> (perf, unit) io" where
  "sweep_sizes a [] = io_ret ()"
| "sweep_sizes a (payload # sizes) =
    io_bind (nic_counters (pa_nic a)) (\<lambda>nic0.
    io_seq (perf_trigger (pa_board a) (pa_listen_port a) (nat \<lfloor>line_rate_fps payload\<rfloor>) payload)
    (io_bind (io_get p_nic) (\<lambda>left.
     io_seq (sweep_settle left (pa_nic a) nic0 None) (sweep_sizes a sizes))))"

definition test_sweep :: "perf_args \<Rightarrow> (perf, unit) io" where
  "test_sweep a = (if pa_nic a = [] then io_ret () else sweep_sizes a [1472, 978, 466, 210, 82, 18])"

section \<open>Host to FPGA\<close>

record tx_result =
  t_sent :: nat
  t_errors :: nat
  t_secs :: rat

definition p_send :: "(perf, bool) io" where
  "p_send = (\<lambda>s. case p_sends s of [] \<Rightarrow> Starved | r # rs \<Rightarrow> Done r (s\<lparr>p_sends := rs\<rparr>))"

text \<open>\<open>n\<close> datagrams from number \<open>i\<close> on; an \<open>OSError\<close> of a send is counted and not retried.\<close>

fun send_from :: "nat \<Rightarrow> nat \<Rightarrow> nat \<Rightarrow> nat \<Rightarrow> nat \<Rightarrow> (perf, nat \<times> nat) io" where
  "send_from 0 i payload sent errors = io_ret (sent, errors)"
| "send_from (Suc n) i payload sent errors =
    (if payload < 4 \<or> 2 ^ 32 \<le> i then io_raise (ValueError ''struct'')
     else io_seq (p_act (PfSend (be_bytes 4 i @ replicate (payload - 4) 0)))
      (io_bind p_send (\<lambda>ok.
       if ok then send_from n (i + 1) payload (sent + 1) errors
       else send_from n (i + 1) payload sent (errors + 1))))"

definition p_secs :: "(perf, rat) io" where
  "p_secs = (\<lambda>s. case p_elapsed s of [] \<Rightarrow> Starved | r # rs \<Rightarrow> Done r (s\<lparr>p_elapsed := rs\<rparr>))"

definition send_iperf :: "string \<Rightarrow> nat \<Rightarrow> nat \<Rightarrow> (perf, tx_result) io" where
  "send_iperf board count payload =
    io_seq (p_act (PfConnect board SINK_PORT))
    (io_bind (send_from count 0 payload 0 0) (\<lambda>(sent, errors).
     io_bind p_secs (\<lambda>secs.
     io_ret \<lparr>t_sent = sent, t_errors = errors, t_secs = secs\<rparr>)))"

definition report_tx :: "nat \<Rightarrow> tx_result \<Rightarrow> sink_counts \<Rightarrow> bool" where
  "report_tx payload s st \<longleftrightarrow>
    int (t_sent s) - int (k_packets st) = 0 \<and> k_bytes st = (t_sent s * payload) AND 0xFFFFFFFF
    \<and> k_seq_gaps st \<le> k_out_of_order st"

definition test_tx :: "perf_args \<Rightarrow> (perf, bool) io" where
  "test_tx a =
    io_seq (query_stats (pa_board a) ''C'')
    (io_bind (nic_counters (pa_nic a)) (\<lambda>nic0.
     io_bind (send_iperf (pa_board a) (pa_count a) 1472) (\<lambda>s.
     io_seq (p_act (PfSleep (1 / 2)))
    (io_bind (query_stats (pa_board a) ''G'') (\<lambda>st.
     io_bind (nic_counters (pa_nic a)) (\<lambda>nic1.
     io_ret (report_tx 1472 s st)))))))"

definition test_duplex :: "perf_args \<Rightarrow> (perf, bool) io" where
  "test_duplex a =
    io_seq (query_stats (pa_board a) ''C'')
    (io_bind (nic_counters (pa_nic a)) (\<lambda>nic0.
     io_seq (perf_trigger (pa_board a) (pa_listen_port a) (pa_count a) 1472)
    (io_bind (send_iperf (pa_board a) (pa_count a) 1472) (\<lambda>s.
     io_bind p_blast (\<lambda>data.
     io_seq (p_act (PfSleep (1 / 2)))
    (io_bind (query_stats (pa_board a) ''G'') (\<lambda>st.
     io_bind (nic_counters (pa_nic a)) (\<lambda>nic1.
     io_bind (res_io (report_rx (pa_count a) (blast_result (blast_recv (pa_count a) 1472 data blast_init))
         (nic_delta nic0 nic1))) (\<lambda>ok.
     io_ret (ok \<and> report_tx 1472 s st))))))))))"

section \<open>The run\<close>

text \<open>\<open>results[t] = ...\<close>: a test named twice keeps its last result.\<close>

fun perf_tests :: "perf_args \<Rightarrow> string list \<Rightarrow> (string \<times> bool) list \<Rightarrow> (perf, (string \<times> bool) list) io" where
  "perf_tests a [] results = io_ret results"
| "perf_tests a (t # names) results =
    (if t = ''sweep'' then io_seq (test_sweep a) (perf_tests a names results)
     else io_bind
       (if t = ''rx'' then test_rx a 1472 (pa_count a)
        else if t = ''tx'' then test_tx a
        else if t = ''duplex'' then test_duplex a
        else io_raise (SystemExit (''unknown test '' @ t))) (\<lambda>ok.
       io_seq (p_act (PfSleep (1 / 2))) (perf_tests a names (AList.update t ok results))))"

definition perf_main :: "perf_args \<Rightarrow> (perf, nat) io" where
  "perf_main a =
    io_seq (query_stats (pa_board a) ''G'')
    (io_bind (perf_tests a (filter (\<lambda>t. t \<noteq> []) (map strip (split_at (CHR '','') (pa_tests a)))) []) (\<lambda>results.
     io_ret (if list_all snd results then 0 else 1)))"

section \<open>Lemmas\<close>

lemma blast_recv_fold:
  "blast_recv count payload data b
    = fold (\<lambda>(d, t). blast_step payload d t) (take (count - bl_n b) data) b"
proof (induction count payload data b rule: blast_recv.induct)
  case (2 count payload d t rest b)
  show ?case
  proof (cases "bl_n b < count")
    case True
    then have "count - bl_n b = Suc (count - bl_n (blast_step payload d t b))"
      by (simp add: blast_step_def Let_def)
    then show ?thesis using 2 True by simp
  qed simp
qed simp

lemma blast_n: "bl_n (fold (\<lambda>(d, t). blast_step payload d t) xs b) = bl_n b + length xs"
  by (induction xs arbitrary: b) (auto simp: blast_step_def Let_def)

lemma step_bad: "bl_bad_len (blast_step payload d t b)
    = (if min 2048 (length d) = payload then bl_bad_len b else bl_bad_len b + 1)"
  by (simp add: blast_step_def Let_def min.commute)

lemma blast_bad: "bl_bad_len (fold (\<lambda>(d, t). blast_step payload d t) xs b) = 0 \<longleftrightarrow>
    bl_bad_len b = 0 \<and> list_all (\<lambda>(d, t). min 2048 (length d) = payload) xs"
proof (induction xs arbitrary: b)
  case (Cons x xs)
  then show ?case by (cases x) (simp add: step_bad)
qed simp

lemma blast_seq_front:
  assumes "4 \<le> length d"
  shows "blast_seq (take 2048 d @ rest) = blast_seq d"
proof -
  have "(take 2048 d @ rest) ! i = d ! i" if "i < 4" for i
    using assms that by (simp add: nth_append)
  then show ?thesis unfolding blast_seq_def by simp
qed

definition blast_prev :: "blast \<Rightarrow> nat option" where
  "blast_prev b = (if bl_expect b = 0 then None else Some (bl_expect b - 1))"

interpretation bl: seq_counter "\<lambda>(d, t). blast_step payload d t" "\<lambda>(d, t). blast_seq d" "\<lambda>(d, t). 4 \<le> length d"
  blast_prev bl_n bl_gaps bl_ooo for payload
proof (unfold_locales, goal_cases)
  case (1 x b)
  then show ?case by (cases x) (simp add: blast_prev_def blast_step_def Let_def blast_seq_front)
next
  case (2 x b)
  then show ?case by (cases x) (simp add: blast_step_def Let_def)
next
  case (3 x b p)
  then show ?case
    by (cases x) (auto simp: blast_prev_def blast_step_def Let_def blast_seq_front split: if_splits)
next
  case (4 x b p)
  then show ?case
    by (cases x) (auto simp: blast_prev_def blast_step_def Let_def blast_seq_front split: if_splits)
qed

lemma blast_in_order:
  assumes "list_all (\<lambda>(d, t). 4 \<le> length d) xs"
  shows "bl_ooo (fold (\<lambda>(d, t). blast_step payload d t) xs blast_init) = 0 \<longleftrightarrow>
    sorted_wrt (<) (map (\<lambda>(d, t). blast_seq d) xs)"
proof -
  have z: "bl_ooo blast_init = 0" "bl_expect blast_init = 0" by (simp_all add: blast_init_def)
  then have first: "bl_ooo ((case x of (d, t) \<Rightarrow> blast_step payload d t) blast_init) = bl_ooo blast_init" for x
    by (cases x) (auto simp: blast_step_def Let_def)
  from bl.late_start [OF first assms] show ?thesis unfolding z .
qed

lemma increasing_exact:
  assumes "sorted_wrt (<) ks" "length ks = n" "\<forall>k \<in> set ks. k < n"
  shows "ks = [0..<n]"
proof -
  have d: "distinct ks" "sorted ks"
    using assms(1) by (simp_all add: strict_sorted_iff)
  have "card (set ks) = n" using d(1) assms(2) by (simp add: distinct_card)
  moreover have "set ks \<subseteq> {0..<n}" using assms(3) by auto
  ultimately have "set ks = {0..<n}" by (simp add: card_subset_eq)
  then show ?thesis using d by (simp add: sorted_distinct_set_unique)
qed

section \<open>Theorems\<close>

text \<open>C39: Without NIC counters the receive test passes exactly when every datagram of the burst arrived, each
  of the right length, in order: the sequence numbers seen are 0, 1, ..., \<open>count - 1\<close>. (The board
  numbers the datagrams of a burst from 0.)\<close>

theorem rx_pass_exact:
  assumes "0 < count" and "4 \<le> payload" and "payload < 2048"
    and "list_all (\<lambda>(d, t). blast_seq d < count) data"
  shows "report_rx count (blast_result (blast_recv count payload data blast_init)) None = Inr True \<longleftrightarrow>
    map (\<lambda>(d, t). blast_seq d) (take count data) = [0..<count]
    \<and> list_all (\<lambda>(d, t). length d = payload) (take count data)"
proof -
  let ?xs = "take count data"
  let ?b = "fold (\<lambda>(d, t). blast_step payload d t) ?xs blast_init"
  have recv: "blast_recv count payload data blast_init = ?b"
    by (simp add: blast_recv_fold blast_init_def)
  have bad: "bl_bad_len ?b = 0 \<longleftrightarrow> list_all (\<lambda>(d, t). length d = payload) ?xs"
    using assms(3) unfolding blast_bad by (auto simp: blast_init_def list_all_iff min_def split: if_splits)
  have n: "bl_n ?b = length ?xs" unfolding blast_n by (simp add: blast_init_def)
  have pass: "report_rx count (blast_result (blast_recv count payload data blast_init)) None = Inr True
      \<longleftrightarrow> bl_ooo ?b = 0 \<and> bl_bad_len ?b = 0 \<and> length ?xs = count"
    using assms(1) unfolding recv by (simp add: report_rx_def blast_result_def n Let_def)
  show ?thesis
  proof (cases "list_all (\<lambda>(d, t). length d = payload) ?xs")
    case True
    then have "list_all (\<lambda>(d, t). 4 \<le> length d) ?xs" using assms(2) by (auto simp: list_all_iff)
    then have ooo: "bl_ooo ?b = 0 \<longleftrightarrow> sorted_wrt (<) (map (\<lambda>(d, t). blast_seq d) ?xs)"
      using blast_in_order by simp
    have "\<forall>k \<in> set (map (\<lambda>(d, t). blast_seq d) ?xs). k < count"
      using assms(4) by (auto simp: list_all_iff dest!: in_set_takeD)
    then have "sorted_wrt (<) (map (\<lambda>(d, t). blast_seq d) ?xs) \<and> length ?xs = count
        \<longleftrightarrow> map (\<lambda>(d, t). blast_seq d) ?xs = [0..<count]"
      using increasing_exact [of "map (\<lambda>(d, t). blast_seq d) ?xs" count]
      by (metis (no_types, lifting) diff_zero length_map length_upt sorted_wrt_upt)
    then show ?thesis unfolding pass ooo bad using True by blast
  next
    case False
    then show ?thesis unfolding pass bad by blast
  qed
qed

definition demo_blast :: "(bytes \<times> rat) list" where
  "demo_blast = [([0, 0, 0, 0], 1), ([0, 0, 0, 1], 2)]"

theorem rx_pass_exact_witness:
  "report_rx 2 (blast_result (blast_recv 2 4 demo_blast blast_init)) None = Inr True \<longleftrightarrow>
    map (\<lambda>(d, t). blast_seq d) (take 2 demo_blast) = [0..<2]
    \<and> list_all (\<lambda>(d, t). length d = 4) (take 2 demo_blast)"
  by (rule rx_pass_exact) (simp_all add: blast_seq_def demo_blast_def)

text \<open>A test that is named twice counts once, with its last result: a first transmit test of which the
  board received nothing does not show in the exit code if a second one passes.\<close>

lemma query_reply:
  assumes "stats_values vs" and "p_replies s = Inr (Some (stats_packet vs)) # rs"
  shows "query_stats board command s = Done
    \<lparr>k_packets = vs ! 0, k_bytes = vs ! 1, k_seq_gaps = vs ! 4, k_out_of_order = vs ! 5\<rparr>
    (s\<lparr>p_log := p_log s @ [PfQuery (ascii command) board STATS_PORT], p_replies := rs\<rparr>)"
proof -
  have "stats_reply (stats_packet vs)" using assms(1) stats_reply_iff by blast
  moreover have five: "(5 :: nat) = Suc 4" by simp
  ultimately show ?thesis
    using assms unfolding query_stats_def five query_from.simps
    by (simp add: io_seq_def io_bind_def p_act_def p_reply_def io_answer_def stats_packet_unpack res_io_def)
qed

lemma test_tx_once:
  assumes "stats_values v" and "stats_values w" and "pa_nic a = []" and "pa_count a = 1"
    and "p_replies s = Inr (Some (stats_packet v)) # Inr (Some (stats_packet w)) # rs"
    and "p_sends s = True # bs" and "p_elapsed s = e # es"
  shows "\<exists>l. test_tx a s = Done (report_tx 1472 \<lparr>t_sent = 1, t_errors = 0, t_secs = e\<rparr>
      \<lparr>k_packets = w ! 0, k_bytes = w ! 1, k_seq_gaps = w ! 4, k_out_of_order = w ! 5\<rparr>)
    (s\<lparr>p_sends := bs, p_elapsed := es, p_log := l, p_replies := rs\<rparr>)"
proof -
  have one: "(1 :: nat) = Suc 0" by simp
  show ?thesis
    unfolding test_tx_def assms(4) send_iperf_def one send_from.simps nic_counters_def
    using assms
    by (intro exI [of _ "p_log s @ [PfQuery (ascii ''C'') (pa_board a) STATS_PORT,
          PfConnect (pa_board a) SINK_PORT, PfSend (be_bytes 4 0 @ replicate 1468 0), PfSleep (1 / 2),
          PfQuery (ascii ''G'') (pa_board a) STATS_PORT]"])
      (simp add: io_seq_def io_bind_def p_act_def p_send_def p_secs_def query_reply)
qed

lemma repeated_test_hides_failure:
  assumes "test_tx a s = Done False s1" and "test_tx a (s1\<lparr>p_log := p_log s1 @ [PfSleep (1 / 2)]\<rparr>) = Done True s2"
  shows "\<exists>t results. perf_tests a [''tx'', ''tx''] [] s = Done results t \<and> list_all snd results"
  using assms by (simp add: io_seq_def io_bind_def p_act_def)

end
