(* ===== verification/Emz_Bidir.thy ===== *)
theory Emz_Bidir
  imports Emz_Perf
begin

text \<open>
  \<open>fpga/arty_a7/scripts/udp_bidirectional_test.py\<close>: UDP in both directions. The receiver is a loop
  over what its socket gives, with the readings of the clock; the sender a loop over the clock; the
  verdict is taken from what both put into their queues and from the board's counters. Times are exact
  rationals; the printed report and the layout of the filler bytes' time stamps are left out.
\<close>

section \<open>FPGA to host\<close>

definition BD_PAYLOAD :: nat where "BD_PAYLOAD = 1472"

record bd_args =
  ba_secs :: rat
  ba_rx_grace :: rat
  ba_host_mbps :: rat
  ba_fpga_packets :: "int option"
  ba_ifg_cycles :: int
  ba_listen_port :: int
  ba_min_mbps :: rat
  ba_max_loss_pct :: rat

definition burst_packets :: "bd_args \<Rightarrow> int res" where
  "burst_packets a =
    (case ba_fpga_packets a of
       Some n \<Rightarrow> Inr n
     | None \<Rightarrow>
         let wire_len = of_nat (BD_PAYLOAD + 14 + 20 + 8 + 4 + 8 + 12);
             bits = wire_len * 8 + of_int (ba_ifg_cycles a)
         in if bits = 0 then Inl ZeroDivisionError
            else Inr (max 1 \<lceil>ba_secs a * (100000000 / bits)\<rceil>))"

text \<open>\<open>int.to_bytes\<close> also rejects a negative number.\<close>

definition int_bytes :: "nat \<Rightarrow> int \<Rightarrow> bytes res" where
  "int_bytes k n = (if n < 0 then Inl OverflowError else to_bytes_be k (nat n))"

definition bd_trigger :: "bd_args \<Rightarrow> bytes res" where
  "bd_trigger a =
    res_bind (burst_packets a) (\<lambda>n.
    res_bind (int_bytes 3 (ba_ifg_cycles a)) (\<lambda>ifg.
    res_bind (int_bytes 4 n) (\<lambda>count.
    res_bind (int_bytes 2 (ba_listen_port a)) (\<lambda>port. Inr (ifg @ count @ port)))))"

record bidir =
  bd_first_t :: "rat option"
  bd_last_t :: "rat option"
  bd_first_seq :: "nat option"
  bd_last_seq :: "nat option"
  bd_pkts :: nat
  bd_bytes :: nat
  bd_gaps :: nat
  bd_ooo :: nat
  bd_ignored :: nat

definition bidir_init :: bidir where
  "bidir_init = \<lparr>bd_first_t = None, bd_last_t = None, bd_first_seq = None, bd_last_seq = None, bd_pkts = 0,
     bd_bytes = 0, bd_gaps = 0, bd_ooo = 0, bd_ignored = 0\<rparr>"

text \<open>A datagram and the time it was taken at.\<close>

definition bidir_data :: "bytes \<Rightarrow> rat \<Rightarrow> bidir \<Rightarrow> bidir" where
  "bidir_data data now b =
    (if length data \<noteq> BD_PAYLOAD then b\<lparr>bd_ignored := bd_ignored b + 1\<rparr>
     else let seq = from_bytes_be (take 4 data);
              (gap, late) =
                (if bd_first_seq b = None then (0, 0)
                 else case bd_last_seq b of
                     None \<Rightarrow> (0, 0)
                   | Some l \<Rightarrow> if seq = l + 1 then (0, 0) else if l + 1 < seq then (seq - l - 1, 0) else (0, 1))
       in b\<lparr>bd_first_t := (case bd_first_t b of None \<Rightarrow> Some now | Some t \<Rightarrow> Some t), bd_last_t := Some now,
            bd_first_seq := (case bd_first_seq b of None \<Rightarrow> Some seq | Some f \<Rightarrow> Some f),
            bd_last_seq := Some seq, bd_pkts := bd_pkts b + 1, bd_bytes := bd_bytes b + length data,
            bd_gaps := bd_gaps b + gap, bd_ooo := bd_ooo b + late\<rparr>)"

text \<open>The rounds of the loop: the clock at the head, what the socket gave (\<open>None\<close>: a timeout), and the
  clock after a datagram. \<open>None\<close> at the end: the rounds ran out before the deadline.\<close>

fun bidir_recv :: "rat \<Rightarrow> (rat \<times> bytes option \<times> rat) list \<Rightarrow> bidir \<Rightarrow> bidir option" where
  "bidir_recv deadline [] b = None"
| "bidir_recv deadline ((t, got, now) # rounds) b =
    (if t < deadline then
       bidir_recv deadline rounds (case got of None \<Rightarrow> b | Some data \<Rightarrow> bidir_data data now b)
     else Some b)"

record fpga_rx =
  fr_requested :: int
  fr_packets :: nat
  fr_mbps :: rat
  fr_seq_gaps :: nat
  fr_out_of_order :: nat

definition bidir_dur :: "bidir \<Rightarrow> rat" where
  "bidir_dur b =
    (case (bd_first_t b, bd_last_t b) of
       (Some f, Some l) \<Rightarrow> (if l \<noteq> 0 \<and> f < l then l - f else 0) | _ \<Rightarrow> 0)"

definition bidir_result :: "int \<Rightarrow> bidir \<Rightarrow> fpga_rx" where
  "bidir_result requested b =
    \<lparr>fr_requested = requested, fr_packets = bd_pkts b,
     fr_mbps = (if 0 < bidir_dur b then of_nat (bd_bytes b) * 8 / bidir_dur b / 1000000 else 0),
     fr_seq_gaps = bd_gaps b, fr_out_of_order = bd_ooo b\<rparr>"

section \<open>Host to FPGA\<close>

text \<open>The sender: one datagram per round while the clock is before the deadline; the rounds hold the
  clock at their head.\<close>

fun bidir_sent :: "rat \<Rightarrow> rat list \<Rightarrow> nat \<Rightarrow> nat option" where
  "bidir_sent deadline [] seq = None"
| "bidir_sent deadline (t # ts) seq = (if t < deadline then bidir_sent deadline ts (seq + 1) else Some seq)"

section \<open>The verdict\<close>

definition pct :: "rat \<Rightarrow> rat \<Rightarrow> rat" where
  "pct numer denom = (if denom \<noteq> 0 then 100 * numer / denom else 0)"

text \<open>A queue that stayed empty counts as one without entries.\<close>

definition fpga_pass :: "bd_args \<Rightarrow> fpga_rx option \<Rightarrow> bool" where
  "fpga_pass a rx =
    (let packets = (case rx of Some r \<Rightarrow> fr_packets r | None \<Rightarrow> 0);
         gaps = (case rx of Some r \<Rightarrow> fr_seq_gaps r | None \<Rightarrow> 0);
         rate = (case rx of Some r \<Rightarrow> fr_mbps r | None \<Rightarrow> 0);
         ooo = (case rx of Some r \<Rightarrow> fr_out_of_order r | None \<Rightarrow> 0)
     in 0 < packets \<and> ba_min_mbps a \<le> rate
        \<and> pct (of_nat gaps) (of_nat (packets + gaps)) \<le> ba_max_loss_pct a \<and> ooo = 0)"

definition host_pass :: "bd_args \<Rightarrow> nat option \<Rightarrow> sink_stats \<Rightarrow> bool res" where
  "host_pass a sent stats =
    (if ba_secs a = 0 then Inl ZeroDivisionError
     else let n = (case sent of Some k \<Rightarrow> k | None \<Rightarrow> 0);
              observed = of_nat (bytes_seen stats) * 8 / ba_secs a / 1000000;
              loss = max 0 (int n - int (packets stats))
       in Inr (0 < packets stats \<and> ba_min_mbps a \<le> observed
               \<and> pct (of_int loss) (of_nat n) \<le> ba_max_loss_pct a))"

definition bidir_verdict :: "bd_args \<Rightarrow> fpga_rx option \<Rightarrow> nat option \<Rightarrow> sink_stats \<Rightarrow> unit res" where
  "bidir_verdict a rx sent stats =
    res_bind (host_pass a sent stats) (\<lambda>host.
    if \<not> (fpga_pass a rx \<and> host) then Inl (SystemExit ''1'') else Inr ())"

text \<open>\<open>main\<close>, with what the two child processes put into their queues.\<close>

definition bidir_main :: "string \<Rightarrow> rat \<Rightarrow> bd_args \<Rightarrow> fpga_rx option \<Rightarrow> nat option \<Rightarrow> (board, unit) io" where
  "bidir_main ip timeout a rx sent =
    io_seq (query ip STATS_PORT ''C'' timeout)
    (io_bind (query ip STATS_PORT ''G'' timeout) (\<lambda>stats. res_io (bidir_verdict a rx sent stats)))"

section \<open>Lemmas\<close>

text \<open>The loop folds over what it took from the socket before the deadline.\<close>

fun bidir_taken :: "rat \<Rightarrow> (rat \<times> bytes option \<times> rat) list \<Rightarrow> (bytes \<times> rat) list" where
  "bidir_taken deadline [] = []"
| "bidir_taken deadline ((t, got, now) # rounds) =
    (if t < deadline then
       (case got of None \<Rightarrow> [] | Some data \<Rightarrow> [(data, now)]) @ bidir_taken deadline rounds
     else [])"

lemma bidir_recv_fold:
  "bidir_recv deadline rounds b = Some b' \<Longrightarrow>
    b' = fold (\<lambda>(data, now). bidir_data data now) (bidir_taken deadline rounds) b"
  by (induction deadline rounds b rule: bidir_recv.induct) (auto split: if_splits option.splits)

definition bidir_prev :: "bidir \<Rightarrow> nat option" where
  "bidir_prev b = (if bd_first_seq b = None then None else bd_last_seq b)"

abbreviation bidir_num :: "bytes \<times> rat \<Rightarrow> nat" where
  "bidir_num x \<equiv> from_bytes_be (take 4 (fst x))"

abbreviation bidir_good :: "bytes \<times> rat \<Rightarrow> bool" where
  "bidir_good x \<equiv> length (fst x) = BD_PAYLOAD"

lemma bidir_step_good:
  assumes "length d = BD_PAYLOAD"
  shows "bidir_prev (bidir_data d t b) = Some (from_bytes_be (take 4 d))"
    and "bd_pkts (bidir_data d t b) = bd_pkts b + 1"
    and "bd_gaps (bidir_data d t b) = bd_gaps b + (case bidir_prev b of None \<Rightarrow> 0
      | Some p \<Rightarrow> from_bytes_be (take 4 d) - p - 1)"
    and "bd_ooo (bidir_data d t b) = bd_ooo b + (case bidir_prev b of None \<Rightarrow> 0
      | Some p \<Rightarrow> if p < from_bytes_be (take 4 d) then 0 else 1)"
  using assms by (auto simp: bidir_prev_def bidir_data_def Let_def split: option.splits)

lemma bidir_step_bad:
  "length d \<noteq> BD_PAYLOAD \<Longrightarrow> bidir_data d t b = b\<lparr>bd_ignored := bd_ignored b + 1\<rparr>"
  by (simp add: bidir_data_def)

interpretation bd: filtering_counter "\<lambda>(data, now). bidir_data data now" bidir_num bidir_good
  bidir_prev bd_pkts bd_gaps bd_ooo
proof (unfold_locales, goal_cases)
  case (5 x b)
  then show ?case by (cases x) (simp add: bidir_step_bad bidir_prev_def)
next
  case (6 b b' x)
  then show ?case
    by (cases x, cases "bidir_good x") (simp_all add: bidir_step_good bidir_step_bad)
qed (auto simp: bidir_step_good)

section \<open>Theorems\<close>

text \<open>The counters of the receive direction, from the sequence numbers of the full-length datagrams
  taken before the deadline: each is counted, none is out of order exactly if the numbers increase, and
  then the datagrams and the gaps make up the span from the first number to the last.\<close>

theorem bidir_recv_span:
  assumes "bidir_recv deadline rounds bidir_init = Some b"
    and "nums = map bidir_num (filter bidir_good (bidir_taken deadline rounds))"
  shows "bd_pkts b = length nums \<and> (bd_ooo b = 0 \<longleftrightarrow> sorted_wrt (<) nums)
    \<and> (nums \<noteq> [] \<and> sorted_wrt (<) nums \<longrightarrow> bd_pkts b + bd_gaps b = last nums - hd nums + 1 \<and> hd nums \<le> last nums)"
  unfolding bidir_recv_fold [OF assms(1)]
  by (rule bd.run_span [OF _ _ _ _ _ assms(2)])
    (auto simp: bidir_init_def bidir_prev_def bidir_step_good [unfolded bidir_prev_def])

text \<open>The loss that the receive direction is judged by is that between the first and the last datagram
  only: what was requested of the board plays no part, so datagrams lost before the first or after the
  last one seen do not count against it.\<close>

theorem fpga_pass_ignores_requested:
  "fpga_pass a (Some (bidir_result n b)) = fpga_pass a (Some (bidir_result m b))"
  by (simp add: fpga_pass_def bidir_result_def)

end
