(* ===== verification/Emz_Blast.thy ===== *)
theory Emz_Blast
  imports Emz_Bidir
begin

text \<open>
  \<open>fpga/arty_a7/scripts/udp_blast_test.py\<close>: a burst from the board, triggered and counted. The receiver
  runs in a thread: an exception ends the thread only, and what it would have written into \<open>stats\<close>
  stays away. The printed lines are left out apart from the numbers of the final report.
\<close>

section \<open>The burst\<close>

definition BLAST_TRIGGER_PORT :: int where "BLAST_TRIGGER_PORT = 9997"

definition BLAST_PAYLOAD_BYTES :: nat where "BLAST_PAYLOAD_BYTES = 1472"

definition blast_frame_bits :: "int \<Rightarrow> rat" where
  "blast_frame_bits ifg = of_nat ((BLAST_PAYLOAD_BYTES + 14 + 20 + 8 + 4 + 8 + 12) * 8) + of_int ifg"

definition fpga_pps :: "int \<Rightarrow> rat" where
  "fpga_pps ifg = 100000000 / blast_frame_bits ifg"

definition blast_ifg :: "int \<Rightarrow> int" where
  "blast_ifg n = max 0 (min n 0xFFFFFF)"

definition blast_burst :: "rat \<Rightarrow> int \<Rightarrow> int option \<Rightarrow> int" where
  "blast_burst secs ifg burst =
    max 1 (min (case burst of Some n \<Rightarrow> n | None \<Rightarrow> \<lceil>max secs (1 / 1000) * fpga_pps ifg\<rceil>) 0xFFFFFFFF)"

definition blast_trigger :: "int \<Rightarrow> int \<Rightarrow> int \<Rightarrow> bytes res" where
  "blast_trigger ifg burst port =
    res_bind (int_bytes 3 ifg) (\<lambda>i.
    res_bind (int_bytes 4 burst) (\<lambda>c.
    res_bind (int_bytes 2 port) (\<lambda>p. Inr (i @ c @ p))))"

section \<open>The receiver\<close>

record blast_rx =
  bx_first_t :: "rat option"
  bx_last_t :: rat
  bx_first_seq :: "nat option"
  bx_last_seq :: int
  bx_pkts :: nat
  bx_bytes :: nat
  bx_losses :: nat
  bx_ooo :: nat
  bx_ignored :: nat

definition blast_rx_init :: blast_rx where
  "blast_rx_init = \<lparr>bx_first_t = None, bx_last_t = 0, bx_first_seq = None, bx_last_seq = -1, bx_pkts = 0,
     bx_bytes = 0, bx_losses = 0, bx_ooo = 0, bx_ignored = 0\<rparr>"

text \<open>A datagram with the readings of the clock for \<open>rx_first_t\<close> (if there is none yet) and
  \<open>rx_last_t\<close>.\<close>

definition blast_rx_data :: "bytes \<Rightarrow> rat \<Rightarrow> rat \<Rightarrow> blast_rx \<Rightarrow> blast_rx" where
  "blast_rx_data data t1 t2 b =
    (if length data \<noteq> BLAST_PAYLOAD_BYTES then b\<lparr>bx_ignored := bx_ignored b + 1\<rparr>
     else let seq = from_bytes_be (take 4 data); l = bx_last_seq b
       in b\<lparr>bx_first_t := (case bx_first_t b of None \<Rightarrow> Some t1 | Some t \<Rightarrow> Some t), bx_last_t := t2,
            bx_first_seq := (case bx_first_seq b of None \<Rightarrow> Some seq | Some f \<Rightarrow> Some f),
            bx_last_seq := int seq, bx_pkts := bx_pkts b + 1, bx_bytes := bx_bytes b + length data,
            bx_losses := (if 0 \<le> l \<and> l + 1 < int seq then bx_losses b + nat (int seq - l - 1) else bx_losses b),
            bx_ooo := (if 0 \<le> l \<and> int seq < l + 1 then bx_ooo b + 1 else bx_ooo b)\<rparr>)"

text \<open>The rounds: the clock at the head of the loop, what the socket gave (\<open>Inr None\<close>: a timeout) and
  the later readings. \<open>None\<close>: the rounds ran out before the end.\<close>

fun blast_rx_loop :: "rat \<Rightarrow> (rat \<times> bytes option res \<times> rat \<times> rat) list \<Rightarrow> blast_rx
    \<Rightarrow> (blast_rx \<times> unit res) option" where
  "blast_rx_loop end_t [] b = None"
| "blast_rx_loop end_t ((t, got, t1, t2) # rounds) b =
    (if t < end_t then
       (case got of
          Inl e \<Rightarrow> Some (b, Inl e)
        | Inr None \<Rightarrow> blast_rx_loop end_t rounds b
        | Inr (Some data) \<Rightarrow> blast_rx_loop end_t rounds (blast_rx_data data t1 t2 b))
     else Some (b, Inr ()))"

text \<open>What is left in \<open>stats\<close>: the entries written at the end if the thread got there, and the ignored
  datagrams, which are counted as they come. \<open>bound\<close> and \<open>sent\<close> are what \<open>bind\<close> and sending the
  trigger do.\<close>

record blast_stats =
  bst_final :: "blast_rx option"
  bst_ignored :: nat

definition blast_receiver :: "rat \<Rightarrow> int \<Rightarrow> int \<Rightarrow> int \<Rightarrow> unit res \<Rightarrow> (bytes \<Rightarrow> unit res) \<Rightarrow> rat
    \<Rightarrow> (rat \<times> bytes option res \<times> rat \<times> rat) list \<Rightarrow> blast_stats option" where
  "blast_receiver secs ifg burst port bound sent start rounds =
    (case res_bind bound (\<lambda>_. res_bind (blast_trigger ifg burst port) sent) of
       Inl e \<Rightarrow> Some \<lparr>bst_final = None, bst_ignored = 0\<rparr>
     | Inr _ \<Rightarrow> map_option (\<lambda>(b, r). \<lparr>bst_final = (if returns r then Some b else None), bst_ignored = bx_ignored b\<rparr>)
         (blast_rx_loop (start + secs + 2) rounds blast_rx_init))"

section \<open>The report\<close>

record blast_report =
  brp_pkts :: nat
  brp_bytes :: nat
  brp_rate :: "(rat \<times> rat) option"
  brp_span :: "(nat \<times> int \<times> int) option"
  brp_losses :: nat
  brp_ooo :: nat
  brp_ignored :: nat
  brp_loss_pct :: "rat option"

definition blast_dur :: "blast_rx \<Rightarrow> rat" where
  "blast_dur b = (case bx_first_t b of
     Some f \<Rightarrow> (if f \<noteq> 0 \<and> f < bx_last_t b then bx_last_t b - f else 0) | None \<Rightarrow> 0)"

text \<open>Missing entries count as those of a receiver that has seen nothing.\<close>

definition blast_summary :: "blast_stats \<Rightarrow> blast_report" where
  "blast_summary st =
    (let b = (case bst_final st of Some b \<Rightarrow> b | None \<Rightarrow> blast_rx_init);
         n = bx_pkts b; losses = bx_losses b; dur = blast_dur b
     in \<lparr>brp_pkts = n, brp_bytes = bx_bytes b,
         brp_rate = (if 0 < dur then Some (of_nat (bx_bytes b) * 8 / dur / 1000000, of_nat n / dur) else None),
         brp_span = (case bx_first_seq b of
             Some f \<Rightarrow> (if int f \<le> bx_last_seq b then Some (f, bx_last_seq b, bx_last_seq b - int f + 1) else None)
           | None \<Rightarrow> None),
         brp_losses = losses, brp_ooo = bx_ooo b, brp_ignored = bst_ignored st,
         brp_loss_pct = (if 0 < n \<and> 0 < losses + n
           then Some (100 * of_nat losses / of_nat (n + losses)) else None)\<rparr>)"

record blast_args =
  bla_listen_port :: int
  bla_secs :: rat
  bla_ifg_cycles :: int
  bla_burst_packets :: "int option"

text \<open>\<open>main\<close>; \<open>None\<close>: the answers ran out. \<open>ap.error\<close> exits with 2.\<close>

definition blast_main :: "blast_args \<Rightarrow> unit res \<Rightarrow> (bytes \<Rightarrow> unit res) \<Rightarrow> rat
    \<Rightarrow> (rat \<times> bytes option res \<times> rat \<times> rat) list \<Rightarrow> blast_report res option" where
  "blast_main a bound sent start rounds =
    (if bla_listen_port a = BLAST_TRIGGER_PORT \<or> bla_listen_port a = 5001 then Some (Inl (SystemExit ''2''))
     else let ifg = blast_ifg (bla_ifg_cycles a)
       in map_option (\<lambda>st. Inr (blast_summary st))
         (blast_receiver (bla_secs a) ifg (blast_burst (bla_secs a) ifg (bla_burst_packets a))
           (bla_listen_port a) bound sent start rounds))"

section \<open>The receive loop as a counter\<close>

fun blast_taken :: "rat \<Rightarrow> (rat \<times> bytes option res \<times> rat \<times> rat) list \<Rightarrow> (bytes \<times> rat \<times> rat) list" where
  "blast_taken end_t [] = []"
| "blast_taken end_t ((t, got, t1, t2) # rounds) =
    (if t < end_t then
       (case got of
          Inl e \<Rightarrow> []
        | Inr None \<Rightarrow> blast_taken end_t rounds
        | Inr (Some data) \<Rightarrow> (data, t1, t2) # blast_taken end_t rounds)
     else [])"

lemma blast_rx_loop_fold:
  "blast_rx_loop end_t rounds b = Some (b', r) \<Longrightarrow>
    b' = fold (\<lambda>(data, t1, t2). blast_rx_data data t1 t2) (blast_taken end_t rounds) b"
  by (induction end_t rounds b rule: blast_rx_loop.induct)
    (auto split: if_splits option.splits sum.splits)

definition blast_rx_prev :: "blast_rx \<Rightarrow> nat option" where
  "blast_rx_prev b = (if bx_last_seq b < 0 then None else Some (nat (bx_last_seq b)))"

abbreviation blast_num :: "bytes \<times> rat \<times> rat \<Rightarrow> nat" where
  "blast_num x \<equiv> from_bytes_be (take 4 (fst x))"

abbreviation blast_good :: "bytes \<times> rat \<times> rat \<Rightarrow> bool" where
  "blast_good x \<equiv> length (fst x) = BLAST_PAYLOAD_BYTES"

lemma blast_step_good:
  assumes "length d = BLAST_PAYLOAD_BYTES"
  shows "blast_rx_prev (blast_rx_data d t1 t2 b) = Some (from_bytes_be (take 4 d))"
    and "bx_pkts (blast_rx_data d t1 t2 b) = bx_pkts b + 1"
    and "bx_losses (blast_rx_data d t1 t2 b) = bx_losses b + (case blast_rx_prev b of None \<Rightarrow> 0
      | Some p \<Rightarrow> from_bytes_be (take 4 d) - p - 1)"
    and "bx_ooo (blast_rx_data d t1 t2 b) = bx_ooo b + (case blast_rx_prev b of None \<Rightarrow> 0
      | Some p \<Rightarrow> if p < from_bytes_be (take 4 d) then 0 else 1)"
  using assms by (auto simp: blast_rx_prev_def blast_rx_data_def Let_def nat_diff_distrib nat_less_iff)

lemma blast_step_bad:
  "length d \<noteq> BLAST_PAYLOAD_BYTES \<Longrightarrow> blast_rx_data d t1 t2 b = b\<lparr>bx_ignored := bx_ignored b + 1\<rparr>"
  by (simp add: blast_rx_data_def)

interpretation bx: filtering_counter "\<lambda>(data, t1, t2). blast_rx_data data t1 t2" blast_num blast_good
  blast_rx_prev bx_pkts bx_losses bx_ooo
proof (unfold_locales, goal_cases)
  case (5 x b)
  then show ?case by (cases x) (simp add: blast_step_bad blast_rx_prev_def)
next
  case (6 b b' x)
  then show ?case by (cases x, cases "blast_good x") (simp_all add: blast_step_good blast_step_bad)
qed (auto simp: blast_step_good)

section \<open>Theorems\<close>

text \<open>The trigger of every accepted command line fits its nine bytes, unless the port does not, and the
  board reads back from it the delay and the length that were asked for, clamped.\<close>

lemma int_bytes_fits:
  assumes "0 \<le> n" and "n < 256 ^ k"
  shows "int_bytes k n = Inr (be_bytes k (nat n))" and "int (from_bytes_be (be_bytes k (nat n))) = n"
proof -
  have "nat n < 256 ^ k" using assms nat_less_iff by fastforce
  then show "int_bytes k n = Inr (be_bytes k (nat n))" "int (from_bytes_be (be_bytes k (nat n))) = n"
    using assms(1) by (simp_all add: int_bytes_def to_bytes_be_def from_be_bytes)
qed

lemma int_bytes_out: "n < 0 \<or> 256 ^ k \<le> n \<Longrightarrow> int_bytes k n = Inl OverflowError"
  using of_nat_le_iff [of "256 ^ k" "nat n", where 'a = int] by (auto simp: int_bytes_def to_bytes_be_def)

theorem blast_trigger_decodes:
  fixes port n :: int and secs :: rat and burst :: "int option"
  defines "ifg \<equiv> blast_ifg n" and "count \<equiv> blast_burst secs (blast_ifg n) burst"
  shows "blast_trigger ifg count port =
    (if 0 \<le> port \<and> port < 65536
     then Inr (be_bytes 3 (nat ifg) @ be_bytes 4 (nat count) @ be_bytes 2 (nat port)) else Inl OverflowError)
    \<and> int (from_bytes_be (be_bytes 3 (nat ifg))) = ifg \<and> int (from_bytes_be (be_bytes 4 (nat count))) = count"
proof -
  have i: "0 \<le> ifg" "ifg < 256 ^ 3" by (auto simp: ifg_def blast_ifg_def)
  have c: "0 \<le> count" "count < 256 ^ 4" by (auto simp: count_def blast_burst_def)
  have "int_bytes 2 port = (if 0 \<le> port \<and> port < 65536 then Inr (be_bytes 2 (nat port)) else Inl OverflowError)"
    using int_bytes_fits(1) [of port 2] int_bytes_out [of port 2] by auto
  then show ?thesis
    unfolding blast_trigger_def int_bytes_fits(1) [OF i] int_bytes_fits(1) [OF c]
    using int_bytes_fits(2) [OF i] int_bytes_fits(2) [OF c] by simp
qed

text \<open>The burst that is asked for by default is the shortest one that lasts for the whole window, as
  far as its length fits the trigger.\<close>

theorem blast_burst_covers:
  assumes "0 \<le> ifg" and "1 / 1000 \<le> secs" and "secs * fpga_pps ifg \<le> 0xFFFFFFFF"
  shows "secs \<le> of_int (blast_burst secs ifg None) / fpga_pps ifg
    \<and> of_int (blast_burst secs ifg None) < secs * fpga_pps ifg + 1"
proof -
  have pps: "0 < fpga_pps ifg"
    using assms(1) by (simp add: fpga_pps_def blast_frame_bits_def BLAST_PAYLOAD_BYTES_def add_pos_nonneg)
  have "0 < secs" using assms(2) by simp
  then have pos: "0 < secs * fpga_pps ifg" using pps by simp
  then have "1 \<le> \<lceil>secs * fpga_pps ifg\<rceil>" by linarith
  moreover have "\<lceil>secs * fpga_pps ifg\<rceil> \<le> 0xFFFFFFFF" using assms(3) by (simp add: ceiling_le_iff)
  ultimately have b: "blast_burst secs ifg None = \<lceil>secs * fpga_pps ifg\<rceil>"
    unfolding blast_burst_def max_absorb1 [OF assms(2)] by simp
  show ?thesis
    unfolding b using pps by (simp add: pos_le_divide_eq) linarith
qed

text \<open>The counts of the report, from the sequence numbers taken before the end: if they increase, the
  loss rate is the share of their span that did not arrive.\<close>

theorem blast_loss_of_span:
  assumes "blast_rx_loop end_t rounds blast_rx_init = Some (b, Inr ())"
    and "nums = map blast_num (filter blast_good (blast_taken end_t rounds))"
    and "nums \<noteq> []" and "sorted_wrt (<) nums"
  shows "brp_loss_pct (blast_summary \<lparr>bst_final = Some b, bst_ignored = k\<rparr>)
    = Some (100 * (1 - of_nat (length nums) / of_nat (last nums - hd nums + 1)))
    \<and> brp_ooo (blast_summary \<lparr>bst_final = Some b, bst_ignored = k\<rparr>) = 0"
proof -
  have "bx_pkts b = length nums \<and> (bx_ooo b = 0 \<longleftrightarrow> sorted_wrt (<) nums)
      \<and> (nums \<noteq> [] \<and> sorted_wrt (<) nums \<longrightarrow>
        bx_pkts b + bx_losses b = last nums - hd nums + 1 \<and> hd nums \<le> last nums)"
    unfolding blast_rx_loop_fold [OF assms(1)]
    by (rule bx.run_span [OF _ _ _ _ _ assms(2)])
      (auto simp: blast_rx_init_def blast_rx_prev_def blast_step_good [unfolded blast_rx_prev_def])
  then have b: "bx_pkts b = length nums" "bx_ooo b = 0" "bx_pkts b + bx_losses b = last nums - hd nums + 1"
    using assms(3, 4) by simp_all
  have len: "0 < length nums" "0 < bx_pkts b" using assms(3) b(1) by simp_all
  define w where "w = last nums - hd nums + 1"
  have w: "length nums + bx_losses b = w" using b(1, 3) by (simp add: w_def)
  then have "(of_nat (length nums) :: rat) + of_nat (bx_losses b) = of_nat w" by (metis of_nat_add)
  then have "(of_nat (bx_losses b) :: rat) = of_nat w - of_nat (length nums)" by simp
  moreover have "(0 :: rat) < of_nat w" using w len(1) by (metis of_nat_0_less_iff trans_less_add1)
  ultimately have "(100 * of_nat (bx_losses b) / of_nat w :: rat) = 100 * (1 - of_nat (length nums) / of_nat w)"
    by (simp add: field_simps)
  then show ?thesis
    using b(2) len(2) b(3) unfolding w_def [symmetric] by (simp add: blast_summary_def Let_def)
qed

text \<open>A receiver that dies, for instance because its port is taken, shows only as an empty run: the
  report is that of a burst of which nothing arrived, and no error leaves \<open>main\<close>.\<close>

theorem blast_dead_receiver:
  assumes "bla_listen_port a \<noteq> BLAST_TRIGGER_PORT" and "bla_listen_port a \<noteq> 5001"
  shows "blast_main a (Inl e) sent start rounds = Some (Inr (blast_summary \<lparr>bst_final = Some blast_rx_init, bst_ignored = 0\<rparr>))"
  using assms by (simp add: blast_main_def Let_def blast_receiver_def blast_summary_def blast_rx_init_def)

end
