(* ===== verification/Emz_Echo.thy ===== *)
theory Emz_Echo
  imports Emz_Prelude Complex_Main
begin

text \<open>
  \<open>fpga/arty_a7/scripts/udp_echo_test.py\<close>: \<open>main\<close>, which sends time-stamped datagrams at a given rate
  and drains their echoes in the same loop. The classes \<open>Sender\<close> and \<open>Receiver\<close> of the file are not
  used by it. Times are exact rationals.
\<close>

section \<open>Echoes\<close>

record echo_rx =
  ex_pkts :: nat
  ex_bytes :: nat
  ex_min :: rat
  ex_max :: rat
  ex_sum :: rat
  ex_n :: nat

definition echo_rx_init :: echo_rx where
  "echo_rx_init = \<lparr>ex_pkts = 0, ex_bytes = 0, ex_min = 10 ^ 18, ex_max = 0, ex_sum = 0, ex_n = 0\<rparr>"

text \<open>The clock is read for a datagram that holds a header only.\<close>

definition echo_rtt :: "bytes \<Rightarrow> rat \<Rightarrow> rat" where
  "echo_rtt data t = t - of_nat (from_bytes_le (take 8 data)) / 1000000000"

definition echo_rx_data :: "bytes \<Rightarrow> rat \<Rightarrow> echo_rx \<Rightarrow> echo_rx" where
  "echo_rx_data data t e =
    (let e1 = e\<lparr>ex_pkts := ex_pkts e + 1, ex_bytes := ex_bytes e + length data\<rparr>; r = echo_rtt data t
     in if 16 \<le> length data \<and> 0 < r \<and> r < 5
        then e1\<lparr>ex_min := (if r < ex_min e then r else ex_min e), ex_max := (if ex_max e < r then r else ex_max e),
               ex_sum := ex_sum e + r, ex_n := ex_n e + 1\<rparr>
        else e1)"

text \<open>\<open>drain\<close>: the datagrams the socket gives until it has none or fails.\<close>

definition drain :: "(bytes \<times> rat) list \<Rightarrow> echo_rx \<Rightarrow> echo_rx" where
  "drain got e = fold (\<lambda>(data, t). echo_rx_data data t) got e"

section \<open>The loop\<close>

definition echo_size :: "nat \<Rightarrow> nat" where
  "echo_size n = max n 16"

definition echo_wire :: "nat \<Rightarrow> nat" where
  "echo_wire n =
    (let payload = echo_size n; w = payload + 14 + 20 + 8 + 4 + 8 + 12
     in if payload + 14 + 20 + 8 < 60 then w + (60 - (payload + 14 + 20 + 8)) else w)"

definition echo_interval :: "nat \<Rightarrow> rat \<Rightarrow> rat" where
  "echo_interval n mbps =
    (let pps = (if 0 < mbps then mbps * 1000000 / 8 / of_nat (echo_wire n) else 1000000000)
     in if 0 < pps then 1 / pps else 0)"

record echo =
  eo_seq :: nat
  eo_sent :: nat
  eo_bytes :: nat
  eo_next :: rat
  eo_wire :: "bytes list"
  eo_slept :: "rat list"
  eo_rx :: echo_rx

definition echo_init :: "rat \<Rightarrow> echo" where
  "echo_init start = \<lparr>eo_seq = 0, eo_sent = 0, eo_bytes = 0, eo_next = start, eo_wire = [], eo_slept = [],
     eo_rx = echo_rx_init\<rparr>"

definition echo_stamp :: "rat \<Rightarrow> nat" where
  "echo_stamp now = nat (\<lfloor>now * 1000000000\<rfloor> mod 2 ^ 64)"

definition echo_packet :: "nat \<Rightarrow> rat \<Rightarrow> nat \<Rightarrow> bytes res" where
  "echo_packet psize now seq =
    (if 2 ^ 64 \<le> seq then Inl (ValueError ''struct'')
     else Inr (le_bytes 8 (echo_stamp now) @ le_bytes 8 seq @ replicate (psize - 16) 0x55))"

text \<open>The attempt to send at time \<open>now\<close>; \<open>ok\<close>: \<open>sendto\<close> raised no \<open>OSError\<close>.\<close>

definition echo_send :: "nat \<Rightarrow> rat \<Rightarrow> rat \<Rightarrow> bool \<Rightarrow> echo \<Rightarrow> echo res" where
  "echo_send psize interval now ok s =
    res_bind (echo_packet psize now (eo_seq s)) (\<lambda>p.
    let s1 = (if ok then s\<lparr>eo_seq := eo_seq s + 1, eo_sent := eo_sent s + 1, eo_bytes := eo_bytes s + psize,
                eo_wire := eo_wire s @ [p]\<rparr> else s);
        due = eo_next s + interval
    in Inr (if 0 < interval then s1\<lparr>eo_next := (if due < now - 1 / 20 then now else due)\<rparr> else s1))"

text \<open>One round: the clock at its head and after it, the outcome of a send, what is drained, and the
  clock for the slack. The clock at the head has already been compared with the end.\<close>

record echo_round =
  rd_head :: rat
  rd_now :: rat
  rd_ok :: bool
  rd_got :: "(bytes \<times> rat) list"
  rd_slack :: rat

definition echo_tail :: "rat \<Rightarrow> echo_round \<Rightarrow> echo \<Rightarrow> echo" where
  "echo_tail interval r s =
    (let s2 = s\<lparr>eo_rx := drain (rd_got r) (eo_rx s)\<rparr>;
         slack = (if 0 < interval then min (eo_next s2 - rd_slack r) (1 / 1000) else 0)
     in if 0 < slack then s2\<lparr>eo_slept := eo_slept s2 @ [slack]\<rparr> else s2)"

definition echo_step :: "nat \<Rightarrow> rat \<Rightarrow> echo_round \<Rightarrow> echo \<Rightarrow> echo res" where
  "echo_step psize interval r s =
    res_bind (if eo_next s \<le> rd_now r then echo_send psize interval (rd_now r) (rd_ok r) s else Inr s)
      (\<lambda>s1. Inr (echo_tail interval r s1))"

text \<open>\<open>None\<close>: the rounds ran out before the end.\<close>

fun echo_loop :: "nat \<Rightarrow> rat \<Rightarrow> rat \<Rightarrow> echo_round list \<Rightarrow> echo \<Rightarrow> echo res option" where
  "echo_loop psize interval end_t [] s = None"
| "echo_loop psize interval end_t (r # rounds) s =
    (if rd_head r < end_t then
       (case echo_step psize interval r s of
          Inl e \<Rightarrow> Some (Inl e)
        | Inr s1 \<Rightarrow> echo_loop psize interval end_t rounds s1)
     else Some (Inr s))"

section \<open>The report\<close>

record echo_report =
  er_tx_mbps :: rat
  er_loss :: "rat option"
  er_rtt :: "(rat \<times> rat \<times> rat) option"
  er_rate :: "(rat \<times> rat) option"

definition echo_results :: "rat \<Rightarrow> rat \<Rightarrow> echo \<Rightarrow> echo_report res" where
  "echo_results secs elapsed s =
    (let rx = eo_rx s in
     if 0 < ex_pkts rx \<and> secs = 0 then Inl ZeroDivisionError
     else Inr \<lparr>er_tx_mbps = (if 0 < elapsed then of_nat (eo_bytes s) * 8 / elapsed / 1000000 else 0),
       er_loss = (if 0 < eo_sent s
         then Some (100 * (of_nat (eo_sent s) - of_nat (ex_pkts rx)) / of_nat (eo_sent s)) else None),
       er_rtt = (if 0 < ex_n rx
         then Some (ex_min rx * 1000000, ex_sum rx / of_nat (ex_n rx) * 1000000, ex_max rx * 1000000) else None),
       er_rate = (if 0 < ex_pkts rx
         then Some (of_nat (ex_bytes rx) * 8 / secs / 1000000, of_nat (ex_pkts rx) / secs) else None)\<rparr>)"

text \<open>\<open>main\<close>: the loop from \<open>start\<close>, then what is drained in the last second.\<close>

definition echo_main :: "nat \<Rightarrow> rat \<Rightarrow> rat \<Rightarrow> rat \<Rightarrow> echo_round list \<Rightarrow> rat \<Rightarrow> (bytes \<times> rat) list
    \<Rightarrow> echo_report res option" where
  "echo_main psize mbps secs start rounds stop late =
    map_option (\<lambda>r. res_bind r (\<lambda>s.
        echo_results secs (stop - start) (s\<lparr>eo_rx := drain late (eo_rx s)\<rparr>)))
      (echo_loop (echo_size psize) (echo_interval psize mbps) (start + secs) rounds (echo_init start))"

section \<open>Lemmas\<close>

text \<open>The round-trip times that count are positive and below five seconds, and the minimum, the mean and
  the maximum are in this order.\<close>

definition rtt_inv :: "echo_rx \<Rightarrow> bool" where
  "rtt_inv e \<longleftrightarrow> ex_n e \<le> ex_pkts e
    \<and> (if ex_n e = 0 then ex_min e = 10 ^ 18 \<and> ex_max e = 0 \<and> ex_sum e = 0
       else 0 < ex_min e \<and> ex_min e * of_nat (ex_n e) \<le> ex_sum e \<and> ex_sum e \<le> ex_max e * of_nat (ex_n e)
         \<and> ex_max e < 5)"

lemma rtt_inv_init: "rtt_inv echo_rx_init"
  by (simp add: rtt_inv_def echo_rx_init_def)

lemma rtt_inv_data:
  assumes "rtt_inv e"
  shows "rtt_inv (echo_rx_data data t e)"
proof (cases "16 \<le> length data \<and> 0 < echo_rtt data t \<and> echo_rtt data t < 5")
  case True
  define r where "r = echo_rtt data t"
  have r: "0 < r" "r < 5" using True by (simp_all add: r_def)
  let ?d = "echo_rx_data data t e"
  have d: "ex_n ?d = ex_n e + 1" "ex_pkts ?d = ex_pkts e + 1" "ex_sum ?d = ex_sum e + r"
    "ex_min ?d = min (ex_min e) r" "ex_max ?d = max (ex_max e) r"
    using True by (simp_all add: echo_rx_data_def Let_def r_def min_def max_def)
  show ?thesis
  proof (cases "ex_n e = 0")
    case True
    then show ?thesis using assms r unfolding rtt_inv_def d by (simp add: min_def max_def)
  next
    case False
    define n where "n = (of_nat (ex_n e) :: rat)"
    have n: "0 \<le> n" by (simp add: n_def)
    have e: "ex_min e * n \<le> ex_sum e" "ex_sum e \<le> ex_max e * n" "0 < ex_min e" "ex_max e < 5"
      using assms False by (simp_all add: rtt_inv_def n_def)
    have "min (ex_min e) r * n \<le> ex_min e * n" "ex_max e * n \<le> max (ex_max e) r * n"
      using n by (simp_all add: mult_right_mono)
    moreover have "min (ex_min e) r \<le> r" "r \<le> max (ex_max e) r" by simp_all
    ultimately have "min (ex_min e) r * (n + 1) \<le> ex_sum e + r" "ex_sum e + r \<le> max (ex_max e) r * (n + 1)"
      using e(1, 2) by (simp_all add: distrib_left)
    then show ?thesis
      using assms e r unfolding rtt_inv_def d by (simp add: n_def add.commute)
  qed
next
  case False
  then show ?thesis using assms by (auto simp: echo_rx_data_def Let_def rtt_inv_def)
qed

lemma rtt_inv_drain: "rtt_inv e \<Longrightarrow> rtt_inv (drain got e)"
  unfolding drain_def by (induction got arbitrary: e) (auto simp: rtt_inv_data)

text \<open>What is sent is numbered from 0, of the given size, and paced: the next time moves on by the
  interval with every datagram, and it is reached before one is sent.\<close>

definition echo_inv :: "nat \<Rightarrow> rat \<Rightarrow> rat \<Rightarrow> rat \<Rightarrow> echo \<Rightarrow> bool" where
  "echo_inv psize interval start bound s \<longleftrightarrow>
    eo_seq s = eo_sent s \<and> eo_sent s = length (eo_wire s) \<and> eo_bytes s = psize * eo_sent s
    \<and> (\<forall>i < length (eo_wire s). length (eo_wire s ! i) = psize \<and> from_bytes_le (slice (eo_wire s ! i) 8 16) = i)
    \<and> (0 < interval \<longrightarrow> start + of_nat (eo_sent s) * interval \<le> eo_next s \<and> eo_next s \<le> bound + interval)
    \<and> rtt_inv (eo_rx s)"

lemma echo_inv_init: "0 \<le> interval \<Longrightarrow> start \<le> bound \<Longrightarrow> echo_inv psize interval start bound (echo_init start)"
  by (simp add: echo_inv_def echo_init_def rtt_inv_init)

lemma echo_packet_reads:
  assumes "echo_packet psize now seq = Inr p" and "16 \<le> psize"
  shows "length p = psize" and "from_bytes_le (slice p 8 16) = seq" and "from_bytes_le (take 8 p) = echo_stamp now"
proof -
  have q: "seq < 256 ^ 8" "p = le_bytes 8 (echo_stamp now) @ le_bytes 8 seq @ replicate (psize - 16) 0x55"
    using assms(1) by (simp_all add: echo_packet_def split: if_splits)
  have t: "echo_stamp now < 256 ^ 8"
    by (simp add: echo_stamp_def nat_less_iff)
  have len: "length (le_bytes 8 k) = 8" for k by simp
  show "length p = psize" using assms(2) unfolding q(2) by simp
  show "from_bytes_le (slice p 8 16) = seq"
    unfolding q(2) slice_def using from_le_bytes [OF q(1)] len by simp
  show "from_bytes_le (take 8 p) = echo_stamp now"
    unfolding q(2) using from_le_bytes [OF t] len by simp
qed

lemma echo_inv_send:
  assumes "echo_inv psize interval start bound s" and "echo_send psize interval now ok s = Inr s'"
    and "eo_next s \<le> now" and "now \<le> bound" and "16 \<le> psize"
  shows "echo_inv psize interval start bound s'"
proof -
  obtain p where p: "echo_packet psize now (eo_seq s) = Inr p"
    using assms(2) by (auto simp: echo_send_def res_simps)
  note q = echo_packet_reads [OF p assms(5)]
  let ?due = "eo_next s + interval"
  have s': "s' = (let s1 = (if ok then s\<lparr>eo_seq := eo_seq s + 1, eo_sent := eo_sent s + 1, eo_bytes := eo_bytes s + psize,
                eo_wire := eo_wire s @ [p]\<rparr> else s)
      in if 0 < interval then s1\<lparr>eo_next := (if ?due < now - 1 / 20 then now else ?due)\<rparr> else s1)"
    using assms(2) p by (simp add: echo_send_def Let_def)
  have n: "0 < interval \<longrightarrow> ?due \<le> eo_next s' \<and> eo_next s' \<le> bound + interval"
    using assms(3, 4) unfolding s' by (auto simp: Let_def)
  have k: "eo_sent s' \<le> eo_sent s + 1" unfolding s' by (simp add: Let_def)
  have "start + of_nat (eo_sent s') * interval \<le> eo_next s'" if i: "0 < interval"
  proof -
    have "of_nat (eo_sent s') * interval \<le> (of_nat (eo_sent s) + 1) * interval"
      using k i by (intro mult_right_mono) (simp_all flip: of_nat_Suc)
    moreover have "start + of_nat (eo_sent s) * interval \<le> eo_next s" using assms(1) i unfolding echo_inv_def by blast
    ultimately show ?thesis using n i by (simp add: distrib_right)
  qed
  moreover have "\<forall>i < length (eo_wire s'). length (eo_wire s' ! i) = psize \<and> from_bytes_le (slice (eo_wire s' ! i) 8 16) = i"
    using assms(1) q(1, 2) unfolding s' echo_inv_def by (auto simp: Let_def nth_append less_Suc_eq)
  moreover have "eo_seq s' = eo_sent s' \<and> eo_sent s' = length (eo_wire s') \<and> eo_bytes s' = psize * eo_sent s' \<and> rtt_inv (eo_rx s')"
    using assms(1) unfolding s' echo_inv_def by (auto simp: Let_def)
  ultimately show ?thesis using n unfolding echo_inv_def by blast
qed

lemma echo_inv_step:
  assumes "echo_inv psize interval start bound s" and "echo_step psize interval r s = Inr s'"
    and "rd_now r \<le> bound" and "16 \<le> psize"
  shows "echo_inv psize interval start bound s'"
proof -
  obtain s1 where s1: "(if eo_next s \<le> rd_now r then echo_send psize interval (rd_now r) (rd_ok r) s else Inr s) = Inr s1"
    "s' = echo_tail interval r s1"
    using assms(2) unfolding echo_step_def res_bind_Inr_iff by blast
  have "echo_inv psize interval start bound s1"
    using s1(1) assms echo_inv_send by (auto split: if_splits)
  moreover have t: "eo_seq s' = eo_seq s1" "eo_sent s' = eo_sent s1" "eo_bytes s' = eo_bytes s1"
    "eo_next s' = eo_next s1" "eo_wire s' = eo_wire s1" "eo_rx s' = drain (rd_got r) (eo_rx s1)"
    unfolding s1(2) by (simp_all add: echo_tail_def Let_def)
  ultimately show ?thesis unfolding echo_inv_def t using rtt_inv_drain by blast
qed

lemma echo_inv_loop:
  "echo_loop psize interval end_t rounds s = Some (Inr s') \<Longrightarrow> echo_inv psize interval start bound s \<Longrightarrow>
    list_all (\<lambda>r. rd_now r \<le> bound) rounds \<Longrightarrow> 16 \<le> psize \<Longrightarrow> echo_inv psize interval start bound s'"
  by (induction psize interval end_t rounds s rule: echo_loop.induct)
    (auto simp: echo_inv_step split: if_splits sum.splits)

lemma echo_interval_nonneg: "0 \<le> echo_interval n mbps"
  by (simp add: echo_interval_def Let_def)

section \<open>Theorems\<close>

text \<open>The datagrams sent carry the numbers 0, 1, ... and the given size, and there are never more than
  the rate allows: \<open>k\<close> of them take at least \<open>k - 1\<close> intervals, the catching up after a stall
  included.\<close>

theorem echo_paced:
  assumes "echo_loop (echo_size n) (echo_interval n mbps) end_t rounds (echo_init start) = Some (Inr s)"
    and "0 < echo_interval n mbps" and "start \<le> bound" and "list_all (\<lambda>r. rd_now r \<le> bound) rounds"
  shows "eo_sent s = length (eo_wire s) \<and> eo_bytes s = echo_size n * eo_sent s
    \<and> (\<forall>i < length (eo_wire s). length (eo_wire s ! i) = echo_size n \<and> from_bytes_le (slice (eo_wire s ! i) 8 16) = i)
    \<and> (of_nat (eo_sent s) - 1) * echo_interval n mbps \<le> bound - start"
proof -
  have "16 \<le> echo_size n" by (simp add: echo_size_def)
  then have "echo_inv (echo_size n) (echo_interval n mbps) start bound s"
    using echo_inv_loop [OF assms(1) echo_inv_init assms(4)] assms(2, 3) by simp
  then show ?thesis using assms(2) by (auto simp: echo_inv_def left_diff_distrib)
qed

text \<open>The times of the report are in order.\<close>

theorem echo_rtt_ordered:
  assumes "echo_main n mbps secs start rounds stop late = Some (Inr rep)" and "er_rtt rep = Some (lo, avg, hi)"
  shows "0 < lo \<and> lo \<le> avg \<and> avg \<le> hi \<and> hi < 5000000"
proof -
  obtain s where s: "echo_loop (echo_size n) (echo_interval n mbps) (start + secs) rounds (echo_init start) = Some (Inr s)"
    "echo_results secs (stop - start) (s\<lparr>eo_rx := drain late (eo_rx s)\<rparr>) = Inr rep"
    using assms(1) by (auto simp: echo_main_def res_simps)
  let ?bound = "Max (insert start (rd_now ` set rounds))"
  have "list_all (\<lambda>r. rd_now r \<le> ?bound) rounds" "start \<le> ?bound" by (auto simp: list_all_iff)
  then have "echo_inv (echo_size n) (echo_interval n mbps) start ?bound s"
    using echo_inv_loop [OF s(1) echo_inv_init] echo_interval_nonneg by (simp add: echo_size_def)
  then have inv: "rtt_inv (drain late (eo_rx s))" by (simp add: echo_inv_def rtt_inv_drain)
  obtain e where e: "e = drain late (eo_rx s)" by blast
  have t: "0 < ex_n e" "lo = ex_min e * 1000000" "avg = ex_sum e / of_nat (ex_n e) * 1000000" "hi = ex_max e * 1000000"
    using s(2) assms(2) unfolding e by (auto simp: echo_results_def Let_def split: if_splits)
  have "0 < ex_min e" "ex_min e * of_nat (ex_n e) \<le> ex_sum e" "ex_sum e \<le> ex_max e * of_nat (ex_n e)" "ex_max e < 5"
    using inv t(1) unfolding e [symmetric] rtt_inv_def by simp_all
  then show ?thesis
    using t(1) unfolding t(2-) by (simp add: pos_le_divide_eq pos_divide_le_eq)
qed

text \<open>The board returns a datagram as it was sent; then the time found is right to the nanosecond.\<close>

theorem echo_rtt_exact:
  assumes "echo_packet psize now seq = Inr p" and "16 \<le> psize" and "0 \<le> now" and "now * 1000000000 < 2 ^ 64"
  shows "t - now \<le> echo_rtt p t \<and> echo_rtt p t < t - now + 1 / 1000000000"
proof -
  define k where "k = \<lfloor>now * 1000000000\<rfloor>"
  have k: "0 \<le> k" "k < 2 ^ 64" "of_int k \<le> now * 1000000000" "now * 1000000000 < of_int k + 1"
    using assms(3, 4) floor_correct [of "now * 1000000000"] by (simp_all add: k_def floor_less_iff)
  then have "echo_stamp now = nat k" by (simp add: echo_stamp_def k_def)
  moreover have "(of_nat (nat k) :: rat) = of_int k" using k(1) by simp
  ultimately have "echo_rtt p t = t - of_int k / 1000000000"
    unfolding echo_rtt_def echo_packet_reads(3) [OF assms(1, 2)] by simp
  then show ?thesis using k(3, 4) by (simp add: field_simps)
qed

end
