(* ===== verification/Emz_Scapy.thy ===== *)
theory Emz_Scapy
  imports Emz_Io
begin

text \<open>
  \<open>fpga/arty_a7/scripts/debug/scapy_test.py\<close>: ARP and ICMP against the board with raw frames. scapy is a
  parameter: the world holds the replies it captures, each with the layers the script reads, and
  \<open>rebuilt\<close> is the checksum it computes for an ICMP layer whose own has been deleted.
\<close>

section \<open>The world\<close>

record sc_arp =
  sa_op :: nat
  sa_hwsrc :: string
  sa_psrc :: string

record sc_icmp =
  si_type :: nat
  si_seq :: nat
  si_chksum :: nat
  si_bytes :: bytes

record sc_packet =
  sp_arp :: "sc_arp option"
  sp_ip_src :: "string option"
  sp_icmp :: "sc_icmp option"

datatype sc_act = ScArp | ScIcmp nat | ScSniff

record sc_world =
  sw_replies :: "sc_packet option res list"
  sw_sniffed :: "unit res list"
  sw_log :: "sc_act list"

definition sc_act :: "sc_act \<Rightarrow> (sc_world, unit) io" where
  "sc_act a = io_modify (\<lambda>s. s\<lparr>sw_log := sw_log s @ [a]\<rparr>)"

text \<open>\<open>srp1\<close>: send a frame and return the reply to it, or \<open>None\<close> after the timeout.\<close>

definition sc_reply :: "sc_act \<Rightarrow> (sc_world, sc_packet option) io" where
  "sc_reply a = io_seq (sc_act a) (io_answer sw_replies (\<lambda>xs s. s\<lparr>sw_replies := xs\<rparr>))"

section \<open>The tests\<close>

definition SC_BOARD_IP :: string where "SC_BOARD_IP = ''192.168.137.200''"

definition SC_BOARD_MAC :: string where "SC_BOARD_MAC = ''02:00:00:00:00:01''"

definition SC_HOST_IP :: string where "SC_HOST_IP = ''192.168.137.1''"

text \<open>The interfaces with their addresses, as the operating system lists them.\<close>

fun find_iface :: "(string \<times> string list) list \<Rightarrow> string option" where
  "find_iface [] = None"
| "find_iface ((name, ips) # ifs) = (if SC_HOST_IP \<in> set ips then Some name else find_iface ifs)"

definition arp_verdict :: "sc_packet option \<Rightarrow> bool" where
  "arp_verdict reply =
    (case reply of None \<Rightarrow> False
     | Some p \<Rightarrow> (case sp_arp p of None \<Rightarrow> False
       | Some arp \<Rightarrow> if sa_op arp \<noteq> 2 then False
           else if lower (sa_hwsrc arp) \<noteq> lower SC_BOARD_MAC then False
           else if sa_psrc arp \<noteq> SC_BOARD_IP then False
           else True))"

definition test_arp :: "(sc_world, bool) io" where
  "test_arp = io_bind (sc_reply ScArp) (\<lambda>reply. io_ret (arp_verdict reply))"

text \<open>One reply to the request numbered \<open>i\<close>. A reply with an ICMP but no IP layer raises at
  \<open>reply[IP]\<close>.\<close>

definition icmp_verdict :: "(bytes \<Rightarrow> nat) \<Rightarrow> nat \<Rightarrow> sc_packet option \<Rightarrow> bool res" where
  "icmp_verdict rebuilt i reply =
    (case reply of None \<Rightarrow> Inr False
     | Some p \<Rightarrow> (case sp_icmp p of None \<Rightarrow> Inr False
       | Some icmp \<Rightarrow> (case sp_ip_src p of None \<Rightarrow> Inl IndexError
         | Some src \<Rightarrow>
             if si_type icmp \<noteq> 0 then Inr False
             else if src \<noteq> SC_BOARD_IP then Inr False
             else if si_seq icmp \<noteq> i then Inr False
             else if si_chksum icmp \<noteq> rebuilt (si_bytes icmp) then Inr False
             else Inr True)))"

fun icmp_from :: "(bytes \<Rightarrow> nat) \<Rightarrow> nat \<Rightarrow> nat \<Rightarrow> nat \<Rightarrow> (sc_world, nat) io" where
  "icmp_from rebuilt 0 i received = io_ret received"
| "icmp_from rebuilt (Suc n) i received =
    io_bind (sc_reply (ScIcmp i)) (\<lambda>reply.
    io_bind (res_io (icmp_verdict rebuilt i reply)) (\<lambda>ok.
    icmp_from rebuilt n (i + 1) (if ok then received + 1 else received)))"

definition test_icmp :: "(bytes \<Rightarrow> nat) \<Rightarrow> nat \<Rightarrow> (sc_world, bool) io" where
  "test_icmp rebuilt count = io_bind (icmp_from rebuilt count 0 0) (\<lambda>received. io_ret (received = count))"

definition sniff_test :: "(sc_world, unit) io" where
  "sniff_test = io_seq (sc_act ScSniff) (io_answer sw_sniffed (\<lambda>xs s. s\<lparr>sw_sniffed := xs\<rparr>))"

text \<open>\<open>main\<close>, with the exit code: the interface is the argument or the one found.\<close>

definition scapy_main :: "(bytes \<Rightarrow> nat) \<Rightarrow> string option \<Rightarrow> (string \<times> string list) list \<Rightarrow> (sc_world, nat) io" where
  "scapy_main rebuilt arg ifs =
    (case (case arg of Some a \<Rightarrow> Some a | None \<Rightarrow> find_iface ifs) of
       None \<Rightarrow> io_ret 1
     | Some iface \<Rightarrow>
         io_bind test_arp (\<lambda>arp_ok.
         io_bind (if arp_ok then test_icmp rebuilt 5 else io_ret False) (\<lambda>icmp_ok.
         io_seq sniff_test (io_ret (if arp_ok \<and> icmp_ok then 0 else 1)))))"

section \<open>Lemmas\<close>

text \<open>The replies a run of requests reads, and how many of them are right.\<close>

lemma icmp_from_Done:
  assumes "sw_replies s = map Inr rs @ rest" and "length rs = n"
    and "list_all2 (\<lambda>i r. icmp_verdict rebuilt i r = Inr (f i)) [i..<i + n] rs"
  shows "icmp_from rebuilt n i k s = Done (k + length (filter f [i..<i + n]))
    (s\<lparr>sw_log := sw_log s @ map ScIcmp [i..<i + n], sw_replies := rest\<rparr>)"
  using assms
proof (induction rs arbitrary: n i k s)
  case Nil
  then show ?case by simp
next
  case (Cons r rs)
  obtain m where m: "n = Suc m" "length rs = m" using Cons.prems(2) by auto
  have up: "[i..<i + n] = i # [i + 1..<i + 1 + m]" unfolding m(1) by (simp add: upt_rec)
  have v: "icmp_verdict rebuilt i r = Inr (f i)"
    "list_all2 (\<lambda>j r. icmp_verdict rebuilt j r = Inr (f j)) [i + 1..<i + 1 + m] rs"
    using Cons.prems(3) unfolding up by simp_all
  let ?s = "s\<lparr>sw_log := sw_log s @ [ScIcmp i], sw_replies := map Inr rs @ rest\<rparr>"
  have "icmp_from rebuilt n i k s = icmp_from rebuilt m (i + 1) (if f i then k + 1 else k) ?s"
    using Cons.prems(1) v(1) unfolding m(1)
    by (simp add: sc_reply_def sc_act_def io_seq_def io_bind_def io_answer_def res_io_def)
  then show ?case
    using Cons.IH [of ?s m "i + 1" "if f i then k + 1 else k"] m(2) v(2) unfolding up by simp
qed

section \<open>Theorem\<close>

text \<open>The exit code is 0 exactly if the ARP reply is right and each of the five echo replies answers its
  own request, from the board, with the checksum scapy computes. Without a right ARP reply no echo
  request is sent; the capture runs in every case.\<close>

theorem scapy_exit_code:
  assumes "find_iface ifs = Some name" and "sw_replies s = Inr a # map Inr rs @ rest" and "length rs = 5"
    and "list_all2 (\<lambda>i r. icmp_verdict rebuilt i r = Inr (f i)) [0..<5] rs" and "sw_sniffed s = Inr () # more_sniffs"
  shows "\<exists>t. scapy_main rebuilt None ifs s = Done (if arp_verdict a \<and> (\<forall>i < 5. f i) then 0 else 1) t
    \<and> sw_log t = sw_log s @ ScArp # (if arp_verdict a then map ScIcmp [0..<5] else []) @ [ScSniff]"
proof -
  let ?s1 = "s\<lparr>sw_log := sw_log s @ [ScArp], sw_replies := map Inr rs @ rest\<rparr>"
  have arp: "test_arp s = Done (arp_verdict a) ?s1"
    using assms(2) by (simp add: test_arp_def sc_reply_def sc_act_def io_seq_def io_bind_def io_answer_def)
  have icmp: "icmp_from rebuilt 5 0 0 ?s1 = Done (length (filter f [0..<5]))
      (?s1\<lparr>sw_log := (sw_log s @ [ScArp]) @ map ScIcmp [0..<5], sw_replies := rest\<rparr>)"
    using icmp_from_Done [of ?s1 rs rest 5 rebuilt f 0 0] assms(3, 4) by simp
  have all: "length (filter f [0..<5]) = 5 \<longleftrightarrow> (\<forall>i < 5. f i)"
    using length_filter_less [of _ "[0..<5]" f] filter_id_conv [of f "[0..<5]"]
    by (metis (no_types, lifting) atLeast_upt diff_zero filter_True length_upt lessThan_iff order_less_irrefl)
  show ?thesis
  proof (cases "arp_verdict a")
    case True
    then show ?thesis
      using arp icmp all assms(1, 5) unfolding scapy_main_def test_icmp_def
      by (simp add: io_bind_def io_seq_def sniff_test_def sc_act_def io_answer_def)
  next
    case False
    then show ?thesis
      using arp assms(1, 5) unfolding scapy_main_def
      by (simp add: io_bind_def io_seq_def sniff_test_def sc_act_def io_answer_def)
  qed
qed

end
