(* ===== verification/Emz_HwBuild.thy ===== *)
theory Emz_HwBuild
  imports Emz_Io
begin

text \<open>
  \<open>fpga/arty_a7/scripts/hw_build_test.py\<close>: build, program, smoke-test and regression-test the Arty A7.
  The world holds whether the bitstream exists at each time it is asked for, the exit codes of the
  child processes in order, and whether the monitor could be started; the log has the processes and
  what was done to them. Banners and timing are left out.
\<close>

section \<open>The world\<close>

datatype hw_act =
    HwRun "string list"
  | HwWrite string string
  | HwUnlink string
  | HwPopen "string list"
  | HwSleep
  | HwTerminate
  | HwWait

record hw =
  h_exists :: "bool list"
  h_codes :: "int res list"
  h_popen :: "unit res list"
  h_log :: "hw_act list"


text \<open>The host: the interpreter, the repository, the temporary script, and where Vivado is.\<close>

record hw_host =
  hh_python :: string
  hh_scripts :: string
  hh_tmp :: string
  hh_which :: "string option"
  hh_path_exists :: "string \<Rightarrow> bool"

definition hw_do :: "hw_act \<Rightarrow> (hw, unit) io" where
  "hw_do a = io_modify (\<lambda>s. s\<lparr>h_log := h_log s @ [a]\<rparr>)"

definition hw_code :: "(hw, int) io" where
  "hw_code = io_answer h_codes (\<lambda>xs s. s\<lparr>h_codes := xs\<rparr>)"

definition hw_run :: "string list \<Rightarrow> (hw, int) io" where
  "hw_run cmd = io_seq (hw_do (HwRun cmd)) hw_code"

definition bit_exists :: "(hw, bool) io" where
  "bit_exists = (\<lambda>s. case h_exists s of [] \<Rightarrow> Starved | b # bs \<Rightarrow> Done b (s\<lparr>h_exists := bs\<rparr>))"


text \<open>\<open>max(1, (os.cpu_count() or 2) // 2)\<close>\<close>

definition default_jobs :: "nat option \<Rightarrow> nat" where
  "default_jobs cpus = max 1 ((case cpus of None \<Rightarrow> 2 | Some n \<Rightarrow> if n = 0 then 2 else n) div 2)"

section \<open>The phases\<close>




definition program_cmd :: "hw_host \<Rightarrow> string \<Rightarrow> string list" where
  "program_cmd h vivado = [vivado, ''-mode'', ''batch'', ''-source'', hh_scripts h @ ''/program_arty.tcl'',
     ''-log'', ''build_arty/vivado_program.log'', ''-nojournal'']"

definition hw_program :: "hw_host \<Rightarrow> string \<Rightarrow> (hw, int) io" where
  "hw_program h vivado = io_bind bit_exists (\<lambda>ex.
     if \<not> ex then io_raise (SystemExit ''ERROR: bitstream not found'') else hw_run (program_cmd h vivado))"

definition monitor_cmd :: "hw_host \<Rightarrow> string option \<Rightarrow> int \<Rightarrow> string list" where
  "monitor_cmd h port timeout =
    [hh_python h, hh_scripts h @ ''/serial_monitor.py'', ''--timeout'', show_int timeout]
    @ (case port of Some p \<Rightarrow> (if p \<noteq> [] then [''--port'', p] else []) | None \<Rightarrow> [])"

definition phase_smoke :: "hw_host \<Rightarrow> string \<Rightarrow> string option \<Rightarrow> int \<Rightarrow> (hw, int) io" where
  "phase_smoke h vivado port timeout =
    io_seq (hw_do (HwPopen (monitor_cmd h port timeout)))
    (io_seq (io_answer h_popen (\<lambda>xs s. s\<lparr>h_popen := xs\<rparr>))
    (io_seq (hw_do HwSleep)
    (io_bind (hw_program h vivado) (\<lambda>rc_prog.
     if rc_prog \<noteq> 0 then io_seq (hw_do HwTerminate) (io_ret rc_prog)
     else io_seq (hw_do HwWait) hw_code))))"



section \<open>The flow\<close>




section \<open>Lemmas\<close>


















section \<open>Theorems\<close>


text \<open>A smoke test without a bitstream starts the monitor, finds that it cannot reset the board and
  exits; the monitor is neither stopped nor waited for.\<close>

theorem hw_smoke_leaves_monitor:
  assumes "h_popen s = Inr () # ps" and "h_exists s = False # bs"
  shows "\<exists>t. phase_smoke h vivado port timeout s = Raised (SystemExit ''ERROR: bitstream not found'') t
    \<and> h_log t = h_log s @ [HwPopen (monitor_cmd h port timeout), HwSleep]"
  using assms
  by (simp add: phase_smoke_def hw_program_def bit_exists_def io_seq_def io_bind_def hw_do_def io_answer_def)






end
