(* ===== verification/Emz_Regex.thy ===== *)
theory Emz_Regex
  imports Emz_Text
begin

text \<open>
  The backtracking matcher of Python's \<open>re\<close>, for the scripts whose patterns have choices to
  revise (lazy repetitions, alternatives that share a beginning). A pattern is a value of the type
  \<open>re\<close>; \<open>rmatch\<close> gives, in the order in which the matcher tries them, the states in which a match
  may end, so that the first one is the match \<open>re\<close> reports. Texts are 8-bit characters and the
  classes \<open>\w\<close>, \<open>\d\<close> and \<open>\s\<close> are those of such characters; no pattern of the scripts matches
  the empty string.
\<close>

section \<open>Patterns\<close>

datatype re =
    Chr "char \<Rightarrow> bool"
  | Eps
  | Cat re re
  | Alt re re
  | Star bool re
  | Grp nat re
  | Look re
  | WordB
  | LineB
  | LineE

text \<open>Where the matcher stands: the character before, the text ahead, and the groups captured so
  far, the latest first.\<close>

record mstate =
  m_prev :: "char option"
  m_rest :: string
  m_groups :: "(nat \<times> string) list"

definition m_step :: "mstate \<Rightarrow> mstate" where
  "m_step s = s\<lparr>m_prev := Some (hd (m_rest s)), m_rest := tl (m_rest s)\<rparr>"

text \<open>The characters between two states.\<close>

definition consumed :: "mstate \<Rightarrow> mstate \<Rightarrow> string" where
  "consumed s t = take (length (m_rest s) - length (m_rest t)) (m_rest s)"

definition is_word :: "char option \<Rightarrow> bool" where
  "is_word c = (case c of None \<Rightarrow> False | Some c \<Rightarrow> word_char c)"

definition ahead :: "string \<Rightarrow> char option" where
  "ahead s = (case s of [] \<Rightarrow> None | c # _ \<Rightarrow> Some c)"

text \<open>A greedy repetition tries one more round first, a lazy one tries to stop first. A round that
  consumes nothing ends the repetition.\<close>

function star_from :: "bool \<Rightarrow> (mstate \<Rightarrow> mstate list) \<Rightarrow> mstate \<Rightarrow> mstate list" where
  "star_from greedy m s =
    (let more = concat (map (\<lambda>t. if length (m_rest t) < length (m_rest s) then star_from greedy m t else []) (m s))
     in if greedy then more @ [s] else s # more)"
  by pat_completeness auto
termination by (relation "measure (\<lambda>(_, _, s). length (m_rest s))") auto

declare star_from.simps [simp del]

primrec rmatch :: "re \<Rightarrow> mstate \<Rightarrow> mstate list" where
  "rmatch (Chr P) = (\<lambda>s. case m_rest s of [] \<Rightarrow> [] | c # _ \<Rightarrow> if P c then [m_step s] else [])"
| "rmatch Eps = (\<lambda>s. [s])"
| "rmatch (Cat a b) = (\<lambda>s. concat (map (rmatch b) (rmatch a s)))"
| "rmatch (Alt a b) = (\<lambda>s. rmatch a s @ rmatch b s)"
| "rmatch (Star greedy r) = star_from greedy (rmatch r)"
| "rmatch (Grp i r) = (\<lambda>s. map (\<lambda>t. t\<lparr>m_groups := (i, consumed s t) # m_groups t\<rparr>) (rmatch r s))"
| "rmatch (Look r) = (\<lambda>s. if rmatch r s \<noteq> [] then [s] else [])"
| "rmatch WordB = (\<lambda>s. if is_word (m_prev s) \<noteq> is_word (ahead (m_rest s)) then [s] else [])"
| "rmatch LineB = (\<lambda>s. if m_prev s = None \<or> m_prev s = Some (CHR 0x0A) then [s] else [])"
| "rmatch LineE = (\<lambda>s. if m_rest s = [] \<or> hd (m_rest s) = CHR 0x0A then [s] else [])"

text \<open>Patterns as the scripts write them. \<open>clit\<close> is a literal without regard to case.\<close>

fun cat :: "re list \<Rightarrow> re" where
  "cat [] = Eps"
| "cat [r] = r"
| "cat (r # rs) = Cat r (cat rs)"

definition lit :: "string \<Rightarrow> re" where
  "lit w = cat (map (\<lambda>c. Chr (\<lambda>d. d = c)) w)"

definition clit :: "string \<Rightarrow> re" where
  "clit w = cat (map (\<lambda>c. Chr (\<lambda>d. lower_char d = lower_char c)) w)"

abbreviation opt :: "re \<Rightarrow> re" where "opt r \<equiv> Alt r Eps"
abbreviation many :: "(char \<Rightarrow> bool) \<Rightarrow> re" where "many P \<equiv> Star True (Chr P)"

definition some :: "(char \<Rightarrow> bool) \<Rightarrow> re" where
  "some P = Cat (Chr P) (many P)"

abbreviation blanks :: re where "blanks \<equiv> many py_space"
abbreviation blanks1 :: re where "blanks1 \<equiv> some py_space"

section \<open>Searching\<close>

record match_at =
  ma_start :: nat
  ma_end :: nat
  ma_groups :: "(nat \<times> string) list"
  ma_text :: string

text \<open>A group of a match, or the empty string for a group that took no part.\<close>

definition group :: "match_at \<Rightarrow> nat \<Rightarrow> string" where
  "group m i = (case map_of (ma_groups m) i of None \<Rightarrow> [] | Some w \<Rightarrow> w)"

text \<open>\<open>finditer\<close>: the matches from the left; after a match, \<open>k\<close> characters of it are still to be
  passed.\<close>

fun finds_from :: "re \<Rightarrow> nat \<Rightarrow> nat \<Rightarrow> char option \<Rightarrow> string \<Rightarrow> match_at list" where
  "finds_from r k pos prev [] = []"
| "finds_from r k pos prev (c # cs) =
    (if 0 < k then finds_from r (k - 1) (Suc pos) (Some c) cs
     else (let s = \<lparr>m_prev = prev, m_rest = c # cs, m_groups = []\<rparr> in
       case rmatch r s of
         [] \<Rightarrow> finds_from r 0 (Suc pos) (Some c) cs
       | t # _ \<Rightarrow>
           \<lparr>ma_start = pos, ma_end = pos + length (consumed s t), ma_groups = m_groups t, ma_text = consumed s t\<rparr>
           # finds_from r (length (consumed s t) - 1) (Suc pos) (Some c) cs))"

definition finds :: "re \<Rightarrow> string \<Rightarrow> match_at list" where
  "finds r s = finds_from r 0 0 None s"

definition re_search :: "re \<Rightarrow> string \<Rightarrow> match_at option" where
  "re_search r s = (case finds r s of [] \<Rightarrow> None | m # _ \<Rightarrow> Some m)"

text \<open>\<open>fullmatch\<close>: the first way to match that reaches the end.\<close>

definition re_full :: "re \<Rightarrow> string \<Rightarrow> match_at option" where
  "re_full r s =
    (case filter (\<lambda>t. m_rest t = []) (rmatch r \<lparr>m_prev = None, m_rest = s, m_groups = []\<rparr>) of
       [] \<Rightarrow> None
     | t # _ \<Rightarrow> Some \<lparr>ma_start = 0, ma_end = length s, ma_groups = m_groups t, ma_text = s\<rparr>)"

text \<open>\<open>re.subn\<close> with a function of the match: the text with every match replaced, and how many.\<close>

fun splice :: "(match_at \<Rightarrow> string) \<Rightarrow> string \<Rightarrow> nat \<Rightarrow> match_at list \<Rightarrow> string" where
  "splice f s pos [] = drop pos s"
| "splice f s pos (m # ms) = slice s pos (ma_start m) @ f m @ splice f s (ma_end m) ms"

definition re_subn :: "re \<Rightarrow> (match_at \<Rightarrow> string) \<Rightarrow> string \<Rightarrow> string \<times> nat" where
  "re_subn r f s = (splice f s 0 (finds r s), length (finds r s))"

section \<open>What the matcher means\<close>

text \<open>The declarative reading: a pattern takes the matcher from one state to another. A repetition is
  any number of rounds that each consume something.\<close>

inductive takes :: "re \<Rightarrow> mstate \<Rightarrow> mstate \<Rightarrow> bool" where
  takes_Chr: "m_rest s = c # cs \<Longrightarrow> P c \<Longrightarrow> takes (Chr P) s (m_step s)"
| takes_Eps: "takes Eps s s"
| takes_Cat: "takes a s t \<Longrightarrow> takes b t u \<Longrightarrow> takes (Cat a b) s u"
| takes_AltL: "takes a s t \<Longrightarrow> takes (Alt a b) s t"
| takes_AltR: "takes b s t \<Longrightarrow> takes (Alt a b) s t"
| takes_Stop: "takes (Star g r) s s"
| takes_Round: "takes r s t \<Longrightarrow> length (m_rest t) < length (m_rest s) \<Longrightarrow> takes (Star g r) t u \<Longrightarrow> takes (Star g r) s u"
| takes_Grp: "takes r s t \<Longrightarrow> takes (Grp i r) s (t\<lparr>m_groups := (i, consumed s t) # m_groups t\<rparr>)"
| takes_Look: "takes r s t \<Longrightarrow> takes (Look r) s s"
| takes_WordB: "is_word (m_prev s) \<noteq> is_word (ahead (m_rest s)) \<Longrightarrow> takes WordB s s"
| takes_LineB: "m_prev s = None \<or> m_prev s = Some (CHR 0x0A) \<Longrightarrow> takes LineB s s"
| takes_LineE: "m_rest s = [] \<or> hd (m_rest s) = CHR 0x0A \<Longrightarrow> takes LineE s s"

inductive_simps takes_simps:
  "takes (Chr P) s t"
  "takes Eps s t"
  "takes (Cat a b) s t"
  "takes (Alt a b) s t"
  "takes (Grp i r) s t"
  "takes (Look r) s t"
  "takes WordB s t"
  "takes LineB s t"
  "takes LineE s t"

lemma star_from_set:
  "u \<in> set (star_from g m s) \<longleftrightarrow>
    u = s \<or> (\<exists>t \<in> set (m s). length (m_rest t) < length (m_rest s) \<and> u \<in> set (star_from g m t))"
  by (subst star_from.simps) (auto simp: Let_def)

lemma star_from_takes:
  assumes "\<And>s t. t \<in> set (m s) \<longleftrightarrow> takes r s t"
  shows "u \<in> set (star_from g m s) \<longleftrightarrow> takes (Star g r) s u"
proof
  show "takes (Star g r) s u" if "u \<in> set (star_from g m s)"
    using that
  proof (induction "length (m_rest s)" arbitrary: s rule: less_induct)
    case less
    from less.prems show ?case unfolding star_from_set [of u g m s]
    proof (elim disjE bexE conjE)
      fix t assume "t \<in> set (m s)" "length (m_rest t) < length (m_rest s)" "u \<in> set (star_from g m t)"
      then show ?thesis using less.hyps assms by (blast intro: takes_Round)
    qed (simp add: takes_Stop)
  qed
  show "u \<in> set (star_from g m s)" if "takes (Star g r) s u"
    using that
  proof (induction "Star g r" s u rule: takes.induct)
    case (takes_Round s t u)
    then show ?case using assms star_from_set [of u g m s] by blast
  qed (subst star_from_set, simp)
qed

text \<open>The matcher finds exactly the ways in which a pattern can match.\<close>

lemma rmatch_takes: "t \<in> set (rmatch r s) \<longleftrightarrow> takes r s t"
proof (induction r arbitrary: s t)
  case (Chr P)
  show ?case by (cases "m_rest s") (auto simp: takes_simps)
next
  case (Star g r)
  show ?case unfolding rmatch.simps by (rule star_from_takes) (rule Star)
next
  case (Look r)
  have "rmatch r s \<noteq> [] \<longleftrightarrow> (\<exists>u. takes r s u)" unfolding Look [symmetric] by (cases "rmatch r s") auto
  then show ?case by (auto simp: takes_simps)
qed (auto simp: takes_simps)

text \<open>A match consumes a piece of the text ahead.\<close>

definition follows :: "mstate \<Rightarrow> mstate \<Rightarrow> string \<Rightarrow> bool" where
  "follows s t w \<longleftrightarrow> m_rest s = w @ m_rest t \<and> m_prev t = (if w = [] then m_prev s else Some (last w))"

lemma follows_consumed: "follows s t w \<Longrightarrow> consumed s t = w"
  by (simp add: follows_def consumed_def)

lemma follows_refl: "follows s s []"
  by (simp add: follows_def)

lemma follows_trans: "follows s t v \<Longrightarrow> follows t u w \<Longrightarrow> follows s u (v @ w)"
  by (auto simp: follows_def)

lemma takes_follows: "takes r s t \<Longrightarrow> \<exists>w. follows s t w"
proof (induction rule: takes.induct)
  case (takes_Chr s c cs P)
  then show ?case by (intro exI [of _ "[c]"]) (simp add: follows_def m_step_def)
next
  case (takes_Grp r s t i)
  then show ?case by (auto simp: follows_def)
qed (blast intro: follows_refl follows_trans)+

lemma takes_many: "takes (many P) s t \<longleftrightarrow> (\<exists>w. list_all P w \<and> follows s t w \<and> m_groups t = m_groups s)"
proof
  show "\<exists>w. list_all P w \<and> follows s t w \<and> m_groups t = m_groups s" if "takes (many P) s t"
    using that
  proof (induction "many P" s t rule: takes.induct)
    case (takes_Stop s)
    then show ?case by (intro exI [of _ "[]"]) (simp add: follows_refl)
  next
    case (takes_Round s t u)
    then obtain c cs where c: "m_rest s = c # cs" "P c" "t = m_step s" by (auto simp: takes_simps)
    obtain w where w: "list_all P w" "follows t u w" "m_groups u = m_groups t" using takes_Round by blast
    then show ?case using c by (intro exI [of _ "c # w"]) (auto simp: follows_def m_step_def)
  qed
  show "takes (many P) s t" if ex: "\<exists>w. list_all P w \<and> follows s t w \<and> m_groups t = m_groups s"
  proof -
    obtain w where "list_all P w" "follows s t w" "m_groups t = m_groups s" using ex by blast
    then show ?thesis
    proof (induction w arbitrary: s)
      case Nil
      then have "t = s" by (simp add: follows_def)
      then show ?case by (simp add: takes_Stop)
    next
      case (Cons c w)
      then have r: "m_rest s = c # w @ m_rest t" by (simp add: follows_def)
      have "takes (Chr P) s (m_step s)" using Cons.prems(1) by (simp add: takes_simps r)
      moreover have "takes (many P) (m_step s) t"
        using Cons.prems by (intro Cons.IH) (auto simp: follows_def m_step_def)
      ultimately show ?case using r by (auto intro: takes_Round simp: m_step_def)
    qed
  qed
qed

lemma takes_cat: "takes (cat (r # rs)) s u \<longleftrightarrow> (\<exists>t. takes r s t \<and> takes (cat rs) t u)"
  by (cases rs) (auto simp: takes_simps)

text \<open>A sequence of one-character patterns consumes one character for each.\<close>

lemma takes_chars:
  "takes (cat (map Chr Ps)) s t \<longleftrightarrow>
    (\<exists>w. list_all2 (\<lambda>P c. P c) Ps w \<and> follows s t w \<and> m_groups t = m_groups s)"
proof (induction Ps arbitrary: s)
  case Nil
  show ?case by (auto simp: takes_simps follows_def intro: mstate.equality)
next
  case (Cons P Ps)
  have "takes (cat (map Chr (P # Ps))) s t
    \<longleftrightarrow> (\<exists>c cs. m_rest s = c # cs \<and> P c \<and> takes (cat (map Chr Ps)) (m_step s) t)"
    by (auto simp: takes_cat takes_simps)
  also have "\<dots> \<longleftrightarrow> (\<exists>w. list_all2 (\<lambda>P c. P c) (P # Ps) w \<and> follows s t w \<and> m_groups t = m_groups s)"
    (is "?l \<longleftrightarrow> ?r")
  proof
    assume ?l
    then obtain c cs w where "m_rest s = c # cs" "P c" "list_all2 (\<lambda>P c. P c) Ps w" "follows (m_step s) t w"
      "m_groups t = m_groups (m_step s)" unfolding Cons.IH by blast
    then show ?r by (intro exI [of _ "c # w"]) (auto simp: follows_def m_step_def)
  next
    assume ?r
    then obtain c v where "P c" "list_all2 (\<lambda>P c. P c) Ps v" "follows s t (c # v)" "m_groups t = m_groups s"
      by (auto simp: list_all2_Cons1)
    then show ?l unfolding Cons.IH
      by (intro exI [of _ c] exI [of _ "v @ m_rest t"] conjI exI [of _ v]) (auto simp: follows_def m_step_def)
  qed
  finally show ?case .
qed

lemma takes_clit:
  "takes (clit v) s t \<longleftrightarrow> (\<exists>w. lower w = lower v \<and> follows s t w \<and> m_groups t = m_groups s)"
proof -
  have "list_all2 (\<lambda>P c. P c) (map (\<lambda>c d. lower_char d = lower_char c) v) w \<longleftrightarrow> lower w = lower v" for w
    by (induction v arbitrary: w) (auto simp: lower_def list_all2_Cons1 Cons_eq_map_conv)
  moreover have e: "clit v = cat (map Chr (map (\<lambda>c d. lower_char d = lower_char c) v))"
    by (simp add: clit_def o_def)
  ultimately show ?thesis unfolding e takes_chars by simp
qed

lemma takes_lit: "takes (lit v) s t \<longleftrightarrow> follows s t v \<and> m_groups t = m_groups s"
proof -
  have "list_all2 (\<lambda>P c. P c) (map (\<lambda>c d. d = c) v) w \<longleftrightarrow> w = v" for w
    by (induction v arbitrary: w) (auto simp: list_all2_Cons1)
  moreover have e: "lit v = cat (map Chr (map (\<lambda>c d. d = c) v))" by (simp add: lit_def o_def)
  ultimately show ?thesis unfolding e takes_chars by simp
qed

lemma takes_some:
  "takes (some P) s t \<longleftrightarrow> (\<exists>w. w \<noteq> [] \<and> list_all P w \<and> follows s t w \<and> m_groups t = m_groups s)"
proof
  assume "takes (some P) s t"
  then obtain c cs w where "m_rest s = c # cs" "P c" "list_all P w" "follows (m_step s) t w" "m_groups t = m_groups s"
    by (auto simp: some_def takes_simps takes_many m_step_def)
  then show "\<exists>w. w \<noteq> [] \<and> list_all P w \<and> follows s t w \<and> m_groups t = m_groups s"
    by (intro exI [of _ "c # w"]) (auto simp: follows_def m_step_def)
next
  assume "\<exists>w. w \<noteq> [] \<and> list_all P w \<and> follows s t w \<and> m_groups t = m_groups s"
  then obtain c v where "P c" "list_all P v" "follows s t (c # v)" "m_groups t = m_groups s"
    by (auto simp: neq_Nil_conv)
  then show "takes (some P) s t"
    by (auto simp: some_def takes_simps takes_many follows_def m_step_def intro!: exI [of _ v])
qed

section \<open>Where the matches are\<close>

text \<open>The matches are in the text, in order and without overlap.\<close>

fun placed :: "string \<Rightarrow> nat \<Rightarrow> match_at list \<Rightarrow> bool" where
  "placed s lo [] = (lo \<le> length s)"
| "placed s lo (m # ms) = (lo \<le> ma_start m \<and> ma_end m = ma_start m + length (ma_text m)
     \<and> slice s (ma_start m) (ma_end m) = ma_text m \<and> placed s (ma_end m) ms)"

lemma placed_mono: "placed s lo ms \<Longrightarrow> lo' \<le> lo \<Longrightarrow> placed s lo' ms"
  by (cases ms) auto

lemma rmatch_hd:
  "rmatch r s = t # ts \<Longrightarrow> takes r s t \<and> (\<exists>w. follows s t w \<and> consumed s t = w)"
  using rmatch_takes [of t r s] takes_follows [of r s t] by (auto simp: follows_consumed)

lemma finds_from_placed:
  "k \<le> length str \<Longrightarrow> placed (pre @ str) (length pre + k) (finds_from r k (length pre) prev str)"
proof (induction str arbitrary: k pre prev)
  case (Cons c cs)
  have next_pos: "placed (pre @ c # cs) (Suc (length pre) + j) (finds_from r j (Suc (length pre)) (Some c) cs)"
    if "j \<le> length cs" for j
    using Cons.IH [of j "pre @ [c]" "Some c"] that by simp
  show ?case
  proof (cases k)
    case (Suc j)
    then show ?thesis using next_pos [of j] Cons.prems by simp
  next
    case 0
    let ?s = "\<lparr>m_prev = prev, m_rest = c # cs, m_groups = []\<rparr>"
    show ?thesis
    proof (cases "rmatch r ?s")
      case Nil
      then show ?thesis using 0 next_pos [of 0] by (simp add: placed_mono)
    next
      case (Cons t ts)
      then obtain w where w: "follows ?s t w" "consumed ?s t = w" using rmatch_hd by blast
      then have cs: "c # cs = w @ m_rest t" by (simp add: follows_def)
      then have len: "length w \<le> Suc (length cs)" by (metis length_Cons length_append le_add1)
      have "slice (pre @ c # cs) (length pre) (length pre + length w) = w"
        unfolding cs by (simp add: slice_def)
      moreover have "placed (pre @ c # cs) (length pre + length w)
          (finds_from r (length w - 1) (Suc (length pre)) (Some c) cs)"
        by (rule placed_mono [OF next_pos [of "length w - 1"]]) (use len in linarith)+
      ultimately show ?thesis using 0 by (simp add: Cons w(2))
    qed
  qed
qed simp

lemma finds_placed: "placed s 0 (finds r s)"
  using finds_from_placed [of 0 s "[]" r None] by (simp add: finds_def)

lemma slice_drop: "a \<le> b \<Longrightarrow> slice s a b @ drop b s = drop a s"
  using append_take_drop_id [of "b - a" "drop a s"] by (simp add: slice_def)

lemma splice_same: "placed s lo ms \<Longrightarrow> splice ma_text s lo ms = drop lo s"
proof (induction ms arbitrary: lo)
  case (Cons m ms)
  then have le: "lo \<le> ma_start m" "ma_start m \<le> ma_end m" by simp_all
  have "splice ma_text s lo (m # ms) = slice s lo (ma_start m) @ slice s (ma_start m) (ma_end m) @ drop (ma_end m) s"
    using Cons by (metis placed.simps(2) splice.simps(2))
  also have "\<dots> = drop lo s" by (simp only: slice_drop [OF le(2)] slice_drop [OF le(1)])
  finally show ?case .
qed simp

text \<open>Every match is one of the pattern somewhere.\<close>

lemma finds_from_takes:
  "m \<in> set (finds_from r k pos prev str) \<Longrightarrow> \<exists>s t. takes r s t \<and> m_groups s = [] \<and> m_groups t = ma_groups m \<and> follows s t (ma_text m)"
proof (induction str arbitrary: k pos prev)
  case (Cons c cs)
  let ?s = "\<lparr>m_prev = prev, m_rest = c # cs, m_groups = []\<rparr>"
  show ?case
  proof (cases "0 < k \<or> rmatch r ?s = []")
    case True
    then show ?thesis using Cons by (auto split: if_splits)
  next
    case False
    then obtain t ts where t: "rmatch r ?s = t # ts" by (cases "rmatch r ?s") auto
    note h = rmatch_hd [OF t]
    show ?thesis
    proof (cases "m = \<lparr>ma_start = pos, ma_end = pos + length (consumed ?s t), ma_groups = m_groups t, ma_text = consumed ?s t\<rparr>")
      case True
      then show ?thesis using h by (intro exI [of _ ?s] exI [of _ t]) auto
    next
      case m: False
      then have "m \<in> set (finds_from r (length (consumed ?s t) - 1) (Suc pos) (Some c) cs)"
        using Cons.prems False t by (simp add: Let_def)
      then show ?thesis by (rule Cons.IH)
    qed
  qed
qed simp

lemma finds_takes:
  "m \<in> set (finds r str) \<Longrightarrow> \<exists>s t. takes r s t \<and> m_groups s = [] \<and> m_groups t = ma_groups m \<and> follows s t (ma_text m)"
  unfolding finds_def by (rule finds_from_takes)

section \<open>Whole words\<close>

text \<open>The words of a text: its longest runs of word characters.\<close>

function word_runs :: "string \<Rightarrow> string list" where
  "word_runs [] = []"
| "word_runs (c # cs) =
    (if word_char c then takeWhile word_char (c # cs) # word_runs (dropWhile word_char cs) else word_runs cs)"
  by pat_completeness auto
termination
  by (relation "measure length") (simp_all add: less_Suc_eq_le length_dropWhile_le)

text \<open>A pattern \<open>\b...\b\<close> whose inner part matches the non-empty strings of word characters with a
  property \<open>Q\<close>, and no others, finds the words with that property.\<close>

definition bounded :: "re \<Rightarrow> re" where
  "bounded r = Cat WordB (Cat r WordB)"

locale word_pattern =
  fixes body :: re and Q :: "string \<Rightarrow> bool"
  assumes sound: "takes body s t \<Longrightarrow> \<exists>w. follows s t w \<and> w \<noteq> [] \<and> list_all word_char w \<and> Q w"
    and complete: "m_rest s = w @ u \<Longrightarrow> w \<noteq> [] \<Longrightarrow> list_all word_char w \<Longrightarrow> Q w \<Longrightarrow>
      \<exists>t. takes body s t \<and> follows s t w"
begin

lemma takes_bounded:
  "takes (bounded body) s t \<longleftrightarrow>
    takes body s t \<and> is_word (m_prev s) \<noteq> is_word (ahead (m_rest s)) \<and> is_word (m_prev t) \<noteq> is_word (ahead (m_rest t))"
  by (auto simp: bounded_def takes_simps)

text \<open>Where it matches, it matches the whole run that starts there.\<close>

lemma bounded_run:
  assumes "takes (bounded body) s t"
  shows "\<not> is_word (m_prev s) \<and> consumed s t = takeWhile word_char (m_rest s) \<and> consumed s t \<noteq> []
    \<and> Q (consumed s t)"
proof -
  have b: "takes body s t" "is_word (m_prev s) \<noteq> is_word (ahead (m_rest s))"
    "is_word (m_prev t) \<noteq> is_word (ahead (m_rest t))" using assms by (simp_all add: takes_bounded)
  obtain w where w: "follows s t w" "w \<noteq> []" "list_all word_char w" "Q w" using sound [OF b(1)] by blast
  then have "is_word (m_prev t)" by (auto simp: follows_def is_word_def list_all_iff)
  then have n: "\<not> is_word (ahead (m_rest t))" using b(3) by simp
  have "is_word (ahead (m_rest s))" using w by (cases w) (auto simp: follows_def is_word_def ahead_def)
  moreover have "takeWhile word_char (m_rest s) = w"
    using w(1,3) n by (cases "m_rest t") (auto simp: follows_def takeWhile_append2 list_all_iff is_word_def ahead_def)
  ultimately show ?thesis using b(2) w follows_consumed [OF w(1)] by simp
qed

lemma bounded_matches:
  assumes "\<not> is_word (m_prev s)" and "takeWhile word_char (m_rest s) = w" and "w \<noteq> []" and "Q w"
  shows "\<exists>t. takes (bounded body) s t"
proof -
  have l: "list_all word_char w" using assms(2) by (auto simp: list_all_iff dest: set_takeWhileD)
  obtain u where u: "m_rest s = w @ u" "u = dropWhile word_char (m_rest s)"
    using assms(2) takeWhile_dropWhile_id by metis
  obtain t where t: "takes body s t" "follows s t w" using complete [OF u(1) assms(3) l assms(4)] by blast
  then have r: "m_rest t = u" "m_prev t = Some (last w)" using t(2) u(1) assms(3) by (simp_all add: follows_def)
  have "is_word (m_prev t)" using r l assms(3) by (simp add: is_word_def list_all_iff)
  moreover have "\<not> is_word (ahead (m_rest t))"
    using u(2) [symmetric] unfolding r by (cases u) (auto simp: is_word_def ahead_def dropWhile_eq_Cons_conv)
  moreover have "is_word (ahead (m_rest s))" using u(1) l assms(3) by (cases w) (auto simp: is_word_def ahead_def)
  ultimately show ?thesis using t assms(1) takes_bounded by blast
qed

lemma finds_from_words:
  "(k = 0 \<and> \<not> is_word prev \<longrightarrow>
      map ma_text (finds_from (bounded body) k pos prev str) = filter Q (word_runs str))
   \<and> (is_word prev \<and> k \<le> length (takeWhile word_char str) \<longrightarrow>
      map ma_text (finds_from (bounded body) k pos prev str) = filter Q (word_runs (dropWhile word_char str)))"
proof (induction str arbitrary: k pos prev)
  case Nil
  show ?case by simp
next
  case (Cons c cs)
  let ?s = "\<lparr>m_prev = prev, m_rest = c # cs, m_groups = []\<rparr>"
  let ?ms = "rmatch (bounded body) ?s"
  have prev': "is_word (Some c) = word_char c" by (simp add: is_word_def)
  have none: "?ms = []" if "\<not> (\<not> is_word prev \<and> word_char c \<and> Q (takeWhile word_char (c # cs)))"
  proof (rule ccontr)
    assume "?ms \<noteq> []"
    then obtain t where "takes (bounded body) ?s t"
      using rmatch_takes [of "hd ?ms" "bounded body" ?s] by auto
    then show False using bounded_run [of ?s t] that by (auto split: if_splits)
  qed
  have skip: "finds_from (bounded body) 0 pos prev (c # cs) = finds_from (bounded body) 0 (Suc pos) (Some c) cs" if "?ms = []"
    using that by simp
  show ?case
  proof (intro conjI impI; elim conjE)
    assume k: "k = 0" and p: "\<not> is_word prev"
    show "map ma_text (finds_from (bounded body) k pos prev (c # cs)) = filter Q (word_runs (c # cs))"
    proof (cases "word_char c \<and> Q (takeWhile word_char (c # cs))")
      case False
      then have "?ms = []" using none by blast
      then show ?thesis using k skip False prev' Cons.IH [where k = 0 and pos = "Suc pos" and prev = "Some c"] by (auto simp del: finds_from.simps)
    next
      case True
      obtain t ts where ts: "?ms = t # ts"
        using bounded_matches [of ?s "takeWhile word_char (c # cs)"] p True rmatch_takes [of _ "bounded body" ?s]
        by (cases ?ms) auto
      then have "takes (bounded body) ?s t" using rmatch_takes [of t "bounded body" ?s] by simp
      from bounded_run [OF this] have w: "consumed ?s t = c # takeWhile word_char cs" using True by simp
      have "map ma_text (finds_from (bounded body) k pos prev (c # cs))
        = (c # takeWhile word_char cs) # map ma_text (finds_from (bounded body) (length (takeWhile word_char cs)) (Suc pos) (Some c) cs)"
        using k by (simp add: ts w)
      moreover have "word_char c" "Q (c # takeWhile word_char cs)" using True by (auto split: if_splits)
      ultimately show ?thesis using prev' Cons.IH [where k = "length (takeWhile word_char cs)" and pos = "Suc pos" and prev = "Some c"] by simp
    qed
  next
    assume p: "is_word prev" and k: "k \<le> length (takeWhile word_char (c # cs))"
    show "map ma_text (finds_from (bounded body) k pos prev (c # cs)) = filter Q (word_runs (dropWhile word_char (c # cs)))"
    proof (cases k)
      case 0
      then show ?thesis using none p skip prev' Cons.IH [where k = 0 and pos = "Suc pos" and prev = "Some c"] by (auto simp del: finds_from.simps)
    next
      case (Suc j)
      then show ?thesis using k prev' Cons.IH [where k = j and pos = "Suc pos" and prev = "Some c"] by (auto split: if_splits)
    qed
  qed
qed

lemma finds_words: "map ma_text (finds (bounded body) str) = filter Q (word_runs str)"
  using finds_from_words [of 0 None 0 str] by (simp add: finds_def is_word_def)

end

text \<open>A word without regard to case, and identifiers.\<close>

definition letter :: "char \<Rightarrow> bool" where
  "letter c = (c \<in> set ''abcdefghijklmnopqrstuvwxyzABCDEFGHIJKLMNOPQRSTUVWXYZ'')"

lemma lower_char_same: "c \<notin> set ''ABCDEFGHIJKLMNOPQRSTUVWXYZ'' \<Longrightarrow> lower_char c = c"
  unfolding lower_char_def by (subst map_of_zip_is_None [THEN iffD2]) simp_all

lemma lower_char_upper:
  "list_all (\<lambda>c. word_char (lower_char c) \<and> word_char c \<and> letter (lower_char c) \<and> letter c
    \<and> lower_char (lower_char c) = lower_char c) ''ABCDEFGHIJKLMNOPQRSTUVWXYZ''"
  by code_simp

lemma lower_char_laws:
  "word_char (lower_char c) = word_char c" "letter (lower_char c) = letter c"
  "lower_char (lower_char c) = lower_char c"
proof -
  have "word_char (lower_char c) = word_char c \<and> letter (lower_char c) = letter c
    \<and> lower_char (lower_char c) = lower_char c"
  proof (cases "c \<in> set ''ABCDEFGHIJKLMNOPQRSTUVWXYZ''")
    case True
    then show ?thesis using lower_char_upper unfolding list_all_iff by blast
  qed (simp add: lower_char_same)
  then show "word_char (lower_char c) = word_char c" "letter (lower_char c) = letter c"
    "lower_char (lower_char c) = lower_char c" by blast+
qed

lemmas word_char_lower = lower_char_laws(1)

lemma lower_lower: "lower (lower s) = lower s"
  by (simp add: lower_def lower_char_laws)

lemma clit_word_pattern:
  assumes "v \<noteq> []" and "list_all word_char v"
  shows "word_pattern (clit v) (\<lambda>w. lower w = lower v)"
proof
  fix s t assume "takes (clit v) s t"
  then obtain w where w: "lower w = lower v" "follows s t w" by (auto simp: takes_clit)
  have "list_all word_char w = list_all (\<lambda>c. word_char (lower_char c)) w" by (simp add: word_char_lower)
  also have "\<dots> = list_all word_char (lower w)" by (simp add: lower_def list_all_iff)
  also have "\<dots> = list_all word_char v" unfolding w(1) by (simp add: lower_def list_all_iff word_char_lower)
  finally show "\<exists>w. follows s t w \<and> w \<noteq> [] \<and> list_all word_char w \<and> lower w = lower v"
    using w assms by (intro exI [of _ w]) (auto simp: lower_def)
next
  fix s :: mstate and w u
  assume "m_rest s = w @ u" "w \<noteq> []" "list_all word_char w" "lower w = lower v"
  then show "\<exists>t. takes (clit v) s t \<and> follows s t w"
    by (intro exI [of _ "s\<lparr>m_prev := Some (last w), m_rest := u\<rparr>"]) (auto simp: takes_clit follows_def intro!: exI [of _ w])
qed

definition IDENT :: re where
  "IDENT = Cat (Chr letter) (many word_char)"

lemma letter_word: "letter c \<Longrightarrow> word_char c"
  by (auto simp: letter_def word_char_def)

interpretation ident: word_pattern IDENT "\<lambda>w. letter (hd w)"
proof
  fix s t assume "takes IDENT s t"
  then obtain c cs w where "m_rest s = c # cs" "letter c" "list_all word_char w" "follows (m_step s) t w"
    by (auto simp: IDENT_def takes_simps takes_many)
  then show "\<exists>w. follows s t w \<and> w \<noteq> [] \<and> list_all word_char w \<and> letter (hd w)"
    by (intro exI [of _ "c # w"]) (auto simp: follows_def m_step_def letter_word)
next
  fix s :: mstate and w u
  assume a: "m_rest s = w @ u" "w \<noteq> []" "list_all word_char w" "letter (hd w)"
  then obtain c v where w: "w = c # v" by (cases w) auto
  then show "\<exists>t. takes IDENT s t \<and> follows s t w"
    using a by (intro exI [of _ "s\<lparr>m_prev := Some (last w), m_rest := u\<rparr>"])
      (auto simp: IDENT_def takes_simps takes_many follows_def m_step_def)
qed

end
