(* ===== verification/Emz_Sens.thy ===== *)
theory Emz_Sens
  imports Emz_Regex "HOL-Library.Char_ord" "HOL-Library.List_Lexorder"
begin

text \<open>
  \<open>sim/parity/sens_check.py\<close>: the check of the sensitivity lists of VHDL processes. The patterns are
  those of the script, constructor for constructor; \<open>re.I\<close> turns literals into \<open>clit\<close> and \<open>re.S\<close>
  lets \<open>.\<close> match every character. A Python set is a list of which only the members matter; where
  the script sorts one, the list is sorted without duplicates. Reading the files is left to the
  caller, which passes their names and texts.
\<close>

section \<open>Patterns\<close>

abbreviation anything :: "char \<Rightarrow> bool" where "anything \<equiv> (\<lambda>_. True)"
abbreviation not_close :: "char \<Rightarrow> bool" where "not_close \<equiv> (\<lambda>c. c \<noteq> CHR '')'')"

fun alts :: "re list \<Rightarrow> re" where
  "alts [] = Eps"
| "alts [r] = r"
| "alts (r # rs) = Alt r (alts rs)"

definition ID :: re where "ID = bounded IDENT"

definition NAMES :: re where
  "NAMES = Grp 1 (Cat IDENT (Star True (cat [blanks, lit '','', blanks, IDENT])))"

definition ENTITY :: re where
  "ENTITY = cat [WordB, clit ''entity'', blanks1, Grp 1 (some word_char), blanks1, clit ''is'', WordB,
     Grp 2 (Star False (Chr anything)), WordB, clit ''end'', WordB, opt (Grp 3 (Cat blanks1 (clit ''entity''))),
     opt (Grp 4 (Cat blanks1 (some word_char))), blanks, lit '';'']"

definition PORT :: re where
  "PORT = cat [WordB, clit ''port'', blanks, lit ''('', Grp 1 (many anything), lit '')'', blanks, lit '';'']"

definition PORT_ITEM :: re where
  "PORT_ITEM = cat [NAMES, blanks, lit '':'', blanks, Grp 2 (alts [clit ''in'', clit ''inout'']), WordB]"

definition ARCH :: re where
  "ARCH = cat [WordB, clit ''architecture'', blanks1, some word_char, blanks1, clit ''of'', blanks1,
     Grp 1 (some word_char), blanks1, clit ''is'', WordB]"

definition EDGE :: re where
  "EDGE = Alt
     (cat [WordB, alts [clit ''rising_edge'', clit ''falling_edge''], blanks, lit ''('', blanks,
        Grp 1 (some word_char), blanks, lit '')''])
     (cat [WordB, Grp 2 (some word_char), lit [CHR 0x27], clit ''event'', WordB])"

definition ASYNC_EDGE :: re where
  "ASYNC_EDGE = Alt
     (cat [WordB, clit ''elsif'', blanks1, opt (lit ''(''), blanks, alts [clit ''rising_edge'', clit ''falling_edge''],
        blanks, lit ''(''])
     (cat [WordB, clit ''elsif'', blanks1, opt (lit ''(''), blanks, some word_char, lit [CHR 0x27], clit ''event'', WordB])"

definition SIGNAL :: re where
  "SIGNAL = cat [WordB, clit ''signal'', blanks1, NAMES, blanks, lit '':'']"

definition PROCESS :: re where
  "PROCESS = cat [WordB, clit ''process'', blanks, lit ''('', Grp 1 (many not_close), lit '')'',
     Grp 2 (Star False (Chr anything)), WordB, clit ''end'', blanks1, clit ''process'', WordB]"

definition LOCAL :: re where
  "LOCAL = cat [WordB, alts [clit ''variable'', clit ''constant''], blanks1, NAMES, blanks, lit '':'']"

definition LOOP_INDEX :: re where
  "LOOP_INDEX = cat [WordB, clit ''for'', blanks1, Grp 1 (some word_char), blanks1, clit ''in'', WordB]"

definition BEGIN_WORD :: re where "BEGIN_WORD = bounded (clit ''begin'')"

definition TARGET :: "string \<Rightarrow> re" where
  "TARGET s = cat [alts [LineB, lit '';'', bounded (clit ''then''), bounded (clit ''else''), BEGIN_WORD, lit ''=>''],
     blanks, clit s, blanks, opt (cat [lit ''('', many not_close, lit '')'']), blanks, lit ''<='']"

section \<open>The check\<close>

definition split_names :: "string \<Rightarrow> string list" where
  "split_names s = map (\<lambda>n. lower (strip n)) (filter (\<lambda>n. strip n \<noteq> []) (split_at (CHR '','') s))"

text \<open>\<open>line.split("--", 1)[0]\<close>\<close>

fun before_comment :: "string \<Rightarrow> string" where
  "before_comment [] = []"
| "before_comment (c # cs) = (if prefix ''--'' (c # cs) then [] else c # before_comment cs)"

definition strip_comments :: "string \<Rightarrow> string" where
  "strip_comments t = join [CHR 0x0A] (map before_comment (splitlines t))"

definition input_names :: "string \<Rightarrow> string list" where
  "input_names body = (case re_search PORT body of
     None \<Rightarrow> []
   | Some port \<Rightarrow> concat (map (\<lambda>p. split_names (group p 1)) (finds PORT_ITEM (group port 1))))"

text \<open>A later entity of the same name replaces an earlier one.\<close>

definition entity_inputs :: "string \<Rightarrow> string \<rightharpoonup> string list" where
  "entity_inputs t = map_of (rev (map (\<lambda>m. (lower (group m 1), input_names (group m 2))) (finds ENTITY t)))"

text \<open>Each architecture: its entity, where its text starts, and its text, up to the next one.\<close>

fun arch_spans :: "string \<Rightarrow> match_at list \<Rightarrow> (string \<times> nat \<times> string) list" where
  "arch_spans t [] = []"
| "arch_spans t [m] = [(lower (group m 1), ma_end m, slice t (ma_end m) (length t))]"
| "arch_spans t (m # m' # ms) =
    (lower (group m 1), ma_end m, slice t (ma_end m) (ma_start m')) # arch_spans t (m' # ms)"

definition architectures :: "string \<Rightarrow> (string \<times> nat \<times> string) list" where
  "architectures t = arch_spans t (finds ARCH t)"

definition uses :: "string \<Rightarrow> string \<Rightarrow> nat" where
  "uses t s = length (finds (bounded (clit s)) t)"

definition targets :: "string \<Rightarrow> string \<Rightarrow> nat" where
  "targets t s = length (finds (TARGET s) t)"

definition missing_reads :: "string \<Rightarrow> string list \<Rightarrow> string list" where
  "missing_reads t candidates =
    filter (\<lambda>s. targets t s < uses t s)
      (sort (remdups (filter (\<lambda>s. s \<in> set candidates) (map (\<lambda>m. lower (ma_text m)) (finds ID t)))))"

definition local_names :: "string \<Rightarrow> string list" where
  "local_names body = concat (map (\<lambda>d. split_names (group d 1)) (finds LOCAL body))
     @ map (\<lambda>d. lower (group d 1)) (finds LOOP_INDEX body)"

definition edge_names :: "string \<Rightarrow> string list" where
  "edge_names body = remdups (map (\<lambda>m. lower (if group m 1 \<noteq> [] then group m 1 else group m 2)) (finds EDGE body))"

definition proc_missing :: "string list \<Rightarrow> string list \<Rightarrow> string \<Rightarrow> string list" where
  "proc_missing sigs sens body =
    (let candidates = filter (\<lambda>s. s \<notin> set sens \<and> s \<notin> set (local_names body)) sigs;
         edges = edge_names body
     in if edges \<noteq> [] then
          (let missing = sort (filter (\<lambda>e. e \<notin> set sens) edges)
           in case re_search ASYNC_EDGE body of
                None \<Rightarrow> missing
              | Some async_end \<Rightarrow>
                  let start = (case re_search BEGIN_WORD body of None \<Rightarrow> 0 | Some b \<Rightarrow> ma_end b)
                  in missing @ filter (\<lambda>s. s \<notin> set missing)
                       (missing_reads (slice body start (ma_start async_end)) candidates))
        else missing_reads body candidates)"

definition arch_signals :: "(string \<rightharpoonup> string list) \<Rightarrow> string \<Rightarrow> string \<Rightarrow> string list" where
  "arch_signals ents ent arch = (case ents ent of None \<Rightarrow> [] | Some ns \<Rightarrow> ns)
     @ concat (map (\<lambda>m. split_names (group m 1)) (finds SIGNAL arch))"

text \<open>The processes of a file: where each starts, the signals of its architecture, its list and its
  body.\<close>

definition processes :: "string \<Rightarrow> (nat \<times> string list \<times> string list \<times> string) list" where
  "processes t = concat (map (\<lambda>(ent, base, arch).
     map (\<lambda>m. (base + ma_start m, arch_signals (entity_inputs t) ent arch, split_names (group m 1), group m 2))
       (finds PROCESS arch)) (architectures t))"

definition sens_line :: "string \<Rightarrow> string \<Rightarrow> nat \<Rightarrow> string list \<Rightarrow> string" where
  "sens_line name t at missing = name @ '':'' @ show_nat (count_list (take at t) (CHR 0x0A) + 1)
     @ '': process does not list '' @ join '', '' missing"

definition check_file :: "string \<Rightarrow> string \<Rightarrow> string list" where
  "check_file name content =
    (let t = strip_comments content
     in concat (map (\<lambda>(at, sigs, sens, body).
          let missing = proc_missing sigs sens body
          in if missing \<noteq> [] then [sens_line name t at missing] else []) (processes t)))"

text \<open>\<open>main\<close> on the files given or found: the lines printed and the exit code.\<close>

definition sens_main :: "(string \<times> string) list \<Rightarrow> string list \<times> nat" where
  "sens_main files =
    (let report = concat (map (\<lambda>(name, content). check_file name content) files)
     in (report @ [show_nat (length files) @ '' files, '' @ show_nat (length report)
           @ '' incomplete sensitivity list(s)''],
         if report \<noteq> [] then 1 else 0))"

section \<open>Lemmas\<close>

lemma word_runs_words: "w \<in> set (word_runs t) \<Longrightarrow> w \<noteq> [] \<and> list_all word_char w"
proof (induction t rule: word_runs.induct)
  case (2 c cs)
  show ?case
  proof (cases "word_char c")
    case True
    then have "w = c # takeWhile word_char cs \<or> w \<in> set (word_runs (dropWhile word_char cs))"
      using 2(3) by simp
    then show ?thesis
    proof
      assume "w = c # takeWhile word_char cs"
      then show ?thesis using True set_takeWhileD [of _ word_char cs] by (simp add: list_all_iff)
    qed (rule 2(1) [OF True])
  next
    case False
    then show ?thesis using 2(2,3) by simp
  qed
qed simp

lemma word_lower:
  "list_all word_char (lower w) = list_all word_char w" "lower w = [] \<longleftrightarrow> w = []"
  "w \<noteq> [] \<Longrightarrow> letter (hd (lower w)) = letter (hd w)"
  by (induction w) (simp_all add: lower_def lower_char_laws)

text \<open>The uses of a name are the words that are it, without regard to case.\<close>

definition count_word :: "string \<Rightarrow> string \<Rightarrow> nat" where
  "count_word t s = length (filter (\<lambda>w. lower w = lower s) (word_runs t))"

lemma uses_words:
  assumes "s \<noteq> []" and "list_all word_char s"
  shows "uses t s = count_word t s"
proof -
  have "uses t s = length (map ma_text (finds (bounded (clit s)) t))" by (simp add: uses_def)
  then show ?thesis
    unfolding word_pattern.finds_words [OF clit_word_pattern [OF assms]] count_word_def .
qed

lemma ID_words: "map (\<lambda>m. lower (ma_text m)) (finds ID t) = map lower (filter (\<lambda>w. letter (hd w)) (word_runs t))"
  unfolding ID_def ident.finds_words [symmetric] by simp

lemma proc_missing_empty_edges:
  "edge_names body = [] \<Longrightarrow> proc_missing sigs sens body
    = missing_reads body (filter (\<lambda>s. s \<notin> set sens \<and> s \<notin> set (local_names body)) sigs)"
  by (simp add: proc_missing_def Let_def)

lemma missing_reads_candidates: "set (missing_reads t cs) \<subseteq> set cs"
  by (auto simp: missing_reads_def)

lemma missing_reads_mem: "x \<in> set (missing_reads t (filter P cs)) \<Longrightarrow> x \<in> set cs \<and> P x"
  using missing_reads_candidates [of t "filter P cs"] by auto

lemma check_file_clean:
  "check_file name content = [] \<longleftrightarrow>
    (\<forall>(at, sigs, sens, body) \<in> set (processes (strip_comments content)). proc_missing sigs sens body = [])"
  by (auto simp: check_file_def Let_def split: if_splits)

section \<open>Theorems\<close>

text \<open>C35: The names \<open>missing_reads\<close> reports are exactly the candidates that are words of the text, start
  with a letter and occur more often than as targets of assignments; they are sorted, each once.\<close>

theorem missing_reads_words:
  "set (missing_reads t cs) = {s \<in> set cs. (\<exists>w \<in> set (word_runs t). letter (hd w) \<and> lower w = s)
      \<and> targets t s < count_word t s}
    \<and> sorted (missing_reads t cs) \<and> distinct (missing_reads t cs)"
proof -
  have u: "uses t (lower w) = count_word t (lower w)" if "w \<in> set (word_runs t)" for w
    using word_runs_words [OF that] by (intro uses_words) (simp_all add: word_lower)
  have m: "set (map (\<lambda>m. lower (ma_text m)) (finds ID t)) = lower ` {w \<in> set (word_runs t). letter (hd w)}"
    unfolding ID_words by simp
  have "set (missing_reads t cs) = {s \<in> lower ` {w \<in> set (word_runs t). letter (hd w)}. s \<in> set cs \<and> targets t s < uses t s}"
    unfolding missing_reads_def set_filter set_sort set_remdups m by blast
  also have "\<dots> = {s \<in> set cs. (\<exists>w \<in> set (word_runs t). letter (hd w) \<and> lower w = s) \<and> targets t s < count_word t s}"
    using u by auto
  finally show ?thesis by (simp add: missing_reads_def sorted_filter [where f = "\<lambda>x. x", simplified])
qed

text \<open>What a process is reported for is not in its list, and it is a clock it tests the edge of or a
  signal or input of its architecture that the process does not declare itself.\<close>

theorem proc_missing_sound:
  assumes "x \<in> set (proc_missing sigs sens body)"
  shows "x \<notin> set sens \<and> (x \<in> set (edge_names body) \<or> x \<in> set sigs \<and> x \<notin> set (local_names body))"
proof (cases "edge_names body = []")
  case True
  then show ?thesis using assms by (auto simp: proc_missing_empty_edges dest!: missing_reads_mem)
next
  case False
  let ?cs = "filter (\<lambda>s. s \<notin> set sens \<and> s \<notin> set (local_names body)) sigs"
  have "x \<in> set (filter (\<lambda>e. e \<notin> set sens) (edge_names body)) \<or> x \<in> set ?cs"
    using assms False
    by (auto simp: proc_missing_def Let_def dest!: missing_reads_mem split: option.splits)
  then show ?thesis by auto
qed

text \<open>C36: When the check exits with 0, every process of the files without a clock edge lists every signal
  and input it reads: every name that occurs as a word more often than as a target, unless the
  process declares it.\<close>

theorem sens_clean_complete:
  assumes "snd (sens_main files) = 0" and "(name, content) \<in> set files"
    and "(at, sigs, sens, body) \<in> set (processes (strip_comments content))"
    and "edge_names body = []" and "s \<in> set sigs" and "s \<notin> set (local_names body)"
    and "s \<noteq> []" and "letter (hd s)" and "lower s = s" and "targets body s < count_word body s"
  shows "s \<in> set sens"
proof (rule ccontr)
  assume n: "s \<notin> set sens"
  have "check_file name content = []"
    using assms(1,2) by (auto simp: sens_main_def Let_def split: if_splits)
  then have none: "proc_missing sigs sens body = []" using assms(3) unfolding check_file_clean by fast
  have "count_word body s \<noteq> 0" using assms(10) by simp
  then obtain w where w: "w \<in> set (word_runs body)" "lower w = s"
    using assms(9) by (auto simp: count_word_def filter_empty_conv)
  then have "letter (hd w)" using word_runs_words [OF w(1)] assms(8) word_lower(3) [of w] by simp
  then have "s \<in> set (missing_reads body (filter (\<lambda>s. s \<notin> set sens \<and> s \<notin> set (local_names body)) sigs))"
    using w n assms(5,6,10) by (subst missing_reads_words [THEN conjunct1]) auto
  then show False using none by (simp add: proc_missing_empty_edges [OF assms(4)])
qed

text \<open>The check exits with 0 exactly when no process of any file is reported.\<close>

theorem sens_main_exit:
  "snd (sens_main files) = 0 \<longleftrightarrow> (\<forall>(name, content) \<in> set files.
    \<forall>(at, sigs, sens, body) \<in> set (processes (strip_comments content)). proc_missing sigs sens body = [])"
proof -
  have "snd (sens_main files) = 0 \<longleftrightarrow> (\<forall>(name, content) \<in> set files. check_file name content = [])"
    by (auto simp: sens_main_def Let_def)
  then show ?thesis unfolding check_file_clean .
qed

section \<open>Witnesses\<close>

definition vhd_text :: string where
  "vhd_text = ''architecture r of e is signal s:a;begin process(s)begin y<=s;end process;''"

definition vhd_body :: string where "vhd_body = ''begin y<=s;''"

lemma vhd_processes: "processes (strip_comments vhd_text) = [(40, [''s''], [''s''], vhd_body)]"
  by code_simp

lemma vhd_body_reads:
  "edge_names vhd_body = []" "proc_missing [''s''] [''s''] vhd_body = []"
  "targets vhd_body ''s'' < count_word vhd_body ''s''" "local_names vhd_body = []"
  by code_simp+

theorem sens_clean_complete_witness: "''s'' \<in> set [''s'']"
proof (rule sens_clean_complete [where files = "[(''e.vhd'', vhd_text)]" and name = "''e.vhd''" and content = vhd_text
      and at = 40 and sigs = "[''s'']" and body = vhd_body])
  show "snd (sens_main [(''e.vhd'', vhd_text)]) = 0"
    by (simp add: sens_main_def check_file_def vhd_processes vhd_body_reads)
  show "(40, [''s''], [''s''], vhd_body) \<in> set (processes (strip_comments vhd_text))"
    by (simp add: vhd_processes)
qed (simp_all add: vhd_body_reads, simp_all add: letter_def lower_def lower_char_def)

lemma missing_demo: "proc_missing [''s'', ''a''] [''a''] ''begin y<=s;'' = [''s'']"
  by code_simp

theorem proc_missing_sound_witness:
  "''s'' \<notin> set [''a''] \<and> (''s'' \<in> set (edge_names ''begin y<=s;'') \<or> ''s'' \<in> set [''s'', ''a'']
    \<and> ''s'' \<notin> set (local_names ''begin y<=s;''))"
  by (rule proc_missing_sound) (simp add: missing_demo)

end
