(* ===== verification/Emz_Rom.thy ===== *)
theory Emz_Rom
  imports Emz_Regex "HOL-Library.Char_ord" "HOL-Library.List_Lexorder"
begin

text \<open>
  \<open>sim/parity/i2c_init/check_rom.py\<close>: the comparison of the Si5328 ROM in Verilog and in VHDL. The
  patterns are those of the script, constructor for constructor. The texts of the two files are
  arguments; the wording of the messages is reduced to what they report.
\<close>

section \<open>Bytes\<close>

datatype rom_byte = Si | Byte nat

abbreviation not_line_end :: "char \<Rightarrow> bool" where "not_line_end \<equiv> (\<lambda>c. c \<noteq> CHR 0x0A)"
abbreviation not_comma :: "char \<Rightarrow> bool" where "not_comma \<equiv> (\<lambda>c. c \<noteq> CHR '','')"
abbreviation quote :: string where "quote \<equiv> [CHR 0x22]"
abbreviation tick :: string where "tick \<equiv> [CHR 0x27]"

definition BYTE_FORMS :: "((string \<times> (char \<Rightarrow> bool) \<times> string) \<times> nat) list" where
  "BYTE_FORMS = [((''8'' @ tick @ ''h'', py_hex, []), 16), ((''8'' @ tick @ ''d'', py_digit, []), 10),
     ((''x'' @ quote, py_hex, quote), 16), ((''d8('', py_digit, '')''), 10)]"

definition byte_pattern :: "string \<times> (char \<Rightarrow> bool) \<times> string \<Rightarrow> re" where
  "byte_pattern form = (case form of (front, P, rear) \<Rightarrow> cat [lit front, Grp 1 (some P), lit rear])"

fun byte_from :: "((string \<times> (char \<Rightarrow> bool) \<times> string) \<times> nat) list \<Rightarrow> string \<Rightarrow> rom_byte res" where
  "byte_from [] tok = Inl (SystemExit (''cannot parse byte '' @ tok))"
| "byte_from ((form, base) # forms) tok =
    (case re_full (byte_pattern form) tok of
       None \<Rightarrow> byte_from forms tok
     | Some m \<Rightarrow> res_bind (int_of base (group m 1)) (\<lambda>val.
         if 255 < val then Inl (SystemExit (''byte out of range: '' @ tok)) else Inr (Byte val)))"

definition rom_byte :: "string \<Rightarrow> rom_byte res" where
  "rom_byte tok = (let tok = strip tok in if tok = ''si'' then Inr Si else byte_from BYTE_FORMS tok)"

section \<open>Tables\<close>

text \<open>The key of an entry: an index, or the default one.\<close>

datatype rom_key = Default | Index nat

type_synonym rom_entry = "nat \<times> rom_byte \<times> rom_byte \<times> rom_byte \<times> string"
type_synonym rom_table = "nat \<times> (rom_byte \<times> rom_byte) \<times> (rom_key \<times> rom_entry) list"

definition rom_key :: "string \<Rightarrow> rom_key res" where
  "rom_key idx = (if idx \<in> {''default'', ''others''} then Inr Default
     else res_bind (int_of 10 idx) (\<lambda>n. Inr (Index n)))"

definition LEN_VH :: re where
  "LEN_VH = cat [lit ''localparam'', blanks1, lit ''ROM_LEN'', blanks, lit ''='', blanks, Grp 1 (some py_digit),
     blanks, lit '';'']"

definition SI_VH :: re where
  "SI_VH = cat [lit ''si'', blanks, lit ''='', blanks, lit ''alt'', blanks, lit ''?'', blanks,
     Grp 1 (cat [lit (''8'' @ tick @ ''h''), some word_char]), blanks, lit '':'', blanks,
     Grp 2 (cat [lit (''8'' @ tick @ ''h''), some word_char]), blanks, lit '';'']"

text \<open>\<open>[ \t]*(?:mark\s*(.*))?$\<close>\<close>

definition comment_tail :: "string \<Rightarrow> nat \<Rightarrow> re" where
  "comment_tail mark i = cat [many (\<lambda>c. c = CHR '' '' \<or> c = CHR 0x09),
     opt (cat [lit mark, blanks, Grp i (many not_line_end)]), LineE]"

definition ENTRY_VH :: re where
  "ENTRY_VH = cat [LineB, blanks, Alt (Cat (lit (''16'' @ tick @ ''d'')) (Grp 1 (some py_digit))) (Grp 2 (lit ''default'')),
     blanks, lit '':'', blanks, lit ''rom_entry'', blanks, lit ''='', blanks,
     lit (''{2'' @ tick @ ''d''), Grp 3 (Chr py_digit), lit '','', blanks, Grp 4 (some not_comma), lit '','', blanks,
     Grp 5 (some not_comma), lit '','', blanks, Grp 6 (some (\<lambda>c. c \<noteq> CHR ''}'')), lit ''}'', blanks, lit '';'',
     comment_tail ''//'' 7]"

definition LEN_PKG :: re where
  "LEN_PKG = cat [lit ''constant'', blanks1, lit ''ROM_LEN'', blanks, lit '':'', blanks, lit ''integer'', blanks,
     lit '':='', blanks, Grp 1 (some py_digit), blanks, lit '';'']"

definition hex_literal :: "nat \<Rightarrow> re" where
  "hex_literal i = Grp i (cat [lit (''x'' @ quote), some word_char, lit quote])"

definition SI_PKG :: re where
  "SI_PKG = cat [lit ''if'', blanks1, lit ''alt'', blanks, lit ''='', blanks, lit (tick @ ''1'' @ tick), blanks1,
     lit ''then'', blanks1, lit ''si'', blanks, lit '':='', blanks, hex_literal 1, blanks, lit '';'', blanks,
     lit ''else'', blanks1, lit ''si'', blanks, lit '':='', blanks, hex_literal 2, blanks, lit '';'']"

definition ENTRY_PKG :: re where
  "ENTRY_PKG = cat [LineB, blanks, lit ''when'', blanks1, Grp 1 (Alt (some py_digit) (lit ''others'')), blanks, lit ''=>'',
     blanks, lit ''e'', blanks, lit '':='', blanks, lit ''ent('', Grp 2 (Chr py_digit), lit '','', blanks,
     Grp 3 (some not_comma), lit '','', blanks, Grp 4 (some not_comma), lit '','', blanks,
     Grp 5 (some (\<lambda>c. c \<noteq> CHR '';'')), lit '')'', blanks, lit '';'', comment_tail ''--'' 6]"

text \<open>\<open>re.search(...).group(...)\<close>: without a match \<open>None\<close> has no groups.\<close>

definition search_or_fail :: "re \<Rightarrow> string \<Rightarrow> match_at res" where
  "search_or_fail r t = (case re_search r t of None \<Rightarrow> Inl (AttributeError ''group'') | Some m \<Rightarrow> Inr m)"

definition rom_pair :: "match_at \<Rightarrow> (rom_byte \<times> rom_byte) res" where
  "rom_pair m = res_bind (rom_byte (group m 1)) (\<lambda>a. res_bind (rom_byte (group m 2)) (\<lambda>b. Inr (a, b)))"

text \<open>One entry, from the text of its key, and the groups of its last index, bytes and comment.\<close>

definition rom_entry_of :: "match_at \<Rightarrow> string \<Rightarrow> nat \<Rightarrow> (rom_key \<times> rom_entry) res" where
  "rom_entry_of m idx i =
    res_bind (rom_key idx) (\<lambda>k.
    res_bind (int_of 10 (group m i)) (\<lambda>l.
    res_bind (rom_byte (group m (i + 1))) (\<lambda>b0.
    res_bind (rom_byte (group m (i + 2))) (\<lambda>b1.
    res_bind (rom_byte (group m (i + 3))) (\<lambda>b2.
    Inr (k, (l, b0, b1, b2, strip (group m (i + 4)))))))))"

fun rom_entries :: "(match_at \<Rightarrow> string) \<Rightarrow> nat \<Rightarrow> match_at list \<Rightarrow> (rom_key \<times> rom_entry) list
    \<Rightarrow> (rom_key \<times> rom_entry) list res" where
  "rom_entries idx i [] d = Inr d"
| "rom_entries idx i (m # ms) d =
    res_bind (rom_entry_of m (idx m) i) (\<lambda>(k, e). rom_entries idx i ms (AList.update k e d))"

definition parse_rom_vh :: "string \<Rightarrow> rom_table res" where
  "parse_rom_vh t =
    res_bind (search_or_fail LEN_VH t) (\<lambda>m. res_bind (int_of 10 (group m 1)) (\<lambda>rom_len.
    res_bind (search_or_fail SI_VH t) (\<lambda>m. res_bind (rom_pair m) (\<lambda>si.
    res_bind (rom_entries (\<lambda>m. if group m 1 \<noteq> [] then group m 1 else group m 2) 3 (finds ENTRY_VH t) []) (\<lambda>es.
    Inr (rom_len, si, es))))))"

definition parse_rom_pkg :: "string \<Rightarrow> rom_table res" where
  "parse_rom_pkg t =
    res_bind (search_or_fail LEN_PKG t) (\<lambda>m. res_bind (int_of 10 (group m 1)) (\<lambda>rom_len.
    res_bind (search_or_fail SI_PKG t) (\<lambda>m. res_bind (rom_pair m) (\<lambda>si.
    res_bind (rom_entries (\<lambda>m. group m 1) 2 (finds ENTRY_PKG t) []) (\<lambda>es.
    Inr (rom_len, si, es))))))"

section \<open>The comparison\<close>

datatype rom_error =
    LenDiffers nat nat
  | SiDiffers "rom_byte \<times> rom_byte" "rom_byte \<times> rom_byte"
  | CountWrong nat nat
  | EntryDiffers rom_key "rom_entry option" "rom_entry option"

definition key_text :: "rom_key \<Rightarrow> string" where
  "key_text k = (case k of Default \<Rightarrow> ''default'' | Index n \<Rightarrow> show_nat n)"

definition rom_errors :: "rom_table \<Rightarrow> rom_table \<Rightarrow> rom_error list" where
  "rom_errors v p =
    (let (v_len, v_si, v_ent) = v; (p_len, p_si, p_ent) = p
     in (if v_len \<noteq> p_len then [LenDiffers v_len p_len] else [])
      @ (if v_si \<noteq> p_si then [SiDiffers v_si p_si] else [])
      @ (if length v_ent \<noteq> v_len \<or> Default \<notin> set (map fst v_ent) then [CountWrong (length v_ent) v_len] else [])
      @ map (\<lambda>k. EntryDiffers k (map_of v_ent k) (map_of p_ent k))
          (filter (\<lambda>k. map_of v_ent k \<noteq> map_of p_ent k)
            (sort_key key_text (remdups (map fst v_ent @ map fst p_ent)))))"

definition rom_main :: "string \<Rightarrow> string \<Rightarrow> (rom_error list \<times> nat) res" where
  "rom_main vh pkg =
    res_bind (parse_rom_vh vh) (\<lambda>v. res_bind (parse_rom_pkg pkg) (\<lambda>p.
    Inr (rom_errors v p, if rom_errors v p \<noteq> [] then 1 else 0)))"

section \<open>Lemmas\<close>

lemma rom_errors_none:
  "rom_errors (l, si, es) (l', si', es') = [] \<longleftrightarrow>
    l = l' \<and> si = si' \<and> length es = l \<and> Default \<in> dom (map_of es) \<and> map_of es = map_of es'"
proof -
  have "(\<forall>k \<in> set (map fst es @ map fst es'). map_of es k = map_of es' k) \<longleftrightarrow> map_of es = map_of es'"
  proof
    assume a: "\<forall>k \<in> set (map fst es @ map fst es'). map_of es k = map_of es' k"
    show "map_of es = map_of es'"
    proof
      fix k
      show "map_of es k = map_of es' k"
      proof (cases "k \<in> fst ` set es \<or> k \<in> fst ` set es'")
        case False
        then have "map_of es k = None" "map_of es' k = None" by (simp_all add: map_of_eq_None_iff)
        then show ?thesis by simp
      qed (use a in auto)
    qed
  qed simp
  then show ?thesis by (auto simp: rom_errors_def filter_empty_conv dom_map_of_conv_image_fst)
qed

lemma rom_entries_distinct:
  "rom_entries idx i ms d = Inr es \<Longrightarrow> distinct (map fst d) \<Longrightarrow> distinct (map fst es)"
proof (induction ms arbitrary: d)
  case (Cons m ms)
  then show ?case by (auto simp: res_bind_Inr_iff distinct_update)
qed simp

text \<open>A number between two fixed texts: the pattern of a byte matches the whole of it and its group
  is the number.\<close>

lemma byte_pattern_takes:
  "takes (byte_pattern (front, P, rear)) \<lparr>m_prev = None, m_rest = str, m_groups = []\<rparr> t \<and> m_rest t = []
    \<longleftrightarrow> (\<exists>w. str = front @ w @ rear \<and> w \<noteq> [] \<and> list_all P w \<and> m_groups t = [(1, w)] \<and> m_rest t = []
      \<and> m_prev t = Some (last str))"
  (is "?l \<longleftrightarrow> ?r")
proof
  assume ?l
  then obtain s1 s2 w where f: "follows \<lparr>m_prev = None, m_rest = str, m_groups = []\<rparr> s1 front" "m_groups s1 = []"
    "w \<noteq> []" "list_all P w" "follows s1 s2 w" "m_groups s2 = []"
    "follows (s2\<lparr>m_groups := [(1, w)]\<rparr>) t rear" "m_groups t = [(1, w)]" "m_rest t = []"
    by (auto simp: byte_pattern_def takes_cat takes_simps takes_lit takes_some follows_consumed)
  then show ?r by (intro exI [of _ w]) (auto simp: follows_def split: if_splits)
next
  assume ?r
  then obtain w where w: "str = front @ w @ rear" "w \<noteq> []" "list_all P w" "m_groups t = [(1, w)]" "m_rest t = []"
    "m_prev t = Some (last str)" by blast
  let ?s = "\<lparr>m_prev = None, m_rest = str, m_groups = []\<rparr>"
  let ?s1 = "\<lparr>m_prev = (if front = [] then None else Some (last front)), m_rest = w @ rear, m_groups = []\<rparr>"
  let ?s2 = "\<lparr>m_prev = Some (last w), m_rest = rear, m_groups = []\<rparr>"
  have f: "follows ?s1 ?s2 w" using w by (auto simp: follows_def)
  have "takes (lit front) ?s ?s1" using w by (auto simp: takes_lit follows_def)
  moreover have "takes (some P) ?s1 ?s2" using w f by (auto simp: takes_some)
  then have "takes (Grp 1 (some P)) ?s1 (?s2\<lparr>m_groups := [(1, w)]\<rparr>)"
    using takes_Grp [of "some P" ?s1 ?s2 1] follows_consumed [OF f] by simp
  moreover have "takes (lit rear) (?s2\<lparr>m_groups := [(1, w)]\<rparr>) t"
    using w by (auto simp: takes_lit follows_def)
  moreover have "takes (cat []) t t" by (simp add: takes_Eps)
  ultimately have "takes (byte_pattern (front, P, rear)) ?s t"
    unfolding byte_pattern_def prod.case takes_cat by (intro exI conjI)
  then show ?l using w by simp
qed

lemma byte_pattern_full:
  "re_full (byte_pattern (front, P, rear)) str =
    (if \<exists>w. str = front @ w @ rear \<and> w \<noteq> [] \<and> list_all P w
     then Some \<lparr>ma_start = 0, ma_end = length str,
       ma_groups = [(1, take (length str - length front - length rear) (drop (length front) str))], ma_text = str\<rparr>
     else None)"
proof -
  let ?s = "\<lparr>m_prev = None, m_rest = str, m_groups = []\<rparr>"
  let ?ts = "filter (\<lambda>t. m_rest t = []) (rmatch (byte_pattern (front, P, rear)) ?s)"
  have mem: "t \<in> set ?ts \<longleftrightarrow> (\<exists>w. str = front @ w @ rear \<and> w \<noteq> [] \<and> list_all P w \<and> m_groups t = [(1, w)] \<and> m_rest t = []
      \<and> m_prev t = Some (last str))" for t
    using byte_pattern_takes [of front P rear str t] rmatch_takes [of t "byte_pattern (front, P, rear)" ?s] by auto
  show ?thesis
  proof (cases ?ts)
    case Nil
    have "\<not> (str = front @ w @ rear \<and> w \<noteq> [] \<and> list_all P w)" for w
      using mem [of "\<lparr>m_prev = Some (last str), m_rest = [], m_groups = [(1, w)]\<rparr>"] unfolding Nil by auto
    then show ?thesis using Nil by (simp add: re_full_def)
  next
    case (Cons t ts)
    then have "t \<in> set ?ts" by simp
    then obtain w where "str = front @ w @ rear" "w \<noteq> []" "list_all P w" "m_groups t = [(1, w)]" unfolding mem by blast
    then show ?thesis using Cons by (auto simp: re_full_def)
  qed
qed

lemma strip_bounded:
  assumes "xs \<noteq> []" and "\<not> py_space (hd xs)" and "\<not> py_space (last xs)"
  shows "strip xs = xs"
proof -
  have "dropWhile py_space xs = xs" using assms(1,2) by (cases xs) simp_all
  moreover have "dropWhile py_space (rev xs) = rev xs" using assms(1,3) by (cases xs rule: rev_cases) simp_all
  ultimately show ?thesis by (simp add: strip_def lstrip_def rstrip_def)
qed

lemma hex_not_space: "py_hex c \<Longrightarrow> \<not> py_space c"
  by (auto simp: py_hex_def py_space_def)

lemma digit_hex: "py_digit c \<Longrightarrow> py_hex c"
  by (auto simp: py_digit_def py_hex_def)

text \<open>The value of a byte, once its digits are known.\<close>

definition byte_value :: "nat \<Rightarrow> string \<Rightarrow> string \<Rightarrow> rom_byte res" where
  "byte_value base w tok = res_bind (int_of base w) (\<lambda>val.
     if 255 < val then Inl (SystemExit (''byte out of range: '' @ tok)) else Inr (Byte val))"

lemma byte_from_match:
  assumes "w \<noteq> []" and "list_all P w"
  shows "byte_from (((front, P, rear), base) # forms) (front @ w @ rear) = byte_value base w (front @ w @ rear)"
proof -
  have "\<exists>v. front @ w @ rear = front @ v @ rear \<and> v \<noteq> [] \<and> list_all P v" using assms by blast
  then show ?thesis by (simp add: byte_pattern_full group_def byte_value_def)
qed

lemma byte_from_other:
  assumes "\<not> prefix front tok"
  shows "byte_from (((front, P, rear), base) # forms) tok = byte_from forms tok"
proof -
  have "\<not> (\<exists>v. tok = front @ v @ rear \<and> v \<noteq> [] \<and> list_all P v)" using assms by (auto simp: prefix_def)
  then have "re_full (byte_pattern (front, P, rear)) tok = None" unfolding byte_pattern_full by (rule if_not_P)
  then show ?thesis by simp
qed

section \<open>Theorems\<close>

text \<open>The two notations of a byte in each base have the same value: \<open>8'h..\<close> and \<open>x".."\<close> for
  hexadecimal digits, \<open>8'd..\<close> and \<open>d8(..)\<close> for decimal ones, and it is that of the digits when it
  fits eight bits.\<close>

theorem rom_byte_notations:
  assumes "w \<noteq> []" and "list_all py_hex w" and "d \<noteq> []" and "list_all py_digit d"
  shows "rom_byte (''8'' @ tick @ ''h'' @ w) = byte_value 16 w (''8'' @ tick @ ''h'' @ w)
    \<and> rom_byte (''x'' @ quote @ w @ quote) = byte_value 16 w (''x'' @ quote @ w @ quote)
    \<and> rom_byte (''8'' @ tick @ ''d'' @ d) = byte_value 10 d (''8'' @ tick @ ''d'' @ d)
    \<and> rom_byte (''d8('' @ d @ '')'') = byte_value 10 d (''d8('' @ d @ '')'')"
proof -
  have nsp: "\<not> py_space (last w)" "\<not> py_space (last d)"
    using assms hex_not_space digit_hex by (simp_all add: list_all_iff)
  have sp: "\<not> py_space CHR ''8''" "\<not> py_space CHR ''x''" "\<not> py_space CHR ''d''" "\<not> py_space CHR '')''"
    "\<not> py_space CHR 0x22" by (simp_all add: py_space_def)
  have s: "strip (''8'' @ tick @ ''h'' @ w) = ''8'' @ tick @ ''h'' @ w"
    "strip (''x'' @ quote @ w @ quote) = ''x'' @ quote @ w @ quote"
    "strip (''8'' @ tick @ ''d'' @ d) = ''8'' @ tick @ ''d'' @ d"
    "strip (''d8('' @ d @ '')'') = ''d8('' @ d @ '')''"
    using assms(1,3) nsp sp by (intro strip_bounded; simp)+
  have "byte_from BYTE_FORMS (''8'' @ tick @ ''h'' @ w) = byte_value 16 w (''8'' @ tick @ ''h'' @ w)"
    using byte_from_match [OF assms(1,2), of "''8'' @ tick @ ''h''" "[]"] by (simp add: BYTE_FORMS_def del: byte_from.simps)
  moreover have "byte_from BYTE_FORMS (''x'' @ quote @ w @ quote) = byte_value 16 w (''x'' @ quote @ w @ quote)"
    using byte_from_match [OF assms(1,2), of "''x'' @ quote" quote] by (simp add: BYTE_FORMS_def byte_from_other del: byte_from.simps)
  moreover have "byte_from BYTE_FORMS (''8'' @ tick @ ''d'' @ d) = byte_value 10 d (''8'' @ tick @ ''d'' @ d)"
    using byte_from_match [OF assms(3,4), of "''8'' @ tick @ ''d''" "[]"] by (simp add: BYTE_FORMS_def byte_from_other del: byte_from.simps)
  moreover have "byte_from BYTE_FORMS (''d8('' @ d @ '')'') = byte_value 10 d (''d8('' @ d @ '')'')"
    using byte_from_match [OF assms(3,4), of "''d8(''" "'')''"] by (simp add: BYTE_FORMS_def byte_from_other del: byte_from.simps)
  ultimately show ?thesis unfolding rom_byte_def Let_def s by simp
qed

text \<open>The check exits with 0 exactly when the two tables it parsed are the same: length, addresses
  and every entry with its comment; and the Verilog one has as many entries as its length says, the
  default one among them. No entry is counted twice.\<close>

theorem rom_main_exit:
  assumes "parse_rom_vh vh = Inr (l, si, es)" and "parse_rom_pkg pkg = Inr (l', si', es')"
  shows "\<exists>errors c. rom_main vh pkg = Inr (errors, c) \<and> distinct (map fst es)
    \<and> (c = 0 \<longleftrightarrow> l = l' \<and> si = si' \<and> length es = l \<and> Default \<in> dom (map_of es) \<and> map_of es = map_of es')"
proof -
  have "distinct (map fst es)"
    using assms(1) rom_entries_distinct [where d = "[]"] by (auto simp: parse_rom_vh_def res_bind_Inr_iff)
  moreover have "rom_main vh pkg = Inr (rom_errors (l, si, es) (l', si', es'),
      if rom_errors (l, si, es) (l', si', es') \<noteq> [] then 1 else 0)"
    by (simp add: rom_main_def assms)
  ultimately show ?thesis using rom_errors_none [of l si es l' si' es'] by auto
qed

section \<open>Witnesses\<close>

theorem rom_byte_notations_witness:
  "rom_byte (''8'' @ tick @ ''h'' @ ''fE'') = byte_value 16 ''fE'' (''8'' @ tick @ ''h'' @ ''fE'')
    \<and> rom_byte (''x'' @ quote @ ''fE'' @ quote) = byte_value 16 ''fE'' (''x'' @ quote @ ''fE'' @ quote)
    \<and> rom_byte (''8'' @ tick @ ''d'' @ ''300'') = byte_value 10 ''300'' (''8'' @ tick @ ''d'' @ ''300'')
    \<and> rom_byte (''d8('' @ ''300'' @ '')'') = byte_value 10 ''300'' (''d8('' @ ''300'' @ '')'')"
  by (rule rom_byte_notations) (simp_all add: py_hex_def py_digit_def)

definition vh_sample :: string where
  "vh_sample = join [CHR 0x0A] [''localparam ROM_LEN=1;'',
     ''si=alt?8'' @ tick @ ''h1:8'' @ tick @ ''h2;'',
     ''default:rom_entry={2'' @ tick @ ''d2,si,8'' @ tick @ ''d9,8'' @ tick @ ''hA};//x'']"

definition pkg_sample :: string where
  "pkg_sample = join [CHR 0x0A] [''constant ROM_LEN:integer:=1;'',
     ''if alt='' @ tick @ ''1'' @ tick @ '' then si:=x'' @ quote @ ''1'' @ quote @ '';else si:=x'' @ quote @ ''2'' @ quote @ '';'',
     ''when others=>e:=ent(2,si,d8(9),x'' @ quote @ ''A'' @ quote @ '');--x'']"

definition sample_entries :: "(rom_key \<times> rom_entry) list" where
  "sample_entries = [(Default, 2, Si, Byte 9, Byte 10, ''x'')]"

lemma rom_samples:
  "parse_rom_vh vh_sample = Inr (1, (Byte 1, Byte 2), sample_entries)"
  "parse_rom_pkg pkg_sample = Inr (1, (Byte 1, Byte 2), sample_entries)"
  unfolding sample_entries_def by code_simp+

theorem rom_main_exit_witness:
  "\<exists>errors c. rom_main vh_sample pkg_sample = Inr (errors, c)
    \<and> distinct (map fst sample_entries)
    \<and> (c = 0 \<longleftrightarrow> (1 :: nat) = 1 \<and> (Byte 1, Byte 2) = (Byte 1, Byte 2)
        \<and> length sample_entries = 1
        \<and> Default \<in> dom (map_of sample_entries)
        \<and> map_of sample_entries = map_of sample_entries)"
  by (rule rom_main_exit [OF rom_samples])

end
