(* ===== verification/Emz_Prove.thy ===== *)
theory Emz_Prove
  imports Emz_Regex
begin

text \<open>
  \<open>sim/parity/rgmii_if/prove_rgmii_if.py\<close> and \<open>sim/parity/arp_responder/prove_arp_responder.py\<close>:
  equivalence proofs that edit the netlist GHDL writes so that state pairs by name, and hand it to
  the prover of translateHDL. GHDL and the prover are parameters; the netlist file the prover reads
  is the text it is given. Paths are relative to the repository until they are used.
\<close>

section \<open>The tools\<close>

record l2_env =
  le_root :: string
  le_tmp :: string
  le_ghdl :: string
  le_unescape :: bool
  le_run :: "string list \<Rightarrow> string res"
  le_prove :: "string list \<Rightarrow> string list \<Rightarrow> string \<Rightarrow> string \<Rightarrow> nat \<Rightarrow> string \<times> string"

definition at_root :: "l2_env \<Rightarrow> string \<Rightarrow> string" where
  "at_root env p = le_root env @ ''/'' @ p"

definition ghdl_args :: "l2_env \<Rightarrow> string list" where
  "ghdl_args env = [''--std=93'', ''--workdir='' @ le_tmp env]"

section \<open>rgmii_if\<close>

definition L2_SPEEDS :: "string list" where
  "L2_SPEEDS = [''ALL'', ''1G_ONLY'', ''10_100'']"

definition L2_TARGETS :: "string list" where
  "L2_TARGETS = [''sim'', ''intel_cyclone'', ''xilinx_7series'', ''xilinx_ultrascale_plus'']"

text \<open>The golden Verilog and the candidate VHDL of one kind of DDR cell.\<close>

definition l2_sources :: "string \<Rightarrow> string list \<times> string list" where
  "l2_sources ddr =
    (if ddr = ''standin'' then
       ([''sim/parity/stubs/ddr_standin.v'', ''rtl/rgmii_if.v''],
        [''sim/parity/stubs/ddr_standin.vhd'', ''rtl/vhdl/rgmii_if.vhd''])
     else let xil = prefix ''xilinx'' ddr in
       ([''sim/parity/defines/'' @ ddr @ ''.vh'']
          @ (if xil then [''sim/parity/stubs/xilinx_ddr_prims.v''] else [])
          @ [''rtl/ddr_output.v'', ''rtl/ddr_input.v'', ''rtl/rgmii_if.v''],
        [''rtl/vhdl/target/emz_target_'' @ ddr @ ''.vhd'']
          @ (if xil then [''sim/parity/stubs/xilinx_ddr_prims.vhd''] else [])
          @ [''rtl/vhdl/ddr_output.vhd'', ''rtl/vhdl/ddr_input.vhd'', ''rtl/vhdl/rgmii_if.vhd'']))"

definition GEN_LABEL :: re where
  "GEN_LABEL = cat [WordB, Grp 1 (Alt (lit ''gen_txd'') (lit ''gen_rx_data'')), lit ''_n'', Grp 2 (some py_digit),
     lit ''_'', Grp 3 (Alt (lit ''u_txd'') (lit ''u_rxd'')), WordB, Look (lit '' ('')]"

definition gen_label :: "string \<Rightarrow> nat \<Rightarrow> string \<Rightarrow> string" where
  "gen_label block n cell = [CHR 0x5C] @ block @ ''['' @ show_int (int n - 1) @ ''].'' @ cell @ '' ''"

definition PRIM_LABEL :: "string \<Rightarrow> re" where
  "PRIM_LABEL ddr = cat [WordB, lit (''gen_'' @ ddr @ ''_''), Grp 1 (Alt (lit ''u_oddr'') (lit ''u_iddr'')), WordB,
     Look (lit '' ('')]"

definition digits_value :: "string \<Rightarrow> nat" where
  "digits_value w = foldl (\<lambda>n c. 10 * n + digit_value c) 0 w"

definition relabel :: "string \<Rightarrow> string \<Rightarrow> string res" where
  "relabel net ddr =
    (let (net, n) = re_subn GEN_LABEL (\<lambda>m. gen_label (group m 1) (digits_value (group m 2)) (group m 3)) net
     in if n \<noteq> 8 then Inl (RuntimeError ''expected 8 for-generate DDR instances in the GHDL netlist'')
        else if prefix ''xilinx'' ddr then
          (let (net, n) = re_subn (PRIM_LABEL ddr) (\<lambda>m. group m 1) net
           in if n \<noteq> 2 then Inl (RuntimeError (''expected 2 gen_'' @ ddr @ '' primitive instances'')) else Inr net)
        else Inr net)"

definition read_verilog :: "l2_env \<Rightarrow> string list \<Rightarrow> string" where
  "read_verilog env paths = ''read_verilog '' @ join '' '' paths"

text \<open>One configuration: the status and the detail of the prover.\<close>

definition prove_rgmii :: "l2_env \<Rightarrow> nat \<Rightarrow> string \<times> string \<Rightarrow> (string \<times> string) res" where
  "prove_rgmii env depth config =
    (let (ddr, speeds) = config;
         (gold_src, gate_src) = l2_sources ddr;
         net = le_tmp env @ ''/rgmii_if_'' @ ddr @ ''_'' @ speeds @ ''.v''
     in res_bind (le_run env ([le_ghdl env, ''-a''] @ ghdl_args env @ map (at_root env) gate_src)) (\<lambda>_.
        res_bind (le_run env ([le_ghdl env, ''--synth''] @ ghdl_args env
            @ [''--out=verilog'', ''-gRGMII_SPEEDS='' @ speeds, ''rgmii_if''])) (\<lambda>netlist.
        res_bind (if ddr \<noteq> ''standin'' then relabel netlist ddr else Inr netlist) (\<lambda>netlist.
        Inr (le_prove env
          [read_verilog env (map (at_root env) gold_src),
           ''chparam -set RGMII_SPEEDS '' @ [CHR 0x22] @ speeds @ [CHR 0x22] @ '' rgmii_if'',
           ''hierarchy -check -top rgmii_if'']
          [read_verilog env [net], ''hierarchy -check -top rgmii_if''] netlist ''rgmii_if'' depth)))))"

fun prove_all :: "(string \<times> string \<Rightarrow> (string \<times> string) res) \<Rightarrow> (string \<times> string) list
    \<Rightarrow> ((string \<times> string) \<times> string \<times> string) list res" where
  "prove_all prove [] = Inr []"
| "prove_all prove (c # cs) =
    res_bind (prove c) (\<lambda>r. res_bind (prove_all prove cs) (\<lambda>rs. Inr ((c, r) # rs)))"

text \<open>\<open>main\<close>: the results and the exit code, 77 without a Yosys that can rename.\<close>

definition rgmii_main :: "l2_env \<Rightarrow> string list \<Rightarrow> string list \<Rightarrow> nat
    \<Rightarrow> (((string \<times> string) \<times> string \<times> string) list \<times> nat) res" where
  "rgmii_main env ddrs speeds depth =
    (if \<not> le_unescape env then Inr ([], 77)
     else res_bind (prove_all (prove_rgmii env depth) (concat (map (\<lambda>d. map (\<lambda>s. (d, s)) speeds) ddrs))) (\<lambda>rs.
       Inr (rs, if list_all (\<lambda>(c, status, detail). status = ''PASS'') rs then 0 else 1)))"

section \<open>arp_responder\<close>

definition ARP_ARRAYS :: "string list" where "ARP_ARRAYS = [''cap'', ''reply'']"
definition ARP_WORDS :: nat where "ARP_WORDS = 42"
definition ARP_WIDTH :: nat where "ARP_WIDTH = 8"

definition array_decl :: "string \<Rightarrow> string" where
  "array_decl name = ''wire ['' @ show_nat (ARP_WORDS * ARP_WIDTH - 1) @ '':0] '' @ name @ '';''"

text \<open>The bits of element \<open>k\<close>: \<open>hi\<close> down to \<open>hi - WIDTH + 1\<close>, which is never negative.\<close>

definition alias_bits :: "nat \<Rightarrow> nat \<times> nat" where
  "alias_bits k = (let hi = ARP_WORDS * ARP_WIDTH - 1 - ARP_WIDTH * k in (hi, hi + 1 - ARP_WIDTH))"

definition alias_lines :: "string \<Rightarrow> nat \<Rightarrow> string" where
  "alias_lines name k =
    (let (hi, lo) = alias_bits k; el = [CHR 0x5C] @ name @ ''['' @ show_nat k @ '']''
     in ''  wire ['' @ show_nat (ARP_WIDTH - 1) @ '':0] '' @ el @ '' ;'' @ [CHR 0x0A]
        @ ''  assign '' @ el @ ''  = '' @ name @ ''['' @ show_nat hi @ '':'' @ show_nat lo @ ''];'' @ [CHR 0x0A])"

text \<open>\<open>net.replace(old, new, 1)\<close>\<close>

fun replace_first :: "string \<Rightarrow> string \<Rightarrow> string \<Rightarrow> string" where
  "replace_first old new [] = []"
| "replace_first old new (c # cs) =
    (if prefix old (c # cs) then new @ drop (length old) (c # cs) else c # replace_first old new cs)"

definition add_aliases :: "string \<Rightarrow> string res" where
  "add_aliases net =
    (case List.find (\<lambda>name. count_str net (array_decl name) \<noteq> 1) ARP_ARRAYS of
       Some name \<Rightarrow> Inl (RuntimeError (''expected one '' @ array_decl name))
     | None \<Rightarrow>
         let al = concat (map (\<lambda>name. concat (map (alias_lines name) [0..<ARP_WORDS])) ARP_ARRAYS);
             end_decl = array_decl (last ARP_ARRAYS) @ [CHR 0x0A]
         in Inr (replace_first end_decl (end_decl @ al) net))"

definition arp_main :: "l2_env \<Rightarrow> string \<Rightarrow> nat \<Rightarrow> ((string \<times> string) list \<times> nat) res" where
  "arp_main env vhdl depth =
    (if \<not> le_unescape env then Inr ([], 77)
     else res_bind (le_run env ([le_ghdl env, ''-a''] @ ghdl_args env @ [vhdl])) (\<lambda>_.
       res_bind (le_run env ([le_ghdl env, ''--synth''] @ ghdl_args env @ [''--out=verilog'', ''arp_responder''])) (\<lambda>netlist.
       res_bind (add_aliases netlist) (\<lambda>netlist.
       let r = le_prove env
          [read_verilog env [at_root env ''fpga/arty_a7/rtl/arp_responder.v''], ''hierarchy -check -top arp_responder'']
          [read_verilog env [le_tmp env @ ''/arp_responder.v''], ''hierarchy -check -top arp_responder'']
          netlist ''arp_responder'' depth
       in Inr ([r], if fst r = ''PASS'' then 0 else 1)))))"

section \<open>Lemmas\<close>

lemma prove_all_Inr:
  "prove_all prove cs = Inr rs \<longleftrightarrow> list_all2 (\<lambda>c (c', r). c' = c \<and> prove c = Inr r) cs rs"
proof (induction cs arbitrary: rs)
  case Nil
  show ?case by auto
next
  case (Cons c cs)
  show ?case by (cases rs) (auto simp: res_bind_Inr_iff Cons.IH)
qed

lemma prove_all_pass:
  "(\<exists>rs. prove_all prove cs = Inr rs \<and> list_all (\<lambda>(c, status, detail). status = ''PASS'') rs)
    \<longleftrightarrow> (\<forall>c \<in> set cs. \<exists>detail. prove c = Inr (''PASS'', detail))"
proof (induction cs)
  case (Cons c cs)
  show ?case unfolding prove_all.simps res_bind_Inr_iff using Cons by (cases "prove c") (fastforce simp: res_bind_Inr_iff)+
qed simp

lemma replace_first_once:
  "(\<exists>a b. net = a @ old @ b \<and> replace_first old new net = a @ new @ b) \<or> replace_first old new net = net"
proof (induction net)
  case (Cons c cs)
  show ?case
  proof (cases "prefix old (c # cs)")
    case True
    then have "c # cs = [] @ old @ drop (length old) (c # cs)" by (auto simp: prefix_def)
    then show ?thesis using True by (metis append_Nil replace_first.simps(2))
  next
    case False
    from Cons show ?thesis
    proof
      assume "\<exists>a b. cs = a @ old @ b \<and> replace_first old new cs = a @ new @ b"
      then obtain a b where "cs = a @ old @ b" "replace_first old new cs = a @ new @ b" by blast
      then show ?thesis using False by (intro disjI1 exI [of _ "c # a"] exI [of _ b]) simp
    next
      assume "replace_first old new cs = cs"
      then show ?thesis using False by simp
    qed
  qed
qed simp

lemma nth_le_bytes: "i < k \<Longrightarrow> unat (le_bytes k v ! i) = v div 256 ^ i mod 256"
proof (induction k arbitrary: v i)
  case (Suc k)
  show ?case
  proof (cases i)
    case 0
    then show ?thesis by (simp add: unat_of_nat)
  next
    case (Suc j)
    then show ?thesis using Suc.prems Suc.IH [of j "v div 256"] by (simp add: div_mult2_eq)
  qed
qed simp

lemma alias_slice:
  assumes "k < ARP_WORDS"
  shows "(case alias_bits k of (hi, lo) \<Rightarrow> take_bit (hi + 1 - lo) (drop_bit lo v)) = unat (be_bytes ARP_WORDS v ! k)"
proof -
  have k: "k \<le> 41" using assms by (simp add: ARP_WORDS_def)
  then have b: "alias_bits k = (8 * (41 - k) + 7, 8 * (41 - k))"
    by (auto simp: alias_bits_def ARP_WORDS_def ARP_WIDTH_def Let_def)
  have "be_bytes ARP_WORDS v ! k = le_bytes ARP_WORDS v ! (41 - k)"
    using k by (simp add: be_bytes_def rev_nth ARP_WORDS_def)
  then have "unat (be_bytes ARP_WORDS v ! k) = v div 256 ^ (41 - k) mod 256"
    by (simp add: nth_le_bytes ARP_WORDS_def)
  moreover have "(256 :: nat) ^ (41 - k) = 2 ^ (8 * (41 - k))" by (simp add: power_mult)
  ultimately show ?thesis by (simp add: b take_bit_eq_mod drop_bit_eq_div)
qed

lemma show_nat_inj: "show_nat a = show_nat b \<longleftrightarrow> a = b"
  using foldl_show_nat by metis

lemma split_unique:
  "x \<notin> set a \<Longrightarrow> x \<notin> set a' \<Longrightarrow> a @ x # b = a' @ x # b' \<longleftrightarrow> a = a' \<and> b = b'"
  by (auto simp: append_eq_append_conv2 append_eq_Cons_conv Cons_eq_append_conv)

lemma digits_value_show: "digits_value (show_nat n) = n"
  by (simp add: digits_value_def foldl_show_nat)







section \<open>Theorems\<close>

text \<open>The aliases of an array take its register apart into its elements: element \<open>k\<close> is byte \<open>k\<close>
  from the most significant end, for any value of the register.\<close>

theorem alias_bits_bytes:
  "map (\<lambda>k. case alias_bits k of (hi, lo) \<Rightarrow> take_bit (hi + 1 - lo) (drop_bit lo v)) [0..<ARP_WORDS]
    = map unat (be_bytes ARP_WORDS v)"
proof (rule nth_equalityI)
  fix i assume "i < length (map (\<lambda>k. case alias_bits k of (hi, lo) \<Rightarrow> take_bit (hi + 1 - lo) (drop_bit lo v)) [0..<ARP_WORDS])"
  then have "i < ARP_WORDS" by simp
  then show "map (\<lambda>k. case alias_bits k of (hi, lo) \<Rightarrow> take_bit (hi + 1 - lo) (drop_bit lo v)) [0..<ARP_WORDS] ! i
      = map unat (be_bytes ARP_WORDS v) ! i"
    using alias_slice [of i v] by simp
qed simp

text \<open>The netlist is otherwise unchanged: the aliases stand right behind the last declaration.\<close>

theorem add_aliases_only_adds:
  assumes "add_aliases net = Inr out"
  shows "out = net \<or> (\<exists>a b. net = a @ (array_decl ''reply'' @ [CHR 0x0A]) @ b
    \<and> out = a @ ((array_decl ''reply'' @ [CHR 0x0A])
      @ concat (map (\<lambda>name. concat (map (alias_lines name) [0..<ARP_WORDS])) ARP_ARRAYS)) @ b)"
proof -
  let ?d = "array_decl (last ARP_ARRAYS) @ [CHR 0x0A]"
  let ?al = "concat (map (\<lambda>name. concat (map (alias_lines name) [0..<ARP_WORDS])) ARP_ARRAYS)"
  have "last ARP_ARRAYS = ''reply''" by (simp add: ARP_ARRAYS_def)
  moreover have "out = replace_first ?d (?d @ ?al) net"
    using assms unfolding add_aliases_def Let_def by (simp split: option.splits)
  ultimately show ?thesis using replace_first_once [of net ?d "?d @ ?al"] by (simp only:) blast
qed

text \<open>The proof of \<open>rgmii_if\<close> exits with 0 exactly when the prover returned \<open>PASS\<close> for every
  combination asked for, in their order, and no tool failed on the way.\<close>

theorem rgmii_main_exit:
  "(\<exists>rs. rgmii_main env ddrs speeds depth = Inr (rs, 0)) \<longleftrightarrow> le_unescape env \<and>
    (\<forall>d \<in> set ddrs. \<forall>s \<in> set speeds. \<exists>detail. prove_rgmii env depth (d, s) = Inr (''PASS'', detail))"
proof -
  let ?cs = "concat (map (\<lambda>d. map (\<lambda>s. (d, s)) speeds) ddrs)"
  have "(\<exists>rs. rgmii_main env ddrs speeds depth = Inr (rs, 0)) \<longleftrightarrow> le_unescape env \<and>
      (\<exists>rs. prove_all (prove_rgmii env depth) ?cs = Inr rs \<and> list_all (\<lambda>(c, status, detail). status = ''PASS'') rs)"
    by (auto simp: rgmii_main_def res_bind_Inr_iff)
  then show ?thesis unfolding prove_all_pass by auto
qed


text \<open>Labels that differ stay different, so no two cells get the same name.\<close>

theorem gen_label_injective:
  assumes "gen_label b n c = gen_label b' n' c'" and "CHR ''['' \<notin> set b" and "CHR ''['' \<notin> set b'"
    and "CHR '' '' \<notin> set c" and "CHR '' '' \<notin> set c'" and "0 < n" and "0 < n'"
  shows "b = b' \<and> n = n' \<and> c = c'"
proof -
  have si: "show_int (int k - 1) = show_nat (k - 1)" if "0 < k" for k
    using that by (simp add: show_int_def nat_diff_distrib)
  have "b @ CHR ''['' # (show_nat (n - 1) @ CHR '']'' # (''.'' @ c @ '' ''))
      = b' @ CHR ''['' # (show_nat (n' - 1) @ CHR '']'' # (''.'' @ c' @ '' ''))"
    using assms(1) unfolding gen_label_def si [OF assms(6)] si [OF assms(7)]
    by (simp only: append_Cons append_Nil append_assoc list.inject simp_thms)
  note 1 = split_unique [OF assms(2,3), THEN iffD1, OF this]
  have "\<not> py_digit (CHR '']'')" by (simp add: py_digit_def)
  then have s: "CHR '']'' \<notin> set (show_nat k)" for k
    using show_nat_digits [of k] unfolding list_all_iff by blast
  note 2 = split_unique [OF s s, THEN iffD1, OF conjunct2 [OF 1]]
  have "n - 1 = n' - 1" "c = c'" using 2 by (simp_all add: show_nat_inj)
  then show ?thesis using 1 assms(6,7) by linarith
qed

theorem gen_label_injective_witness: "''gen_txd'' = ''gen_txd'' \<and> (1 :: nat) = 1 \<and> ''u_txd'' = ''u_txd''"
  by (rule gen_label_injective) simp_all

section \<open>Witnesses\<close>

definition prove_sample :: l2_env where
  "prove_sample = \<lparr>le_root = ''/repo'', le_tmp = ''/tmp'', le_ghdl = ''ghdl'', le_unescape = True,
     le_run = (\<lambda>_. Inr []), le_prove = (\<lambda>_ _ _ _ _. (''PASS'', []))\<rparr>"

definition alias_net :: string where
  "alias_net = ''wire [335:0] cap;'' @ [CHR 0x0A] @ ''wire [335:0] reply;'' @ [CHR 0x0A]"

lemma alias_net_ok: "add_aliases alias_net = Inr (projr (add_aliases alias_net))"
proof -
  have "\<not> isl (add_aliases alias_net)" by code_simp
  then show ?thesis by simp
qed

theorem add_aliases_only_adds_witness:
  "projr (add_aliases alias_net) = alias_net \<or> (\<exists>a b. alias_net = a @ (array_decl ''reply'' @ [CHR 0x0A]) @ b
    \<and> projr (add_aliases alias_net) = a @ ((array_decl ''reply'' @ [CHR 0x0A])
      @ concat (map (\<lambda>name. concat (map (alias_lines name) [0..<ARP_WORDS])) ARP_ARRAYS)) @ b)"
  by (rule add_aliases_only_adds [OF alias_net_ok])




end
