(* ===== verification/Emz_Sniff.thy ===== *)
theory Emz_Sniff
  imports Emz_Prelude Complex_Main
begin

text \<open>
  \<open>fpga/arty_a7/scripts/debug/udp_blast_sniff.py\<close>: the wire-level capture of the FPGA UDP blast. The
  captured packets are a list, each with what the callback asks of it; the counters are a record.
  Times are exact rationals. The dump of the first packets and the layout of the report are left
  out.
\<close>

section \<open>The trigger\<close>

definition TRIGGER_PORT :: nat where "TRIGGER_PORT = 9997"
definition LISTEN_PORT :: nat where "LISTEN_PORT = 5001"

datatype trig_act = TrigOpen | TrigBind nat | TrigSend bytes string nat | TrigClose

definition trigger_payload :: "int \<Rightarrow> bytes" where
  "trigger_payload ifg_cycles =
    be_bytes 3 (nat (max 0 (min ifg_cycles 0xFFFFFF))) @ be_bytes 4 1000000 @ be_bytes 2 LISTEN_PORT"

text \<open>A port that is taken already is replaced by an ephemeral one.\<close>

definition trigger :: "bool \<Rightarrow> string \<Rightarrow> int \<Rightarrow> trig_act list" where
  "trigger bind_ok board ifg_cycles =
    [TrigOpen, TrigBind LISTEN_PORT] @ (if bind_ok then [] else [TrigOpen])
    @ [TrigSend (trigger_payload ifg_cycles) board TRIGGER_PORT, TrigClose]"

definition BLAST_WIRE_LEN :: nat where "BLAST_WIRE_LEN = 1472 + 14 + 20 + 8 + 4 + 8 + 12"

definition exp_wire_mbps :: "int \<Rightarrow> rat" where
  "exp_wire_mbps ifg_cycles =
    100 * of_nat BLAST_WIRE_LEN / (of_nat BLAST_WIRE_LEN + of_int (max ifg_cycles 0) * (1 / 8))"

definition exp_udp_mbps :: "int \<Rightarrow> rat" where
  "exp_udp_mbps ifg_cycles = exp_wire_mbps ifg_cycles * 1472 / of_nat BLAST_WIRE_LEN"

section \<open>The callback\<close>

record pkt =
  pk_udp :: bool
  pk_src :: string
  pk_dport :: nat
  pk_len :: nat
  pk_wirelen :: "nat option"
  pk_payload :: bytes
  pk_time :: rat

record sniffed =
  rx_pkts :: nat
  rx_bytes :: nat
  sn_first :: "nat option"
  sn_last :: "nat option"
  sn_min :: "nat option"
  sn_max :: "nat option"
  first_t :: "rat option"
  last_t :: "rat option"
  missing :: nat
  any_pkts :: nat
  truncated :: nat

definition sniffed_init :: sniffed where
  "sniffed_init = \<lparr>rx_pkts = 0, rx_bytes = 0, sn_first = None, sn_last = None, sn_min = None, sn_max = None,
     first_t = None, last_t = None, missing = 0, any_pkts = 0, truncated = 0\<rparr>"

definition or_none :: "'a option \<Rightarrow> 'a \<Rightarrow> 'a option" where
  "or_none x y = (case x of None \<Rightarrow> Some y | Some v \<Rightarrow> Some v)"

definition seq_gap :: "nat option \<Rightarrow> nat \<Rightarrow> nat" where
  "seq_gap prev seq = (case prev of None \<Rightarrow> 0
     | Some p \<Rightarrow> if seq \<noteq> p + 1 then nat \<bar>int seq - int p - 1\<bar> else 0)"

definition count_seq :: "nat \<Rightarrow> sniffed \<Rightarrow> sniffed" where
  "count_seq seq c =
    c\<lparr>sn_first := or_none (sn_first c) seq, missing := missing c + seq_gap (sn_last c) seq, sn_last := Some seq,
      sn_min := (case sn_min c of None \<Rightarrow> Some seq | Some m \<Rightarrow> if seq < m then Some seq else Some m),
      sn_max := (case sn_max c of None \<Rightarrow> Some seq | Some m \<Rightarrow> if m < seq then Some seq else Some m)\<rparr>"

definition from_board :: "string \<Rightarrow> pkt \<Rightarrow> bool" where
  "from_board board p \<longleftrightarrow> pk_udp p \<and> pk_src p = board \<and> pk_dport p = LISTEN_PORT"

definition wire_len :: "pkt \<Rightarrow> nat" where
  "wire_len p = (case pk_wirelen p of None \<Rightarrow> pk_len p | Some n \<Rightarrow> if n = 0 then pk_len p else n)"

definition sniff_cb :: "string \<Rightarrow> pkt \<Rightarrow> sniffed \<Rightarrow> sniffed" where
  "sniff_cb board p c =
    (let c = c\<lparr>any_pkts := any_pkts c + 1\<rparr>
     in if from_board board p then
          let c = c\<lparr>rx_pkts := rx_pkts c + 1, rx_bytes := rx_bytes c + wire_len p,
                truncated := (if pk_len p < wire_len p then truncated c + 1 else truncated c),
                first_t := or_none (first_t c) (pk_time p), last_t := Some (pk_time p)\<rparr>
          in if 4 \<le> length (pk_payload p) then count_seq (from_bytes_be (take 4 (pk_payload p))) c else c
        else c)"

definition sniff :: "string \<Rightarrow> pkt list \<Rightarrow> sniffed" where
  "sniff board pkts = fold (sniff_cb board) pkts sniffed_init"

section \<open>The report\<close>

text \<open>\<open>None\<close> when no packet matched; else the duration, both rates and the packets expected from the
  span of the sequence numbers.\<close>

definition or_zero :: "'a :: zero option \<Rightarrow> 'a" where
  "or_zero x = (case x of None \<Rightarrow> 0 | Some v \<Rightarrow> v)"

definition sniff_report :: "rat \<Rightarrow> sniffed \<Rightarrow> (rat \<times> rat \<times> rat \<times> int) option" where
  "sniff_report secs c =
    (if rx_pkts c = 0 then None
     else let dur = or_zero (last_t c) - or_zero (first_t c);
              dur = (if dur \<le> 0 then secs else dur);
              mbps = (if 0 < dur then of_nat (rx_bytes c) * 8 / dur / 1000000 else 0);
              pps = (if 0 < dur then of_nat (rx_pkts c) / dur else 0);
              seq_span = int (or_zero (sn_max c)) - int (or_zero (sn_min c)) + 1
          in Some (dur, mbps, pps, if sn_min c \<noteq> None then seq_span else int (rx_pkts c)))"

section \<open>Lemmas\<close>

text \<open>The sequence numbers the callback sees.\<close>

definition seqs :: "string \<Rightarrow> pkt list \<Rightarrow> nat list" where
  "seqs board pkts = map (\<lambda>p. from_bytes_be (take 4 (pk_payload p)))
     (filter (\<lambda>p. from_board board p \<and> 4 \<le> length (pk_payload p)) pkts)"

fun gaps :: "nat list \<Rightarrow> nat" where
  "gaps (a # b # qs) = seq_gap (Some a) b + gaps (b # qs)"
| "gaps qs = 0"

lemma gaps_snoc: "qs \<noteq> [] \<Longrightarrow> gaps (qs @ [q]) = gaps qs + seq_gap (Some (last qs)) q"
  by (induction qs rule: gaps.induct) auto

lemma seqs_snoc:
  "seqs board (ps @ [p]) = seqs board ps
    @ (if from_board board p \<and> 4 \<le> length (pk_payload p) then [from_bytes_be (take 4 (pk_payload p))] else [])"
  by (simp add: seqs_def)

lemma sniff_snoc: "sniff board (ps @ [p]) = sniff_cb board p (sniff board ps)"
  by (simp add: sniff_def)

lemma sniff_Nil: "sniff board [] = sniffed_init"
  by (simp add: sniff_def)

lemmas sniff_step = sniff_snoc sniff_cb_def count_seq_def Let_def seqs_snoc

lemma sniff_any: "any_pkts (sniff board pkts) = length pkts"
  by (induction pkts rule: rev_induct) (simp_all add: sniff_Nil sniffed_init_def sniff_step)

lemma sniff_rx: "rx_pkts (sniff board pkts) = length (filter (from_board board) pkts)"
  by (induction pkts rule: rev_induct) (simp_all add: sniff_Nil sniffed_init_def sniff_step)

lemma sniff_bytes: "rx_bytes (sniff board pkts) = sum_list (map wire_len (filter (from_board board) pkts))"
  by (induction pkts rule: rev_induct) (simp_all add: sniff_Nil sniffed_init_def sniff_step)

lemma sniff_last: "sn_last (sniff board pkts) = (if seqs board pkts = [] then None else Some (last (seqs board pkts)))"
  by (induction pkts rule: rev_induct) (simp_all add: sniff_Nil sniffed_init_def sniff_step seqs_def [of _ "[]"])

lemma sniff_first: "sn_first (sniff board pkts) = (if seqs board pkts = [] then None else Some (hd (seqs board pkts)))"
  by (induction pkts rule: rev_induct)
    (simp_all add: sniff_Nil sniffed_init_def sniff_step seqs_def [of _ "[]"] or_none_def)

lemma sniff_missing: "missing (sniff board pkts) = gaps (seqs board pkts)"
  by (induction pkts rule: rev_induct)
    (simp_all add: sniff_Nil sniffed_init_def sniff_step seqs_def [of _ "[]"] sniff_last gaps_snoc, simp add: seq_gap_def)

lemma option_min: "(if a < b then Some a else Some b) = Some (min a b)" for a b :: nat
  by (simp add: min_def)

lemma option_max: "(if b < a then Some a else Some b) = Some (max a b)" for a b :: nat
  by (simp add: max_def)

lemma sniff_min: "sn_min (sniff board pkts) = (if seqs board pkts = [] then None else Some (Min (set (seqs board pkts))))"
  by (induction pkts rule: rev_induct)
    (simp_all add: sniff_Nil sniffed_init_def sniff_step seqs_def [of _ "[]"] option_min del: Min_gr_iff)

lemma sniff_max: "sn_max (sniff board pkts) = (if seqs board pkts = [] then None else Some (Max (set (seqs board pkts))))"
  by (induction pkts rule: rev_induct)
    (simp_all add: sniff_Nil sniffed_init_def sniff_step seqs_def [of _ "[]"] option_max del: Max_less_iff)

lemma gaps_none: "qs \<noteq> [] \<Longrightarrow> gaps qs = 0 \<longleftrightarrow> qs = [hd qs..<hd qs + length qs]"
proof (induction qs rule: gaps.induct)
  case (1 a b qs)
  have gap: "seq_gap (Some a) b = 0 \<longleftrightarrow> b = Suc a" by (auto simp: seq_gap_def)
  have up: "[x..<x + length (y # ys)] = x # [Suc x..<Suc x + length ys]" for x and y :: nat and ys
    by (subst upt_conv_Cons) simp_all
  have "a # b # qs = [a..<a + length (a # b # qs)] \<longleftrightarrow> b = Suc a \<and> b # qs = [b..<b + length (b # qs)]"
    unfolding up by (simp add: up del: upt.simps upt_Suc) auto
  then show ?case using 1 gap by simp
qed simp_all

lemma interval_Min: "n \<noteq> 0 \<Longrightarrow> Min {a..<a + n} = a" for a :: nat
  by (rule Min_eqI) simp_all

lemma interval_Max: "n \<noteq> 0 \<Longrightarrow> Max {a..<a + n} = a + n - 1" for a :: nat
  by (rule Max_eqI) auto

section \<open>Theorems\<close>

text \<open>The trigger payload is nine bytes that decode to the delay, limited to what three bytes hold, the
  number of packets and the port to send to.\<close>

theorem trigger_payload_fields:
  "length (trigger_payload ifg) = 9
    \<and> int (from_bytes_be (slice (trigger_payload ifg) 0 3)) = max 0 (min ifg 0xFFFFFF)
    \<and> from_bytes_be (slice (trigger_payload ifg) 3 7) = 1000000
    \<and> from_bytes_be (slice (trigger_payload ifg) 7 9) = 5001"
proof -
  have "nat (max 0 (min ifg 0xFFFFFF)) < 256 ^ 3" by (simp add: nat_less_iff)
  from from_be_bytes [OF this] from_be_bytes [of 1000000 4] from_be_bytes [of 5001 2]
  show ?thesis by (simp add: trigger_payload_def LISTEN_PORT_def slice_def)
qed

text \<open>The counters after a capture: of the matching packets their number and bytes, and of their
  sequence numbers the first, the last, the least, the greatest and the sum of the jumps.\<close>

theorem sniff_counters:
  "let c = sniff board pkts; ms = filter (from_board board) pkts; qs = seqs board pkts
   in any_pkts c = length pkts \<and> rx_pkts c = length ms \<and> rx_bytes c = sum_list (map wire_len ms)
    \<and> missing c = gaps qs
    \<and> (if qs = [] then sn_first c = None \<and> sn_last c = None \<and> sn_min c = None \<and> sn_max c = None
       else sn_first c = Some (hd qs) \<and> sn_last c = Some (last qs)
         \<and> sn_min c = Some (Min (set qs)) \<and> sn_max c = Some (Max (set qs)))"
  by (simp add: Let_def sniff_any sniff_rx sniff_bytes sniff_missing sniff_first sniff_last sniff_min sniff_max)

text \<open>When no packet is counted missing and each matching packet carries a sequence number, the
  sequence numbers are consecutive, and the report expects exactly the packets that came.\<close>

theorem sniff_complete_span:
  assumes "missing (sniff board pkts) = 0" and "rx_pkts (sniff board pkts) \<noteq> 0"
    and "list_all (\<lambda>p. 4 \<le> length (pk_payload p)) (filter (from_board board) pkts)"
  shows "seqs board pkts = [hd (seqs board pkts)..<hd (seqs board pkts) + rx_pkts (sniff board pkts)]
    \<and> (\<exists>dur mbps pps. sniff_report secs (sniff board pkts) = Some (dur, mbps, pps, int (rx_pkts (sniff board pkts))))"
proof -
  let ?qs = "seqs board pkts" and ?n = "rx_pkts (sniff board pkts)"
  have "filter (\<lambda>p. from_board board p \<and> 4 \<le> length (pk_payload p)) pkts = filter (from_board board) pkts"
    using assms(3) by (intro filter_cong refl) (auto simp: list_all_iff)
  then have n: "length ?qs = ?n" by (simp add: seqs_def sniff_rx)
  then have ne: "?qs \<noteq> []" using assms(2) by auto
  have qs: "?qs = [hd ?qs..<hd ?qs + ?n]" using gaps_none [OF ne] assms(1) n by (simp add: sniff_missing)
  have "set ?qs = {hd ?qs..<hd ?qs + ?n}" using arg_cong [OF qs, of set] by (simp only: set_upt)
  then have "Min (set ?qs) = hd ?qs" "Max (set ?qs) = hd ?qs + ?n - 1"
    using interval_Min [OF assms(2)] interval_Max [OF assms(2)] by simp_all
  then have "int (or_zero (sn_max (sniff board pkts))) - int (or_zero (sn_min (sniff board pkts))) + 1 = int ?n"
    using ne assms(2) by (simp add: sniff_max sniff_min or_zero_def of_nat_diff)
  moreover have "sn_min (sniff board pkts) \<noteq> None" using ne by (simp add: sniff_min)
  ultimately show ?thesis using qs assms(2) by (simp add: sniff_report_def Let_def)
qed

text \<open>The expected rate never exceeds the line rate, and is the line rate without extra delay.\<close>

theorem exp_wire_bounds: "0 < exp_wire_mbps ifg \<and> exp_wire_mbps ifg \<le> 100 \<and> (ifg \<le> 0 \<longrightarrow> exp_wire_mbps ifg = 100)"
proof -
  have le: "100 * 1538 / (1538 + m) \<le> 100" "0 < 100 * 1538 / (1538 + m)" if "0 \<le> m" for m :: rat
    using that by (simp_all add: divide_le_eq)
  have "0 \<le> rat_of_int (max ifg 0) * (1 / 8)" by simp
  from le [OF this] show ?thesis by (simp add: exp_wire_mbps_def BLAST_WIRE_LEN_def max_def)
qed

section \<open>Witnesses\<close>

definition blast_pkt :: "nat \<Rightarrow> pkt" where
  "blast_pkt q = \<lparr>pk_udp = True, pk_src = ''192.168.137.200'', pk_dport = 5001, pk_len = 1514, pk_wirelen = None,
     pk_payload = be_bytes 4 q, pk_time = of_nat q / 1000\<rparr>"

theorem sniff_complete_span_witness:
  "seqs ''192.168.137.200'' [blast_pkt 7, blast_pkt 8]
      = [hd (seqs ''192.168.137.200'' [blast_pkt 7, blast_pkt 8])
          ..<hd (seqs ''192.168.137.200'' [blast_pkt 7, blast_pkt 8]) + rx_pkts (sniff ''192.168.137.200'' [blast_pkt 7, blast_pkt 8])]
    \<and> (\<exists>dur mbps pps. sniff_report 15 (sniff ''192.168.137.200'' [blast_pkt 7, blast_pkt 8])
        = Some (dur, mbps, pps, int (rx_pkts (sniff ''192.168.137.200'' [blast_pkt 7, blast_pkt 8]))))"
  by (rule sniff_complete_span)
    (simp_all add: sniff_missing sniff_rx seqs_def blast_pkt_def from_board_def LISTEN_PORT_def seq_gap_def from_be_bytes)

end
