(* ===== verification/Emz_Edit.thy ===== *)
theory Emz_Edit
  imports Emz_Text
begin

text \<open>
  What the generators of the parity models under \<open>sim/parity\<close> share: the edits that must match
  an expected number of times, the header behind the licence lines, and the loop that writes the
  models or checks that they are up to date. Files are texts as \<open>read_text\<close> gives them.
\<close>

section \<open>Texts\<close>

abbreviation lns :: "string list \<Rightarrow> string" where
  "lns \<equiv> join [CHR 0x0A]"

text \<open>\<open>src.replace(old, new)\<close> for a non-empty \<open>old\<close>; \<open>k\<close> counts the characters of the last
  occurrence that are still to be skipped.\<close>

fun replace_from :: "nat \<Rightarrow> string \<Rightarrow> string \<Rightarrow> string \<Rightarrow> string" where
  "replace_from k old new [] = []"
| "replace_from k old new (c # cs) =
    (if 0 < k then replace_from (k - 1) old new cs
     else if prefix old (c # cs) then new @ replace_from (length old - 1) old new cs
     else c # replace_from 0 old new cs)"

definition replace :: "string \<Rightarrow> string \<Rightarrow> string \<Rightarrow> string" where
  "replace old new src = replace_from 0 old new src"

text \<open>\<open>src.find(sub, start)\<close>, \<open>None\<close> for -1, and the last occurrence before \<open>stop\<close>.\<close>

definition find_at :: "string \<Rightarrow> nat \<Rightarrow> string \<Rightarrow> nat option" where
  "find_at sub start src = List.find (\<lambda>i. prefix sub (drop i src)) [start..<Suc (length src)]"

definition rfind :: "string \<Rightarrow> nat \<Rightarrow> string \<Rightarrow> nat option" where
  "rfind sub stop src =
    List.find (\<lambda>i. prefix sub (drop i (take stop src))) (rev [0..<Suc (length (take stop src))])"

text \<open>\<open>src.splitlines(keepends=True)\<close>.\<close>

fun keep_lines :: "string \<Rightarrow> string \<Rightarrow> string list" where
  "keep_lines cur [] = (if cur = [] then [] else [rev cur])"
| "keep_lines cur [c] = [rev (c # cur)]"
| "keep_lines cur (c # d # cs) =
    (if c = CHR 0x0D \<and> d = CHR 0x0A then rev (d # c # cur) # keep_lines [] cs
     else if line_break c then rev (c # cur) # keep_lines [] (d # cs)
     else keep_lines (c # cur) (d # cs))"

definition lines_with_ends :: "string \<Rightarrow> string list" where
  "lines_with_ends = keep_lines []"

section \<open>Edits\<close>

type_synonym edit = "string \<times> string \<times> nat"

text \<open>Each edit must match as often as expected in what the edits before it left. \<open>msg\<close> words the
  error from the old text, the expected and the found count.\<close>

fun apply_edits :: "(string \<Rightarrow> nat \<Rightarrow> nat \<Rightarrow> string) \<Rightarrow> edit list \<Rightarrow> string \<Rightarrow> string res" where
  "apply_edits msg [] src = Inr src"
| "apply_edits msg ((old, new, n) # edits) src =
    (let found = count_str src old
     in if found \<noteq> n then Inl (SystemExit (msg old n found))
        else apply_edits msg edits (replace old new src))"

text \<open>The header of a model goes behind the first two lines (licence and copyright).\<close>

definition with_header :: "string list \<Rightarrow> string \<Rightarrow> string" where
  "with_header header src =
    (let lines = lines_with_ends src
     in concat (take 2 lines) @ lns header @ [CHR 0x0A] @ concat (drop 2 lines))"

section \<open>The generators\<close>

text \<open>The files of the repository by path; a missing source is an error of its reader. A model is
  its path and how it is rendered.\<close>

type_synonym files = "string \<rightharpoonup> string"
type_synonym gen_model = "string \<times> (files \<Rightarrow> string res)"

definition read_source :: "string \<Rightarrow> files \<Rightarrow> string res" where
  "read_source path fs = (case fs path of Some text \<Rightarrow> Inr text | None \<Rightarrow> Inl (OSError path))"

text \<open>Without \<open>--check\<close>: the files afterwards (what was written before an error stays), and the
  exit code.\<close>

fun gen_write :: "gen_model list \<Rightarrow> files \<Rightarrow> files \<times> nat res" where
  "gen_write [] fs = (fs, Inr 0)"
| "gen_write ((dst, render) # models) fs =
    (case render fs of
       Inl e \<Rightarrow> (fs, Inl e)
     | Inr text \<Rightarrow> gen_write models (fs(dst \<mapsto> text)))"

text \<open>With \<open>--check\<close>: the models that are missing or differ.\<close>

fun gen_stale :: "gen_model list \<Rightarrow> files \<Rightarrow> string list res" where
  "gen_stale [] fs = Inr []"
| "gen_stale ((dst, render) # models) fs =
    res_bind (render fs) (\<lambda>text. res_bind (gen_stale models fs) (\<lambda>stale.
    Inr (if fs dst \<noteq> Some text then dst # stale else stale)))"

definition gen_main :: "bool \<Rightarrow> gen_model list \<Rightarrow> files \<Rightarrow> files \<times> nat res" where
  "gen_main check models fs =
    (if check then (fs, res_bind (gen_stale models fs) (\<lambda>stale. Inr (if stale \<noteq> [] then 1 else 0)))
     else gen_write models fs)"

section \<open>Edits that match once\<close>

lemma count_from_0: "0 < length old \<Longrightarrow> count_from 0 old src = 0 \<longleftrightarrow> \<not> contains old src"
  by (induction src) simp_all

lemma count_from_skip: "count_from k old src = count_from 0 old (drop k src)"
proof (induction src arbitrary: k)
  case (Cons c cs)
  show ?case
  proof (cases k)
    case (Suc j)
    then show ?thesis using Cons.IH [of j] by simp
  qed (simp only: drop_0)
qed simp

lemma replace_from_skip: "replace_from k old new src = replace_from 0 old new (drop k src)"
proof (induction src arbitrary: k)
  case (Cons c cs)
  show ?case
  proof (cases k)
    case (Suc j)
    then show ?thesis using Cons.IH [of j] by simp
  qed (simp only: drop_0)
qed simp

lemma replace_none: "count_from 0 old src = 0 \<Longrightarrow> replace_from 0 old new src = src"
  by (induction src) (auto split: if_splits)

lemma prefix_drop: "prefix old src \<Longrightarrow> src = old @ drop (length old) src"
  by (auto simp: prefix_def)

text \<open>An edit that matches once changes only the text it matches.\<close>

lemma replace_once:
  assumes "old \<noteq> []" and "count_from 0 old src = 1"
  shows "\<exists>a b. src = a @ old @ b \<and> replace_from 0 old new src = a @ new @ b
    \<and> \<not> contains old b"
  using assms(2)
proof (induction src)
  case (Cons c cs)
  have skip: "drop (length old - 1) cs = drop (length old) (c # cs)" using assms(1) by (cases old) auto
  show ?case
  proof (cases "prefix old (c # cs)")
    case True
    let ?b = "drop (length old) (c # cs)"
    have "count_from 0 old ?b = 0"
      using Cons.prems True by (simp add: count_from_skip [of "length old - 1"] skip del: One_nat_def)
    then have "replace_from 0 old new ?b = ?b" "\<not> contains old ?b"
      using assms(1) by (simp_all add: replace_none count_from_0)
    then show ?thesis
      using True prefix_drop [OF True]
      by (intro exI [of _ "[]"] exI [of _ ?b]) (simp add: replace_from_skip [of "length old - 1"] skip del: One_nat_def)
  next
    case False
    then obtain a b where "cs = a @ old @ b" "replace_from 0 old new cs = a @ new @ b" "\<not> contains old b"
      using Cons by auto
    then show ?thesis using False by (intro exI [of _ "c # a"] exI [of _ b]) simp
  qed
qed simp

text \<open>The specification: each edit edited one place, and nothing else.\<close>

inductive edited :: "(string \<times> string) list \<Rightarrow> string \<Rightarrow> string \<Rightarrow> bool" where
  edited_Nil: "edited [] src src"
| edited_Cons: "edited edits (a @ new @ b) out \<Longrightarrow> edited ((old, new) # edits) (a @ old @ b) out"

inductive_cases edited_NilE: "edited [] src out"
inductive_cases edited_ConsE: "edited ((old, new) # edits) src out"

lemma apply_edits_edited:
  "apply_edits msg edits src = Inr out \<Longrightarrow> list_all (\<lambda>(old, new, n). old \<noteq> [] \<and> n = 1) edits \<Longrightarrow>
    edited (map (\<lambda>(old, new, n). (old, new)) edits) src out"
proof (induction msg edits src rule: apply_edits.induct)
  case (2 msg old new n edits src)
  then have n: "count_str src old = 1" "old \<noteq> []"
    and rest: "apply_edits msg edits (replace old new src) = Inr out"
    by (auto simp: Let_def split: if_splits)
  obtain a b where "src = a @ old @ b" "replace old new src = a @ new @ b"
    using replace_once [of old src new] n by (auto simp: count_str_def replace_def)
  then show ?case using 2 n rest by (auto simp: Let_def intro: edited_Cons)
qed (simp add: edited_Nil)

text \<open>An edit cannot pass unnoticed: if the text is not there the expected number of times, the
  generator stops.\<close>

lemma apply_edits_counts:
  "apply_edits msg ((old, new, n) # edits) src = Inr out \<Longrightarrow> count_str src old = n"
  by (auto simp: Let_def split: if_splits)

section \<open>Lines\<close>

lemma concat_keep_lines: "concat (keep_lines cur s) = rev cur @ s"
  by (induction cur s rule: keep_lines.induct) auto

lemma concat_lines: "concat (lines_with_ends s) = s"
  by (simp add: lines_with_ends_def concat_keep_lines)

text \<open>Without its header a model is the edited source.\<close>

lemma header_verbatim:
  "\<exists>a b. src = a @ b \<and> with_header header src = a @ lns header @ [CHR 0x0A] @ b"
proof -
  have "src = concat (take 2 (lines_with_ends src)) @ concat (drop 2 (lines_with_ends src))"
    unfolding concat_append [symmetric] append_take_drop_id concat_lines ..
  then show ?thesis unfolding with_header_def Let_def by blast
qed

section \<open>Writing, then checking\<close>

text \<open>The interface between the loop and the renderers: a renderer reads sources only, and no model
  is a source of another.\<close>

locale parity_generator =
  fixes models :: "gen_model list" and sources :: "string set"
  assumes reads_sources: "(dst, render) \<in> set models \<Longrightarrow> (\<And>p. p \<in> sources \<Longrightarrow> fs p = fs' p) \<Longrightarrow> render fs = render fs'"
    and distinct_targets: "distinct (map fst models)"
    and targets_not_sources: "dst \<in> fst ` set models \<Longrightarrow> dst \<notin> sources"
begin

lemma write_from:
  assumes "set ms \<subseteq> set models" "distinct (map fst ms)" "gen_write ms fs = (fs', Inr c)"
  shows "c = 0 \<and> (\<forall>p. p \<notin> fst ` set ms \<longrightarrow> fs' p = fs p)
    \<and> (\<forall>(dst, render) \<in> set ms. \<exists>out. render fs' = Inr out \<and> fs' dst = Some out)"
  using assms
proof (induction ms arbitrary: fs)
  case (Cons m ms)
  obtain dst render where m: "m = (dst, render)" by (cases m)
  obtain out where rd: "render fs = Inr out" and w: "gen_write ms (fs(dst \<mapsto> out)) = (fs', Inr c)"
    using Cons.prems(3) m by (auto split: sum.splits)
  have IH: "c = 0" "\<forall>p. p \<notin> fst ` set ms \<longrightarrow> fs' p = (fs(dst \<mapsto> out)) p"
    "\<forall>(dst, render) \<in> set ms. \<exists>out. render fs' = Inr out \<and> fs' dst = Some out"
    using Cons.IH [OF _ _ w] Cons.prems(1, 2) by simp_all
  have "dst \<notin> fst ` set ms" using Cons.prems(2) m by simp
  then have d: "fs' dst = Some out" using IH(2) by simp
  have other: "fs' p = fs p" if "p \<notin> fst ` set (m # ms)" for p using IH(2) that m by auto
  have "render fs' = render fs"
  proof (rule reads_sources)
    show "(dst, render) \<in> set models" using Cons.prems(1) m by simp
    show "fs' p = fs p" if "p \<in> sources" for p
      using other targets_not_sources Cons.prems(1) that by (metis image_mono subsetD)
  qed
  then show ?case using IH d other rd m by simp
qed simp

lemma stale_iff:
  "gen_stale ms fs = Inr [] \<longleftrightarrow> (\<forall>(dst, render) \<in> set ms. \<exists>text. render fs = Inr text \<and> fs dst = Some text)"
  by (induction ms) (auto simp: res_bind_Inr_iff split: if_splits)

lemma check_iff:
  "gen_main True models fs = (fs, Inr 0)
    \<longleftrightarrow> (\<forall>(dst, render) \<in> set models. \<exists>text. render fs = Inr text \<and> fs dst = Some text)"
  unfolding stale_iff [symmetric] gen_main_def by (cases "gen_stale models fs") simp_all

lemma write_then_check:
  assumes "gen_main False models fs = (fs', Inr c)"
  shows "c = 0 \<and> gen_main True models fs' = (fs', Inr 0)
    \<and> (\<forall>p. p \<notin> fst ` set models \<longrightarrow> fs' p = fs p)"
  using write_from [OF subset_refl distinct_targets, of fs fs' c] assms
  unfolding check_iff by (simp add: gen_main_def)

end

end
