(* ===== verification/Emz_Parity.thy ===== *)
theory Emz_Parity
  imports Emz_Edit "HOL-Library.Multiset"
begin

text \<open>
  The generators of the parity models: \<open>sim/parity/gen_goldens.py\<close>, \<open>gmii_cdc/gen_smallmem.py\<close>,
  \<open>mii_if/gen_smallram.py\<close>, \<open>rgmii_lb_selftest/gen_split.py\<close> and \<open>zcu106_top/gen_split.py\<close>. Each
  renders models of real sources by edits that must match an expected number of times; the texts of
  the edits are those of the scripts, line by line.
\<close>

section \<open>Goldens\<close>

definition GOLDEN_EDITS_1 :: "edit list" where
  "GOLDEN_EDITS_1 = [
      (''module test_sequencer #('',
        ''module test_sequencer_x0 #('', 1),
      (''tx_tdata  <= arp_frame[arp_idx];'',
        ''tx_tdata  <= (arp_idx < 8'd42) ? arp_frame[arp_idx] : 8'h00;'', 1)]"

definition GOLDEN_EDITS_2 :: "edit list" where
  "GOLDEN_EDITS_2 = [
      (''module udp_echo #('',
        ''module udp_echo_x0 #('', 1),
      (''TX_PAYLOAD: tx_data_mux = udp_buf[payload_tx_cnt[ADDR_W-1:0]];'',
        lns [''TX_PAYLOAD: tx_data_mux = (payload_tx_cnt[ADDR_W-1:0] < BUF_SIZE) ?'',
        ''                                    udp_buf[payload_tx_cnt[ADDR_W-1:0]] : 8'h00;''], 1)]"

definition golden_msg :: "string \<Rightarrow> string \<Rightarrow> nat \<Rightarrow> nat \<Rightarrow> string" where
  "golden_msg path old n found = path @ '': expected one '' @ [CHR 0x27] @ old @ [CHR 0x27]
     @ '', found '' @ show_nat found @ ''; update the edits in gen_goldens.py''"

definition golden_render :: "string \<Rightarrow> string \<Rightarrow> edit list \<Rightarrow> files \<Rightarrow> string res" where
  "golden_render path dst edits fs =
    res_bind (read_source path fs) (\<lambda>src. res_bind (apply_edits (golden_msg path) edits src) (\<lambda>src.
    Inr (with_header
      [''// PARITY MODEL ONLY - not for synthesis. GENERATED from'',
       ''// '' @ path @ '' by sim/parity/gen_goldens.py; do not edit.'',
       ''// Renamed to '' @ stem (basename dst) @ ''; an out-of-range memory read returns 8'h00 instead'',
       ''// of x. Everything else is the source verbatim.''] src)))"

definition golden_model :: "string \<Rightarrow> string \<Rightarrow> edit list \<Rightarrow> gen_model" where
  "golden_model path dst edits = (''sim/parity/'' @ dst, golden_render path dst edits)"

definition GOLDENS :: "gen_model list" where
  "GOLDENS =
    [golden_model ''fpga/arty_a7/rtl/test_sequencer.v'' ''test_sequencer/test_sequencer_x0.v'' GOLDEN_EDITS_1,
     golden_model ''rtl/net/udp_echo.v'' ''udp_echo/udp_echo_x0.v'' GOLDEN_EDITS_2]"

section \<open>The FIFO with a small memory\<close>

definition SMALLMEM_EDITS_1 :: "edit list" where
  "SMALLMEM_EDITS_1 = [
      (lns [''    localparam DEPTH = 1 << ADDR_WIDTH;'',
        []],
        lns [''    localparam DEPTH = 1 << ADDR_WIDTH;'',
        ''    // PARITY MODEL: memory clamped to 2**MEM_AW words (see header).'',
        ''    localparam MEM_AW    = (ADDR_WIDTH < 3) ? ADDR_WIDTH : 3;'',
        ''    localparam MEM_DEPTH = 1 << MEM_AW;'',
        []], 1),
      (''reg [DATA_WIDTH-1:0] mem [0:DEPTH-1];'',
        ''reg [DATA_WIDTH-1:0] mem [0:MEM_DEPTH-1];'', 2),
      (''mem[wr_ptr_bin[ADDR_WIDTH-1:0]]'',
        ''mem[wr_ptr_bin[MEM_AW-1:0]]'', 2),
      (''mem[rd_ptr_bin[ADDR_WIDTH-1:0]]'',
        ''mem[rd_ptr_bin[MEM_AW-1:0]]'', 2)]"

definition SMALLMEM_EDITS_2 :: "edit list" where
  "SMALLMEM_EDITS_2 = [
      (lns [''    constant DEPTH : integer := 2 ** ADDR_WIDTH;'',
        []],
        lns [''    constant DEPTH : integer := 2 ** ADDR_WIDTH;'',
        ''    -- PARITY MODEL: memory clamped to 2**MEM_AW words (see header).'',
        ''    function min_int(a, b : integer) return integer is'',
        ''    begin'',
        ''        if a < b then'',
        ''            return a;'',
        ''        end if;'',
        ''        return b;'',
        ''    end function min_int;'',
        ''    constant MEM_AW    : integer := min_int(ADDR_WIDTH, 3);'',
        ''    constant MEM_DEPTH : integer := 2 ** MEM_AW;'',
        []], 1),
      (''type mem_t is array (0 to DEPTH-1)'',
        ''type mem_t is array (0 to MEM_DEPTH-1)'', 1),
      (''mem(to_integer(wr_ptr_bin(ADDR_WIDTH-1 downto 0)))'',
        ''mem(to_integer(wr_ptr_bin(MEM_AW-1 downto 0)))'', 2),
      (''mem(to_integer(rd_ptr_bin(ADDR_WIDTH-1 downto 0)))'',
        ''mem(to_integer(rd_ptr_bin(MEM_AW-1 downto 0)))'', 2)]"

text \<open>The memory accesses an edit covers per match, edit by edit.\<close>

definition SMALLMEM_COVERS :: "nat list" where "SMALLMEM_COVERS = [0, 0, 1, 1]"

definition smallmem_msg :: "string \<Rightarrow> string \<Rightarrow> nat \<Rightarrow> nat \<Rightarrow> string" where
  "smallmem_msg path old n found = path @ '': expected '' @ show_nat n @ '' x '' @ [CHR 0x27] @ strip old
     @ [CHR 0x27] @ '', found '' @ show_nat found @ ''; update the edits in gen_smallmem.py''"

definition covered :: "edit list \<Rightarrow> nat" where
  "covered edits = sum_list (map2 (\<lambda>(_, _, n) per. n * per) edits SMALLMEM_COVERS)"

definition smallmem_render :: "string \<Rightarrow> string \<Rightarrow> string \<Rightarrow> edit list \<Rightarrow> files \<Rightarrow> string res" where
  "smallmem_render path c access edits fs =
    res_bind (read_source path fs) (\<lambda>src.
    if count_str src access \<noteq> covered edits then
      Inl (SystemExit (path @ '': '' @ show_nat (count_str src access) @ '' memory accesses '' @ [CHR 0x27] @ access
        @ [CHR 0x27] @ '', the edits cover '' @ show_nat (covered edits) @ ''; update gen_smallmem.py''))
    else res_bind (apply_edits (smallmem_msg path) edits src) (\<lambda>src.
    Inr (with_header
      [c @ '' PARITY MODEL ONLY - not for synthesis or the core. GENERATED from'',
       c @ '' '' @ path @ '' by sim/parity/gmii_cdc/gen_smallmem.py; do not edit.'',
       c @ '' The memory array is clamped to 2**MEM_AW words, MEM_AW = min(ADDR_WIDTH, 3),'',
       c @ '' indexed with the low MEM_AW pointer bits. Everything else is the source'',
       c @ '' verbatim. The real async_fifo is proven in sim/parity/async_fifo/.''] src)))"

definition SMALLMEMS :: "gen_model list" where
  "SMALLMEMS =
    [(''sim/parity/gmii_cdc/async_fifo_smallmem.v'',
      smallmem_render ''rtl/async_fifo.v'' ''//'' ''mem['' SMALLMEM_EDITS_1),
     (''sim/parity/gmii_cdc/async_fifo_smallmem.vhd'',
      smallmem_render ''rtl/vhdl/async_fifo.vhd'' ''--'' ''mem('' SMALLMEM_EDITS_2)]"

section \<open>The MII interface with a small RAM\<close>

definition SMALLRAM_EDITS_1 :: "edit list" where
  "SMALLRAM_EDITS_1 = [
      (''reg [8:0] rx_frame_mem [0:4095];'',
        lns [''reg [8:0] rx_frame_mem [0:7];'',
        ''    reg [8:0] rx_frame_mem_tag [0:7];''], 1),
      (''rx_frame_mem[rx_mem_wr_addr] <= rx_mem_wr_data;'',
        lns [''begin'',
        ''                rx_frame_mem[rx_mem_wr_addr[2:0]]     <= rx_mem_wr_data;'',
        ''                rx_frame_mem_tag[rx_mem_wr_addr[2:0]] <= rx_mem_wr_addr[11:3];'',
        ''            end''], 1),
      (''rx_frame_mem_dout_r <= rx_frame_mem[rx_mem_rd_addr_reg];'',
        lns [''rx_frame_mem_dout_r <= rx_frame_mem[rx_mem_rd_addr_reg[2:0]] ^'',
        ''                                   rx_frame_mem_tag[rx_mem_rd_addr_reg[2:0]] ^'',
        ''                                   rx_mem_rd_addr_reg[11:3];''], 1)]"

definition SMALLRAM_EDITS_2 :: "edit list" where
  "SMALLRAM_EDITS_2 = [
      (''type frame_mem_t is array (0 to 4095)'',
        ''type frame_mem_t is array (0 to 7)'', 1),
      (lns [''    signal rx_frame_mem        : frame_mem_t;'',
        []],
        lns [''    signal rx_frame_mem        : frame_mem_t;'',
        ''    signal rx_frame_mem_tag    : frame_mem_t;'',
        []], 1),
      (''rx_frame_mem(to_integer(rx_mem_wr_addr)) <= rx_mem_wr_data;'',
        lns [''rx_frame_mem(to_integer(rx_mem_wr_addr(2 downto 0)))     <= rx_mem_wr_data;'',
        ''                    rx_frame_mem_tag(to_integer(rx_mem_wr_addr(2 downto 0))) <='',
        ''                        std_logic_vector(rx_mem_wr_addr(11 downto 3));''], 1),
      (''rx_frame_mem_dout_r <= rx_frame_mem(to_integer(unsigned(rx_mem_rd_addr_reg)));'',
        lns [''rx_frame_mem_dout_r <='',
        ''                        rx_frame_mem(to_integer(unsigned(rx_mem_rd_addr_reg(2 downto 0)))) xor'',
        ''                        rx_frame_mem_tag(to_integer(unsigned(rx_mem_rd_addr_reg(2 downto 0)))) xor'',
        ''                        rx_mem_rd_addr_reg(11 downto 3);''], 1)]"

definition smallram_msg :: "string \<Rightarrow> string \<Rightarrow> nat \<Rightarrow> nat \<Rightarrow> string" where
  "smallram_msg path old n found = path @ '': expected one '' @ [CHR 0x27] @ old @ [CHR 0x27]
     @ '', found '' @ show_nat found @ ''; update the edits in gen_smallram.py''"

definition smallram_render :: "string \<Rightarrow> string \<Rightarrow> edit list \<Rightarrow> files \<Rightarrow> string res" where
  "smallram_render path c edits fs =
    res_bind (read_source path fs) (\<lambda>src. res_bind (apply_edits (smallram_msg path) edits src) (\<lambda>src.
    Inr (with_header
      [c @ '' PARITY MODEL ONLY - not for synthesis or the core. GENERATED from'',
       c @ '' '' @ path @ '' by sim/parity/mii_if/gen_smallram.py; do not edit.'',
       c @ '' The inline RX frame RAM is cut from 4096 to 8 words, indexed by the'',
       c @ '' low three address bits; rx_frame_mem_tag keeps each word's write'',
       c @ '' address bits 11:3, XORed with the read address bits 11:3 on a read'',
       c @ '' (see gen_smallram.py).'',
       c @ '' Everything else is the source verbatim.''] src)))"

definition SMALLRAMS :: "gen_model list" where
  "SMALLRAMS =
    [(''sim/parity/mii_if/mii_if_smallram.v'', smallram_render ''rtl/mii_if.v'' ''//'' SMALLRAM_EDITS_1),
     (''sim/parity/mii_if/mii_if_smallram.vhd'', smallram_render ''rtl/vhdl/mii_if.vhd'' ''--'' SMALLRAM_EDITS_2)]"

section \<open>The split pads of the RGMII self-test\<close>

definition RG_V_EDITS :: "edit list" where
  "RG_V_EDITS = [
      (''module rgmii_lb_selftest #('',
        ''module rgmii_lb_selftest_split #('', 1),
      (lns [''    inout  wire [5:0]   pad         // [3:0] TXD/RXD, [4] TX_CTL/RX_CTL, [5] TXC/RXC'',
        []],
        lns [''    output wire [5:0]   pad_o,      // parity split: the pads as driven'',
        ''    input  wire [5:0]   pad_i       // parity split: the pads as read'',
        []], 1),
      (lns [''    assign     pad     = pad_out;'',
        ''    assign #1  pad_in  = pad;'',
        []],
        lns [''    assign     pad_o   = pad_out;'',
        ''    assign #1  pad_in  = pad_i;'',
        []], 1),
      (lns [''        for (i_pad = 0; i_pad < 6; i_pad = i_pad + 1) begin : gen_pad'',
        ''            (* DONT_TOUCH = \"TRUE\" *)'',
        ''            IOBUF u_iobuf ('',
        ''                .I  (pad_out[i_pad]),'',
        ''                .T  (1'b0),'',
        ''                .O  (pad_in[i_pad]),'',
        ''                .IO (pad[i_pad])'',
        ''            );'',
        ''        end'',
        []],
        lns [''        assign pad_o  = pad_out;     // parity split: IOBUF I, T = 0'',
        ''        assign pad_in = pad_i;       // parity split: IOBUF O'',
        []], 1),
      (''    IDELAYCTRL u_idelayctrl ('',
        ''    IDELAYCTRL u_dlyctrl ('', 1)]"

definition RG_VHD_EDITS :: "edit list" where
  "RG_VHD_EDITS = [
      (''entity rgmii_lb_selftest is'',
        ''entity rgmii_lb_selftest_split is'', 1),
      (''end entity rgmii_lb_selftest;'',
        ''end entity rgmii_lb_selftest_split;'', 1),
      (''architecture rtl of rgmii_lb_selftest is'',
        ''architecture rtl of rgmii_lb_selftest_split is'', 1),
      (lns [''        pad    : inout std_logic_vector(5 downto 0)     -- [3:0] TXD/RXD, [4] TX_CTL/RX_CTL, [5] TXC/RXC'',
        []],
        lns [''        pad_o  : out   std_logic_vector(5 downto 0);    -- parity split: the pads as driven'',
        ''        pad_i  : in    std_logic_vector(5 downto 0)     -- parity split: the pads as read'',
        []], 1),
      (lns [''        pad     <= pad_out;'',
        ''        pad_in  <= pad after 1 ns;'',
        []],
        lns [''        pad_o   <= pad_out;'',
        ''        pad_in  <= pad_i after 1 ns;'',
        []], 1),
      (lns [''        gen_pad : for i_pad in 0 to 5 generate'',
        ''            attribute DONT_TOUCH of u_iobuf : label is \"TRUE\";'',
        ''        begin'',
        ''            u_iobuf : IOBUF'',
        ''                port map ('',
        ''                    I  => pad_out(i_pad),'',
        ''                    T  => '0','',
        ''                    O  => pad_in(i_pad),'',
        ''                    IO => pad(i_pad)'',
        ''                );'',
        ''        end generate gen_pad;'',
        []],
        lns [''        pad_o  <= pad_out;           -- parity split: IOBUF I, T = '0'' @ [CHR 0x27],
        ''        pad_in <= pad_i;             -- parity split: IOBUF O'',
        []], 1)]"

definition V_LOOP_HEAD :: string where
  "V_LOOP_HEAD = lns [''        for (i_pad = 0; i_pad < 5; i_pad = i_pad + 1) begin : gen_dly'',
        []]"

definition V_LOOP_TAIL :: string where
  "V_LOOP_TAIL = lns [''        end'',
        ''    endgenerate'',
        []]"

definition VHD_LOOP_HEAD :: string where
  "VHD_LOOP_HEAD = lns [''        gen_dly : for i_pad in 0 to 4 generate'',
        ''            attribute IODELAY_GROUP of u_idelay : label is \"rgmii_lb\";'',
        ''        begin'',
        []]"

definition VHD_LOOP_TAIL :: string where
  "VHD_LOOP_TAIL = lns [''        end generate gen_dly;'',
        []]"

definition N_DLY :: nat where "N_DLY = 5"

definition split_msg :: "string \<Rightarrow> string \<Rightarrow> nat \<Rightarrow> nat \<Rightarrow> string" where
  "split_msg path old n found = path @ '': expected one '' @ [CHR 0x27] @ hd (splitlines (strip old))
     @ [CHR 0x27] @ '', found '' @ show_nat found @ ''; update the edits in gen_split.py''"

text \<open>The copies of the loop body: in copy \<open>k\<close> the label and the index are replaced.\<close>

fun copies ::
  "string \<Rightarrow> string \<Rightarrow> string \<times> (nat \<Rightarrow> string) \<Rightarrow> string \<times> (nat \<Rightarrow> string) \<Rightarrow> nat list \<Rightarrow> string list res" where
  "copies path body label idx [] = Inr []"
| "copies path body label idx (k # ks) =
    (let c = replace (fst idx) (snd idx k) (replace (fst label) (snd label k) body)
     in if contains ''i_pad'' c
        then Inl (SystemExit (path @ '': gen_dly body uses i_pad other than as its index''))
        else res_bind (copies path body label idx ks) (\<lambda>cs. Inr (c # cs)))"

definition unroll ::
  "string \<Rightarrow> string \<Rightarrow> string \<Rightarrow> string \<Rightarrow> string \<times> (nat \<Rightarrow> string) \<Rightarrow> string \<times> (nat \<Rightarrow> string) \<Rightarrow> string res" where
  "unroll src path head tail label idx =
    (if count_str src head \<noteq> 1 then Inl (SystemExit (path @ '': expected one loop head''))
     else (case find_at head 0 src of
       None \<Rightarrow> Inl (ValueError ''substring not found'')
     | Some start \<Rightarrow>
        (case find_at tail start src of
           None \<Rightarrow> Inl (SystemExit (path @ '': no loop tail after the head''))
         | Some stop \<Rightarrow>
            let body = slice src (start + length head) stop
            in if count_str body (fst label) \<noteq> 1
               then Inl (SystemExit (path @ '': expected one label in the gen_dly body''))
               else res_bind (copies path body label idx [0..<N_DLY]) (\<lambda>cs.
                 Inr (take start src @ concat cs
                   @ drop (length (hd (split_at (CHR 0x0A) tail)) + 1) tail
                   @ drop (stop + length tail) src)))))"

definition split_header :: "string \<Rightarrow> string \<Rightarrow> string" where
  "split_header path c = lns
     [c @ '' PARITY MODEL ONLY - not for synthesis. GENERATED from'',
      c @ '' '' @ path @ '' by sim/parity/rgmii_lb_selftest/gen_split.py; do not edit.'',
      c @ '' Renamed to rgmii_lb_selftest_split, with the IOBUF pads split into'',
      c @ '' pad_o and pad_i, the five IDELAYE2s unrolled and (Verilog) the'',
      c @ '' IDELAYCTRL instance named u_dlyctrl. Everything else is the source'',
      c @ '' verbatim.''] @ [CHR 0x0A]"

definition render_v :: "files \<Rightarrow> string res" where
  "render_v fs =
    (let path = ''fpga/arty_a7/rtl/rgmii_lb_selftest.v''
     in res_bind (read_source path fs) (\<lambda>src. res_bind (apply_edits (split_msg path) RG_V_EDITS src) (\<lambda>src.
        res_bind (unroll src path V_LOOP_HEAD V_LOOP_TAIL
            ('') u_idelay ('', \<lambda>k. '') u_idelay_'' @ show_nat k @ '' ('')
            (''[i_pad]'', \<lambda>k. ''['' @ show_nat k @ '']'')) (\<lambda>src.
        Inr (split_header path ''//'' @ src)))))"

definition render_vhd :: "files \<Rightarrow> string res" where
  "render_vhd fs =
    (let path = ''fpga/arty_a7/rtl/rgmii_lb_selftest.vhd''
     in res_bind (read_source path fs) (\<lambda>src. res_bind (apply_edits (split_msg path) RG_VHD_EDITS src) (\<lambda>src.
        res_bind (unroll src path VHD_LOOP_HEAD VHD_LOOP_TAIL
            (''u_idelay : IDELAYE2'', \<lambda>k. ''idelay_'' @ show_nat k @ '' : IDELAYE2'')
            (''(i_pad)'', \<lambda>k. ''('' @ show_nat k @ '')'')) (\<lambda>src.
        Inr (split_header path ''--'' @ src)))))"

text \<open>The licence and copyright lines of the source move in front of the header.\<close>

definition spdx_lines :: "string list \<Rightarrow> string list option" where
  "spdx_lines lines =
    (case List.find (\<lambda>i. contains ''SPDX-License-Identifier'' (lines ! i)) [0..<length lines] of
       None \<Rightarrow> None
     | Some i \<Rightarrow> Some (take 2 (drop i lines) @ take i lines @ drop (i + 2) lines))"

definition with_spdx_first :: "string \<Rightarrow> string res" where
  "with_spdx_first t =
    (case spdx_lines (lines_with_ends t) of
       None \<Rightarrow> Inl (SystemExit ''no SPDX line in the source'')
     | Some lines \<Rightarrow> Inr (concat lines))"

definition RG_SPLITS :: "gen_model list" where
  "RG_SPLITS =
    [(''sim/parity/rgmii_lb_selftest/rgmii_lb_selftest_split.v'',
      \<lambda>fs. res_bind (render_v fs) with_spdx_first),
     (''sim/parity/rgmii_lb_selftest/rgmii_lb_selftest_split.vhd'',
      \<lambda>fs. res_bind (render_vhd fs) with_spdx_first)]"

section \<open>The split pins of the ZCU106 top\<close>

definition ZCU_V_EDITS :: "edit list" where
  "ZCU_V_EDITS = [
      (''module zcu106_top #('',
        ''module zcu106_top_split #('', 1),
      (lns [''    output wire       IIC_SCL,            // open drain (no clock stretching)'',
        ''    inout  wire       IIC_SDA,'',
        []],
        lns [''    output wire       IIC_SCL_t,          // parity split: scl_t'',
        ''    output wire       IIC_SDA_t,          // parity split: sda_t'',
        ''    input  wire       IIC_SDA_i,          // parity split: the pin as read'',
        ''`ifdef ZCU106_SFP1_LB'',
        ''    output wire [607:0] PARITY_PROBE_IN,  // parity split: EIO probe_in'',
        ''`else'',
        ''    output wire [255:0] PARITY_PROBE_IN,  // parity split: EIO probe_in'',
        ''`endif'',
        []], 1),
      (lns [''    assign IIC_SCL = scl_t ? 1'bz : 1'b0;'',
        ''    assign IIC_SDA = sda_t ? 1'bz : 1'b0;'',
        []],
        lns [''    assign IIC_SCL_t = scl_t;'',
        ''    assign IIC_SDA_t = sda_t;'',
        []], 1),
      (''        .sda_i      (IIC_SDA),'',
        ''        .sda_i      (IIC_SDA_i),'', 1)]"

definition zcu_vhdl_edits :: "nat \<Rightarrow> edit list" where
  "zcu_vhdl_edits probe_w = [
      (''entity zcu106_top is'', ''entity zcu106_top_split is'', 1),
      (''end entity zcu106_top;'', ''end entity zcu106_top_split;'', 1),
      (''architecture rtl of zcu106_top is'', ''architecture rtl of zcu106_top_split is'', 1),
      (lns [''        IIC_SCL             : out   std_logic;  -- open drain (no clock stretching)'',
        ''        IIC_SDA             : inout std_logic;'', []],
        lns [''        IIC_SCL_t           : out   std_logic;  -- parity split: scl_t'',
        ''        IIC_SDA_t           : out   std_logic;  -- parity split: sda_t'',
        ''        IIC_SDA_i           : in    std_logic;  -- parity split: the pin as read'',
        ''        PARITY_PROBE_IN     : out   std_logic_vector('' @ show_nat (probe_w - 1)
          @ '' downto 0);  -- parity split: EIO probe_in'', []], 1),
      (lns [''    IIC_SCL <= 'Z' when scl_t = '1' else '0';'',
        ''    IIC_SDA <= 'Z' when sda_t = '1' else '0';'', []],
        lns [''    IIC_SCL_t <= scl_t;'', ''    IIC_SDA_t <= sda_t;'', []], 1),
      (''                sda_i      => IIC_SDA,'', ''                sda_i      => IIC_SDA_i,'', 1)]"

text \<open>The matches of a pattern with their places: \<open>at\<close> says where one may start, from the character
  before; after a match, \<open>k\<close> characters of it are still to be skipped.\<close>

fun spans :: "(char option \<Rightarrow> bool) \<Rightarrow> 'a matcher \<Rightarrow> nat \<Rightarrow> nat \<Rightarrow> char option \<Rightarrow> string \<Rightarrow> (nat \<times> nat \<times> 'a) list" where
  "spans at m k pos prev [] = []"
| "spans at m k pos prev (c # cs) =
    (if 0 < k then spans at m (k - 1) (pos + 1) (Some c) cs
     else (case (if at prev then m (c # cs) else None) of
         None \<Rightarrow> spans at m 0 (pos + 1) (Some c) cs
       | Some (a, rest) \<Rightarrow>
           (pos, pos + (Suc (length cs) - length rest), a)
           # spans at m (length cs - length rest) (pos + 1) (Some c) cs))"

definition all_spans :: "(char option \<Rightarrow> bool) \<Rightarrow> 'a matcher \<Rightarrow> string \<Rightarrow> (nat \<times> nat \<times> 'a) list" where
  "all_spans at m s = spans at m 0 0 None s"

definition line_start :: "char option \<Rightarrow> bool" where
  "line_start prev = (prev = None \<or> prev = Some (CHR 0x0A))"

definition word_start :: "char option \<Rightarrow> bool" where
  "word_start prev = (case prev of None \<Rightarrow> True | Some c \<Rightarrow> \<not> word_char c)"

text \<open>Up to the first occurrence of a text, and the rest behind it.\<close>

fun until :: "string \<Rightarrow> string matcher" where
  "until lit [] = None"
| "until lit (c # cs) =
    (if prefix lit (c # cs) then Some ([], drop (length lit) (c # cs))
     else map_option (\<lambda>(w, r). (c # w, r)) (until lit cs))"

definition EIO_VHD :: "string matcher" where
  "EIO_VHD s =
    Option.bind (m_lit ''    '' s) (\<lambda>s. Option.bind (m_some word_char s) (\<lambda>(name, s).
    Option.bind (m_lit ('' : fcapz_eio_xilinxus'' @ [CHR 0x0A]) s) (\<lambda>s.
    Option.bind (until ([CHR 0x0A] @ ''        );'' @ [CHR 0x0A]) s) (\<lambda>(_, s). Some (name, s)))))"

text \<open>\<open>[^,\n]*?\s*,\<close>: the shortest text in front of a comma, without spaces at its end.\<close>

fun actual :: "string matcher" where
  "actual [] = None"
| "actual (c # cs) =
    (case dropWhile py_space (c # cs) of
       d # ds \<Rightarrow>
         if d = CHR '','' then Some ([], ds)
         else if c = CHR 0x0A then None
         else map_option (\<lambda>(w, r). (c # w, r)) (actual cs)
     | [] \<Rightarrow> None)"

definition PROBE_VHD :: "string matcher" where
  "PROBE_VHD s =
    Option.bind (m_lit ''probe_in'' s) (\<lambda>s. Option.bind (m_lit ''=>'' (dropWhile py_space s)) (\<lambda>s.
    actual (dropWhile py_space s)))"

definition plain_name :: "string \<Rightarrow> bool" where
  "plain_name s = (case s of [] \<Rightarrow> False
     | c # cs \<Rightarrow> word_char c \<and> \<not> py_digit c \<and> c \<noteq> CHR ''_'' \<and> list_all word_char cs)"

definition lift_probe_vhd :: "string \<Rightarrow> string res" where
  "lift_probe_vhd src =
    (case all_spans line_start EIO_VHD src of
       [(start, stop, name)] \<Rightarrow>
         (case all_spans word_start PROBE_VHD (slice src start stop) of
            [(_, _, sig)] \<Rightarrow>
              if plain_name sig
              then Inr (take start src @ ''    PARITY_PROBE_IN <= '' @ sig @ '';'' @ [CHR 0x0A] @ drop start src)
              else Inl (SystemExit (name @ '': probe_in must be wired to one plain signal''))
          | _ \<Rightarrow> Inl (SystemExit (name @ '': probe_in must be wired to one plain signal'')))
     | insts \<Rightarrow> Inl (SystemExit (''expected one fcapz_eio_xilinxus instance, found '' @ show_nat (length insts)
         @ ''; update gen_split.py'')))"

text \<open>\<open>\.probe_in  \((\{[^;]*?\})\),\<close>\<close>

definition PROBE_V :: "string matcher" where
  "PROBE_V s =
    Option.bind (m_lit ''.probe_in  ({'' s) (\<lambda>s. Option.bind (until ''}),'' s) (\<lambda>(w, r).
    if CHR '';'' \<in> set w then None else Some (''{'' @ w @ ''}'', r)))"

fun lift_from :: "(nat \<times> nat \<times> string) list \<Rightarrow> string \<Rightarrow> string res" where
  "lift_from [] src = Inr src"
| "lift_from ((start, stop, e) # found) src =
    (case rfind ''    fcapz_eio_xilinxus #('' start src of
       None \<Rightarrow> Inl (SystemExit ''fpga/zcu106/rtl/zcu106_top.v: probe_in outside an EIO instance'')
     | Some inst \<Rightarrow>
         lift_from found (take inst src @ ''    assign PARITY_PROBE_IN = '' @ join '' '' (split_ws e) @ '';'' @ [CHR 0x0A]
           @ slice src inst start @ ''.probe_in  (PARITY_PROBE_IN),'' @ drop stop src))"

definition lift_probes_v :: "string \<Rightarrow> string res" where
  "lift_probes_v src =
    (let found = all_spans (\<lambda>_. True) PROBE_V src
     in if length found \<noteq> 2
        then Inl (SystemExit (''fpga/zcu106/rtl/zcu106_top.v: expected two EIO probe_in concatenations, found ''
          @ show_nat (length found) @ ''; update gen_split.py''))
        else lift_from (rev found) src)"

definition zcu_msg :: "string \<Rightarrow> string \<Rightarrow> nat \<Rightarrow> nat \<Rightarrow> string" where
  "zcu_msg path old n found = path @ '': expected one '' @ [CHR 0x27] @ strip old @ [CHR 0x27]
     @ '', found '' @ show_nat found @ ''; update the edits in gen_split.py''"

definition zcu_render :: "string \<Rightarrow> string \<Rightarrow> edit list \<Rightarrow> (string \<Rightarrow> string res) \<Rightarrow> files \<Rightarrow> string res" where
  "zcu_render path c edits post fs =
    res_bind (read_source path fs) (\<lambda>src. res_bind (apply_edits (zcu_msg path) edits src) (\<lambda>src.
    res_bind (post src) (\<lambda>src.
    Inr (with_header
      [c @ '' PARITY MODEL ONLY - not for synthesis. GENERATED from'',
       c @ '' '' @ path @ '' by sim/parity/zcu106_top/gen_split.py; do not edit.'',
       c @ '' Renamed to zcu106_top_split, with the open-drain I2C pins split into'',
       c @ '' IIC_SCL_t, IIC_SDA_t and IIC_SDA_i, and the EIO probe_in brought out on'',
       c @ '' PARITY_PROBE_IN. Everything else is the source verbatim.''] src))))"

definition ZCU_SPLITS :: "gen_model list" where
  "ZCU_SPLITS =
    [(''sim/parity/zcu106_top/zcu106_top_split.v'',
      zcu_render ''fpga/zcu106/rtl/zcu106_top.v'' ''//'' ZCU_V_EDITS lift_probes_v),
     (''sim/parity/zcu106_top/zcu106_top_split.vhd'',
      zcu_render ''fpga/zcu106/rtl/zcu106_top.vhd'' ''--'' (zcu_vhdl_edits 256) lift_probe_vhd),
     (''sim/parity/zcu106_top/zcu106_top_lb_split.vhd'',
      zcu_render ''fpga/zcu106/rtl/zcu106_top_lb.vhd'' ''--'' (zcu_vhdl_edits 608) lift_probe_vhd)]"

section \<open>The generators keep the contract\<close>

text \<open>A renderer depends on its source only.\<close>

definition reads_only :: "string \<Rightarrow> (files \<Rightarrow> string res) \<Rightarrow> bool" where
  "reads_only path render \<longleftrightarrow> (\<forall>fs fs'. fs path = fs' path \<longrightarrow> render fs = render fs')"

named_theorems reads_only_intros

lemma golden_reads [reads_only_intros]: "reads_only path (golden_render path dst edits)"
  by (simp add: reads_only_def golden_render_def read_source_def)

lemma smallmem_reads [reads_only_intros]: "reads_only path (smallmem_render path c access edits)"
  by (simp add: reads_only_def smallmem_render_def read_source_def)

lemma smallram_reads [reads_only_intros]: "reads_only path (smallram_render path c edits)"
  by (simp add: reads_only_def smallram_render_def read_source_def)

lemma zcu_reads [reads_only_intros]: "reads_only path (zcu_render path c edits post)"
  by (simp add: reads_only_def zcu_render_def read_source_def)

lemma split_reads [reads_only_intros]:
  "reads_only ''fpga/arty_a7/rtl/rgmii_lb_selftest.v'' (\<lambda>fs. res_bind (render_v fs) with_spdx_first)"
  "reads_only ''fpga/arty_a7/rtl/rgmii_lb_selftest.vhd'' (\<lambda>fs. res_bind (render_vhd fs) with_spdx_first)"
  by (simp_all only: reads_only_def render_v_def render_vhd_def read_source_def Let_def) metis+

text \<open>The contract of a list of models from that of its models, with their sources.\<close>

lemma generator_contract:
  assumes "list_all2 (\<lambda>path m. reads_only path (snd m)) paths models"
    and "distinct (map fst models)" and "list_all (\<lambda>dst. list_all (\<lambda>p. dst \<noteq> p) paths) (map fst models)"
  shows "parity_generator models (set paths)"
proof
  show "render fs = render fs'" if m: "(dst, render) \<in> set models" and same: "\<And>p. p \<in> set paths \<Longrightarrow> fs p = fs' p"
    for dst render and fs fs' :: files
  proof -
    have "\<exists>path \<in> set paths. reads_only path render"
      using m assms(1) by (fastforce simp: list_all2_conv_all_nth in_set_conv_nth)
    then show ?thesis using same by (auto simp: reads_only_def)
  qed
  show "distinct (map fst models)" by (rule assms)
  show "dst \<notin> set paths" if "dst \<in> fst ` set models" for dst
    using that assms(3) by (auto simp: list_all_iff)
qed

interpretation goldens: parity_generator GOLDENS
  "set [''fpga/arty_a7/rtl/test_sequencer.v'', ''rtl/net/udp_echo.v'']"
  by (rule generator_contract) (simp_all add: GOLDENS_def golden_model_def reads_only_intros)

interpretation smallmems: parity_generator SMALLMEMS
  "set [''rtl/async_fifo.v'', ''rtl/vhdl/async_fifo.vhd'']"
  by (rule generator_contract) (simp_all add: SMALLMEMS_def reads_only_intros)

interpretation smallrams: parity_generator SMALLRAMS
  "set [''rtl/mii_if.v'', ''rtl/vhdl/mii_if.vhd'']"
  by (rule generator_contract) (simp_all add: SMALLRAMS_def reads_only_intros)

interpretation rg_splits: parity_generator RG_SPLITS
  "set [''fpga/arty_a7/rtl/rgmii_lb_selftest.v'', ''fpga/arty_a7/rtl/rgmii_lb_selftest.vhd'']"
  by (rule generator_contract) (simp_all add: RG_SPLITS_def reads_only_intros)

interpretation zcu_splits: parity_generator ZCU_SPLITS
  "set [''fpga/zcu106/rtl/zcu106_top.v'', ''fpga/zcu106/rtl/zcu106_top.vhd'',
        ''fpga/zcu106/rtl/zcu106_top_lb.vhd'']"
  by (rule generator_contract) (simp_all add: ZCU_SPLITS_def reads_only_intros)

section \<open>Lemmas\<close>

definition GENERATORS :: "gen_model list list" where
  "GENERATORS = [GOLDENS, SMALLMEMS, SMALLRAMS, RG_SPLITS, ZCU_SPLITS]"

text \<open>Every edit of the scripts has a text to look for.\<close>

lemma edits_once:
  "list_all (list_all (\<lambda>(old, new, n). old \<noteq> [] \<and> n = 1))
    [GOLDEN_EDITS_1, GOLDEN_EDITS_2, SMALLRAM_EDITS_1, SMALLRAM_EDITS_2, RG_V_EDITS, RG_VHD_EDITS, ZCU_V_EDITS]"
  by code_simp

text \<open>Moving the licence lines keeps every line.\<close>

lemma spdx_lines_perm:
  assumes "spdx_lines lines = Some out"
  shows "mset out = mset lines \<and> contains ''SPDX-License-Identifier'' (hd out)"
proof -
  obtain i where i: "List.find (\<lambda>i. contains ''SPDX-License-Identifier'' (lines ! i)) [0..<length lines] = Some i"
    and out: "out = take 2 (drop i lines) @ take i lines @ drop (i + 2) lines"
    using assms by (auto simp: spdx_lines_def split: option.splits)
  have less: "i < length lines" and c: "contains ''SPDX-License-Identifier'' (lines ! i)"
    using i by (auto simp: find_Some_iff)
  have d: "drop i lines = take 2 (drop i lines) @ drop (i + 2) lines"
    by (metis append_take_drop_id drop_drop add.commute)
  have "mset lines = mset (take i lines) + mset (drop i lines)"
    unfolding mset_append [symmetric] append_take_drop_id ..
  also have "\<dots> = mset out" unfolding out by (subst d) (simp add: add.assoc add.left_commute)
  finally have "mset lines = mset out" .
  moreover have "hd out = lines ! i"
    using less unfolding out by (simp add: drop_eq_Nil hd_drop_conv_nth hd_append)
  ultimately show ?thesis using c by simp
qed

lemma copies_length: "copies path body label idx ks = Inr cs \<Longrightarrow> length cs = length ks \<and> list_all (\<lambda>c. \<not> contains ''i_pad'' c) cs"
  by (induction ks arbitrary: cs) (auto simp: Let_def res_bind_Inr_iff split: if_splits)

lemma GENERATORS_cases:
  "models \<in> set GENERATORS \<Longrightarrow> P GOLDENS \<Longrightarrow> P SMALLMEMS \<Longrightarrow> P SMALLRAMS \<Longrightarrow> P RG_SPLITS \<Longrightarrow> P ZCU_SPLITS
    \<Longrightarrow> P models"
  unfolding GENERATORS_def list.set by blast

section \<open>Theorems\<close>

text \<open>C32: Writing the models of a generator and then checking them finds nothing out of date, and the
  writing touches nothing but the models. When a source can no longer be edited the writing stops
  with an error instead.\<close>

theorem generated_models_check:
  assumes "models \<in> set GENERATORS" and "gen_main False models fs = (fs', Inr c)"
  shows "c = 0 \<and> gen_main True models fs' = (fs', Inr 0)
    \<and> (\<forall>p. p \<notin> fst ` set models \<longrightarrow> fs' p = fs p)"
proof -
  have "gen_main False models fs = (fs', Inr c) \<longrightarrow> ?thesis"
    by (rule GENERATORS_cases [OF assms(1)])
      (intro impI, erule goldens.write_then_check smallmems.write_then_check smallrams.write_then_check
        rg_splits.write_then_check zcu_splits.write_then_check)+
  then show ?thesis using assms(2) ..
qed

text \<open>A check succeeds exactly when every model renders and is on disk with that text.\<close>

theorem gen_check_iff:
  assumes "models \<in> set GENERATORS"
  shows "gen_main True models fs = (fs, Inr 0)
    \<longleftrightarrow> list_all (\<lambda>(dst, render). \<exists>out. render fs = Inr out \<and> fs dst = Some out) models"
  unfolding list_all_iff
  by (rule GENERATORS_cases [OF assms])
    (rule goldens.check_iff smallmems.check_iff smallrams.check_iff rg_splits.check_iff zcu_splits.check_iff)+

text \<open>The edits of a script are rewrites of one place each: what they do not match is copied
  verbatim.\<close>

theorem edits_verbatim:
  assumes "apply_edits msg edits src = Inr out" and "list_all (\<lambda>(old, new, n). old \<noteq> [] \<and> n = 1) edits"
  shows "edited (map (\<lambda>(old, new, n). (old, new)) edits) src out"
  by (rule apply_edits_edited [OF assms])

text \<open>Unrolling puts five copies of the loop body, none of which mentions the loop index, where the
  loop was.\<close>

theorem unroll_copies:
  assumes "unroll src path head tail label idx = Inr out"
  shows "\<exists>a cs b start stop. out = a @ concat cs @ b \<and> length cs = 5
    \<and> list_all (\<lambda>c. \<not> contains ''i_pad'' c) cs
    \<and> copies path (slice src (start + length head) stop) label idx [0..<5] = Inr cs
    \<and> a = take start src \<and> suffix (drop (stop + length tail) src) b"
proof -
  obtain start stop cs where cs: "copies path (slice src (start + length head) stop) label idx [0..<5] = Inr cs"
    and out: "out = take start src @ concat cs @ (drop (length (hd (split_at (CHR 0x0A) tail)) + 1) tail
      @ drop (stop + length tail) src)"
    using assms by (auto simp: unroll_def Let_def res_bind_Inr_iff N_DLY_def split: if_splits option.splits)
  then show ?thesis using copies_length [OF cs]
    by (intro exI conjI) (auto simp: suffix_def)
qed

text \<open>The licence lines move to the top and no line is lost.\<close>

theorem spdx_first_keeps_lines:
  assumes "with_spdx_first t = Inr out"
  shows "\<exists>lines. out = concat lines \<and> mset lines = mset (lines_with_ends t)
    \<and> contains ''SPDX-License-Identifier'' (hd lines)"
  using assms spdx_lines_perm by (auto simp: with_spdx_first_def split: option.splits)

section \<open>Witnesses\<close>

definition sample_files :: files where
  "sample_files = [
    ''fpga/arty_a7/rtl/test_sequencer.v'' \<mapsto> lns [''// SPDX'', ''// Copyright'', ''module test_sequencer #('',
      ''tx_tdata  <= arp_frame[arp_idx];'', []],
    ''rtl/net/udp_echo.v'' \<mapsto> lns [''// SPDX'', ''// Copyright'', ''module udp_echo #('',
      ''TX_PAYLOAD: tx_data_mux = udp_buf[payload_tx_cnt[ADDR_W-1:0]];'', []]]"

lemma sample_run: "snd (gen_main False GOLDENS sample_files) = Inr 0"
  by code_simp

theorem generated_models_check_witness:
  "gen_main True GOLDENS (fst (gen_main False GOLDENS sample_files))
    = (fst (gen_main False GOLDENS sample_files), Inr 0)"
  using generated_models_check [of GOLDENS sample_files "fst (gen_main False GOLDENS sample_files)" 0] sample_run
  by (simp add: GENERATORS_def prod_eq_iff)

theorem gen_check_iff_witness:
  "gen_main True GOLDENS sample_files = (sample_files, Inr 0)
    \<longleftrightarrow> list_all (\<lambda>(dst, render). \<exists>out. render sample_files = Inr out \<and> sample_files dst = Some out) GOLDENS"
  by (rule gen_check_iff) (simp add: GENERATORS_def)

theorem edits_verbatim_witness:
  "edited [(''b'', ''xy''), (''a'', ''y'')] ''abc'' ''yxyc''"
  using edits_verbatim [of "\<lambda>_ _ _. []" "[(''b'', ''xy'', 1), (''a'', ''y'', 1)]" "''abc''" "''yxyc''"]
  by (simp add: count_str_def replace_def Let_def)

definition loop_src :: string where "loop_src = ''0FOR x_l[i_pad]; END1''"

theorem unroll_copies_witness:
  "\<exists>a cs b start stop. projr (unroll loop_src [] ''FOR '' ''END'' (''_l'', \<lambda>k. ''_'' @ show_nat k) (''[i_pad]'', \<lambda>k. show_nat k))
      = a @ concat cs @ b \<and> length cs = 5 \<and> list_all (\<lambda>c. \<not> contains ''i_pad'' c) cs
    \<and> copies [] (slice loop_src (start + length ''FOR '') stop) (''_l'', \<lambda>k. ''_'' @ show_nat k) (''[i_pad]'', \<lambda>k. show_nat k) [0..<5] = Inr cs
    \<and> a = take start loop_src \<and> suffix (drop (stop + length ''END'') loop_src) b"
proof (rule unroll_copies)
  have "returns (unroll loop_src [] ''FOR '' ''END'' (''_l'', \<lambda>k. ''_'' @ show_nat k) (''[i_pad]'', \<lambda>k. show_nat k))"
    by code_simp
  then show "unroll loop_src [] ''FOR '' ''END'' (''_l'', \<lambda>k. ''_'' @ show_nat k) (''[i_pad]'', \<lambda>k. show_nat k)
      = Inr (projr (unroll loop_src [] ''FOR '' ''END'' (''_l'', \<lambda>k. ''_'' @ show_nat k) (''[i_pad]'', \<lambda>k. show_nat k)))"
    by (auto simp: returns_iff)
qed

theorem spdx_first_keeps_lines_witness:
  "\<exists>lines. lns [''// SPDX-License-Identifier: X'', ''// C'', ''// header'', ''m''] = concat lines
    \<and> mset lines = mset (lines_with_ends (lns [''// header'', ''// SPDX-License-Identifier: X'', ''// C'', ''m'']))
    \<and> contains ''SPDX-License-Identifier'' (hd lines)"
  by (rule spdx_first_keeps_lines) code_simp

end
