(* ===== verification/Emz_GmiiLb.thy ===== *)
theory Emz_GmiiLb
  imports Emz_RgmiiLb Emz_Serial
begin

text \<open>
  \<open>fpga/arty_a7/scripts/gmii_lb_selftest.py\<close>: the GMII loopback self-test through the fcapz command
  line. The world holds what each run of fcapz answers (exit code, output, error output) and the
  readings of the clock; the log has the commands and the sleeps. Progress lines and check names
  are not part of the log.
\<close>

section \<open>Constants\<close>

definition GM_MARKER :: nat where "GM_MARKER = 0xB0A"

definition GM_FIELDS :: "field list" where
  "GM_FIELDS = [
    (''tx_frames'', 0, 32), (''rx_ok'', 32, 32), (''rx_ok_big'', 64, 32), (''rx_bad'', 96, 32),
    (''rx_terror'', 128, 32), (''seq_gap'', 160, 32), (''max_ok_len'', 192, 16),
    (''first_bad_len'', 208, 16), (''first_bad_seq'', 224, 16), (''init_done'', 240, 1),
    (''run'', 241, 1), (''mmcm_locked'', 242, 1), (''marker'', 244, 12)]"

section \<open>fcapz\<close>

datatype gm_act =
    GmFcapz "string list" "string list"
  | GmSleep rat

record gm =
  g_answers :: "(int \<times> string \<times> string) res list"
  g_times :: "rat list"
  g_log :: "gm_act list"

definition gm_act :: "gm_act \<Rightarrow> (gm, unit) io" where
  "gm_act a = io_modify (\<lambda>s. s\<lparr>g_log := g_log s @ [a]\<rparr>)"

text \<open>\<open>time.sleep\<close> and \<open>time.monotonic\<close>\<close>

definition gm_sleep :: "rat \<Rightarrow> (gm, unit) io" where
  "gm_sleep d = (if d < 0 then io_raise (ValueError ''sleep length'') else gm_act (GmSleep d))"

definition gm_time :: "(gm, rat) io" where
  "gm_time = (\<lambda>s. case g_times s of [] \<Rightarrow> Starved | t # ts \<Rightarrow> Done t (s\<lparr>g_times := ts\<rparr>))"

text \<open>The command line is \<open>fcapz\<close>, the options \<open>base\<close>, then the arguments.\<close>

definition gm_run :: "string list \<Rightarrow> string list \<Rightarrow> (gm, int \<times> string \<times> string) io" where
  "gm_run base args = io_seq (gm_act (GmFcapz base args)) (io_answer g_answers (\<lambda>xs s. s\<lparr>g_answers := xs\<rparr>))"

fun fcapz_from :: "nat \<Rightarrow> string \<Rightarrow> string list \<Rightarrow> string list \<Rightarrow> (gm, string) io" where
  "fcapz_from 0 last_out args base =
    io_raise (SystemExit (''ERROR: fcapz '' @ join '' '' args @ '' failed:'' @ [CHR 0x0A] @ last_out))"
| "fcapz_from (Suc n) last_out args base = io_bind (gm_run base args) (\<lambda>(code, out, err).
     if code = 0 then io_ret (strip (out @ err))
     else io_seq (gm_sleep 2) (fcapz_from n (strip (out @ err)) args base))"

definition fcapz :: "string list \<Rightarrow> string list \<Rightarrow> (gm, string) io" where
  "fcapz args base = fcapz_from 5 [] args base"

section \<open>The status\<close>

text \<open>The status word is a Python integer: the field decoding on \<open>int\<close>.\<close>

definition gm_decode :: "int \<Rightarrow> lb_status" where
  "gm_decode raw = (let st = drop_bit 64 raw
     in map (\<lambda>(name, lsb, w). (name, nat (drop_bit lsb st AND (push_bit w 1 - 1)))) GM_FIELDS)"

definition gm_parse :: "string \<Rightarrow> lb_status res" where
  "gm_parse out =
    (if splitlines out = [] then Inl IndexError
     else case py_int16 (last (splitlines out)) of
       None \<Rightarrow> Inl (ValueError ''int'')
     | Some raw \<Rightarrow> Inr (gm_decode raw))"

definition gm_status :: "string list \<Rightarrow> (gm, lb_status) io" where
  "gm_status base = io_bind (fcapz [''eio-read''] base) (\<lambda>out.
     case gm_parse out of Inl e \<Rightarrow> io_raise e | Inr st \<Rightarrow> io_ret st)"

section \<open>The test\<close>

record gm_args =
  ga_seconds :: rat
  ga_port :: string
  ga_tap :: string
  ga_interval :: rat

definition gm_base :: "gm_args \<Rightarrow> string list" where
  "gm_base a = [''--backend'', ''hw_server'', ''--port'', ga_port a, ''--tap'', ga_tap a]"

text \<open>The progress loop takes at least one reading of the clock per round, so the readings left
  bound its rounds.\<close>

fun gm_traffic :: "rat list \<Rightarrow> gm_args \<Rightarrow> rat \<Rightarrow> (gm, unit) io" where
  "gm_traffic [] a t0 = (\<lambda>s. Starved)"
| "gm_traffic (_ # left) a t0 = io_bind gm_time (\<lambda>t.
     if t - t0 < ga_seconds a then
       io_bind gm_time (\<lambda>t'.
       io_seq (gm_sleep (min (ga_interval a) (max 0 (ga_seconds a - (t' - t0)))))
       (io_bind (gm_status (gm_base a)) (\<lambda>_. io_bind gm_time (\<lambda>_.
        gm_traffic left a t0))))
     else io_ret ())"

definition gm_checks :: "lb_status \<Rightarrow> (string \<times> bool) list" where
  "gm_checks s =
    [(''frames were sent'', lb_item s ''tx_frames'' > 0),
     (''every frame came back exact and clean'', lb_item s ''rx_ok'' = lb_item s ''tx_frames''),
     (''frames > 4083 B came back exact'', lb_item s ''rx_ok_big'' > 0),
     (''longest exact frame is 9014 B (9018 with FCS)'', lb_item s ''max_ok_len'' = 9014),
     (''no bad frames'', lb_item s ''rx_bad'' = 0),
     (''no terror'', lb_item s ''rx_terror'' = 0),
     (''no sequence gaps'', lb_item s ''seq_gap'' = 0)]"

definition gm_fails :: "lb_status \<Rightarrow> nat" where
  "gm_fails s = length (filter (\<lambda>(name, ok). \<not> ok) (gm_checks s))"

definition gm_session :: "gm_args \<Rightarrow> (gm, lb_status) io" where
  "gm_session a = (let base = gm_base a in
     io_seq (fcapz [''eio-write'', ''0x2''] base)
    (io_seq (gm_sleep (1 / 5))
    (io_seq (fcapz [''eio-write'', ''0x1''] base)
    (io_bind gm_time (\<lambda>t0.
     io_seq (\<lambda>s. gm_traffic (g_times s) a t0 s)
    (io_seq (fcapz [''eio-write'', ''0x0''] base)
    (io_seq (gm_sleep 1)
     (gm_status base))))))))"

definition gm_main :: "gm_args \<Rightarrow> (gm, nat) io" where
  "gm_main a = io_bind (gm_status (gm_base a)) (\<lambda>s.
     if lb_item s ''marker'' \<noteq> GM_MARKER then io_raise (SystemExit ''self-test marker'')
     else if \<not> (lb_item s ''init_done'' \<noteq> 0 \<and> lb_item s ''mmcm_locked'' \<noteq> 0)
     then io_raise (SystemExit ''self-test not ready'')
     else io_bind (gm_session a) (\<lambda>s. io_ret (if gm_fails s \<noteq> 0 then 1 else 0)))"

section \<open>Lemmas\<close>

text \<open>Rounds beyond the readings of the clock change nothing: any bound that is not below the number
  of readings left gives the same run.\<close>

definition fewer_times :: "gm \<Rightarrow> gm \<Rightarrow> bool" where
  "fewer_times s t \<longleftrightarrow> length (g_times t) \<le> length (g_times s)"

lemma fewer_times_refl: "reflp fewer_times"
  by (simp add: reflp_def fewer_times_def)

lemma fewer_times_trans: "transp fewer_times"
  by (auto simp: transp_def fewer_times_def)

lemma fewer_times_steps:
  "io_keeps fewer_times (gm_run base args)" "io_keeps fewer_times (gm_sleep d)"
  "io_keeps fewer_times gm_time"
  by (rule io_keepsI; auto simp: gm_run_def gm_act_def gm_sleep_def gm_time_def io_answer_def io_seq_def
      io_bind_def fewer_times_def split: list.splits sum.splits if_splits)+

lemma fewer_times_fcapz: "io_keeps fewer_times (fcapz_from n last_out args base)"
proof (induction n arbitrary: last_out)
  case (Suc n)
  have "io_keeps fewer_times (if code = 0 then io_ret (strip (out @ err))
      else io_seq (gm_sleep 2) (fcapz_from n (strip (out @ err)) args base))" for code :: int and out err
    by (intro io_keeps_if io_keeps_ret io_keeps_seq fewer_times_refl fewer_times_trans fewer_times_steps Suc.IH)
  then show ?case unfolding fcapz_from.simps
    by (intro io_keeps_bind fewer_times_steps fewer_times_trans) (auto split: prod.splits)
qed (simp add: io_keeps_raise fewer_times_refl)

lemma fewer_times_status: "io_keeps fewer_times (gm_status base)"
  unfolding gm_status_def fcapz_def
  by (intro io_keeps_bind fewer_times_fcapz fewer_times_trans)
    (auto intro: io_keeps_ret io_keeps_raise fewer_times_refl split: sum.splits)

lemma io_bind_cong_fewer:
  assumes "io_keeps fewer_times m" and "length (g_times s) \<le> n"
    and "\<And>x s'. length (g_times s') \<le> n \<Longrightarrow> f x s' = g x s'"
  shows "io_bind m f s = io_bind m g s"
proof (cases "m s")
  case (Done x s')
  then have "length (g_times s') \<le> n" using io_keepsD [OF assms(1), of s s'] assms(2) by (simp add: fewer_times_def)
  then show ?thesis using Done assms(3) by simp
qed (simp_all add: io_bind_def)

lemma gm_traffic_bound:
  "length (g_times s) \<le> length l1 \<Longrightarrow> length (g_times s) \<le> length l2 \<Longrightarrow> gm_traffic l1 a t0 s = gm_traffic l2 a t0 s"
proof (induction l1 arbitrary: l2 s)
  case Nil
  then show ?case by (cases l2) (simp_all add: gm_time_def io_bind_def)
next
  case (Cons x l1)
  show ?case
  proof (cases "g_times s")
    case Nil
    then show ?thesis by (cases l2) (simp_all add: gm_time_def io_bind_def)
  next
    case (Cons t ts)
    then obtain y l2' where l2: "l2 = y # l2'" using Cons.prems(2) by (cases l2) auto
    have s: "gm_time s = Done t (s\<lparr>g_times := ts\<rparr>)" using Cons by (simp add: gm_time_def)
    have n: "length ts \<le> length l1" "length ts \<le> length l2'" using Cons.prems Cons l2 by simp_all
    have IH: "gm_traffic l1 a t0 s' = gm_traffic l2' a t0 s'" if "length (g_times s') \<le> length ts" for s'
      using Cons.IH [of s' l2'] that n by simp
    have round: "io_bind gm_time (\<lambda>t'. io_seq (gm_sleep (d t')) (io_bind (gm_status b)
          (\<lambda>_. io_bind gm_time (\<lambda>_. gm_traffic l1 a t0)))) (s\<lparr>g_times := ts\<rparr>)
      = io_bind gm_time (\<lambda>t'. io_seq (gm_sleep (d t')) (io_bind (gm_status b)
          (\<lambda>_. io_bind gm_time (\<lambda>_. gm_traffic l2' a t0)))) (s\<lparr>g_times := ts\<rparr>)" for d b
      unfolding io_seq_def
      by (intro io_bind_cong_fewer [where n = "length ts"] fewer_times_steps fewer_times_status IH)
        simp_all
    show ?thesis unfolding l2 by (simp add: s round)
  qed
qed

text \<open>The commands of a log.\<close>

definition gm_cmds :: "gm_act list \<Rightarrow> string list list" where
  "gm_cmds acts = concat (map (\<lambda>a. case a of GmFcapz base args \<Rightarrow> [args] | GmSleep d \<Rightarrow> []) acts)"

lemma gm_cmds_simps [simp]:
  "gm_cmds [] = []"
  "gm_cmds (xs @ ys) = gm_cmds xs @ gm_cmds ys"
  "gm_cmds (GmFcapz base args # xs) = args # gm_cmds xs"
  "gm_cmds (GmSleep d # xs) = gm_cmds xs"
  by (simp_all add: gm_cmds_def)

text \<open>What a step may do to the log: it appends commands from a given set only.\<close>

definition only_cmds :: "string list set \<Rightarrow> gm \<Rightarrow> gm \<Rightarrow> bool" where
  "only_cmds C s t \<longleftrightarrow> (\<exists>new. g_log t = g_log s @ new \<and> set (gm_cmds new) \<subseteq> C)"

lemma only_cmds_refl: "reflp (only_cmds C)"
  by (simp add: reflp_def only_cmds_def)

lemma only_cmds_trans: "transp (only_cmds C)"
  unfolding transp_def only_cmds_def
proof (intro allI impI, elim exE conjE)
  fix x y z new1 new2
  assume "g_log y = g_log x @ new1" "g_log z = g_log y @ new2" "set (gm_cmds new1) \<subseteq> C" "set (gm_cmds new2) \<subseteq> C"
  then show "\<exists>new. g_log z = g_log x @ new \<and> set (gm_cmds new) \<subseteq> C"
    by (intro exI [of _ "new1 @ new2"]) simp
qed

lemma only_cmds_run: "io_keeps (only_cmds {args}) (gm_run base args)"
proof (rule io_keepsI)
  fix s t assume "final (gm_run base args s) = Some t"
  then have "g_log t = g_log s @ [GmFcapz base args]"
    by (auto simp: gm_run_def gm_act_def io_answer_def io_seq_def io_bind_def split: list.splits sum.splits)
  then show "only_cmds {args} s t" by (simp add: only_cmds_def)
qed

lemma only_cmds_sleep: "io_keeps (only_cmds C) (gm_sleep d)"
  by (rule io_keepsI) (auto simp: gm_sleep_def gm_act_def only_cmds_def split: if_splits)

lemma only_cmds_time: "io_keeps (only_cmds C) gm_time"
  by (rule io_keepsI) (auto simp: gm_time_def only_cmds_def split: list.splits)

lemmas only_cmds_intros = io_keeps_bind io_keeps_seq io_keeps_ret io_keeps_raise io_keeps_if only_cmds_refl
  only_cmds_trans only_cmds_run only_cmds_sleep only_cmds_time

lemma only_cmds_fcapz_from: "io_keeps (only_cmds {args}) (fcapz_from n last_out args base)"
proof (induction n arbitrary: last_out)
  case (Suc n)
  show ?case unfolding fcapz_from.simps
  proof (intro only_cmds_intros)
    fix x
    show "io_keeps (only_cmds {args}) (case x of (code, out, err) \<Rightarrow>
        if code = 0 then io_ret (strip (out @ err))
        else io_seq (gm_sleep 2) (fcapz_from n (strip (out @ err)) args base))"
      by (cases x) (auto intro!: only_cmds_intros Suc.IH)
  qed
qed (simp add: io_keeps_raise only_cmds_refl)

lemma only_cmds_fcapz: "io_keeps (only_cmds {args}) (fcapz args base)"
  by (simp add: fcapz_def only_cmds_fcapz_from)

lemma only_cmds_status: "io_keeps (only_cmds {[''eio-read'']}) (gm_status base)"
  unfolding gm_status_def
proof (intro io_keeps_bind only_cmds_fcapz only_cmds_trans)
  fix out
  show "io_keeps (only_cmds {[''eio-read'']}) (case gm_parse out of Inl e \<Rightarrow> io_raise e | Inr st \<Rightarrow> io_ret st)"
    by (cases "gm_parse out") (auto intro!: only_cmds_intros)
qed









text \<open>\<open>fcapz\<close> run against five results.\<close>

lemma fcapz_from_results:
  assumes "g_answers s = map Inr rs @ rest" and "length rs = n"
  shows "(\<exists>out t. fcapz_from n last_out args base s = Done out t
        \<and> (\<exists>r \<in> set rs. fst r = 0 \<and> out = strip (fst (snd r) @ snd (snd r)))
        \<and> (\<exists>r \<in> set rs. fst r = 0))
    \<or> ((\<forall>r \<in> set rs. fst r \<noteq> 0) \<and> (\<exists>msg t. fcapz_from n last_out args base s = Raised (SystemExit msg) t))"
  using assms
proof (induction n arbitrary: last_out rs s)
  case (Suc n)
  then obtain code o1 e1 rs' where rs: "rs = (code, o1, e1) # rs'" "length rs' = n" by (cases rs) auto
  let ?s1 = "s\<lparr>g_answers := map Inr rs' @ rest, g_log := g_log s @ [GmFcapz base args]\<rparr>"
  have r: "gm_run base args s = Done (code, o1, e1) ?s1"
    using Suc.prems(1) rs by (simp add: gm_run_def gm_act_def io_seq_def io_bind_def io_answer_def)
  show ?case
  proof (cases "code = 0")
    case True
    then show ?thesis using rs by (simp add: r)
  next
    case False
    let ?s2 = "?s1\<lparr>g_log := g_log ?s1 @ [GmSleep 2]\<rparr>"
    have "fcapz_from (Suc n) last_out args base s = fcapz_from n (strip (o1 @ e1)) args base ?s2"
      using False by (simp add: r gm_sleep_def gm_act_def io_seq_def io_bind_def)
    then show ?thesis
      using Suc.IH [of ?s2 rs' "strip (o1 @ e1)"] rs False by (simp only:) auto
  qed
qed simp

section \<open>Theorems\<close>

text \<open>Five results of fcapz are enough: the command returns the text of a run that succeeded exactly
  when one of the five does, and otherwise the script ends with an error.\<close>

theorem fcapz_five_tries:
  assumes "g_answers s = map Inr rs @ rest" and "length rs = 5"
  shows "if \<exists>r \<in> set rs. fst r = 0 then \<exists>out t. fcapz args base s = Done out t
    else \<exists>msg t. fcapz args base s = Raised (SystemExit msg) t"
  using fcapz_from_results [OF assms, of "[]" args base] by (auto simp: fcapz_def)


text \<open>Without the marker, or before the board is ready, nothing is written: every command of a run
  that ends in an error there is a read.\<close>

theorem gm_main_wrong_build:
  assumes "gm_status (gm_base a) s = Done st s1"
    and "lb_item st ''marker'' \<noteq> GM_MARKER \<or> lb_item st ''init_done'' = 0 \<or> lb_item st ''mmcm_locked'' = 0"
  shows "\<exists>msg. gm_main a s = Raised (SystemExit msg) s1 \<and> only_cmds {[''eio-read'']} s s1"
  using assms io_keepsD [OF only_cmds_status, of "gm_base a" s s1] by (auto simp: gm_main_def)

text \<open>The two loopback self-tests apply the same checks to their counters.\<close>

theorem gm_checks_same: "gm_checks s = speed_checks s"
  by (simp add: gm_checks_def speed_checks_def)

section \<open>Witnesses\<close>



definition gm_sample_args :: gm_args where
  "gm_sample_args = \<lparr>ga_seconds = 30, ga_port = ''3121'', ga_tap = ''xc7a100t.tap'', ga_interval = 10\<rparr>"




theorem fcapz_five_tries_witness:
  "\<exists>out t. fcapz [''eio-read''] [] \<lparr>g_answers = map Inr [(1, [], []), (0, ''0x0'', []), (0, [], []),
     (0, [], []), (0, [], [])], g_times = [], g_log = []\<rparr> = Done out t"
  using fcapz_five_tries [of "\<lparr>g_answers = map Inr [(1, [], []), (0, ''0x0'', []), (0, [], []),
     (0, [], []), (0, [], [])], g_times = [], g_log = []\<rparr>"
     "[(1, [], []), (0, ''0x0'', []), (0, [], []), (0, [], []), (0, [], [])]" "[]" "[''eio-read'']" "[]"]
  by simp

definition gm_wrong :: gm where
  "gm_wrong = \<lparr>g_answers = [Inr (0, ''0x0'', [])], g_times = [], g_log = []\<rparr>"

definition gm_wrong_end :: gm where
  "gm_wrong_end = \<lparr>g_answers = [], g_times = [], g_log = [GmFcapz (gm_base gm_sample_args) [''eio-read'']]\<rparr>"

lemma gm_wrong_status: "gm_status (gm_base gm_sample_args) gm_wrong = Done (gm_decode 0) gm_wrong_end"
proof -
  have "(case gm_status (gm_base gm_sample_args) gm_wrong of Done d s1 \<Rightarrow>
      d = gm_decode 0 \<and> g_answers s1 = [] \<and> g_times s1 = [] \<and> g_log s1 = g_log gm_wrong_end | _ \<Rightarrow> False)"
    by code_simp
  then show ?thesis by (auto simp: gm_wrong_end_def split: outcome.splits)
qed

theorem gm_main_wrong_build_witness:
  "\<exists>msg. gm_main gm_sample_args gm_wrong = Raised (SystemExit msg) gm_wrong_end
    \<and> only_cmds {[''eio-read'']} gm_wrong gm_wrong_end"
  by (rule gm_main_wrong_build [OF gm_wrong_status]) code_simp

end
