(* ===== verification/Emz_RunAll.thy ===== *)
theory Emz_RunAll
  imports Emz_Text "HOL-Library.Char_ord" "HOL-Library.List_Lexorder"
begin

text \<open>
  \<open>sim/parity/run_all.py\<close>: runs every manifest and proof script of the parity modules. The
  directories below \<open>sim/parity\<close> with the names of their files, and the result of each command,
  are parameters. The results of the worker threads are taken in the order of the modules, as
  \<open>pool.map\<close> gives them; times, the GitHub grouping lines and the layout of the summary are left
  out.
\<close>

section \<open>The script\<close>

text \<open>What the script finds: the Python interpreter, its own directory, the directories next to it
  with the files in each, which paths are files, and what a command run in a directory gives (its
  exit code and its output). Paths are taken as resolved.\<close>

record parity_env =
  pe_python :: string
  pe_here :: string
  pe_dirs :: "(string \<times> string list) list"
  pe_is_file :: "string \<Rightarrow> bool"
  pe_run :: "string \<Rightarrow> string list \<Rightarrow> int \<times> string"

definition is_manifest :: "string \<Rightarrow> bool" where
  "is_manifest f \<longleftrightarrow> suffix ''.yml'' f"

definition is_proof :: "string \<Rightarrow> bool" where
  "is_proof f \<longleftrightarrow> prefix ''prove_'' f \<and> suffix ''.py'' (drop 6 f)"

definition parity_modules :: "parity_env \<Rightarrow> string list" where
  "parity_modules env = sort (map fst (filter (\<lambda>(name, files). \<exists>f \<in> set files. is_manifest f) (pe_dirs env)))"

definition module_files :: "parity_env \<Rightarrow> string \<Rightarrow> string list" where
  "module_files env name = (case map_of (pe_dirs env) name of None \<Rightarrow> [] | Some files \<Rightarrow> files)"

text \<open>The commands of a module: the manifests, then the proof scripts.\<close>

definition manifest_cmd :: "parity_env \<Rightarrow> string \<Rightarrow> string \<Rightarrow> string list" where
  "manifest_cmd env parity m = [pe_python env, parity, m, ''--strict'']"

definition proof_cmd :: "parity_env \<Rightarrow> string \<Rightarrow> string \<Rightarrow> string \<Rightarrow> string list" where
  "proof_cmd env parity name p =
    [pe_python env, pe_here env @ ''/'' @ name @ ''/'' @ p, dirname (\<lambda>c. c = CHR ''/'') parity]"

definition module_cmds :: "parity_env \<Rightarrow> string \<Rightarrow> string \<Rightarrow> (string \<times> string list) list" where
  "module_cmds env parity name =
    map (\<lambda>m. (m, manifest_cmd env parity m)) (sort (filter is_manifest (module_files env name)))
    @ map (\<lambda>p. (p, proof_cmd env parity name p)) (sort (filter is_proof (module_files env name)))"

definition run_module :: "parity_env \<Rightarrow> string \<Rightarrow> string \<Rightarrow> string \<times> (string \<times> int) list \<times> string" where
  "run_module env parity name =
    (let done = map (\<lambda>(label, cmd). (label, pe_run env name cmd)) (module_cmds env parity name)
     in (name, map (\<lambda>(label, rc, out). (label, rc)) done,
         join [CHR 0x0A] (map (\<lambda>(label, rc, out). ''===== '' @ name @ ''/'' @ label @ '' (exit '' @ show_int rc
           @ '')'' @ [CHR 0x0A] @ out) done)))"

record parity_args =
  pa_translatehdl :: "string option"
  pa_module :: "string list"

text \<open>The proofs that did not pass, in order.\<close>

definition parity_failed :: "(string \<times> (string \<times> int) list \<times> string) list \<Rightarrow> string list" where
  "parity_failed runs = concat (map (\<lambda>(name, results, _).
     map (\<lambda>(m, rc). name @ ''/'' @ m) (filter (\<lambda>(m, rc). rc \<noteq> 0) results)) runs)"

definition parity_script :: "string \<Rightarrow> string" where
  "parity_script root = root @ ''/skills/translate-hdl/scripts/parity.py''"

definition parity_names :: "parity_env \<Rightarrow> parity_args \<Rightarrow> string list" where
  "parity_names env args = (if pa_module args \<noteq> [] then pa_module args else parity_modules env)"

text \<open>\<open>main\<close>: the log of each module, the last line, and the exit code; or a usage error.\<close>

definition parity_main :: "parity_env \<Rightarrow> parity_args \<Rightarrow> (string list \<times> string \<times> nat) res" where
  "parity_main env args =
    (let root = (case pa_translatehdl args of None \<Rightarrow> [] | Some root \<Rightarrow> root);
         parity = parity_script root;
         names = parity_names env args;
         unknown = filter (\<lambda>n. n \<notin> set (parity_modules env)) names
     in if root = [] then Inl (SystemExit ''give --translatehdl or set $TRANSLATEHDL'')
        else if \<not> pe_is_file env parity then Inl (SystemExit (parity @ '' not found''))
        else if unknown \<noteq> [] then
          Inl (SystemExit (''no manifests for: '' @ join '', '' (sort (remdups unknown))))
        else let runs = map (run_module env parity) names;
                 failed = parity_failed runs
             in Inr (map (\<lambda>(_, _, text). text) runs,
                  if failed \<noteq> [] then show_nat (length failed) @ '' proof(s) did not pass: '' @ join '', '' failed
                  else ''All '' @ show_nat (sum_list (map (\<lambda>(_, results, _). length results) runs)) @ '' proofs passed.'',
                  if failed \<noteq> [] then 1 else 0))"

section \<open>Lemmas\<close>

lemma parity_failed_none:
  "parity_failed (map (run_module env parity) names) = []
    \<longleftrightarrow> (\<forall>name \<in> set names. \<forall>(label, cmd) \<in> set (module_cmds env parity name). fst (pe_run env name cmd) = 0)"
  by (induction names)
    (auto simp: parity_failed_def run_module_def Let_def filter_empty_conv case_prod_beta)

lemma module_cmds_all:
  "(\<forall>(label, cmd) \<in> set (module_cmds env parity name). fst (pe_run env name cmd) = 0)
    \<longleftrightarrow> (\<forall>f \<in> set (module_files env name).
        (is_manifest f \<longrightarrow> fst (pe_run env name (manifest_cmd env parity f)) = 0)
      \<and> (is_proof f \<longrightarrow> fst (pe_run env name (proof_cmd env parity name f)) = 0))"
  by (auto simp: module_cmds_def)

section \<open>Theorems\<close>

text \<open>The script exits with 0 exactly when every manifest and every proof script of every module it
  was asked for (all of them by default) returned 0; it runs only for modules that have a
  manifest.\<close>

theorem parity_main_exit:
  assumes "parity_main env args = Inr (logs, line, c)"
  shows "(c = 0 \<longleftrightarrow> (\<forall>name \<in> set (parity_names env args). \<forall>f \<in> set (module_files env name).
        (is_manifest f \<longrightarrow> fst (pe_run env name (manifest_cmd env (parity_script (the (pa_translatehdl args))) f)) = 0)
      \<and> (is_proof f \<longrightarrow> fst (pe_run env name (proof_cmd env (parity_script (the (pa_translatehdl args))) name f)) = 0)))
    \<and> length logs = length (parity_names env args)
    \<and> set (parity_names env args) \<subseteq> set (parity_modules env)"
proof -
  obtain root where root: "pa_translatehdl args = Some root" "root \<noteq> []"
    using assms by (auto simp: parity_main_def Let_def split: option.splits if_splits)
  let ?p = "parity_script root"
  have k: "filter (\<lambda>n. n \<notin> set (parity_modules env)) (parity_names env args) = []"
    and c: "c = (if parity_failed (map (run_module env ?p) (parity_names env args)) \<noteq> [] then 1 else 0)"
    and l: "length logs = length (parity_names env args)"
    using assms root by (auto simp: parity_main_def Let_def split: if_splits)
  have "c = 0 \<longleftrightarrow> parity_failed (map (run_module env ?p) (parity_names env args)) = []" by (simp add: c)
  then show ?thesis
    using k l unfolding parity_failed_none module_cmds_all root option.sel by (auto simp: filter_empty_conv)
qed

section \<open>Witnesses\<close>

definition parity_sample :: parity_env where
  "parity_sample = \<lparr>pe_python = ''python3'', pe_here = ''sim/parity'',
     pe_dirs = [(''stubs'', [''xpm.v'']), (''rgmii_if'', [''prove_rgmii_if.py'', ''rgmii_if.yml'', ''README.md''])],
     pe_is_file = (\<lambda>_. True),
     pe_run = (\<lambda>name cmd. (if suffix ''.py'' (cmd ! 1) \<and> length cmd = 3 then (1, ''timeout'') else (0, ''ok'')))\<rparr>"

definition parity_sample_args :: parity_args where
  "parity_sample_args = \<lparr>pa_translatehdl = Some ''/hdl'', pa_module = []\<rparr>"

definition parity_sample_out :: "string list \<times> string \<times> nat" where
  "parity_sample_out = projr (parity_main parity_sample parity_sample_args)"

lemma parity_sample_run: "parity_main parity_sample parity_sample_args
  = Inr (fst parity_sample_out, fst (snd parity_sample_out), 1)"
proof -
  have "(case parity_main parity_sample parity_sample_args of Inl _ \<Rightarrow> False | Inr (l, x, c) \<Rightarrow> c = 1)" by code_simp
  then show ?thesis by (auto simp: parity_sample_out_def split: sum.splits)
qed

theorem parity_main_exit_witness:
  "((1 :: nat) = 0 \<longleftrightarrow> (\<forall>name \<in> set (parity_names parity_sample parity_sample_args). \<forall>f \<in> set (module_files parity_sample name).
        (is_manifest f \<longrightarrow> fst (pe_run parity_sample name (manifest_cmd parity_sample (parity_script (the (pa_translatehdl parity_sample_args))) f)) = 0)
      \<and> (is_proof f \<longrightarrow> fst (pe_run parity_sample name (proof_cmd parity_sample (parity_script (the (pa_translatehdl parity_sample_args))) name f)) = 0)))
    \<and> length (fst parity_sample_out) = length (parity_names parity_sample parity_sample_args)
    \<and> set (parity_names parity_sample parity_sample_args) \<subseteq> set (parity_modules parity_sample)"
  by (rule parity_main_exit [OF parity_sample_run])

end
