(* ===== verification/Emz_Rng.thy ===== *)
theory Emz_Rng
  imports Emz_Prelude
begin

text \<open>
  The parts of Python's \<open>random.Random\<close> that the stimulus generators use.  A generator is the
  list of raw draws it will still make (an exhausted list draws 0), so that a statement about
  every \<open>rng\<close> is a statement about every seed and every sequence of draws.  The seeding function
  itself is never needed.  A call returns the drawn value and the generator that is left.
\<close>

type_synonym rng = "nat list"

fun rng_raw :: "rng \<Rightarrow> nat \<times> rng" where
  "rng_raw [] = (0, [])"
| "rng_raw (d # ds) = (d, ds)"

text \<open>\<open>rng.randrange(n)\<close> and \<open>rng.randrange(a, b)\<close> for constants \<open>n > 0\<close>, \<open>a < b\<close>.\<close>

definition rng_below :: "nat \<Rightarrow> rng \<Rightarrow> nat \<times> rng" where
  "rng_below n r = (case rng_raw r of (d, r') \<Rightarrow> (d mod n, r'))"

definition rng_range :: "nat \<Rightarrow> nat \<Rightarrow> rng \<Rightarrow> nat \<times> rng" where
  "rng_range a b r = (case rng_below (b - a) r of (d, r') \<Rightarrow> (a + d, r'))"

text \<open>\<open>rng.randint(a, b)\<close> raises on an empty range.\<close>

definition rng_randint :: "int \<Rightarrow> int \<Rightarrow> rng \<Rightarrow> (int \<times> rng) res" where
  "rng_randint a b r =
     (if b < a then Inl (ValueError ''empty range'')
      else case rng_below (nat (b - a + 1)) r of (d, r') \<Rightarrow> Inr (a + int d, r'))"

text \<open>\<open>rng.random()\<close> is \<open>k / 2 ^ 53\<close> for the \<open>k\<close> returned here; a comparison \<open>random() < p\<close> with a
  double \<open>p\<close> is \<open>k < ceil (p * 2 ^ 53)\<close>.\<close>

definition rng_random :: "rng \<Rightarrow> nat \<times> rng" where
  "rng_random r = rng_below (2 ^ 53) r"

definition rng_choice :: "'a list \<Rightarrow> rng \<Rightarrow> 'a \<times> rng" where
  "rng_choice xs r = (case rng_below (length xs) r of (i, r') \<Rightarrow> (xs ! i, r'))"

text \<open>\<open>bytes(rng.randrange(256) for _ in range(n))\<close>.\<close>

fun rng_bytes :: "nat \<Rightarrow> rng \<Rightarrow> bytes \<times> rng" where
  "rng_bytes 0 r = ([], r)"
| "rng_bytes (Suc n) r =
     (case rng_below 256 r of (d, r') \<Rightarrow>
        case rng_bytes n r' of (bs, r'') \<Rightarrow> (word_of_nat d # bs, r''))"

text \<open>\<open>rng.choices(xs, weights=ws)[0]\<close>: the first index whose cumulative weight exceeds
  \<open>random() * total\<close>; the weights are given as natural numbers over a common denominator.\<close>

fun pick_weighted :: "'a list \<Rightarrow> nat list \<Rightarrow> nat \<Rightarrow> 'a \<Rightarrow> 'a" where
  "pick_weighted (x # xs) (w # ws) u d = (if u < w then x else pick_weighted xs ws (u - w) x)"
| "pick_weighted _ _ u d = d"

definition rng_choices :: "'a list \<Rightarrow> nat list \<Rightarrow> rng \<Rightarrow> 'a \<times> rng" where
  "rng_choices xs ws r =
     (case rng_random r of (k, r') \<Rightarrow>
        (pick_weighted xs ws (k * sum_list ws div 2 ^ 53) (hd xs), r'))"

text \<open>Draws in sequence, and the chance \<open>rng.random() < p\<close> with \<open>p\<close> in units of \<open>2 ^ -53\<close>.\<close>

definition rng_bind :: "('a \<times> rng) res \<Rightarrow> ('a \<Rightarrow> rng \<Rightarrow> ('b \<times> rng) res) \<Rightarrow> ('b \<times> rng) res" where
  "rng_bind m f = res_bind m (\<lambda>(x, r). f x r)"

definition rng_chance :: "nat \<Rightarrow> rng \<Rightarrow> (bool \<times> rng) res" where
  "rng_chance p r = (case rng_random r of (k, r') \<Rightarrow> Inr (k < p, r'))"

text \<open>\<open>c and rng.random() < p\<close>: no draw when \<open>c\<close> is false.\<close>

definition rng_and_chance :: "bool \<Rightarrow> nat \<Rightarrow> rng \<Rightarrow> (bool \<times> rng) res" where
  "rng_and_chance c p r = (if c then rng_chance p r else Inr (False, r))"

definition rng_nat :: "nat \<Rightarrow> nat \<Rightarrow> rng \<Rightarrow> (nat \<times> rng) res" where
  "rng_nat a b r = rng_bind (rng_randint (int a) (int b) r) (\<lambda>x r'. Inr (nat x, r'))"

lemma rng_bind_Inr_iff [res_simps]:
  "rng_bind m f = Inr y \<longleftrightarrow> (\<exists>x r. m = Inr (x, r) \<and> f x r = Inr y)"
  by (auto simp: rng_bind_def res_bind_Inr_iff)

lemma rng_below_less: "0 < n \<Longrightarrow> rng_below n r = (d, r') \<Longrightarrow> d < n"
  by (auto simp: rng_below_def split: prod.splits)

lemma rng_range_bounds:
  assumes "a < b" "rng_range a b r = (d, r')"
  shows "a \<le> d \<and> d < b"
proof -
  obtain k r'' where k: "rng_below (b - a) r = (k, r'')" by fastforce
  have "k < b - a" using rng_below_less [OF _ k] assms(1) by simp
  moreover have "d = a + k" using assms k by (simp add: rng_range_def)
  ultimately show ?thesis by linarith
qed

lemma rng_randint_bounds: "rng_randint a b r = Inr (x, r') \<Longrightarrow> a \<le> x \<and> x \<le> b"
proof -
  assume *: "rng_randint a b r = Inr (x, r')"
  then have ab: "a \<le> b" by (auto simp: rng_randint_def split: if_splits)
  obtain d r'' where d: "rng_below (nat (b - a + 1)) r = (d, r'')" by fastforce
  have "d < nat (b - a + 1)" using rng_below_less [OF _ d] ab by simp
  then have "int d \<le> b - a" by linarith
  moreover have "x = a + int d" using * d ab by (simp add: rng_randint_def)
  ultimately show ?thesis by simp
qed

lemma rng_randint_total: "a \<le> b \<Longrightarrow> \<exists>x r'. rng_randint a b r = Inr (x, r')"
  by (simp add: rng_randint_def split: prod.splits)

lemma rng_bytes_length: "rng_bytes n r = (bs, r') \<Longrightarrow> length bs = n"
  by (induction n arbitrary: r bs r') (auto split: prod.splits)

lemma rng_choice_in: "xs \<noteq> [] \<Longrightarrow> rng_choice xs r = (x, r') \<Longrightarrow> x \<in> set xs"
  by (auto simp: rng_choice_def dest: rng_below_less [rotated] split: prod.splits)

lemma pick_weighted_in: "d \<in> set ys \<Longrightarrow> set xs \<subseteq> set ys \<Longrightarrow> pick_weighted xs ws u d \<in> set ys"
  by (induction xs ws u d rule: pick_weighted.induct) auto

lemma rng_choices_in: "xs \<noteq> [] \<Longrightarrow> rng_choices xs ws r = (x, r') \<Longrightarrow> x \<in> set xs"
  by (auto simp: rng_choices_def split: prod.splits intro!: pick_weighted_in)

lemma rng_nat_bounds: "rng_nat a b r = Inr (x, r') \<Longrightarrow> a \<le> x \<and> x \<le> b"
  by (auto simp: rng_nat_def res_simps dest!: rng_randint_bounds)

lemma rng_nat_total: "a \<le> b \<Longrightarrow> returns (rng_nat a b r)"
  using rng_randint_total [of "int a" "int b" r] by (auto simp: rng_nat_def rng_bind_def)

lemma rng_bind_total:
  "returns m \<Longrightarrow> (\<And>x r'. returns (f x r')) \<Longrightarrow> returns (rng_bind m f)"
  by (cases m) (auto simp: rng_bind_def split: prod.splits)

lemma rng_chance_total: "returns (rng_chance p r)" "returns (rng_and_chance c p r)"
  by (simp_all add: rng_chance_def rng_and_chance_def split: prod.split)

lemma rng_randint_returns: "a \<le> b \<Longrightarrow> returns (rng_randint a b r)"
  using rng_randint_total [of a b r] by (auto simp: returns_iff)

end
