(* ===== verification/Emz_Crc.thy ===== *)
theory Emz_Crc
  imports Emz_Prelude
begin

text \<open>
  The CRC-32 the benches and the reference model use. \<open>crc_step\<close> / \<open>crc_raw\<close> are those of
  \<open>sim/cocotb/lib/txpath_bench.py\<close>, \<open>crc32_byte\<close> is that of \<open>sim/cocotb/lib/mac_sys_b.py\<close>
  (the same loop without the masks), and \<open>zlib_crc32\<close> models the library routine
  \<open>zlib.crc32\<close> that \<open>sim/cocotb/lib/eth.py\<close> calls: the table-driven form, initial value and
  final complement all ones. Python integers are unbounded and here never negative, so they
  are \<open>nat\<close>. The lemmas show that one shift step is linear over XOR, preserves 32 bits and is
  injective there; feeding \<open>k\<close> bytes is \<open>8 * k\<close> shift steps of the register XORed with them.
\<close>

section \<open>The bitwise and the table-driven register\<close>

definition crc_shift :: "nat \<Rightarrow> nat" where
  "crc_shift c = (if c AND 1 \<noteq> 0 then drop_bit 1 c XOR 0xEDB88320 else drop_bit 1 c)"

definition crc_step :: "nat \<Rightarrow> nat \<Rightarrow> nat" where
  "crc_step c b = (crc_shift ^^ 8) (c XOR (b AND 0xFF)) AND 0xFFFFFFFF"

definition crc_raw :: "bytes \<Rightarrow> nat \<Rightarrow> nat" where
  "crc_raw data c = foldl (\<lambda>c b. crc_step c (unat b)) c data"

definition crc32_byte :: "nat \<Rightarrow> nat \<Rightarrow> nat" where
  "crc32_byte crc b = (crc_shift ^^ 8) (crc XOR b)"

definition zlib_table :: "nat \<Rightarrow> nat" where
  "zlib_table i = (crc_shift ^^ 8) i"

definition zlib_update :: "nat \<Rightarrow> byte \<Rightarrow> nat" where
  "zlib_update c b = zlib_table ((c XOR unat b) AND 0xFF) XOR drop_bit 8 c"

definition zlib_crc32 :: "bytes \<Rightarrow> nat" where
  "zlib_crc32 data = foldl zlib_update 0xFFFFFFFF data XOR 0xFFFFFFFF"

section \<open>The shift step\<close>

lemma and_one_nat: "(c AND 1 \<noteq> 0) = odd (c :: nat)"
  by (simp add: and_one_eq odd_iff_mod_2_eq_one)

lemma mask8_nat: "(255 :: nat) = mask 8" and mask32_nat: "(4294967295 :: nat) = mask 32"
  by (simp_all add: mask_eq_exp_minus_1)

lemma and_255_nat: "(n :: nat) AND 255 = take_bit 8 n"
  by (simp add: mask8_nat take_bit_eq_mask)

lemma and_32_nat: "(n :: nat) AND 4294967295 = take_bit 32 n"
  by (simp add: mask32_nat take_bit_eq_mask)

lemma less32_iff: "(n :: nat) < 4294967296 \<longleftrightarrow> take_bit 32 n = n"
  by (simp add: take_bit_nat_eq_self_iff)

lemma crc_shift_0 [simp]: "crc_shift 0 = 0"
  by (simp add: crc_shift_def)

lemma crc_shift_odd:
  "crc_shift c = (if odd c then drop_bit 1 c XOR 3988292384 else drop_bit 1 c)"
  by (simp only: crc_shift_def and_one_nat)

lemma odd_xor: "odd (a XOR b) \<longleftrightarrow> odd (a :: nat) \<noteq> odd b"
  by (simp add: even_xor_iff)

lemmas xor_nat_ac = xor.assoc xor.commute xor.left_commute xor_self_eq xor_cancel_left
  for a b c :: nat

lemma crc_shift_xor: "crc_shift (a XOR b) = crc_shift a XOR crc_shift b"
proof -
  consider "odd a" "odd b" | "odd a" "even b" | "even a" "odd b" | "even a" "even b" by blast
  then show ?thesis
    by cases (simp_all add: crc_shift_odd even_xor_iff drop_bit_xor xor_nat_ac del: drop_bit_Suc)
qed

lemma crc_shifts_xor: "(crc_shift ^^ n) (a XOR b) = (crc_shift ^^ n) a XOR (crc_shift ^^ n) b"
  by (induction n) (simp_all add: crc_shift_xor)

lemma crc_shift_push: "crc_shift (push_bit (Suc n) h) = push_bit n h"
  by (simp add: crc_shift_odd push_bit_eq_mult drop_bit_Suc)

lemma crc_shifts_push: "(crc_shift ^^ n) (push_bit n h) = h"
  by (induction n) (simp_all add: crc_shift_push funpow_swap1 del: push_bit_Suc funpow.simps
      add: funpow_simps_right)

lemma crc_shift_bound: "c < 4294967296 \<Longrightarrow> crc_shift c < 4294967296"
proof -
  assume "c < 4294967296"
  then have "drop_bit 1 c < 4294967296" by (simp add: drop_bit_Suc)
  then show ?thesis
    by (simp add: crc_shift_odd less32_iff take_bit_xor)
qed

lemma crc_shifts_bound: "c < 4294967296 \<Longrightarrow> (crc_shift ^^ n) c < 4294967296"
  by (induction n) (simp_all add: crc_shift_bound)

lemma crc_shift_zero: "c < 4294967296 \<Longrightarrow> crc_shift c = 0 \<Longrightarrow> c = 0"
proof -
  assume c: "c < 4294967296" and z: "crc_shift c = 0"
  have d: "drop_bit 1 c = c div 2" by (simp add: drop_bit_Suc)
  show "c = 0"
  proof (cases "odd c")
    case True
    with z d have "(c div 2) XOR 3988292384 = 0" by (simp add: crc_shift_odd)
    then have "c div 2 = 3988292384" by (metis xor_self_eq xor_cancel_left xor.right_neutral)
    with c show ?thesis by simp
  next
    case False
    with z d show ?thesis by (auto simp: crc_shift_odd elim: evenE)
  qed
qed

lemma xor_bound32: "a < 4294967296 \<Longrightarrow> b < 4294967296 \<Longrightarrow> (a XOR b :: nat) < 4294967296"
  by (simp add: less32_iff take_bit_xor)

lemma crc_shifts_zero: "c < 4294967296 \<Longrightarrow> (crc_shift ^^ n) c = 0 \<Longrightarrow> c = 0"
  by (induction n) (use crc_shift_zero crc_shifts_bound in \<open>auto\<close>)

lemma crc_shifts_inj:
  assumes "a < 4294967296" "b < 4294967296" "(crc_shift ^^ n) a = (crc_shift ^^ n) b"
  shows "a = b"
proof -
  have "(crc_shift ^^ n) (a XOR b) = 0" using assms(3) by (simp add: crc_shifts_xor)
  then have "a XOR b = 0" using assms(1,2) by (auto intro: crc_shifts_zero xor_bound32)
  then show ?thesis by (metis xor_cancel_left xor.right_neutral)
qed

section \<open>Feeding bytes\<close>

lemma byte_and_255: "unat (b :: byte) AND 255 = unat b"
  by (simp add: and_255_nat take_bit_nat_eq_self)

lemma byte_less32: "unat (b :: byte) < 4294967296"
  using unat_byte_lt [of b] by linarith

text \<open>On a 32-bit register the two loops compute the same step.\<close>

lemma crc_step_byte:
  assumes "c < 4294967296"
  shows "crc_step c (unat (b :: byte)) = crc32_byte c (unat b)"
proof -
  have "(crc_shift ^^ 8) (c XOR unat b) < 4294967296"
    using assms byte_less32 by (intro crc_shifts_bound xor_bound32)
  then show ?thesis
    by (simp add: crc_step_def crc32_byte_def byte_and_255 and_32_nat flip: less32_iff
        del: funpow.simps)
qed

lemma crc32_byte_bound: "c < 4294967296 \<Longrightarrow> crc32_byte c (unat (b :: byte)) < 4294967296"
  unfolding crc32_byte_def using byte_less32 by (intro crc_shifts_bound xor_bound32)

lemma crc_step_bound: "c < 4294967296 \<Longrightarrow> crc_step c (unat (b :: byte)) < 4294967296"
  by (simp add: crc_step_byte crc32_byte_bound)

lemma crc_raw_Nil [simp]: "crc_raw [] c = c"
  by (simp add: crc_raw_def)

lemma crc_raw_Cons [simp]: "crc_raw (b # bs) c = crc_raw bs (crc_step c (unat b))"
  by (simp add: crc_raw_def)

lemma crc_raw_append: "crc_raw (xs @ ys) c = crc_raw ys (crc_raw xs c)"
  by (simp add: crc_raw_def)

lemma crc_raw_bound: "c < 4294967296 \<Longrightarrow> crc_raw bs c < 4294967296"
  by (induction bs arbitrary: c) (simp_all add: crc_step_bound)

lemma split_low_byte: "(x :: nat) = take_bit 8 x XOR push_bit 8 (drop_bit 8 x)"
proof (rule bit_eqI)
  fix n
  show "bit x n = bit (take_bit 8 x XOR push_bit 8 (drop_bit 8 x)) n"
    by (auto simp: bit_xor_iff bit_take_bit_iff bit_push_bit_iff bit_drop_bit_eq not_less)
qed

lemma drop_bit_8_byte: "drop_bit 8 (unat (b :: byte)) = 0"
  by (simp add: drop_bit_eq_div)

lemma zlib_update_byte: "zlib_update c b = crc32_byte c (unat b)"
proof -
  let ?x = "c XOR unat b"
  have "(crc_shift ^^ 8) ?x =
      (crc_shift ^^ 8) (take_bit 8 ?x) XOR (crc_shift ^^ 8) (push_bit 8 (drop_bit 8 ?x))"
    by (subst split_low_byte) (simp only: crc_shifts_xor)
  also have "\<dots> = zlib_table (take_bit 8 ?x) XOR drop_bit 8 c"
    by (simp only: crc_shifts_push zlib_table_def drop_bit_xor drop_bit_8_byte xor.right_neutral)
  finally show ?thesis
    by (simp only: zlib_update_def crc32_byte_def and_255_nat)
qed

lemma zlib_crc32_raw: "zlib_crc32 data = crc_raw data 0xFFFFFFFF XOR 0xFFFFFFFF"
proof -
  have "c < 4294967296 \<Longrightarrow> foldl zlib_update c data = crc_raw data c" for c
    by (induction data arbitrary: c)
      (simp_all add: zlib_update_byte crc_step_byte crc32_byte_bound)
  then show ?thesis by (simp add: zlib_crc32_def)
qed

lemma zlib_crc32_bound: "zlib_crc32 data < 4294967296"
  by (simp add: zlib_crc32_raw xor_bound32 crc_raw_bound)

text \<open>\<open>k\<close> little-endian bytes of \<open>n\<close> are \<open>8 * k\<close> shifts of the register XORed with \<open>n\<close>.\<close>

lemma take_bit_split8:
  "take_bit (8 + 8 * k) (n :: nat) = take_bit 8 n XOR push_bit 8 (take_bit (8 * k) (drop_bit 8 n))"
proof (rule bit_eqI)
  fix i
  show "bit (take_bit (8 + 8 * k) n) i =
      bit (take_bit 8 n XOR push_bit 8 (take_bit (8 * k) (drop_bit 8 n))) i"
    by (auto simp: bit_xor_iff bit_take_bit_iff bit_push_bit_iff bit_drop_bit_eq not_less)
qed

lemma crc_raw_le_bytes:
  assumes "c < 4294967296"
  shows "crc_raw (le_bytes k n) c = (crc_shift ^^ (8 * k)) (c XOR take_bit (8 * k) n)"
  using assms
proof (induction k arbitrary: c n)
  case 0
  then show ?case by simp
next
  case (Suc k)
  let ?b = "word_of_nat (n mod 256) :: byte" and ?t = "take_bit (8 * k) (drop_bit 8 n)"
  have b: "unat ?b = take_bit 8 n" by (simp add: unat_of_nat take_bit_eq_mod)
  have d: "n div 256 = drop_bit 8 n" by (simp add: drop_bit_eq_div)
  have "crc_raw (le_bytes (Suc k) n) c = (crc_shift ^^ (8 * k)) (crc_step c (unat ?b) XOR ?t)"
    using Suc.IH [OF crc_step_bound [OF Suc.prems]] by (simp add: d)
  also have "crc_step c (unat ?b) XOR ?t =
      (crc_shift ^^ 8) (c XOR take_bit 8 n) XOR (crc_shift ^^ 8) (push_bit 8 ?t)"
    using crc_step_byte [OF Suc.prems, of ?b] by (simp only: crc32_byte_def b crc_shifts_push)
  also have "\<dots> = (crc_shift ^^ 8) (c XOR take_bit (8 + 8 * k) n)"
    by (simp only: crc_shifts_xor [symmetric] take_bit_split8 xor.assoc)
  also have "(crc_shift ^^ (8 * k)) \<dots> = (crc_shift ^^ (8 * k + 8)) (c XOR take_bit (8 + 8 * k) n)"
    by (simp only: funpow_add o_apply)
  also have "8 * k + 8 = 8 * Suc k" by simp
  also have "8 + 8 * k = 8 * Suc k" by simp
  finally show ?case .
qed

lemma crc_raw_chunk:
  assumes "c < 4294967296" "length d \<le> 4"
  shows "crc_raw d c = (crc_shift ^^ (8 * length d)) (c XOR from_bytes_le d)"
proof -
  have "from_bytes_le d < 256 ^ length d" by (rule from_bytes_le_less)
  also have "(256 :: nat) ^ length d = 2 ^ (8 * length d)"
    by (simp add: power_mult)
  finally have "take_bit (8 * length d) (from_bytes_le d) = from_bytes_le d"
    by (simp add: take_bit_nat_eq_self)
  then show ?thesis
    using crc_raw_le_bytes [OF assms(1), of "length d" "from_bytes_le d"]
    by (simp add: le_bytes_from)
qed

lemma from_bytes_le_32: "length d \<le> 4 \<Longrightarrow> from_bytes_le d < 4294967296"
proof -
  assume "length d \<le> 4"
  then have "(256 :: nat) ^ length d \<le> 256 ^ 4" by (intro power_increasing) simp_all
  with from_bytes_le_less [of d] show ?thesis by simp
qed

lemma crc_raw_inj_state:
  assumes "a < 4294967296" "b < 4294967296" "crc_raw q a = crc_raw q b"
  shows "a = b"
  using assms
proof (induction q arbitrary: a b)
  case Nil
  then show ?case by simp
next
  case (Cons x q)
  from Cons have "crc_step a (unat x) = crc_step b (unat x)"
    by (auto intro: Cons.IH crc_step_bound)
  with Cons.prems have "(crc_shift ^^ 8) (a XOR unat x) = (crc_shift ^^ 8) (b XOR unat x)"
    by (simp add: crc_step_byte crc32_byte_def)
  then have "a XOR unat x = b XOR unat x"
    using Cons.prems byte_less32 by (blast intro: crc_shifts_inj xor_bound32)
  then show ?case by (metis xor.commute xor_cancel_left)
qed

text \<open>A burst of at most four bytes that differs changes the register, whatever follows.\<close>

lemma crc_raw_burst:
  assumes "c < 4294967296" "length d = length e" "length d \<le> 4" "d \<noteq> e"
  shows "crc_raw (d @ q) c \<noteq> crc_raw (e @ q) c"
proof
  assume "crc_raw (d @ q) c = crc_raw (e @ q) c"
  then have "crc_raw d c = crc_raw e c"
    using assms(1) by (auto simp: crc_raw_append intro: crc_raw_inj_state crc_raw_bound)
  then have "c XOR from_bytes_le d = c XOR from_bytes_le e"
    using assms(1-3) crc_shifts_inj [of "c XOR from_bytes_le d" "c XOR from_bytes_le e" "8 * length d"]
    by (simp add: crc_raw_chunk xor_bound32 from_bytes_le_32)
  then have "from_bytes_le d = from_bytes_le e" by (metis xor_cancel_left)
  with assms show False using from_bytes_le_inj by blast
qed

lemma crc_shift_div:
  "crc_shift c = (if odd c then (c div 2) XOR 3988292384 else c div 2)"
  by (simp add: crc_shift_odd drop_bit_Suc)

lemma funpow_numeral: "(f ^^ numeral k) x = (f ^^ pred_numeral k) (f x)"
  by (simp add: numeral_eq_Suc funpow_swap1)

lemma crc_magic: "(crc_shift ^^ 32) 4294967295 = 3736805603"
  by (simp add: funpow_numeral crc_shift_div)

text \<open>A register followed by its own complement, low byte first, ends in the CRC-32 residue.\<close>

lemma crc_raw_residue:
  assumes "c < 4294967296"
  shows "crc_raw (le_bytes 4 (c XOR 0xFFFFFFFF)) c = 0xDEBB20E3"
proof -
  have "c XOR 0xFFFFFFFF < 4294967296" using assms by (simp add: xor_bound32)
  then have "take_bit 32 (c XOR 0xFFFFFFFF) = c XOR 0xFFFFFFFF"
    by (simp only: less32_iff)
  then show ?thesis
    using crc_raw_le_bytes [OF assms, of 4 "c XOR 0xFFFFFFFF"]
    by (simp add: xor_cancel_left crc_magic)
qed

end
