(* ===== verification/Emz_Eth.thy ===== *)
theory Emz_Eth
  imports Emz_Crc
begin

text \<open>
  Ethernet framing helpers, \<open>sim/cocotb/lib/eth.py\<close>: the frame check sequence, its byte order
  on the wire and the minimum-length padding; \<open>pad60\<close> of \<open>csum.py\<close>; and the wire frame that
  \<open>sim/cocotb/lib/gmii_rx_driver.py\<close> plays into the receiver, one beat per rising edge.
  The lemmas show that the check accepts exactly the four bytes the sender appends, that it
  rejects every error burst of at most four bytes, and what padding preserves.
\<close>

section \<open>eth.py\<close>

definition PREAMBLE_BYTE :: byte where "PREAMBLE_BYTE = 0x55"
definition PREAMBLE_LEN :: nat where "PREAMBLE_LEN = 7"
definition SFD :: byte where "SFD = 0xD5"
definition MIN_FRAME :: nat where "MIN_FRAME = 60"
definition PAD_BYTE :: byte where "PAD_BYTE = 0"
definition FCS_LEN :: nat where "FCS_LEN = 4"

definition fcs :: "bytes \<Rightarrow> nat" where
  "fcs payload = zlib_crc32 payload AND 0xFFFFFFFF"

text \<open>\<open>fcs(payload).to_bytes(4, "little")\<close>; the mask above keeps the conversion from raising
  (lemma \<open>fcs_to_bytes\<close>).\<close>

definition fcs_bytes :: "bytes \<Rightarrow> bytes" where
  "fcs_bytes payload = le_bytes 4 (fcs payload)"

definition fcs_ok :: "bytes \<Rightarrow> bytes \<Rightarrow> bool" where
  "fcs_ok payload wire_fcs \<longleftrightarrow> from_bytes_le wire_fcs = fcs payload"

definition pad_payload :: "bytes \<Rightarrow> bytes" where
  "pad_payload payload =
     (if length payload < MIN_FRAME
      then payload @ replicate (MIN_FRAME - length payload) PAD_BYTE
      else payload)"

definition expected_wire_payload :: "bytes \<Rightarrow> bytes" where
  "expected_wire_payload raw = pad_payload raw"

text \<open>\<open>pad60\<close> of \<open>csum.py\<close>: \<open>bytes(k)\<close> is \<open>k\<close> zero bytes.\<close>

definition pad60 :: "bytes \<Rightarrow> bytes" where
  "pad60 frame = frame @ replicate (60 - length frame) 0"

lemma fcs_raw: "fcs payload = crc_raw payload 0xFFFFFFFF XOR 0xFFFFFFFF"
  using zlib_crc32_bound [of payload]
  by (simp add: fcs_def and_32_nat less32_iff [THEN iffD1] flip: zlib_crc32_raw)

lemma fcs_bound: "fcs payload < 4294967296"
  by (simp add: fcs_raw xor_bound32 crc_raw_bound)

lemma fcs_to_bytes: "to_bytes_le 4 (fcs payload) = Inr (fcs_bytes payload)"
  using fcs_bound [of payload] by (simp add: to_bytes_le_def fcs_bytes_def)

lemma length_fcs_bytes [simp]: "length (fcs_bytes p) = 4"
  by (simp add: fcs_bytes_def)

lemma fcs_ok_self [simp]: "fcs_ok p (fcs_bytes p)"
  using fcs_bound [of p] by (simp add: fcs_ok_def fcs_bytes_def from_le_bytes)

lemma fcs_ok_unique: "length w = 4 \<Longrightarrow> fcs_ok p w \<longleftrightarrow> w = fcs_bytes p"
  using fcs_bound [of p]
  by (auto simp: fcs_ok_def fcs_bytes_def from_le_bytes intro: from_bytes_le_inj)

lemma fcs_burst:
  assumes "length d = length e" "length d \<le> 4" "d \<noteq> e"
  shows "fcs (pre @ d @ post) \<noteq> fcs (pre @ e @ post)"
proof
  assume "fcs (pre @ d @ post) = fcs (pre @ e @ post)"
  then have "crc_raw (pre @ d @ post) 0xFFFFFFFF = crc_raw (pre @ e @ post) 0xFFFFFFFF"
    by (metis fcs_raw xor_cancel_left xor.commute)
  then have "crc_raw (d @ post) (crc_raw pre 0xFFFFFFFF) = crc_raw (e @ post) (crc_raw pre 0xFFFFFFFF)"
    by (simp add: crc_raw_append)
  moreover have "crc_raw pre 0xFFFFFFFF < 4294967296" by (simp add: crc_raw_bound)
  ultimately show False using crc_raw_burst [OF _ assms] by blast
qed

lemma pad_payload_length: "length (pad_payload p) = max MIN_FRAME (length p)"
  by (simp add: pad_payload_def)

lemma pad_payload_prefix: "take (length p) (pad_payload p) = p"
  by (simp add: pad_payload_def)

lemma pad_payload_idem: "pad_payload (pad_payload p) = pad_payload p"
  by (simp add: pad_payload_def)

lemma pad60_pad_payload: "pad60 f = pad_payload f"
  by (simp add: pad60_def pad_payload_def MIN_FRAME_def PAD_BYTE_def)

section \<open>gmii_rx_driver.py\<close>

text \<open>One call of \<open>_beat\<close>: the values on the pins at one rising edge.\<close>

record gmii_beat =
  beat_data :: byte
  beat_dv :: bool
  beat_er :: bool

definition idle_beat :: gmii_beat where
  "idle_beat = \<lparr>beat_data = 0, beat_dv = False, beat_er = False\<rparr>"

definition gmii_rx_idle :: "nat \<Rightarrow> gmii_beat list" where
  "gmii_rx_idle cycles = replicate cycles idle_beat"

text \<open>The four FCS bytes that are sent: \<open>f[0] ^= 0xFF\<close> when corrupted.\<close>

definition sent_fcs :: "bytes \<Rightarrow> bool \<Rightarrow> bytes" where
  "sent_fcs payload corrupt_fcs =
     (let f = fcs_bytes payload in if corrupt_fcs then f[0 := f ! 0 XOR 0xFF] else f)"

definition rx_wire :: "bytes \<Rightarrow> bool \<Rightarrow> nat \<Rightarrow> bytes \<Rightarrow> bytes" where
  "rx_wire payload corrupt_fcs preamble_len lead =
     lead @ replicate preamble_len PREAMBLE_BYTE @ [SFD] @ payload @ sent_fcs payload corrupt_fcs"

definition rx_er_idx :: "bytes \<Rightarrow> bool \<Rightarrow> int option \<Rightarrow> nat \<Rightarrow> bytes \<Rightarrow> int" where
  "rx_er_idx payload align_err er_wire_idx preamble_len lead =
     (case er_wire_idx of
        Some i \<Rightarrow> i
      | None \<Rightarrow>
          if align_err
          then int (length lead + preamble_len + 1) + max 0 (int (length payload) div 2)
          else -1)"

definition gmii_rx_send_frame ::
  "bytes \<Rightarrow> bool \<Rightarrow> bool \<Rightarrow> int option \<Rightarrow> nat \<Rightarrow> bytes \<Rightarrow> gmii_beat list" where
  "gmii_rx_send_frame payload corrupt_fcs align_err er_wire_idx preamble_len lead =
     (let wire = rx_wire payload corrupt_fcs preamble_len lead;
          er_idx = rx_er_idx payload align_err er_wire_idx preamble_len lead
      in map (\<lambda>(i, b). \<lparr>beat_data = b, beat_dv = True, beat_er = (int i = er_idx)\<rparr>)
           (enumerate 0 wire) @ [idle_beat])"

lemma length_sent_fcs [simp]: "length (sent_fcs p c) = 4"
  by (simp add: sent_fcs_def Let_def)

lemma xor_255_neq: "(b :: byte) XOR 255 \<noteq> b"
proof
  assume "b XOR 255 = b"
  then have "b XOR (b XOR 255) = b XOR b" by simp
  then show False by (simp flip: xor.assoc)
qed

lemma sent_fcs_corrupt: "sent_fcs p True \<noteq> fcs_bytes p"
proof -
  have "sent_fcs p True ! 0 \<noteq> fcs_bytes p ! 0"
    by (simp add: sent_fcs_def Let_def xor_255_neq)
  then show ?thesis by auto
qed

lemma sent_fcs_ok: "fcs_ok p (sent_fcs p c) \<longleftrightarrow> \<not> c"
  using fcs_ok_unique [of "sent_fcs p c" p] sent_fcs_corrupt [of p]
  by (cases c) (auto simp: sent_fcs_def Let_def)

section \<open>Residue of a whole frame\<close>

lemma fcs_ok_residue:
  assumes "length w = 4"
  shows "fcs_ok p w \<longleftrightarrow> crc_raw (p @ w) 0xFFFFFFFF = 0xDEBB20E3"
proof -
  let ?c = "crc_raw p 0xFFFFFFFF"
  have c: "?c < 4294967296" by (simp add: crc_raw_bound)
  have f: "fcs_bytes p = le_bytes 4 (?c XOR 0xFFFFFFFF)" by (simp add: fcs_bytes_def fcs_raw)
  have "fcs_ok p w \<longleftrightarrow> w = fcs_bytes p" using assms by (rule fcs_ok_unique)
  also have "\<dots> \<longleftrightarrow> crc_raw w ?c = 0xDEBB20E3"
  proof
    assume "w = fcs_bytes p"
    then show "crc_raw w ?c = 0xDEBB20E3" using crc_raw_residue [OF c] f by simp
  next
    assume r: "crc_raw w ?c = 0xDEBB20E3"
    show "w = fcs_bytes p"
    proof (rule ccontr)
      assume "w \<noteq> fcs_bytes p"
      then have "crc_raw (w @ []) ?c \<noteq> crc_raw (fcs_bytes p @ []) ?c"
        using crc_raw_burst [OF c, of w "fcs_bytes p" "[]"] assms by simp
      with r crc_raw_residue [OF c] f show False by simp
    qed
  qed
  finally show ?thesis by (simp add: crc_raw_append)
qed

section \<open>Properties\<close>

text \<open>C5: On a 32-bit register the benches' bit-serial step, the system bench's step and the
  table-driven update of \<open>zlib\<close> are the same function, and \<open>zlib.crc32\<close> of the data is the
  complement of the benches' register: the two kinds of reference agree on every frame.\<close>
theorem crc_references_agree:
  assumes "c < 0x100000000"
  shows "crc_step c (unat (b :: byte)) = crc32_byte c (unat b) \<and>
    zlib_update c b = crc32_byte c (unat b) \<and>
    zlib_crc32 data = crc_raw data 0xFFFFFFFF XOR 0xFFFFFFFF"
  using assms by (simp add: crc_step_byte zlib_update_byte zlib_crc32_raw)

theorem crc_references_agree_witness:
  "crc_step 0xFFFFFFFF (unat (0x31 :: byte)) = crc32_byte 0xFFFFFFFF (unat (0x31 :: byte))"
  using crc_references_agree [of "0xFFFFFFFF" "0x31"] by simp

text \<open>The check accepts exactly the four bytes the sender appends, equivalently the frames
  whose register ends in the CRC-32 residue.\<close>
theorem fcs_check_exact:
  assumes "length w = 4"
  shows "(fcs_ok p w \<longleftrightarrow> w = fcs_bytes p) \<and>
    (fcs_ok p w \<longleftrightarrow> crc_raw (p @ w) 0xFFFFFFFF = 0xDEBB20E3)"
  using fcs_ok_unique fcs_ok_residue assms by blast

theorem fcs_check_exact_witness:
  "fcs_ok [1] (fcs_bytes [1]) \<and> crc_raw ([1] @ fcs_bytes [1]) 0xFFFFFFFF = 0xDEBB20E3"
  using fcs_check_exact [of "fcs_bytes [1]" "[1]"] by simp

text \<open>C3: Every error burst of at most four bytes anywhere in a frame, the FCS included and the
  boundary between payload and FCS included, is rejected.\<close>
theorem fcs_detects_bursts:
  assumes "pre @ d @ post = p @ fcs_bytes p"
    and "length e = length d" and "length d \<le> 4" and "e \<noteq> d"
  shows "\<not> fcs_ok (take (length p) (pre @ e @ post)) (drop (length p) (pre @ e @ post))"
proof
  let ?w = "pre @ e @ post"
  assume ok: "fcs_ok (take (length p) ?w) (drop (length p) ?w)"
  have len: "length ?w = length p + 4"
    using arg_cong [OF assms(1), of length] assms(2) by simp
  have "crc_raw (take (length p) ?w @ drop (length p) ?w) 0xFFFFFFFF = 0xDEBB20E3"
    using ok len fcs_ok_residue [of "drop (length p) ?w" "take (length p) ?w"] by simp
  then have "crc_raw ?w 0xFFFFFFFF = 0xDEBB20E3" by (simp only: append_take_drop_id)
  moreover have "crc_raw (pre @ d @ post) 0xFFFFFFFF = 0xDEBB20E3"
    unfolding assms(1) using fcs_ok_residue [of "fcs_bytes p" p] by simp
  ultimately have "crc_raw (e @ post) (crc_raw pre 0xFFFFFFFF) =
      crc_raw (d @ post) (crc_raw pre 0xFFFFFFFF)" by (simp add: crc_raw_append)
  moreover have "crc_raw pre 0xFFFFFFFF < 4294967296" by (simp add: crc_raw_bound)
  ultimately show False using crc_raw_burst [OF _ assms(2) _ assms(4)] assms(2,3) by simp
qed

theorem fcs_detects_bursts_witness:
  "\<not> fcs_ok (take 2 (8 # [9] @ fcs_bytes [7, 9])) (drop 2 (8 # [9] @ fcs_bytes [7, 9]))"
  using fcs_detects_bursts [of "[]" "[7]" "[9] @ fcs_bytes [7, 9]" "[7, 9]" "[8]"] by simp

lemma rx_driver_beats:
  assumes "beats = gmii_rx_send_frame payload corrupt align er_wire_idx n lead"
  shows "map beat_data (filter beat_dv beats) = rx_wire payload corrupt n lead"
    and "last beats = idle_beat"
    and "length beats = length lead + n + length payload + 6"
    and "map beat_er (butlast beats) =
      map (\<lambda>i. int i = rx_er_idx payload align er_wire_idx n lead) [0..<length beats - 1]"
proof -
  let ?wire = "rx_wire payload corrupt n lead" and ?er = "rx_er_idx payload align er_wire_idx n lead"
  let ?f = "\<lambda>(i, b). \<lparr>beat_data = b, beat_dv = True, beat_er = (int i = ?er)\<rparr>"
  have beats: "beats = map ?f (enumerate 0 ?wire) @ [idle_beat]"
    by (simp add: assms gmii_rx_send_frame_def Let_def)
  have "filter beat_dv beats = map ?f (enumerate 0 ?wire)"
    by (auto simp add: beats idle_beat_def filter_id_conv)
  moreover have "map beat_data (map ?f (enumerate k xs)) = xs" for k xs
    by (induction xs arbitrary: k) simp_all
  ultimately show "map beat_data (filter beat_dv beats) = ?wire" by simp
  show "last beats = idle_beat" by (simp add: beats)
  show len: "length beats = length lead + n + length payload + 6"
    by (simp add: beats rx_wire_def)
  have "map beat_er (map ?f (enumerate k xs)) = map (\<lambda>i. int i = ?er) [k..<k + length xs]" for k xs
  proof (induction xs arbitrary: k)
    case (Cons x xs)
    have "[k..<k + length (x # xs)] = k # [Suc k..<Suc k + length xs]" by (subst upt_conv_Cons) simp_all
    then show ?case using Cons [of "Suc k"] by (simp del: upt_Suc)
  qed simp
  from this [of 0 ?wire]
  show "map beat_er (butlast beats) = map (\<lambda>i. int i = ?er) [0..<length beats - 1]"
    by (simp add: beats)
qed

text \<open>The receive driver plays lead-in, preamble, SFD, payload and four FCS bytes with the valid
  line high, then one idle beat; the FCS is good exactly when no corruption was asked for, and
  the error line is raised at the requested wire byte only.\<close>
theorem rx_driver_wire:
  "let beats = gmii_rx_send_frame payload corrupt align er_wire_idx n lead in
    (\<exists>f. map beat_data (filter beat_dv beats) =
        lead @ replicate n PREAMBLE_BYTE @ [SFD] @ payload @ f \<and> length f = 4 \<and>
        (fcs_ok payload f \<longleftrightarrow> \<not> corrupt)) \<and>
    last beats = idle_beat \<and> length beats = length lead + n + length payload + 6 \<and>
    map beat_er (butlast beats) =
      map (\<lambda>i. int i = rx_er_idx payload align er_wire_idx n lead) [0..<length beats - 1]"
  unfolding Let_def rx_driver_beats [OF refl] rx_wire_def
  using sent_fcs_ok [of payload corrupt] by auto

end
