(* ===== verification/Emz_Score.thy ===== *)
theory Emz_Score
  imports Emz_Prelude
begin

text \<open>
  The contract every scoreboard of \<open>sim/cocotb/lib\<close> has: it accumulates error messages, a check
  appends the messages of one comparison and answers whether the list is still empty.  The locale
  states the contract and derives what a test bench relies on: errors are sticky, and a whole
  session of checks passes exactly when it started clean and every observation agreed.
\<close>

locale scoreboard =
  fixes errs :: "'s \<Rightarrow> 'm list"
    and check :: "'s \<Rightarrow> 'o \<Rightarrow> bool \<times> 's"
    and agrees :: "'s \<Rightarrow> 'o \<Rightarrow> bool"
  assumes verdict: "fst (check s ob) \<longleftrightarrow> errs (snd (check s ob)) = []"
    and extends: "\<exists>ms. errs (snd (check s ob)) = errs s @ ms \<and> (ms = [] \<longleftrightarrow> agrees s ob)"
    and keeps: "agrees (snd (check s ob)) ob' \<longleftrightarrow> agrees s ob'"
begin

primrec session :: "'s \<Rightarrow> 'o list \<Rightarrow> bool list \<times> 's" where
  "session s [] = ([], s)"
| "session s (ob # obs) =
     (let (ok, s') = check s ob; (oks, s'') = session s' obs in (ok # oks, s''))"

lemma check_passes: "fst (check s ob) \<longleftrightarrow> errs s = [] \<and> agrees s ob"
  using extends [of s ob] by (auto simp: verdict)

lemma errors_sticky: "errs s \<noteq> [] \<Longrightarrow> \<not> fst (check s ob)"
  by (simp add: check_passes)

lemma errs_after: "errs (snd (check s ob)) = [] \<longleftrightarrow> errs s = [] \<and> agrees s ob"
  using extends [of s ob] by auto

lemma session_errs:
  "errs (snd (session s obs)) = [] \<longleftrightarrow> errs s = [] \<and> (\<forall>ob\<in>set obs. agrees s ob)"
proof (induction obs arbitrary: s)
  case Nil
  then show ?case by simp
next
  case (Cons ob obs)
  then show ?case by (auto simp: Let_def case_prod_beta errs_after keeps)
qed

lemma session_all_pass:
  "errs s = [] \<Longrightarrow> (\<forall>ok\<in>set (fst (session s obs)). ok) \<longleftrightarrow> (\<forall>ob\<in>set obs. agrees s ob)"
proof (induction obs arbitrary: s)
  case Nil
  then show ?case by simp
next
  case (Cons ob obs)
  show ?case
  proof (cases "agrees s ob")
    case True
    with Cons.prems have "errs (snd (check s ob)) = []" by (simp add: errs_after)
    then show ?thesis
      using Cons.IH [of "snd (check s ob)"] Cons.prems True
      by (auto simp: Let_def case_prod_beta check_passes keeps)
  next
    case False
    then show ?thesis by (auto simp: Let_def case_prod_beta check_passes)
  qed
qed

end

end
