(* ===== verification/Emz_Saf.thy ===== *)
theory Emz_Saf
  imports Emz_Rng Emz_Eth Emz_Score
begin

text \<open>
  The store-and-forward transmit suite: the constrained-random frame generator
  \<open>sim/cocotb/lib/frame_gen.py\<close> and the commit / truncate / drop reference model with its
  scoreboard, \<open>sim/cocotb/lib/model.py\<close>.  Sizes are unbounded integers as in the source.  The
  model of the wire (\<open>saf_expected\<close>) is compared with an abstract description by runs of the
  byte stream.
\<close>

section \<open>frame_gen.py\<close>

record segment =
  seg_data :: bytes
  seg_last :: bool

definition tagged :: "int \<Rightarrow> rng \<Rightarrow> bytes \<times> rng" where
  "tagged sz r =
     (if sz \<le> 0 then ([], r)
      else case rng_range 1 256 r of (tag, r') \<Rightarrow>
             case rng_bytes (nat (sz - 1)) r' of (bs, r'') \<Rightarrow> (word_of_nat tag # bs, r''))"

definition boundary_sizes :: "int \<Rightarrow> int \<Rightarrow> int list" where
  "boundary_sizes max_frame fifo_bytes =
     filter (\<lambda>x. 1 \<le> x)
       (sort (remdups [1, 2, 59, 60, 61, 63, 64, 65,
          max_frame - 1, max_frame, max_frame + 1,
          2 * max_frame, fifo_bytes - 1, fifo_bytes, fifo_bytes + 1]))"

text \<open>The thresholds 0.30, 0.55 and 0.72 of \<open>rng.random()\<close>, as doubles times \<open>2 ^ 53\<close>.\<close>

definition random_size :: "int \<Rightarrow> int \<Rightarrow> rng \<Rightarrow> (int \<times> rng) res" where
  "random_size max_frame fifo_bytes r =
     (case rng_random r of (bucket, r') \<Rightarrow>
        if bucket < 2702159776422298 then rng_randint 1 65 r'
        else if bucket < 4953959590107546 then rng_randint (max_frame - 4) (max_frame + 4) r'
        else if bucket < 6485183463413514 then rng_randint (max_frame + 1) (fifo_bytes + 200) r'
        else rng_randint 1 max_frame r')"

fun random_segs :: "nat \<Rightarrow> int \<Rightarrow> int \<Rightarrow> nat \<Rightarrow> rng \<Rightarrow> (segment list \<times> rng) res" where
  "random_segs 0 max_frame fifo_bytes p_drop r = Inr ([], r)"
| "random_segs (Suc n) max_frame fifo_bytes p_drop r =
     res_bind (random_size max_frame fifo_bytes r) (\<lambda>(sz, r1).
       case rng_random r1 of (k, r2) \<Rightarrow>
       case tagged sz r2 of (d, r3) \<Rightarrow>
         res_bind (random_segs n max_frame fifo_bytes p_drop r3) (\<lambda>(segs, r4).
           Inr (\<lparr>seg_data = d, seg_last = (\<not> k < p_drop)\<rparr> # segs, r4)))"

text \<open>\<open>p_drop\<close> is \<open>p_drop_last\<close> times \<open>2 ^ 53\<close>, rounded up; the default 0.15 is
  \<open>P_DROP_LAST\<close>.\<close>

definition P_DROP_LAST :: nat where "P_DROP_LAST = 1351079888211149"

definition commit_tail :: "segment list \<Rightarrow> segment list" where
  "commit_tail segs =
     (if segs \<noteq> [] \<and> \<not> seg_last (last segs)
      then butlast segs @ [\<lparr>seg_data = seg_data (last segs), seg_last = True\<rparr>]
      else segs)"

definition random_segments ::
  "nat \<Rightarrow> int \<Rightarrow> int \<Rightarrow> nat \<Rightarrow> rng \<Rightarrow> (segment list \<times> rng) res" where
  "random_segments n_frames max_frame fifo_bytes p_drop r =
     res_bind (random_segs n_frames max_frame fifo_bytes p_drop r) (\<lambda>(segs, r').
       Inr (commit_tail segs, r'))"

definition directed_boundary :: "nat \<times> int \<Rightarrow> segment" where
  "directed_boundary p =
     (case p of (i, s) \<Rightarrow>
        \<lparr>seg_data = (0xA0 + (word_of_nat i AND 0x3F)) # replicate (nat (if 0 < s then s - 1 else 0)) 0,
         seg_last = True\<rparr>)"

definition directed_segments :: "int \<Rightarrow> int \<Rightarrow> segment list" where
  "directed_segments max_frame fifo_bytes =
     map directed_boundary (enumerate 0 (boundary_sizes max_frame fifo_bytes)) @
     [\<lparr>seg_data = replicate 20 0x11, seg_last = False\<rparr>,
      \<lparr>seg_data = replicate 20 0x22, seg_last = True\<rparr>,
      \<lparr>seg_data = replicate (nat (fifo_bytes + 100)) 0x33, seg_last = False\<rparr>,
      \<lparr>seg_data = replicate 64 0x44, seg_last = True\<rparr>]"

section \<open>model.py: the reference model\<close>

definition seg_stream :: "segment \<Rightarrow> (byte \<times> bool) list" where
  "seg_stream s =
     map (\<lambda>(i, b). (b, seg_last s \<and> int i = int (length (seg_data s)) - 1))
       (enumerate 0 (seg_data s))"

definition saf_stream :: "segment list \<Rightarrow> (byte \<times> bool) list" where
  "saf_stream segs = concat (map seg_stream segs)"

record saf_state =
  saf_frames :: "bytes list"
  saf_cur :: bytes
  saf_dropping :: bool

definition saf_step :: "int \<Rightarrow> byte \<times> bool \<Rightarrow> saf_state \<Rightarrow> saf_state" where
  "saf_step max_frame bl s =
     (let (b, is_last) = bl in
      if saf_dropping s then (if is_last then s\<lparr>saf_dropping := False\<rparr> else s)
      else
        let cur = saf_cur s @ [b];
            forced = (int (length cur) = max_frame) \<and> \<not> is_last
        in if is_last \<or> forced
           then \<lparr>saf_frames = saf_frames s @ [pad_payload cur], saf_cur = [], saf_dropping = forced\<rparr>
           else s\<lparr>saf_cur := cur\<rparr>)"

definition saf_init :: saf_state where
  "saf_init = \<lparr>saf_frames = [], saf_cur = [], saf_dropping = False\<rparr>"

definition saf_expected :: "segment list \<Rightarrow> int \<Rightarrow> bytes list" where
  "saf_expected segs max_frame = saf_frames (fold (saf_step max_frame) (saf_stream segs) saf_init)"


section \<open>model.py: the scoreboard\<close>

datatype first_diff_msg = DiffAt nat byte byte | DiffLen nat nat

datatype sb_error =
    CountMismatch nat nat
  | FrameMismatch nat nat nat first_diff_msg

definition first_diff :: "bytes \<Rightarrow> bytes \<Rightarrow> first_diff_msg" where
  "first_diff a b =
     (case find (\<lambda>i. a ! i \<noteq> b ! i) [0..<min (length a) (length b)] of
        Some i \<Rightarrow> DiffAt i (a ! i) (b ! i)
      | None \<Rightarrow> DiffLen (length a) (length b))"

record saf_scoreboard =
  sb_expected :: "bytes list"
  sb_errors :: "sb_error list"

definition saf_scoreboard_init :: "bytes list \<Rightarrow> saf_scoreboard" where
  "saf_scoreboard_init expected = \<lparr>sb_expected = expected, sb_errors = []\<rparr>"

definition saf_sb_msgs :: "bytes list \<Rightarrow> bytes list \<Rightarrow> sb_error list" where
  "saf_sb_msgs expected observed =
     (if length observed \<noteq> length expected
      then [CountMismatch (length expected) (length observed)] else []) @
     map (\<lambda>(i, e, ob). FrameMismatch i (length e) (length ob) (first_diff e ob))
       (filter (\<lambda>(i, e, ob). e \<noteq> ob) (enumerate 0 (zip expected observed)))"

definition saf_sb_check :: "saf_scoreboard \<Rightarrow> bytes list \<Rightarrow> bool \<times> saf_scoreboard" where
  "saf_sb_check s observed =
     (let errors = sb_errors s @ saf_sb_msgs (sb_expected s) observed
      in (errors = [], s\<lparr>sb_errors := errors\<rparr>))"

section \<open>The abstract policy\<close>

text \<open>The byte stream cut after every \<open>tlast\<close>: the committed runs and the uncommitted tail.\<close>

fun runs :: "(byte \<times> bool) list \<Rightarrow> bytes \<Rightarrow> bytes list \<times> bytes" where
  "runs [] acc = ([], acc)"
| "runs ((b, l) # xs) acc =
     (if l then (case runs xs [] of (rs, t) \<Rightarrow> ((acc @ [b]) # rs, t)) else runs xs (acc @ [b]))"

definition run_frames :: "nat \<Rightarrow> bytes list \<times> bytes \<Rightarrow> bytes list" where
  "run_frames mf rt =
     map (\<lambda>r. pad_payload (take mf r)) (fst rt) @
     (if mf \<le> length (snd rt) then [pad_payload (take mf (snd rt))] else [])"

definition saf_policy :: "segment list \<Rightarrow> nat \<Rightarrow> bytes list" where
  "saf_policy segs mf = run_frames mf (runs (saf_stream segs) [])"

lemma saf_step_drop:
  "saf_step mf (b, l) \<lparr>saf_frames = F, saf_cur = c, saf_dropping = True\<rparr> =
     \<lparr>saf_frames = F, saf_cur = c, saf_dropping = (\<not> l)\<rparr>"
  by (simp add: saf_step_def)

lemma saf_step_live:
  "saf_step mf (b, l) \<lparr>saf_frames = F, saf_cur = c, saf_dropping = False\<rparr> =
     (if l \<or> int (length c) + 1 = mf
      then \<lparr>saf_frames = F @ [pad_payload (c @ [b])], saf_cur = [], saf_dropping = (\<not> l)\<rparr>
      else \<lparr>saf_frames = F, saf_cur = c @ [b], saf_dropping = False\<rparr>)"
  by (auto simp: saf_step_def Let_def)

lemma saf_fold_runs:
  assumes "0 < mf"
  shows "(length c < mf \<longrightarrow>
           saf_frames (fold (saf_step (int mf)) xs \<lparr>saf_frames = F, saf_cur = c, saf_dropping = False\<rparr>)
           = F @ run_frames mf (runs xs c)) \<and>
         (mf \<le> length c \<longrightarrow>
           saf_frames (fold (saf_step (int mf)) xs
             \<lparr>saf_frames = F @ [pad_payload (take mf c)], saf_cur = [], saf_dropping = True\<rparr>)
           = F @ run_frames mf (runs xs c))"
proof (induction xs arbitrary: c F)
  case Nil
  show ?case by (simp add: run_frames_def)
next
  case (Cons x xs)
  obtain b l where x: "x = (b, l)" by (cases x)
  have live: "saf_frames (fold (saf_step (int mf)) xs
       \<lparr>saf_frames = G, saf_cur = d, saf_dropping = False\<rparr>) = G @ run_frames mf (runs xs d)"
    if "length d < mf" for G d using Cons.IH that by blast
  have drop: "saf_frames (fold (saf_step (int mf)) xs
       \<lparr>saf_frames = G @ [pad_payload (take mf d)], saf_cur = [], saf_dropping = True\<rparr>)
       = G @ run_frames mf (runs xs d)" if "mf \<le> length d" for G d using Cons.IH that by blast
  have comm: "run_frames mf (case runs xs [] of (rs, t) \<Rightarrow> ((c @ [b]) # rs, t)) =
      pad_payload (take mf (c @ [b])) # run_frames mf (runs xs [])"
    by (simp add: run_frames_def split: prod.splits)
  show ?case
  proof (cases l)
    case True
    show ?thesis
      using live [of "[]"] assms
      by (auto simp: x True comm saf_step_live saf_step_drop)
  next
    case False
    show ?thesis
      using live [of "c @ [b]" F] drop [of "c @ [b]" F] drop [of "c @ [b]"]
      by (auto simp: x False saf_step_live saf_step_drop less_Suc_eq)
  qed
qed

lemma saf_expected_policy: "0 < mf \<Longrightarrow> saf_expected segs (int mf) = saf_policy segs mf"
  using saf_fold_runs [of mf "[]" "saf_stream segs" "[]"]
  by (simp add: saf_expected_def saf_policy_def saf_init_def)


section \<open>Lemmas on the generator and the scoreboard\<close>

lemma runs_all_last: "runs (xs @ [(b, True)]) acc = (rs, t) \<Longrightarrow> t = [] \<and> rs \<noteq> []"
  by (induction xs arbitrary: acc rs t) (fastforce split: if_splits prod.splits)+

lemma seg_stream_last:
  "seg_data s \<noteq> [] \<Longrightarrow> seg_last s \<Longrightarrow> \<exists>xs. seg_stream s = xs @ [(last (seg_data s), True)]"
proof -
  assume ne: "seg_data s \<noteq> []" and l: "seg_last s"
  then have "seg_data s = butlast (seg_data s) @ [last (seg_data s)]" by simp
  then have "enumerate 0 (seg_data s) =
      enumerate 0 (butlast (seg_data s)) @ [(length (seg_data s) - 1, last (seg_data s))]"
    by (metis enumerate_append_eq enumerate_simps(1,2) add.left_neutral length_butlast)
  with ne l show ?thesis by (simp add: seg_stream_def of_nat_diff Suc_leI)
qed

lemma tagged_length: "tagged sz r = (d, r') \<Longrightarrow> length d = nat sz"
  by (auto simp: tagged_def dest!: rng_bytes_length split: if_splits prod.splits)

lemma random_segs_length: "random_segs n mf fb p r = Inr (segs, r') \<Longrightarrow> length segs = n"
  by (induction n arbitrary: r segs r')
    (auto simp: res_simps)

lemma commit_tail_length [simp]: "length (commit_tail segs) = length segs"
  by (cases segs rule: rev_cases) (auto simp: commit_tail_def)

lemma commit_tail_data: "map seg_data (commit_tail segs) = map seg_data segs"
  by (cases segs rule: rev_cases) (auto simp: commit_tail_def)

lemma commit_tail_last: "segs \<noteq> [] \<Longrightarrow> seg_last (last (commit_tail segs))"
  by (cases segs rule: rev_cases) (auto simp: commit_tail_def)

lemma random_size_range:
  assumes "5 \<le> mf" "random_size mf fb r = Inr (sz, r')"
  shows "1 \<le> sz \<and> sz \<le> max 65 (max (mf + 4) (fb + 200))"
  using assms
  by (auto simp: random_size_def split: prod.splits if_splits dest!: rng_randint_bounds)

lemma random_size_total:
  "1 \<le> mf \<Longrightarrow> mf \<le> fb + 199 \<Longrightarrow> \<exists>sz r'. random_size mf fb r = Inr (sz, r')"
  by (auto simp: random_size_def rng_randint_total split: prod.split)

lemma random_segs_data:
  "5 \<le> mf \<Longrightarrow> random_segs n mf fb p r = Inr (segs, r') \<Longrightarrow> s \<in> set segs \<Longrightarrow>
     seg_data s \<noteq> [] \<and> int (length (seg_data s)) \<le> max 65 (max (mf + 4) (fb + 200))"
proof (induction n arbitrary: r segs r')
  case 0
  then show ?case by simp
next
  case (Suc n)
  from Suc.prems obtain sz r1 k r2 d r3 segs' where
    sz: "random_size mf fb r = Inr (sz, r1)" and d: "tagged sz r2 = (d, r3)"
    and rest: "random_segs n mf fb p r3 = Inr (segs', r')"
    and segs: "segs = \<lparr>seg_data = d, seg_last = (\<not> k < p)\<rparr> # segs'"
    by (auto simp: res_simps)
  from random_size_range [OF Suc.prems(1) sz] tagged_length [OF d]
  have "d \<noteq> []" "int (length d) \<le> max 65 (max (mf + 4) (fb + 200))" by auto
  then show ?case using Suc.IH [OF Suc.prems(1) rest] Suc.prems(3) segs by auto
qed

lemma first_diff_at:
  "first_diff a b = DiffAt i x y \<longleftrightarrow>
     i < min (length a) (length b) \<and> x = a ! i \<and> y = b ! i \<and> x \<noteq> y \<and> take i a = take i b"
proof -
  let ?n = "min (length a) (length b)" and ?P = "\<lambda>i. a ! i \<noteq> b ! i"
  have tk: "take i a = take i b \<longleftrightarrow> (\<forall>j<i. a ! j = b ! j)" if "i < ?n"
    using that by (auto simp: list_eq_iff_nth_eq)
  have "first_diff a b = DiffAt i x y \<longleftrightarrow>
      find ?P [0..<?n] = Some i \<and> x = a ! i \<and> y = b ! i"
    by (auto simp: first_diff_def split: option.split)
  also have "\<dots> \<longleftrightarrow> i < ?n \<and> ?P i \<and> (\<forall>j<i. \<not> ?P j) \<and> x = a ! i \<and> y = b ! i"
    unfolding find_upt_iff by blast
  finally show ?thesis using tk by auto
qed

lemma saf_sb_msgs_Nil: "saf_sb_msgs e ob = [] \<longleftrightarrow> ob = e"
  by (cases "length ob = length e")
    (auto simp: saf_sb_msgs_def filter_enumerate_zip_Nil)

interpretation saf_sb: scoreboard sb_errors saf_sb_check "\<lambda>s ob. ob = sb_expected s"
  by unfold_locales (simp_all add: saf_sb_check_def Let_def saf_sb_msgs_Nil)

lemma runs_frames_length:
  "f \<in> set (run_frames mf rt) \<Longrightarrow> 60 \<le> length f \<and> length f \<le> max 60 mf"
  by (auto simp: run_frames_def pad_payload_length MIN_FRAME_def split: if_splits)

lemma saf_stream_snoc: "saf_stream (segs @ [s]) = saf_stream segs @ seg_stream s"
  by (simp add: saf_stream_def)

lemma saf_policy_nonempty:
  assumes "segs \<noteq> []" "seg_last (last segs)" "seg_data (last segs) \<noteq> []"
  shows "saf_policy segs mf \<noteq> []"
proof -
  obtain xs where xs: "seg_stream (last segs) = xs @ [(last (seg_data (last segs)), True)]"
    using seg_stream_last assms by blast
  have "saf_stream segs = saf_stream (butlast segs) @ seg_stream (last segs)"
    using saf_stream_snoc [of "butlast segs" "last segs"] assms(1) by simp
  then have st: "saf_stream segs = (saf_stream (butlast segs) @ xs) @ [(last (seg_data (last segs)), True)]"
    by (simp add: xs)
  obtain rs t where rt: "runs (saf_stream segs) [] = (rs, t)" by fastforce
  then have "rs \<noteq> []" using runs_all_last unfolding st by blast
  then show ?thesis by (simp add: saf_policy_def run_frames_def rt)
qed

lemma random_segments_shape:
  assumes "5 \<le> mf" "random_segments n mf fb p r = Inr (segs, r')"
  shows "length segs = n \<and> (\<forall>s\<in>set segs. seg_data s \<noteq> []) \<and> (segs \<noteq> [] \<longrightarrow> seg_last (last segs))"
proof -
  from assms(2) obtain segs0 where
    s0: "random_segs n mf fb p r = Inr (segs0, r')" and segs: "segs = commit_tail segs0"
    by (auto simp: random_segments_def res_simps)
  have "\<forall>s\<in>set segs0. seg_data s \<noteq> []" using random_segs_data [OF assms(1) s0] by blast
  then have "\<forall>d\<in>set (map seg_data segs). d \<noteq> []" by (simp add: segs commit_tail_data)
  moreover have "segs \<noteq> [] \<longrightarrow> seg_last (last segs)"
    by (metis segs commit_tail_last commit_tail_length length_0_conv)
  ultimately show ?thesis using random_segs_length [OF s0] by (simp add: segs)
qed

section \<open>Properties\<close>

text \<open>C1: The reference model \<open>saf_expected\<close> is the store-and-forward policy: with the stream cut
  after every \<open>tlast\<close>, each committed run is sent truncated to \<open>max_frame\<close> bytes and padded, and
  the uncommitted tail is sent, truncated, exactly when it reached \<open>max_frame\<close> bytes.\<close>
theorem saf_expected_is_policy:
  assumes "0 < max_frame"
  shows "saf_expected segs (int max_frame) =
    (let (committed, tail) = runs (saf_stream segs) [] in
       map (\<lambda>r. pad_payload (take max_frame r)) committed @
       (if max_frame \<le> length tail then [pad_payload (take max_frame tail)] else []))"
  using saf_expected_policy [OF assms, of segs]
  by (simp add: saf_policy_def run_frames_def split_beta)

theorem saf_expected_is_policy_witness:
  "saf_expected [\<lparr>seg_data = [1, 2], seg_last = False\<rparr>, \<lparr>seg_data = [3], seg_last = True\<rparr>] (int 2) =
     [pad_payload [1, 2]]"
  using saf_expected_is_policy [of 2 "[\<lparr>seg_data = [1, 2], seg_last = False\<rparr>, \<lparr>seg_data = [3], seg_last = True\<rparr>]"]
  by (simp add: saf_stream_def seg_stream_def)

text \<open>Every frame the model predicts has at least the minimum length of 60 bytes and at most
  \<open>max (60, max_frame)\<close>.\<close>
theorem saf_expected_lengths:
  assumes "0 < max_frame"
  shows "\<forall>f\<in>set (saf_expected segs (int max_frame)). 60 \<le> length f \<and> length f \<le> max 60 max_frame"
  using saf_expected_policy [OF assms] runs_frames_length by (simp add: saf_policy_def)

theorem saf_expected_lengths_witness:
  "60 \<le> length (hd (saf_expected [\<lparr>seg_data = [5], seg_last = True\<rparr>] (int 64)))"
proof -
  have "saf_expected [\<lparr>seg_data = [5], seg_last = True\<rparr>] (int 64) = [pad_payload [5]]"
    by (simp add: saf_expected_def saf_init_def saf_stream_def seg_stream_def saf_step_def)
  then show ?thesis
    using saf_expected_lengths [of 64 "[\<lparr>seg_data = [5], seg_last = True\<rparr>]"] by simp
qed

text \<open>C9: The constrained-random generator always produces scorable stimulus: whatever the draws,
  the requested number of non-empty segments, the last one committed, so that the model
  predicts at least one frame.\<close>
theorem random_segments_scorable:
  assumes "5 \<le> max_frame" and "random_segments n (int max_frame) fifo_bytes p_drop r = Inr (segs, r')"
  shows "length segs = n \<and> (\<forall>s\<in>set segs. seg_data s \<noteq> []) \<and>
    (0 < n \<longrightarrow> seg_last (last segs) \<and> saf_expected segs (int max_frame) \<noteq> [])"
proof -
  have shape: "length segs = n \<and> (\<forall>s\<in>set segs. seg_data s \<noteq> []) \<and> (segs \<noteq> [] \<longrightarrow> seg_last (last segs))"
    using random_segments_shape [OF _ assms(2)] assms(1) by simp
  moreover have "saf_expected segs (int max_frame) \<noteq> []" if "0 < n"
  proof -
    from that shape have "segs \<noteq> []" by auto
    then show ?thesis
      using saf_expected_policy [of max_frame segs] saf_policy_nonempty shape assms(1) by simp
  qed
  ultimately show ?thesis by auto
qed

theorem random_segments_scorable_witness:
  "saf_expected [\<lparr>seg_data = [1, 0], seg_last = True\<rparr>] (int 100) \<noteq> []"
proof -
  have "random_segments 1 (int 100) 400 P_DROP_LAST [0, 1] =
      Inr ([\<lparr>seg_data = [1, 0], seg_last = True\<rparr>], [])"
    by (simp add: random_segments_def random_size_def rng_randint_def rng_random_def rng_below_def
        tagged_def rng_range_def P_DROP_LAST_def commit_tail_def numeral_2_eq_2)
  from random_segments_scorable [OF _ this] show ?thesis by simp
qed

text \<open>A fresh scoreboard passes exactly the observation that equals the prediction, and one
  that has recorded an error never passes again.\<close>
theorem saf_scoreboard_sound:
  "(fst (saf_sb_check (saf_scoreboard_init expected) observed) \<longleftrightarrow> observed = expected) \<and>
   (fst (saf_sb_check s observed) \<longleftrightarrow> sb_errors s = [] \<and> observed = sb_expected s)"
  by (simp add: saf_sb.check_passes saf_scoreboard_init_def)

text \<open>The position a mismatch message names is the least one at which the two payloads differ;
  a length message is printed exactly when one is a prefix of the other.\<close>
theorem first_diff_least:
  "(first_diff a b = DiffAt i x y \<longleftrightarrow>
      i < min (length a) (length b) \<and> x = a ! i \<and> y = b ! i \<and> x \<noteq> y \<and> take i a = take i b) \<and>
   (first_diff a b = DiffLen (length a) (length b) \<longleftrightarrow>
      take (min (length a) (length b)) a = take (min (length a) (length b)) b)"
proof -
  have "first_diff a b = DiffLen (length a) (length b) \<longleftrightarrow>
      find (\<lambda>i. a ! i \<noteq> b ! i) [0..<min (length a) (length b)] = None"
    by (auto simp: first_diff_def split: option.split)
  also have "\<dots> \<longleftrightarrow> take (min (length a) (length b)) a = take (min (length a) (length b)) b"
    by (auto simp: find_None_iff list_eq_iff_nth_eq)
  finally show ?thesis using first_diff_at by blast
qed

end
