(* ===== verification/Emz_RxModel.thy ===== *)
theory Emz_RxModel
  imports Emz_Saf
begin

text \<open>
  The reference models and scoreboards of the receive and the clock-crossing suites:
  \<open>sim/cocotb/lib/rx_model.py\<close> (MAC filter, expected AXIS frames and statistics, statistics
  monitor, scoreboard) and \<open>sim/cocotb/lib/gmii_cdc_model.py\<close> (identity model, scoreboard).  Both
  scoreboards are instances of the contract \<open>scoreboard\<close>.
\<close>

section \<open>rx_model.py\<close>

definition BROADCAST :: nat where "BROADCAST = 0xFFFFFFFFFFFF"

record rx_frame =
  rf_payload :: bytes
  rf_corrupt_fcs :: bool
  rf_align_err :: bool

definition dst_int :: "bytes \<Rightarrow> nat" where
  "dst_int payload = from_bytes_be (take 6 payload)"


record rx_axis =
  ra_payload :: bytes
  ra_terror :: bool

record rx_stat =
  rs_len :: nat
  rs_fcs :: bool
  rs_align :: bool
  rs_overflow :: bool
  rs_oversize :: bool
  rs_bcast :: bool
  rs_mcast :: bool

record rx_limits =
  lim_jumbo_en :: bool
  lim_max_std :: nat
  lim_max_jumbo :: nat

definition rx_oversize :: "rx_limits \<Rightarrow> bytes \<Rightarrow> bool" where
  "rx_oversize lim payload =
     (let byte_cnt = length payload + 4;
          tagged = slice payload 12 14 \<in> {[0x81, 0x00], [0x88, 0xA8]};
          over_std = (lim_max_std lim + (if tagged then 4 else 0) < byte_cnt)
      in over_std \<and> (\<not> lim_jumbo_en lim \<or> lim_max_jumbo lim < byte_cnt))"

text \<open>One delivered frame.  \<open>fr.payload[0]\<close> raises on an empty payload.\<close>

definition rx_record :: "rx_limits \<Rightarrow> rx_frame \<Rightarrow> (rx_axis \<times> rx_stat) res" where
  "rx_record lim fr =
     (let p = rf_payload fr; oversize = rx_oversize lim p; is_bcast = (dst_int p = BROADCAST) in
      res_bind (py_nth p 0) (\<lambda>b0.
        let is_mcast = (b0 AND 1 \<noteq> 0 \<and> \<not> is_bcast);
            terror = (rf_corrupt_fcs fr \<or> rf_align_err fr \<or> oversize)
        in Inr (\<lparr>ra_payload = p, ra_terror = terror\<rparr>,
                \<lparr>rs_len = length p + 4, rs_fcs = rf_corrupt_fcs fr, rs_align = rf_align_err fr,
                 rs_overflow = False, rs_oversize = oversize, rs_bcast = is_bcast,
                 rs_mcast = is_mcast\<rparr>)))"


text \<open>The statistics monitor: one sample per rising edge, recorded when \<open>stat_done\<close> is high.\<close>

definition stats_monitor_step :: "rx_stat list \<Rightarrow> bool \<times> rx_stat \<Rightarrow> rx_stat list" where
  "stats_monitor_step records smp = (case smp of (stat_done, st) \<Rightarrow> if stat_done then records @ [st] else records)"

definition stats_monitor_run :: "(bool \<times> rx_stat) list \<Rightarrow> rx_stat list" where
  "stats_monitor_run smps = foldl stats_monitor_step [] smps"

text \<open>What the AXIS sink reports for a frame.\<close>

record sink_frame = rx_axis +
  sf_sof :: bool

datatype rx_sb_error =
    AxisCount nat nat
  | AxisPayload nat nat nat first_diff_msg
  | AxisTerror nat bool bool
  | AxisSof nat
  | StatCount nat nat
  | StatField nat string

record rx_scoreboard =
  rsb_exp_axis :: "rx_axis list"
  rsb_exp_stats :: "rx_stat list"
  rsb_errors :: "rx_sb_error list"

definition rx_scoreboard_init :: "rx_axis list \<Rightarrow> rx_stat list \<Rightarrow> rx_scoreboard" where
  "rx_scoreboard_init exp_axis exp_stats =
     \<lparr>rsb_exp_axis = exp_axis, rsb_exp_stats = exp_stats, rsb_errors = []\<rparr>"

definition axis_msgs1 :: "nat \<times> rx_axis \<times> sink_frame \<Rightarrow> rx_sb_error list" where
  "axis_msgs1 x = (case x of (i, e, g) \<Rightarrow>
     (if ra_payload e \<noteq> ra_payload g
      then [AxisPayload i (length (ra_payload e)) (length (ra_payload g))
              (first_diff (ra_payload e) (ra_payload g))] else []) @
     (if ra_terror e \<noteq> ra_terror g then [AxisTerror i (ra_terror e) (ra_terror g)] else []) @
     (if \<not> sf_sof g then [AxisSof i] else []))"

definition check_axis_msgs :: "rx_axis list \<Rightarrow> sink_frame list \<Rightarrow> rx_sb_error list" where
  "check_axis_msgs expd got =
     (if length got \<noteq> length expd then [AxisCount (length expd) (length got)] else []) @
     concat (map axis_msgs1 (enumerate 0 (zip expd got)))"

definition stat_msgs1 :: "nat \<times> rx_stat \<times> rx_stat \<Rightarrow> rx_sb_error list" where
  "stat_msgs1 x = (case x of (i, e, g) \<Rightarrow>
     (if rs_len e \<noteq> rs_len g then [StatField i ''len''] else []) @
     (if rs_fcs e \<noteq> rs_fcs g then [StatField i ''fcs''] else []) @
     (if rs_align e \<noteq> rs_align g then [StatField i ''align''] else []) @
     (if rs_oversize e \<noteq> rs_oversize g then [StatField i ''oversize''] else []) @
     (if rs_bcast e \<noteq> rs_bcast g then [StatField i ''bcast''] else []) @
     (if rs_mcast e \<noteq> rs_mcast g then [StatField i ''mcast''] else []))"

definition check_stats_msgs :: "rx_stat list \<Rightarrow> rx_stat list \<Rightarrow> rx_sb_error list" where
  "check_stats_msgs expd got =
     (if length got \<noteq> length expd then [StatCount (length expd) (length got)] else []) @
     concat (map stat_msgs1 (enumerate 0 (zip expd got)))"

definition rx_sb_check ::
  "rx_scoreboard \<Rightarrow> sink_frame list \<times> rx_stat list \<Rightarrow> bool \<times> rx_scoreboard" where
  "rx_sb_check s ob =
     (case ob of (got_axis, got_stats) \<Rightarrow>
        let errors = rsb_errors s @ check_axis_msgs (rsb_exp_axis s) got_axis @
                     check_stats_msgs (rsb_exp_stats s) got_stats
        in (errors = [], s\<lparr>rsb_errors := errors\<rparr>))"

section \<open>gmii_cdc_model.py\<close>

definition gmii_tx_expected :: "bytes list \<Rightarrow> bytes list" where
  "gmii_tx_expected frames = map (\<lambda>f. f) frames"

record gmii_scoreboard =
  gsb_expected :: "bytes list"
  gsb_errors :: "sb_error list"

definition gmii_scoreboard_init :: "bytes list \<Rightarrow> gmii_scoreboard" where
  "gmii_scoreboard_init expected = \<lparr>gsb_expected = expected, gsb_errors = []\<rparr>"

definition gmii_sb_check :: "gmii_scoreboard \<Rightarrow> bytes list \<Rightarrow> bool \<times> gmii_scoreboard" where
  "gmii_sb_check s observed =
     (let expected = gsb_expected s;
          errors = gsb_errors s @
            (if length observed \<noteq> length expected
             then [CountMismatch (length expected) (length observed)] else []) @
            map (\<lambda>(i, e, ob). FrameMismatch i (length e) (length ob) (first_diff e ob))
              (filter (\<lambda>(i, e, ob). e \<noteq> ob) (enumerate 0 (zip expected observed)))
      in (errors = [], s\<lparr>gsb_errors := errors\<rparr>))"

section \<open>Lemmas\<close>

definition axis_agree :: "rx_axis \<Rightarrow> sink_frame \<Rightarrow> bool" where
  "axis_agree e g \<longleftrightarrow> ra_payload g = ra_payload e \<and> ra_terror g = ra_terror e \<and> sf_sof g"

definition stat_agree :: "rx_stat \<Rightarrow> rx_stat \<Rightarrow> bool" where
  "stat_agree e g \<longleftrightarrow> rs_len g = rs_len e \<and> rs_fcs g = rs_fcs e \<and> rs_align g = rs_align e \<and>
     rs_oversize g = rs_oversize e \<and> rs_bcast g = rs_bcast e \<and> rs_mcast g = rs_mcast e"

lemma concat_enumerate_Nil:
  "(\<And>i x. f (i, x) = [] \<longleftrightarrow> P x) \<Longrightarrow>
   concat (map f (enumerate n xs)) = [] \<longleftrightarrow> (\<forall>x\<in>set xs. P x)"
  by (induction xs arbitrary: n) auto

lemma list_all2_zip: "list_all2 P xs ys \<longleftrightarrow> length ys = length xs \<and> (\<forall>(x, y) \<in> set (zip xs ys). P x y)"
  by (auto simp: list_all2_iff)

lemma check_axis_msgs_Nil: "check_axis_msgs expd got = [] \<longleftrightarrow> list_all2 axis_agree expd got"
proof -
  have "axis_msgs1 (i, e, g) = [] \<longleftrightarrow> axis_agree e g" for i e g
    by (auto simp: axis_msgs1_def axis_agree_def)
  then have "concat (map axis_msgs1 (enumerate 0 (zip expd got))) = [] \<longleftrightarrow>
      (\<forall>(e, g)\<in>set (zip expd got). axis_agree e g)"
    by (intro concat_enumerate_Nil) auto
  then show ?thesis
    by (auto simp: check_axis_msgs_def list_all2_zip)
qed

lemma check_stats_msgs_Nil: "check_stats_msgs expd got = [] \<longleftrightarrow> list_all2 stat_agree expd got"
proof -
  have "stat_msgs1 (i, e, g) = [] \<longleftrightarrow> stat_agree e g" for i e g
    by (auto simp: stat_msgs1_def stat_agree_def)
  then have "concat (map stat_msgs1 (enumerate 0 (zip expd got))) = [] \<longleftrightarrow>
      (\<forall>(e, g)\<in>set (zip expd got). stat_agree e g)"
    by (intro concat_enumerate_Nil) auto
  then show ?thesis
    by (auto simp: check_stats_msgs_def list_all2_zip)
qed

interpretation rx_sb: scoreboard rsb_errors rx_sb_check
  "\<lambda>s (ga, gs). list_all2 axis_agree (rsb_exp_axis s) ga \<and> list_all2 stat_agree (rsb_exp_stats s) gs"
  by unfold_locales
    (auto simp: rx_sb_check_def Let_def check_axis_msgs_Nil check_stats_msgs_Nil split: prod.splits)

interpretation gmii_sb: scoreboard gsb_errors gmii_sb_check "\<lambda>s ob. ob = gsb_expected s"
proof unfold_locales
  fix s :: gmii_scoreboard and ob
  have "length ob = length (gsb_expected s) \<Longrightarrow>
    filter (\<lambda>(i, e, ob). e \<noteq> ob) (enumerate 0 (zip (gsb_expected s) ob)) = [] \<longleftrightarrow> gsb_expected s = ob"
    by (simp add: filter_enumerate_zip_Nil)
  then show "\<exists>ms. gsb_errors (snd (gmii_sb_check s ob)) = gsb_errors s @ ms \<and> (ms = [] \<longleftrightarrow> ob = gsb_expected s)"
    by (auto simp: gmii_sb_check_def Let_def)
qed (simp_all add: gmii_sb_check_def Let_def)




lemma rx_record_mcast:
  "rx_record lim fr = Inr (a, s) \<Longrightarrow> \<not> (rs_bcast s \<and> rs_mcast s) \<and> (rs_bcast s \<longleftrightarrow> dst_int (rf_payload fr) = BROADCAST)"
  by (auto simp: rx_record_def Let_def res_simps)

lemma stats_monitor_filter: "stats_monitor_run smps = map snd (filter fst smps)"
proof -
  have "foldl stats_monitor_step r smps = r @ map snd (filter fst smps)" for r
    by (induction smps arbitrary: r) (auto simp: stats_monitor_step_def split: prod.splits)
  then show ?thesis by (simp add: stats_monitor_run_def)
qed

section \<open>Properties\<close>



text \<open>The receive scoreboard passes exactly when it has no error yet and every delivered frame
  agrees in payload, error flag and start of frame and every statistics record agrees in all
  fields but the overflow flag, which is not compared.\<close>
theorem rx_scoreboard_sound:
  "fst (rx_sb_check s (ga, gs)) \<longleftrightarrow>
     rsb_errors s = [] \<and> list_all2 axis_agree (rsb_exp_axis s) ga \<and>
     list_all2 stat_agree (rsb_exp_stats s) gs"
  using rx_sb.check_passes [of s "(ga, gs)"] by simp

text \<open>A whole session of clock-crossing checks passes exactly when every observation is the list
  of input frames unchanged.\<close>
theorem gmii_session_identity:
  "(\<forall>ok\<in>set (fst (gmii_sb.session (gmii_scoreboard_init (gmii_tx_expected frames)) obs)). ok) \<longleftrightarrow>
     (\<forall>ob\<in>set obs. ob = frames)"
  by (subst gmii_sb.session_all_pass) (simp_all add: gmii_scoreboard_init_def gmii_tx_expected_def)

theorem gmii_session_identity_witness:
  "fst (gmii_sb.session (gmii_scoreboard_init (gmii_tx_expected [[1]])) [[[1]], [[1]]]) = [True, True]"
proof -
  have "\<forall>ok\<in>set (fst (gmii_sb.session (gmii_scoreboard_init (gmii_tx_expected [[1]])) [[[1]], [[1]]])). ok"
    by (subst gmii_session_identity) simp
  moreover have "length (fst (gmii_sb.session (gmii_scoreboard_init (gmii_tx_expected [[1]])) [[[1]], [[1]]])) = 2"
    by (simp add: split_beta Let_def)
  ultimately show ?thesis
    by (auto simp: length_Suc_conv numeral_2_eq_2)
qed

end
