(* ===== verification/Emz_Link.thy ===== *)
theory Emz_Link
  imports Emz_Eth
begin

text \<open>
  Drivers and monitors of the benches as folds over the sampled clock edges, and the contract that
  makes them fit together.  A monitor is a step function on its state; a driver turns a frame into
  the samples it causes.  The locale \<open>framed_link\<close> says that from a quiet monitor one driven frame
  is delivered and leaves the monitor quiet; the derived lemmas lift this to any sequence of frames
  with any idle samples between them.
  Modelled here: \<open>gmii_tx_driver.py\<close>, \<open>gmii_tx_monitor.py\<close>, \<open>gmii_rx_cdc_driver.py\<close>,
  \<open>gmii_rx_cdc_monitor.py\<close>, \<open>mii_monitor.py\<close>.  Signals are taken as resolved (an X would make
  \<open>int\<close> raise in the code).
\<close>

section \<open>The contract\<close>

locale framed_link =
  fixes step :: "'s \<Rightarrow> 'b \<Rightarrow> 's"
    and frames :: "'s \<Rightarrow> 'f list"
    and quiet :: "'s \<Rightarrow> bool"
    and idle :: "'b \<Rightarrow> bool"
    and enc :: "'g \<Rightarrow> 'b list"
    and view :: "'g \<Rightarrow> 'f"
    and ok :: "'g \<Rightarrow> bool"
  assumes one_frame:
      "quiet s \<Longrightarrow> ok f \<Longrightarrow> quiet (foldl step s (enc f)) \<and> frames (foldl step s (enc f)) = frames s @ [view f]"
    and idle_step: "quiet s \<Longrightarrow> idle b \<Longrightarrow> quiet (step s b) \<and> frames (step s b) = frames s"
begin

lemma idles: "quiet s \<Longrightarrow> \<forall>b\<in>set bs. idle b \<Longrightarrow>
    quiet (foldl step s bs) \<and> frames (foldl step s bs) = frames s"
  by (induction bs arbitrary: s) (auto simp: idle_step)

primrec play :: "('b list \<times> 'g) list \<Rightarrow> 'b list" where
  "play [] = []"
| "play (x # xs) = fst x @ enc (snd x) @ play xs"

lemma many_frames:
  "quiet s \<Longrightarrow> \<forall>(gap, f)\<in>set gfs. (\<forall>b\<in>set gap. idle b) \<and> ok f \<Longrightarrow>
     quiet (foldl step s (play gfs)) \<and> frames (foldl step s (play gfs)) = frames s @ map (\<lambda>x. view (snd x)) gfs"
proof (induction gfs arbitrary: s)
  case Nil
  then show ?case by simp
next
  case (Cons x gfs)
  obtain gap f where x: "x = (gap, f)" by (cases x)
  let ?s1 = "foldl step s gap" and ?s2 = "foldl step (foldl step s gap) (enc f)"
  have s1: "quiet ?s1" "frames ?s1 = frames s" using Cons.prems x idles by auto
  have s2: "quiet ?s2" "frames ?s2 = frames s @ [view f]" using s1 one_frame Cons.prems x by auto
  show ?case using Cons.IH [OF s2(1)] Cons.prems x s2(2) by simp
qed

end

section \<open>gmii_tx_driver.py\<close>

record gmii_tx_beat =
  txd_in :: byte
  tx_en_in :: bool
  tx_er_in :: bool

definition gmii_tx_init :: gmii_tx_beat where
  "gmii_tx_init = \<lparr>txd_in = 0, tx_en_in = False, tx_er_in = False\<rparr>"

definition gmii_tx_beat_of :: "byte \<Rightarrow> bool \<Rightarrow> bool \<Rightarrow> gmii_tx_beat" where
  "gmii_tx_beat_of d en er = \<lparr>txd_in = d, tx_en_in = en, tx_er_in = er\<rparr>"

definition gmii_tx_idle :: "nat \<Rightarrow> gmii_tx_beat list" where
  "gmii_tx_idle cycles = replicate cycles (gmii_tx_beat_of 0 False False)"

text \<open>\<open>er[i]\<close> raises when the given list is shorter than the data.\<close>

definition er_list :: "bytes \<Rightarrow> bool list option \<Rightarrow> bool list res" where
  "er_list data er =
     (case er of None \<Rightarrow> Inr (replicate (length data) False)
      | Some es \<Rightarrow> if length data \<le> length es then Inr es else Inl IndexError)"

definition gmii_tx_send_frame :: "bytes \<Rightarrow> int \<Rightarrow> bool list option \<Rightarrow> gmii_tx_beat list res" where
  "gmii_tx_send_frame data gap er =
     res_bind (er_list data er) (\<lambda>es.
       Inr (map (\<lambda>(b, e). gmii_tx_beat_of b True e) (zip data es) @
            [gmii_tx_beat_of 0 False False] @ gmii_tx_idle (nat (max 0 (gap - 1)))))"

section \<open>gmii_tx_monitor.py\<close>

record gmii_out =
  go_en :: bool
  go_txd :: byte
  go_er :: bool

record gmii_tx_mon =
  gm_frames :: "bytes list"
  gm_lens :: "nat list"
  gm_spans :: "nat list"
  gm_ers :: "bool list list"
  gm_count :: nat
  gm_prev_en :: bool
  gm_span :: nat
  gm_cur :: bytes
  gm_cur_er :: "bool list"

definition gmii_tx_mon_init :: gmii_tx_mon where
  "gmii_tx_mon_init = \<lparr>gm_frames = [], gm_lens = [], gm_spans = [], gm_ers = [], gm_count = 0,
     gm_prev_en = False, gm_span = 0, gm_cur = [], gm_cur_er = []\<rparr>"

definition gmii_tx_mon_fall :: "nat \<Rightarrow> gmii_tx_mon \<Rightarrow> gmii_tx_mon" where
  "gmii_tx_mon_fall period s =
     (let s1 = (if 1 < gm_span s then
                  (let s0 = s\<lparr>gm_count := gm_count s + 1, gm_spans := gm_spans s @ [gm_span s]\<rparr> in
                   if period = 1
                   then s0\<lparr>gm_frames := gm_frames s @ [gm_cur s],
                           gm_lens := gm_lens s @ [length (gm_cur s)],
                           gm_ers := gm_ers s @ [gm_cur_er s]\<rparr>
                   else s0\<lparr>gm_lens := gm_lens s @ [(gm_span s - 1) div period + 1]\<rparr>)
                else s)
      in s1\<lparr>gm_cur := [], gm_cur_er := [], gm_span := 0\<rparr>)"

definition gmii_tx_mon_step :: "nat \<Rightarrow> gmii_tx_mon \<Rightarrow> gmii_out \<Rightarrow> gmii_tx_mon" where
  "gmii_tx_mon_step period s o' =
     (let s1 = (if go_en o' then
                  (let s0 = s\<lparr>gm_span := gm_span s + 1\<rparr> in
                   if period = 1
                   then s0\<lparr>gm_cur := gm_cur s @ [go_txd o'], gm_cur_er := gm_cur_er s @ [go_er o']\<rparr>
                   else s0)
                else if gm_prev_en s then gmii_tx_mon_fall period s else s)
      in s1\<lparr>gm_prev_en := go_en o'\<rparr>)"

definition gmii_tx_mon_run :: "nat \<Rightarrow> gmii_tx_mon \<Rightarrow> gmii_out list \<Rightarrow> gmii_tx_mon" where
  "gmii_tx_mon_run period = foldl (gmii_tx_mon_step period)"

section \<open>gmii_rx_cdc_driver.py and gmii_rx_cdc_monitor.py\<close>

definition rx_cdc_init :: gmii_beat where
  "rx_cdc_init = \<lparr>beat_data = 0, beat_dv = False, beat_er = False\<rparr>"

text \<open>\<open>idle\<close> leaves the data pins at their last value \<open>d\<close>.\<close>

definition rx_cdc_idle :: "byte \<Rightarrow> nat \<Rightarrow> gmii_beat list" where
  "rx_cdc_idle d n = replicate n \<lparr>beat_data = d, beat_dv = False, beat_er = False\<rparr>"

definition rx_cdc_send_frame :: "bytes \<Rightarrow> nat \<Rightarrow> bool list option \<Rightarrow> gmii_beat list res" where
  "rx_cdc_send_frame data gap er =
     res_bind (er_list data er) (\<lambda>es.
       Inr (map (\<lambda>(b, e). \<lparr>beat_data = b, beat_dv = True, beat_er = e\<rparr>) (zip data es) @
            replicate gap rx_cdc_init))"

record rx_cdc_mon =
  rc_frames :: "bytes list"
  rc_ers :: "bool list list"
  rc_count :: nat
  rc_prev_dv :: bool
  rc_cur :: bytes
  rc_cur_er :: "bool list"

definition rx_cdc_mon_init :: rx_cdc_mon where
  "rx_cdc_mon_init = \<lparr>rc_frames = [], rc_ers = [], rc_count = 0, rc_prev_dv = False,
     rc_cur = [], rc_cur_er = []\<rparr>"

definition rx_cdc_mon_step :: "rx_cdc_mon \<Rightarrow> gmii_beat \<Rightarrow> rx_cdc_mon" where
  "rx_cdc_mon_step s b =
     (let s1 = (if beat_dv b
                then s\<lparr>rc_cur := rc_cur s @ [beat_data b], rc_cur_er := rc_cur_er s @ [beat_er b]\<rparr>
                else if rc_prev_dv s
                then s\<lparr>rc_count := rc_count s + 1, rc_frames := rc_frames s @ [rc_cur s],
                       rc_ers := rc_ers s @ [rc_cur_er s], rc_cur := [], rc_cur_er := []\<rparr>
                else s)
      in s1\<lparr>rc_prev_dv := beat_dv b\<rparr>)"

section \<open>mii_monitor.py\<close>

datatype mii_framing_error = OddNibbles nat | RuntFrame nat | BadPreamble | FcsMismatch nat

record mii_mon =
  mm_payloads :: "bytes list"
  mm_fcs_errors :: nat
  mm_framing :: "mii_framing_error list"
  mm_nibbles :: "byte list"
  mm_active :: bool

definition mii_mon_init :: mii_mon where
  "mii_mon_init = \<lparr>mm_payloads = [], mm_fcs_errors = 0, mm_framing = [], mm_nibbles = [],
     mm_active = False\<rparr>"

text \<open>\<open>nibbles[i] | (nibbles[i + 1] << 4)\<close> over the pairs.\<close>

fun nibble_bytes :: "byte list \<Rightarrow> bytes" where
  "nibble_bytes (lo # hi # ns) = (lo OR push_bit 4 hi) # nibble_bytes ns"
| "nibble_bytes _ = []"

definition mii_finish :: "mii_mon \<Rightarrow> byte list \<Rightarrow> mii_mon" where
  "mii_finish s nibbles =
     (if length nibbles mod 2 \<noteq> 0
      then s\<lparr>mm_framing := mm_framing s @ [OddNibbles (length nibbles)]\<rparr>
      else
        let data = nibble_bytes nibbles; hdr = PREAMBLE_LEN + 1 in
        if length data < hdr + FCS_LEN
        then s\<lparr>mm_framing := mm_framing s @ [RuntFrame (length data)]\<rparr>
        else if list_ex (\<lambda>b. b \<noteq> PREAMBLE_BYTE) (take PREAMBLE_LEN data) \<or> data ! PREAMBLE_LEN \<noteq> SFD
        then s\<lparr>mm_framing := mm_framing s @ [BadPreamble]\<rparr>
        else
          let body = drop hdr data;
              payload = take (length body - FCS_LEN) body;
              wire_fcs = drop (length body - FCS_LEN) body;
              s1 = (if \<not> fcs_ok payload wire_fcs
                    then s\<lparr>mm_fcs_errors := mm_fcs_errors s + 1,
                           mm_framing := mm_framing s @ [FcsMismatch (length payload)]\<rparr>
                    else s)
          in s1\<lparr>mm_payloads := mm_payloads s1 @ [payload]\<rparr>)"

text \<open>One falling edge: \<open>(mii_tx_en, mii_txd)\<close>.\<close>

definition mii_mon_step :: "mii_mon \<Rightarrow> bool \<times> byte \<Rightarrow> mii_mon" where
  "mii_mon_step s smp =
     (case smp of (en, txd) \<Rightarrow>
        if en then s\<lparr>mm_nibbles := mm_nibbles s @ [txd AND 0xF], mm_active := True\<rparr>
        else if mm_active s
        then (mii_finish s (mm_nibbles s))\<lparr>mm_nibbles := [], mm_active := False\<rparr>
        else s)"

definition mii_mon_run :: "mii_mon \<Rightarrow> (bool \<times> byte) list \<Rightarrow> mii_mon" where
  "mii_mon_run = foldl mii_mon_step"

text \<open>The wire format the monitor's documentation describes: every byte low nibble first, one idle
  sample after the frame.\<close>

definition byte_nibbles :: "byte \<Rightarrow> (bool \<times> byte) list" where
  "byte_nibbles b = [(True, b AND 0xF), (True, drop_bit 4 b)]"

definition mii_wire :: "bytes \<Rightarrow> bytes \<Rightarrow> (bool \<times> byte) list" where
  "mii_wire payload fcsb =
     concat (map byte_nibbles
       (replicate PREAMBLE_LEN PREAMBLE_BYTE @ [SFD] @ payload @ fcsb)) @ [(False, 0)]"

section \<open>The receive clock-crossing pair\<close>

definition rx_cdc_enc :: "bytes \<times> bool list \<Rightarrow> gmii_beat list" where
  "rx_cdc_enc f = map (\<lambda>(b, e). \<lparr>beat_data = b, beat_dv = True, beat_er = e\<rparr>) (zip (fst f) (snd f)) @
     [rx_cdc_init]"

definition rx_cdc_quiet :: "rx_cdc_mon \<Rightarrow> bool" where
  "rx_cdc_quiet s \<longleftrightarrow> \<not> rc_prev_dv s \<and> rc_cur s = [] \<and> rc_cur_er s = [] \<and>
     rc_count s = length (rc_frames s) \<and> length (rc_ers s) = length (rc_frames s)"

definition rx_cdc_frames :: "rx_cdc_mon \<Rightarrow> (bytes \<times> bool list) list" where
  "rx_cdc_frames s = zip (rc_frames s) (rc_ers s)"

definition er_ok :: "bytes \<times> bool list \<Rightarrow> bool" where
  "er_ok f \<longleftrightarrow> fst f \<noteq> [] \<and> length (snd f) = length (fst f)"

lemma rx_cdc_run_bytes:
  "length es = length bs \<Longrightarrow>
   foldl rx_cdc_mon_step s (map (\<lambda>(b, e). \<lparr>beat_data = b, beat_dv = True, beat_er = e\<rparr>) (zip bs es)) =
     s\<lparr>rc_cur := rc_cur s @ bs, rc_cur_er := rc_cur_er s @ es,
       rc_prev_dv := (if bs = [] then rc_prev_dv s else True)\<rparr>"
proof (induction bs es arbitrary: s rule: list_induct2')
  case (4 b bs e es)
  then show ?case by (simp add: rx_cdc_mon_step_def Let_def)
qed simp_all

lemma rx_cdc_one:
  assumes "rx_cdc_quiet s" "er_ok f"
  shows "rx_cdc_quiet (foldl rx_cdc_mon_step s (rx_cdc_enc f)) \<and>
    rx_cdc_frames (foldl rx_cdc_mon_step s (rx_cdc_enc f)) = rx_cdc_frames s @ [f]"
proof -
  obtain bs es where f: "f = (bs, es)" by (cases f)
  have len: "length es = length bs" "bs \<noteq> []" using assms(2) f by (auto simp: er_ok_def)
  show ?thesis
    using assms(1) len
    by (simp add: f rx_cdc_enc_def rx_cdc_run_bytes rx_cdc_mon_step_def rx_cdc_init_def
        rx_cdc_quiet_def rx_cdc_frames_def)
qed

interpretation rx_cdc: framed_link rx_cdc_mon_step rx_cdc_frames rx_cdc_quiet
  "\<lambda>b. \<not> beat_dv b" rx_cdc_enc "\<lambda>f. f" er_ok
proof unfold_locales
  fix s f
  assume "rx_cdc_quiet s" "er_ok f"
  then show "rx_cdc_quiet (foldl rx_cdc_mon_step s (rx_cdc_enc f)) \<and>
    rx_cdc_frames (foldl rx_cdc_mon_step s (rx_cdc_enc f)) = rx_cdc_frames s @ [f]"
    by (rule rx_cdc_one)
qed (simp add: rx_cdc_mon_step_def rx_cdc_quiet_def rx_cdc_frames_def)

lemma rx_cdc_driver_enc:
  assumes "length es = length data"
  shows "rx_cdc_send_frame data (Suc gap) (Some es) = Inr (rx_cdc_enc (data, es) @ rx_cdc_idle 0 gap)"
  using assms by (simp add: rx_cdc_send_frame_def er_list_def rx_cdc_enc_def rx_cdc_idle_def rx_cdc_init_def)

text \<open>Without a gap two frames are one run of \<open>rx_dv\<close>.\<close>

lemma rx_cdc_gap0:
  assumes "length es = length data"
  shows "rx_cdc_send_frame data 0 (Some es) =
    Inr (map (\<lambda>(b, e). \<lparr>beat_data = b, beat_dv = True, beat_er = e\<rparr>) (zip data es))"
  using assms by (simp add: rx_cdc_send_frame_def er_list_def)

section \<open>The transmit clock-crossing pair at one byte per cycle\<close>

definition out_of_beat :: "gmii_tx_beat \<Rightarrow> gmii_out" where
  "out_of_beat b = \<lparr>go_en = tx_en_in b, go_txd = txd_in b, go_er = tx_er_in b\<rparr>"

definition gmii_tx_enc :: "bytes \<times> bool list \<Rightarrow> gmii_out list" where
  "gmii_tx_enc f = map (\<lambda>(b, e). \<lparr>go_en = True, go_txd = b, go_er = e\<rparr>) (zip (fst f) (snd f)) @
     [\<lparr>go_en = False, go_txd = 0, go_er = False\<rparr>]"

definition gmii_tx_quiet :: "gmii_tx_mon \<Rightarrow> bool" where
  "gmii_tx_quiet s \<longleftrightarrow> \<not> gm_prev_en s \<and> gm_cur s = [] \<and> gm_cur_er s = [] \<and> gm_span s = 0 \<and>
     length (gm_frames s) = gm_count s \<and> length (gm_ers s) = gm_count s \<and>
     gm_lens s = map length (gm_frames s) \<and> length (gm_spans s) = gm_count s"

definition gmii_tx_frames :: "gmii_tx_mon \<Rightarrow> (bytes \<times> bool list) list" where
  "gmii_tx_frames s = zip (gm_frames s) (gm_ers s)"

lemma gmii_tx_run_bytes:
  "length es = length bs \<Longrightarrow>
   foldl (gmii_tx_mon_step 1) s (map (\<lambda>(b, e). \<lparr>go_en = True, go_txd = b, go_er = e\<rparr>) (zip bs es)) =
     s\<lparr>gm_cur := gm_cur s @ bs, gm_cur_er := gm_cur_er s @ es, gm_span := gm_span s + length bs,
       gm_prev_en := (if bs = [] then gm_prev_en s else True)\<rparr>"
proof (induction bs es arbitrary: s rule: list_induct2')
  case (4 b bs e es)
  then show ?case by (simp add: gmii_tx_mon_step_def Let_def)
qed simp_all

lemma gmii_tx_one:
  assumes "gmii_tx_quiet s" "er_ok f" "1 < length (fst f)"
  shows "gmii_tx_quiet (foldl (gmii_tx_mon_step 1) s (gmii_tx_enc f)) \<and>
    gmii_tx_frames (foldl (gmii_tx_mon_step 1) s (gmii_tx_enc f)) = gmii_tx_frames s @ [f]"
proof -
  obtain bs es where f: "f = (bs, es)" by (cases f)
  have len: "length es = length bs" "1 < length bs" "bs \<noteq> []" using assms(2,3) f by (auto simp: er_ok_def)
  have "foldl (gmii_tx_mon_step 1) s (gmii_tx_enc f) =
      gmii_tx_mon_step 1 (foldl (gmii_tx_mon_step 1) s
        (map (\<lambda>(b, e). \<lparr>go_en = True, go_txd = b, go_er = e\<rparr>) (zip bs es)))
        \<lparr>go_en = False, go_txd = 0, go_er = False\<rparr>"
    by (simp add: f gmii_tx_enc_def)
  also have "\<dots> = s\<lparr>gm_frames := gm_frames s @ [bs], gm_lens := gm_lens s @ [length bs],
      gm_spans := gm_spans s @ [length bs], gm_ers := gm_ers s @ [es], gm_count := gm_count s + 1,
      gm_prev_en := False, gm_span := 0, gm_cur := [], gm_cur_er := []\<rparr>"
    unfolding gmii_tx_run_bytes [OF len(1)]
    using assms(1) len(2,3)
    by (simp add: gmii_tx_mon_step_def gmii_tx_mon_fall_def gmii_tx_quiet_def Let_def)
  finally show ?thesis
    using assms(1) by (simp add: gmii_tx_quiet_def gmii_tx_frames_def f)
qed

interpretation gmii_tx: framed_link "gmii_tx_mon_step 1" gmii_tx_frames gmii_tx_quiet
  "\<lambda>b. \<not> go_en b" gmii_tx_enc "\<lambda>f. f" "\<lambda>f. er_ok f \<and> 1 < length (fst f)"
proof unfold_locales
  fix s f
  assume "gmii_tx_quiet s" "er_ok f \<and> 1 < length (fst f)"
  then show "gmii_tx_quiet (foldl (gmii_tx_mon_step 1) s (gmii_tx_enc f)) \<and>
    gmii_tx_frames (foldl (gmii_tx_mon_step 1) s (gmii_tx_enc f)) = gmii_tx_frames s @ [f]"
    using gmii_tx_one by blast
qed (simp add: gmii_tx_mon_step_def gmii_tx_quiet_def gmii_tx_frames_def)

lemma gmii_tx_driver_enc:
  assumes "length es = length data"
  shows "\<exists>beats k. gmii_tx_send_frame data gap (Some es) = Inr beats \<and>
    map out_of_beat beats = gmii_tx_enc (data, es) @ replicate k \<lparr>go_en = False, go_txd = 0, go_er = False\<rparr>"
proof -
  have "map out_of_beat (map (\<lambda>(b, e). gmii_tx_beat_of b True e) zs) =
      map (\<lambda>(b, e). \<lparr>go_en = True, go_txd = b, go_er = e\<rparr>) zs" for zs
    by (auto simp: out_of_beat_def gmii_tx_beat_of_def)
  then show ?thesis
    using assms
    by (auto simp: gmii_tx_send_frame_def er_list_def gmii_tx_enc_def gmii_tx_idle_def out_of_beat_def
        gmii_tx_beat_of_def simp del: map_map)
qed

section \<open>Slow links: the length from the span\<close>

text \<open>At period \<open>p\<close> a frame keeps the enable high for \<open>p\<close> cycles per byte, one for the last.\<close>

lemma gmii_span_fold:
  assumes "p \<noteq> 1" "\<forall>o'\<in>set os. go_en o'" "os \<noteq> []"
  shows "foldl (gmii_tx_mon_step p) s os = s\<lparr>gm_span := gm_span s + length os, gm_prev_en := True\<rparr>"
  using assms(2,3)
proof (induction os arbitrary: s)
  case Nil
  then show ?case by simp
next
  case (Cons x os)
  have st: "gmii_tx_mon_step p s x = s\<lparr>gm_span := gm_span s + 1, gm_prev_en := True\<rparr>"
    using Cons.prems assms(1) by (simp add: gmii_tx_mon_step_def)
  show ?case using Cons st by (cases "os = []") simp_all
qed

lemma gmii_span_len:
  assumes "1 < p" "1 < n" "\<forall>o'\<in>set os. go_en o'" "length os = (n - 1) * p + 1" "\<not> go_en z"
    "gm_span s = 0"
  shows "foldl (gmii_tx_mon_step p) s (os @ [z]) =
    s\<lparr>gm_count := gm_count s + 1, gm_spans := gm_spans s @ [length os], gm_lens := gm_lens s @ [n],
      gm_cur := [], gm_cur_er := [], gm_span := 0, gm_prev_en := False\<rparr>"
proof -
  have ne: "os \<noteq> []" using assms(4) by auto
  have "1 < length os" using assms(1,2,4) by simp
  moreover have "(length os - 1) div p + 1 = n" using assms(1,2,4) by simp
  ultimately show ?thesis
    using gmii_span_fold [of p os s] ne assms
    by (simp add: gmii_tx_mon_step_def gmii_tx_mon_fall_def Let_def)
qed

lemma gmii_tx_mon_counts:
  assumes "gm_count s = length (gm_lens s)" "length (gm_spans s) = gm_count s" "\<forall>n\<in>set (gm_spans s). 1 < n"
  shows "gm_count (gmii_tx_mon_run p s os) = length (gm_lens (gmii_tx_mon_run p s os)) \<and>
    length (gm_spans (gmii_tx_mon_run p s os)) = gm_count (gmii_tx_mon_run p s os) \<and>
    (\<forall>n\<in>set (gm_spans (gmii_tx_mon_run p s os)). 1 < n)"
  using assms unfolding gmii_tx_mon_run_def
proof (induction os arbitrary: s)
  case Nil
  then show ?case by simp
next
  case (Cons o' os)
  have "gm_count (gmii_tx_mon_step p s o') = length (gm_lens (gmii_tx_mon_step p s o')) \<and>
      length (gm_spans (gmii_tx_mon_step p s o')) = gm_count (gmii_tx_mon_step p s o') \<and>
      (\<forall>n\<in>set (gm_spans (gmii_tx_mon_step p s o')). 1 < n)"
    using Cons.prems by (auto simp: gmii_tx_mon_step_def gmii_tx_mon_fall_def Let_def)
  then show ?case unfolding foldl_Cons using Cons.IH by blast
qed

section \<open>The MII monitor\<close>

lemma nibble_join: "((b :: byte) AND 0xF) OR push_bit 4 (drop_bit 4 b AND 0xF) = b"
proof (rule bit_word_eqI)
  fix n
  assume "n < LENGTH(8)"
  then have "n < 8" by simp
  have m: "(0xF :: byte) = mask 4" by (simp add: mask_eq_exp_minus_1)
  show "bit ((b AND 0xF) OR push_bit 4 (drop_bit 4 b AND 0xF)) n = bit b n"
    using \<open>n < 8\<close> unfolding m
    by (auto simp: bit_or_iff bit_and_iff bit_push_bit_iff bit_drop_bit_eq bit_mask_iff
        bit_simps not_less le_add_diff_inverse)
qed

lemma byte_nibble_eq: "(drop_bit 4 (b :: byte)) AND 0xF = drop_bit 4 b"
proof (rule bit_word_eqI)
  fix n
  assume "n < LENGTH(8)"
  then have "n < 8" by simp
  have m: "(0xF :: byte) = mask 4" by (simp add: mask_eq_exp_minus_1)
  show "bit (drop_bit 4 b AND 0xF) n = bit (drop_bit 4 b) n"
    unfolding m by (auto simp: bit_and_iff bit_drop_bit_eq bit_mask_iff dest: bit_imp_le_length)
qed

definition wire_nibbles :: "bytes \<Rightarrow> byte list" where
  "wire_nibbles bs = concat (map (\<lambda>b. [b AND 0xF, drop_bit 4 b AND 0xF]) bs)"

lemma nibble_bytes_wire: "nibble_bytes (wire_nibbles bs) = bs"
  by (induction bs) (simp_all add: wire_nibbles_def nibble_join [simplified])

lemma length_wire_nibbles: "length (wire_nibbles bs) = 2 * length bs"
  by (induction bs) (simp_all add: wire_nibbles_def)

lemma mii_run_nibbles:
  "foldl mii_mon_step s (concat (map byte_nibbles bs)) =
     (if bs = [] then s else s\<lparr>mm_nibbles := mm_nibbles s @ wire_nibbles bs, mm_active := True\<rparr>)"
  by (induction bs arbitrary: s)
    (simp_all add: mii_mon_step_def byte_nibbles_def wire_nibbles_def and.assoc)

definition mii_quiet :: "mii_mon \<Rightarrow> bool" where
  "mii_quiet s \<longleftrightarrow> mm_nibbles s = [] \<and> \<not> mm_active s"

lemma mii_finish_wire:
  assumes "length w = 4"
  shows "mii_finish s (wire_nibbles (replicate PREAMBLE_LEN PREAMBLE_BYTE @ [SFD] @ payload @ w)) =
    (let s1 = (if \<not> fcs_ok payload w
               then s\<lparr>mm_fcs_errors := mm_fcs_errors s + 1,
                      mm_framing := mm_framing s @ [FcsMismatch (length payload)]\<rparr>
               else s)
     in s1\<lparr>mm_payloads := mm_payloads s1 @ [payload]\<rparr>)"
proof -
  let ?d = "replicate 7 PREAMBLE_BYTE @ [SFD] @ payload @ w"
  have t: "take 7 ?d = replicate 7 PREAMBLE_BYTE" "?d ! 7 = SFD" by (simp_all add: nth_append)
  have dr: "drop 8 ?d = payload @ w" by (simp add: numeral_eq_Suc)
  have len: "length ?d = length payload + 12" using assms by simp
  have d: "list_ex (\<lambda>b. b \<noteq> PREAMBLE_BYTE) (replicate 7 PREAMBLE_BYTE) = False"
    by (simp add: list_ex_iff)
  show ?thesis
    unfolding mii_finish_def PREAMBLE_LEN_def FCS_LEN_def nibble_bytes_wire length_wire_nibbles Let_def
    using t dr len d assms by simp
qed

lemma mii_wire_run:
  assumes "length w = 4" "mii_quiet s"
  shows "foldl mii_mon_step s (mii_wire payload w) =
    (let s1 = (if \<not> fcs_ok payload w
               then s\<lparr>mm_fcs_errors := mm_fcs_errors s + 1,
                      mm_framing := mm_framing s @ [FcsMismatch (length payload)]\<rparr>
               else s)
     in s1\<lparr>mm_payloads := mm_payloads s1 @ [payload]\<rparr>)"
proof -
  let ?bs = "replicate PREAMBLE_LEN PREAMBLE_BYTE @ [SFD] @ payload @ w"
  let ?s = "s\<lparr>mm_nibbles := mm_nibbles s @ wire_nibbles ?bs, mm_active := True\<rparr>"
  have "foldl mii_mon_step s (mii_wire payload w) = mii_mon_step ?s (False, 0)"
    by (simp add: mii_wire_def mii_run_nibbles del: concat_append map_append)
  also have "\<dots> = (mii_finish ?s (wire_nibbles ?bs))\<lparr>mm_nibbles := [], mm_active := False\<rparr>"
    using assms(2) by (simp add: mii_mon_step_def mii_quiet_def)
  finally show ?thesis
    unfolding mii_finish_wire [OF assms(1)] using assms(2) by (simp add: mii_quiet_def Let_def)
qed

interpretation mii_good: framed_link mii_mon_step mm_payloads
  "\<lambda>s. mii_quiet s \<and> mm_fcs_errors s = 0 \<and> mm_framing s = []" "\<lambda>b. \<not> fst b"
  "\<lambda>p. mii_wire p (fcs_bytes p)" "\<lambda>p. p" "\<lambda>_. True"
proof unfold_locales
  fix s :: mii_mon and p
  assume q: "mii_quiet s \<and> mm_fcs_errors s = 0 \<and> mm_framing s = []"
  have "foldl mii_mon_step s (mii_wire p (fcs_bytes p)) = s\<lparr>mm_payloads := mm_payloads s @ [p]\<rparr>"
    using mii_wire_run [of "fcs_bytes p" s p] q by (simp add: Let_def)
  then show "(mii_quiet (foldl mii_mon_step s (mii_wire p (fcs_bytes p))) \<and>
      mm_fcs_errors (foldl mii_mon_step s (mii_wire p (fcs_bytes p))) = 0 \<and>
      mm_framing (foldl mii_mon_step s (mii_wire p (fcs_bytes p))) = []) \<and>
      mm_payloads (foldl mii_mon_step s (mii_wire p (fcs_bytes p))) = mm_payloads s @ [p]"
    using q by (simp add: mii_quiet_def)
qed (auto simp: mii_mon_step_def mii_quiet_def)

section \<open>Properties\<close>

text \<open>C17: The MII monitor recovers every sequence of payloads sent with a correct FCS, with any idle
  samples before each, in order and without an error; and it reports a frame with any other four
  FCS bytes as exactly one FCS error.\<close>
theorem mii_monitor_roundtrip:
  assumes "\<forall>(gap, p)\<in>set gps. \<forall>b\<in>set gap. \<not> fst b"
  shows "let m = mii_mon_run mii_mon_init (concat (map (\<lambda>(gap, p). gap @ mii_wire p (fcs_bytes p)) gps))
    in mm_payloads m = map snd gps \<and> mm_fcs_errors m = 0 \<and> mm_framing m = []"
proof -
  have pl: "concat (map (\<lambda>(gap, p). gap @ mii_wire p (fcs_bytes p)) gps) = mii_good.play gps"
    by (induction gps) (simp_all add: split_beta)
  have "mii_quiet mii_mon_init \<and> mm_fcs_errors mii_mon_init = 0 \<and> mm_framing mii_mon_init = []"
    by (simp add: mii_quiet_def mii_mon_init_def)
  from mii_good.many_frames [OF this, of gps] assms show ?thesis
    unfolding pl mii_mon_run_def by (auto simp: mii_mon_init_def)
qed

theorem mii_monitor_roundtrip_witness:
  "mm_payloads (mii_mon_run mii_mon_init
     (concat (map (\<lambda>(gap, p). gap @ mii_wire p (fcs_bytes p)) [([(False, 3)], [1, 2]), ([], [9])]))) =
   [[1, 2], [9]]"
  using mii_monitor_roundtrip [of "[([(False, 3)], [1, 2]), ([], [9])]"] by (simp add: Let_def)

text \<open>The MII monitor flags every frame whose four FCS bytes are not the ones the payload has.\<close>
theorem mii_monitor_bad_fcs:
  assumes "length w = 4" and "w \<noteq> fcs_bytes p"
  shows "mii_mon_run mii_mon_init (mii_wire p w) =
    mii_mon_init\<lparr>mm_payloads := [p], mm_fcs_errors := 1, mm_framing := [FcsMismatch (length p)]\<rparr>"
proof -
  have "\<not> fcs_ok p w" using fcs_ok_unique assms by blast
  moreover have "mii_quiet mii_mon_init" by (simp add: mii_quiet_def mii_mon_init_def)
  ultimately show ?thesis
    unfolding mii_mon_run_def
    using mii_wire_run [OF assms(1), of mii_mon_init p] by (simp add: mii_mon_init_def)
qed

theorem mii_monitor_bad_fcs_witness:
  "mm_fcs_errors (mii_mon_run mii_mon_init (mii_wire [7] (sent_fcs [7] True))) = 1"
  using mii_monitor_bad_fcs [OF _ sent_fcs_corrupt, of "[7]"] by simp

text \<open>C18: What the receive clock-crossing driver plays with at least one idle cycle after each
  non-empty frame is what its monitor reports: the same frames with the same per-byte error flags,
  counted once each.\<close>
theorem rx_cdc_roundtrip:
  assumes "\<forall>(gap, data, es)\<in>set fs. data \<noteq> [] \<and> length es = length data"
  shows "let beats = concat (map (\<lambda>(gap, data, es).
            case rx_cdc_send_frame data (Suc gap) (Some es) of Inr bs \<Rightarrow> bs | Inl _ \<Rightarrow> []) fs);
        m = foldl rx_cdc_mon_step rx_cdc_mon_init beats
    in rc_frames m = map (\<lambda>(_, data, _). data) fs \<and> rc_ers m = map (\<lambda>(_, _, es). es) fs \<and>
       rc_count m = length fs"
proof -
  let ?beats = "\<lambda>(gap, data, es). case rx_cdc_send_frame data (Suc gap) (Some es) of Inr bs \<Rightarrow> bs | Inl _ \<Rightarrow> []"
  have "rx_cdc_quiet (foldl rx_cdc_mon_step s (concat (map ?beats fs))) \<and>
      rc_frames (foldl rx_cdc_mon_step s (concat (map ?beats fs))) = rc_frames s @ map (\<lambda>(_, data, _). data) fs \<and>
      rc_ers (foldl rx_cdc_mon_step s (concat (map ?beats fs))) = rc_ers s @ map (\<lambda>(_, _, es). es) fs"
    if "rx_cdc_quiet s" for s
    using assms that
  proof (induction fs arbitrary: s)
    case Nil
    then show ?case by simp
  next
    case (Cons x fs)
    obtain gap data es where x: "x = (gap, data, es)" by (cases x)
    then have ok: "er_ok (data, es)" "length es = length data" using Cons.prems by (auto simp: er_ok_def)
    let ?s1 = "foldl rx_cdc_mon_step s (rx_cdc_enc (data, es))"
    let ?s2 = "foldl rx_cdc_mon_step ?s1 (rx_cdc_idle 0 gap)"
    have s1: "rx_cdc_quiet ?s1" "rx_cdc_frames ?s1 = rx_cdc_frames s @ [(data, es)]"
      using rx_cdc_one [OF Cons.prems(2) ok(1)] by auto
    have s2: "rx_cdc_quiet ?s2" "rx_cdc_frames ?s2 = rx_cdc_frames s @ [(data, es)]"
      using rx_cdc.idles [OF s1(1), of "rx_cdc_idle 0 gap"] s1(2) by (auto simp: rx_cdc_idle_def)
    have un: "rc_frames t = map fst (rx_cdc_frames t)" "rc_ers t = map snd (rx_cdc_frames t)"
      if "rx_cdc_quiet t" for t
      using that by (simp_all add: rx_cdc_quiet_def rx_cdc_frames_def)
    have "rc_frames ?s2 = rc_frames s @ [data]" "rc_ers ?s2 = rc_ers s @ [es]"
      using un [OF s2(1)] un [OF Cons.prems(2)] s2(2) by simp_all
    then show ?case
      using Cons.IH [OF _ s2(1)] Cons.prems(1) rx_cdc_driver_enc [OF ok(2), of gap] by (simp add: x)
  qed
  moreover have "rx_cdc_quiet rx_cdc_mon_init" by (simp add: rx_cdc_quiet_def rx_cdc_mon_init_def)
  ultimately have r: "rx_cdc_quiet (foldl rx_cdc_mon_step rx_cdc_mon_init (concat (map ?beats fs))) \<and>
      rc_frames (foldl rx_cdc_mon_step rx_cdc_mon_init (concat (map ?beats fs))) = map (\<lambda>(_, data, _). data) fs \<and>
      rc_ers (foldl rx_cdc_mon_step rx_cdc_mon_init (concat (map ?beats fs))) = map (\<lambda>(_, _, es). es) fs"
    by (fastforce simp: rx_cdc_mon_init_def)
  then show ?thesis by (auto simp: Let_def rx_cdc_quiet_def)
qed

theorem rx_cdc_roundtrip_witness:
  "rc_frames (foldl rx_cdc_mon_step rx_cdc_mon_init
     (concat (map (\<lambda>(gap, data, es).
        case rx_cdc_send_frame data (Suc gap) (Some es) of Inr bs \<Rightarrow> bs | Inl _ \<Rightarrow> [])
       [(0, [1, 2], [False, True]), (3, [4], [False])]))) = [[1, 2], [4]]"
  using rx_cdc_roundtrip [of "[(0, [1, 2], [False, True]), (3, [4], [False])]"] by (simp add: Let_def)

text \<open>On every trace and at every speed the transmit monitor counts each frame once: one length
  and one span per counted frame, and no frame with a span below two cycles.\<close>
theorem gmii_tx_monitor_counts:
  "let m = gmii_tx_mon_run period gmii_tx_mon_init outs in
     gm_count m = length (gm_lens m) \<and> length (gm_spans m) = gm_count m \<and>
     filter (\<lambda>n. n \<le> 1) (gm_spans m) = []"
  using gmii_tx_mon_counts [of gmii_tx_mon_init period outs]
  by (auto simp: gmii_tx_mon_init_def Let_def filter_empty_conv)

text \<open>At period \<open>p > 1\<close> a frame of \<open>n > 1\<close> bytes that keeps the enable high for \<open>p\<close> cycles per
  byte and one for the last is reported with length \<open>n\<close>.\<close>
theorem gmii_tx_monitor_slow_length:
  assumes "1 < p" and "1 < n" and "\<forall>o'\<in>set outs. go_en o'" and "length outs = (n - 1) * p + 1"
    and "\<not> go_en z"
  shows "gm_lens (gmii_tx_mon_run p gmii_tx_mon_init (outs @ [z])) = [n] \<and>
    gm_count (gmii_tx_mon_run p gmii_tx_mon_init (outs @ [z])) = 1"
  using gmii_span_len [OF assms, of gmii_tx_mon_init]
  by (simp add: gmii_tx_mon_run_def gmii_tx_mon_init_def)

theorem gmii_tx_monitor_slow_length_witness:
  "gm_lens (gmii_tx_mon_run 10 gmii_tx_mon_init
     (replicate 591 \<lparr>go_en = True, go_txd = 0, go_er = False\<rparr> @
      [\<lparr>go_en = False, go_txd = 0, go_er = False\<rparr>])) = [60]"
  using gmii_tx_monitor_slow_length [of 10 60 "replicate 591 \<lparr>go_en = True, go_txd = 0, go_er = False\<rparr>"
      "\<lparr>go_en = False, go_txd = 0, go_er = False\<rparr>"] by simp

end
