(* ===== verification/Emz_Axis.thy ===== *)
theory Emz_Axis
  imports Emz_RxModel Emz_Link
begin

text \<open>
  AXI-Stream and AXI4-Lite bench components: \<open>axis_driver.py\<close>, \<open>axis_sink.py\<close>, \<open>axil_master.py\<close>,
  the senders of \<open>rx_loop.py\<close>, \<open>mii_bench.py\<close>, \<open>mac_sys_b.py\<close> and \<open>txpath_bench.py\<close>.
  A trace is a list with one entry per clock cycle; a driver run against the ready values of the
  trace returns the log of \<open>(pins, ready)\<close> at the rising edges it saw and the rest of the trace, or
  \<open>None\<close> when the trace ends before the call returns.  A beat is transferred at an edge where valid
  and ready are both high.
\<close>

section \<open>Pins and logs\<close>

record axis_pins =
  px_valid :: bool
  px_data :: byte
  px_last :: bool

type_synonym axis_log = "(axis_pins \<times> bool) list"

definition accepted :: "axis_log \<Rightarrow> (byte \<times> bool) list" where
  "accepted log = map (\<lambda>(p, _). (px_data p, px_last p)) (filter (\<lambda>(p, r). px_valid p \<and> r) log)"

definition idle_pins :: axis_pins where
  "idle_pins = \<lparr>px_valid = False, px_data = 0, px_last = False\<rparr>"

lemma accepted_append [simp]: "accepted (xs @ ys) = accepted xs @ accepted ys"
  by (simp add: accepted_def)

lemma accepted_Nil [simp]: "accepted [] = []"
  by (simp add: accepted_def)

lemma accepted_Cons [simp]:
  "accepted ((p, r) # xs) = (if px_valid p \<and> r then [(px_data p, px_last p)] else []) @ accepted xs"
  by (simp add: accepted_def)

text \<open>Hold the pins until an edge with ready high: the inner loop of \<open>send_segment\<close>, \<open>ready_edge\<close>
  of \<open>mii_bench.py\<close> and \<open>axis_accept\<close> of \<open>txpath_bench.py\<close>.\<close>

fun axis_accept :: "axis_pins \<Rightarrow> bool list \<Rightarrow> (axis_log \<times> bool list) option" where
  "axis_accept p [] = None"
| "axis_accept p (r # rs) =
     (if r then Some ([(p, True)], rs)
      else case axis_accept p rs of None \<Rightarrow> None | Some (log, rs') \<Rightarrow> Some ((p, False) # log, rs'))"

text \<open>\<open>_idle(cycles)\<close>: the data pins keep their value \<open>d\<close>.\<close>

definition axis_idle :: "byte \<Rightarrow> nat \<Rightarrow> bool list \<Rightarrow> (axis_log \<times> bool list) option" where
  "axis_idle d n rs =
     (if length rs < n then None
      else Some (map (\<lambda>r. (\<lparr>px_valid = False, px_data = d, px_last = False\<rparr>, r)) (take n rs), drop n rs))"

text \<open>What a driver does next: a gap of idle cycles, or one beat to be accepted.\<close>

datatype axis_op = Gap nat | Beat byte bool

definition op_run :: "axis_op \<Rightarrow> byte \<Rightarrow> bool list \<Rightarrow> (axis_log \<times> bool list) option" where
  "op_run op' d rs =
     (case op' of Gap n \<Rightarrow> axis_idle d n rs
      | Beat b l \<Rightarrow> axis_accept \<lparr>px_valid = True, px_data = b, px_last = l\<rparr> rs)"

definition op_data :: "axis_op \<Rightarrow> byte \<Rightarrow> byte" where
  "op_data op' d = (case op' of Gap n \<Rightarrow> d | Beat b l \<Rightarrow> b)"

fun ops_run :: "axis_op list \<Rightarrow> byte \<Rightarrow> bool list \<Rightarrow> (axis_log \<times> bool list) option" where
  "ops_run [] d rs = Some ([], rs)"
| "ops_run (x # xs) d rs =
     (case op_run x d rs of
        None \<Rightarrow> None
      | Some (log, rs') \<Rightarrow>
          (case ops_run xs (op_data x d) rs' of
             None \<Rightarrow> None
           | Some (log', rs'') \<Rightarrow> Some (log @ log', rs'')))"

fun op_beats :: "axis_op list \<Rightarrow> (byte \<times> bool) list" where
  "op_beats [] = []"
| "op_beats (Gap n # xs) = op_beats xs"
| "op_beats (Beat b l # xs) = (b, l) # op_beats xs"

section \<open>axis_driver.py\<close>

record axis_master =
  am_p_bubble :: nat
  am_max_gap :: int

text \<open>\<open>if self.p_bubble and rng.random() < self.p_bubble: await self._idle(rng.randint(1, max_gap))\<close>;
  the probability is given in units of \<open>2 ^ -53\<close>.\<close>

definition axis_bubble :: "axis_master \<Rightarrow> rng \<Rightarrow> (axis_op list \<times> rng) res" where
  "axis_bubble m r =
     rng_bind (rng_and_chance (am_p_bubble m \<noteq> 0) (am_p_bubble m) r) (\<lambda>c r1.
       if c then rng_bind (rng_randint 1 (am_max_gap m) r1) (\<lambda>g r2. Inr ([Gap (nat g)], r2))
       else Inr ([], r1))"

fun send_bytes :: "axis_master \<Rightarrow> (byte \<times> bool) list \<Rightarrow> rng \<Rightarrow> (axis_op list \<times> rng) res" where
  "send_bytes m [] r = Inr ([], r)"
| "send_bytes m ((b, l) # bs) r =
     rng_bind (axis_bubble m r) (\<lambda>gap r1.
     rng_bind (send_bytes m bs r1) (\<lambda>ops r2. Inr (gap @ [Beat b l] @ ops, r2)))"

definition send_segment :: "axis_master \<Rightarrow> segment \<Rightarrow> rng \<Rightarrow> (axis_op list \<times> rng) res" where
  "send_segment m seg r = send_bytes m (seg_stream seg) r"

fun send_segments :: "axis_master \<Rightarrow> segment list \<Rightarrow> rng \<Rightarrow> (axis_op list \<times> rng) res" where
  "send_segments m [] r = Inr ([], r)"
| "send_segments m (s # segs) r =
     rng_bind (send_segment m s r) (\<lambda>ops r1.
     rng_bind (send_segments m segs r1) (\<lambda>ops' r2. Inr (ops @ ops', r2)))"

definition send_all :: "axis_master \<Rightarrow> segment list \<Rightarrow> rng \<Rightarrow> (axis_op list \<times> rng) res" where
  "send_all m segs r =
     rng_bind (send_segments m segs r) (\<lambda>ops r1. Inr (ops @ [Gap 4], r1))"

section \<open>The posedge senders of rx_loop.py and mii_bench.py\<close>

definition last_flags :: "bytes \<Rightarrow> (byte \<times> bool) list" where
  "last_flags data = map (\<lambda>(i, b). (b, Suc i = length data)) (enumerate 0 data)"

definition send_posedge_style :: "bytes \<Rightarrow> axis_op list" where
  "send_posedge_style data = map (\<lambda>(b, l). Beat b l) (last_flags data)"

text \<open>\<open>data[0]\<close> raises on empty data.\<close>

definition send_frame_posedge :: "bytes \<Rightarrow> nat \<Rightarrow> axis_op list res" where
  "send_frame_posedge data idle_after =
     res_bind (py_nth data 0) (\<lambda>_.
       Inr ([Gap 1] @ map (\<lambda>(b, l). Beat b l) (last_flags data) @ [Gap idle_after]))"

section \<open>The negedge senders of rx_loop.py and mac_sys_b.py\<close>

text \<open>A byte is driven at a falling edge where ready reads \<open>r0\<close>, which is what the next rising edge
  samples; the sender moves on at the first later falling edge where ready reads high.\<close>

fun neg_byte :: "axis_pins \<Rightarrow> bool \<Rightarrow> bool list \<Rightarrow> (axis_log \<times> bool \<times> bool list) option" where
  "neg_byte p r0 [] = None"
| "neg_byte p r0 (r1 # rs) =
     (if r1 then Some ([(p, r0)], r1, rs)
      else case neg_byte p r1 rs of
             None \<Rightarrow> None | Some (log, r, rs') \<Rightarrow> Some ((p, r0) # log, r, rs'))"

fun neg_bytes :: "(byte \<times> bool) list \<Rightarrow> bool \<Rightarrow> bool list \<Rightarrow> (axis_log \<times> bool \<times> bool list) option" where
  "neg_bytes [] r0 rs = Some ([], r0, rs)"
| "neg_bytes ((b, l) # bs) r0 rs =
     (case neg_byte \<lparr>px_valid = True, px_data = b, px_last = l\<rparr> r0 rs of
        None \<Rightarrow> None
      | Some (log, r, rs') \<Rightarrow>
          (case neg_bytes bs r rs' of
             None \<Rightarrow> None | Some (log', r', rs'') \<Rightarrow> Some (log @ log', r', rs'')))"

text \<open>The first entry of the trace is the falling edge the sender waits for before it drives.\<close>

definition send_negedge_style :: "bytes \<Rightarrow> bool list \<Rightarrow> (axis_log \<times> bool \<times> bool list) option" where
  "send_negedge_style data rs =
     (case rs of [] \<Rightarrow> None | r0 # rs' \<Rightarrow> neg_bytes (last_flags data) r0 rs')"

definition send_axis :: "bytes \<Rightarrow> bool list \<Rightarrow> (axis_log \<times> bool \<times> bool list) option" where
  "send_axis data rs =
     (case rs of [] \<Rightarrow> None
      | r0 # rs' \<Rightarrow>
          neg_bytes (map (\<lambda>(i, b). (b, int i = int (length data) - 1)) (enumerate 0 data)) r0 rs')"

section \<open>saf_send_frame of txpath_bench.py\<close>

record saf_tx =
  sf_k :: nat
  sf_stall :: nat
  sf_pins :: axis_pins
  sf_log :: axis_log

definition saf_byte :: "nat \<Rightarrow> byte" where
  "saf_byte k = word_of_nat (k mod 256)"

text \<open>The bubble before byte \<open>k\<close>: how many cycles valid is low.\<close>

definition saf_bubble :: "nat \<Rightarrow> nat \<Rightarrow> nat \<Rightarrow> nat" where
  "saf_bubble bub plen k = (if bub = 1 then 1 else if bub = 2 \<and> k = plen div 2 then 40 else 0)"

definition saf_stop :: "nat option \<Rightarrow> nat \<Rightarrow> saf_tx \<Rightarrow> bool" where
  "saf_stop watchdog plen s \<longleftrightarrow>
     \<not> (sf_k s < plen \<and> (case watchdog of None \<Rightarrow> True | Some w \<Rightarrow> sf_stall s < w))"

text \<open>One handshake: the pins after it, with the bubble's cycles logged.\<close>

definition saf_taken :: "nat \<Rightarrow> bool \<Rightarrow> nat \<Rightarrow> bool list \<Rightarrow> saf_tx \<Rightarrow> (saf_tx \<times> bool list) option" where
  "saf_taken bub set_last plen rs s =
     (let k = sf_k s + 1; log = sf_log s @ [(sf_pins s, True)] in
      if k = plen
      then Some (s\<lparr>sf_k := k, sf_stall := 0, sf_log := log,
                   sf_pins := (sf_pins s)\<lparr>px_valid := False, px_last := False\<rparr>\<rparr>, rs)
      else
        let n = saf_bubble bub plen k; low = (sf_pins s)\<lparr>px_valid := False\<rparr> in
        if length rs < n then None
        else Some (s\<lparr>sf_k := k, sf_stall := 0,
                     sf_log := log @ map (\<lambda>r. (low, r)) (take n rs),
                     sf_pins := \<lparr>px_valid = True, px_data = saf_byte k,
                                 px_last = (set_last \<and> k = plen - 1)\<rparr>\<rparr>, drop n rs))"

function saf_loop ::
  "nat \<Rightarrow> bool \<Rightarrow> nat \<Rightarrow> nat option \<Rightarrow> bool list \<Rightarrow> saf_tx \<Rightarrow> (saf_tx \<times> bool list) option" where
  "saf_loop bub set_last plen watchdog rs s =
     (if saf_stop watchdog plen s then Some (s, rs)
      else case rs of
        [] \<Rightarrow> None
      | r # rs' \<Rightarrow>
          if r then (case saf_taken bub set_last plen rs' s of
                       None \<Rightarrow> None
                     | Some (s', rs'') \<Rightarrow> saf_loop bub set_last plen watchdog rs'' s')
          else saf_loop bub set_last plen watchdog rs'
                 (s\<lparr>sf_stall := sf_stall s + 1, sf_log := sf_log s @ [(sf_pins s, False)]\<rparr>))"
  by pat_completeness auto
termination
  by (relation "measure (\<lambda>(_, _, _, _, rs, _). length rs)")
    (auto simp: saf_taken_def Let_def split: if_splits)

declare saf_loop.simps [simp del]

definition saf_start :: "nat \<Rightarrow> nat \<Rightarrow> bool \<Rightarrow> saf_tx" where
  "saf_start plen first set_last =
     \<lparr>sf_k = 0, sf_stall = 0,
      sf_pins = \<lparr>px_valid = True, px_data = saf_byte first, px_last = (set_last \<and> plen = 1)\<rparr>,
      sf_log = []\<rparr>"

text \<open>\<open>trailing_idle\<close> drops valid and last once more; the value returned is the number of bytes.\<close>

definition saf_send_frame ::
  "nat \<Rightarrow> nat \<Rightarrow> nat \<Rightarrow> bool \<Rightarrow> nat option \<Rightarrow> bool \<Rightarrow> bool list \<Rightarrow> (nat \<times> saf_tx) option" where
  "saf_send_frame plen first bub set_last watchdog trailing_idle rs =
     (case saf_loop bub set_last plen watchdog rs (saf_start plen first set_last) of
        None \<Rightarrow> None
      | Some (s, rs') \<Rightarrow>
          Some (sf_k s,
            if trailing_idle
            then s\<lparr>sf_pins := (sf_pins s)\<lparr>px_valid := False, px_last := False\<rparr>\<rparr> else s))"

section \<open>axis_sink.py\<close>

record axis_src =
  as_valid :: bool
  as_data :: byte
  as_last :: bool
  as_sof :: bool
  as_terror :: bool

record axis_cap =
  ac_cur :: bytes
  ac_err :: bool
  ac_sof :: bool
  ac_frames :: "sink_frame list"

record axis_sink =
  sk_p_stall :: nat
  sk_max_stall :: int
  sk_stall :: nat
  sk_rng :: rng
  sk_cap :: axis_cap

definition axis_cap_init :: axis_cap where
  "axis_cap_init = \<lparr>ac_cur = [], ac_err = False, ac_sof = False, ac_frames = []\<rparr>"

text \<open>The body of the handshake branch.\<close>

definition sink_capture :: "axis_cap \<Rightarrow> axis_src \<Rightarrow> axis_cap" where
  "sink_capture c b =
     (let c1 = (if as_sof b then c\<lparr>ac_cur := [], ac_err := False, ac_sof := True\<rparr> else c);
          c2 = c1\<lparr>ac_cur := ac_cur c1 @ [as_data b]\<rparr>;
          c3 = (if as_terror b then c2\<lparr>ac_err := True\<rparr> else c2)
      in if as_last b
         then \<lparr>ac_cur = [], ac_err = False, ac_sof = False,
               ac_frames = ac_frames c3 @
                 [\<lparr>ra_payload = ac_cur c3, ra_terror = ac_err c3, sf_sof = ac_sof c3\<rparr>]\<rparr>
         else c3)"

text \<open>The ready value of a cycle and the state after choosing it.  \<open>active\<close> is the sampled
  \<open>active_signal\<close>, \<open>None\<close> when none was given.\<close>

definition sink_ready :: "bool option \<Rightarrow> axis_sink \<Rightarrow> (bool \<times> axis_sink) res" where
  "sink_ready active s =
     (if active = Some False then Inr (True, s\<lparr>sk_stall := 0\<rparr>)
      else if 0 < sk_stall s then Inr (False, s\<lparr>sk_stall := sk_stall s - 1\<rparr>)
      else
        res_bind (rng_and_chance (sk_p_stall s \<noteq> 0) (sk_p_stall s) (sk_rng s)) (\<lambda>(c, r1).
          if c then
            res_bind (rng_randint 1 (sk_max_stall s) r1) (\<lambda>(n, r2).
              Inr (True, s\<lparr>sk_stall := nat n, sk_rng := r2\<rparr>))
          else Inr (True, s\<lparr>sk_rng := r1\<rparr>)))"

definition sink_step :: "bool option \<times> axis_src \<Rightarrow> axis_sink \<Rightarrow> (bool \<times> axis_sink) res" where
  "sink_step smp s =
     (case smp of (active, b) \<Rightarrow>
        res_bind (sink_ready active s) (\<lambda>(rdy, s1).
          Inr (rdy, if as_valid b \<and> rdy then s1\<lparr>sk_cap := sink_capture (sk_cap s1) b\<rparr> else s1)))"

text \<open>A run over a trace: the ready value of every cycle and the final state.\<close>

fun sink_run :: "(bool option \<times> axis_src) list \<Rightarrow> axis_sink \<Rightarrow> (bool list \<times> axis_sink) res" where
  "sink_run [] s = Inr ([], s)"
| "sink_run (x # xs) s =
     res_bind (sink_step x s) (\<lambda>(rdy, s1).
     res_bind (sink_run xs s1) (\<lambda>(rs, s2). Inr (rdy # rs, s2)))"

text \<open>\<open>AxisRx\<close> of \<open>mac_sys_b.py\<close>: with ready tied high every valid falling edge is a beat.\<close>

definition axis_rx_beats :: "axis_src list \<Rightarrow> axis_src list" where
  "axis_rx_beats smps = filter as_valid smps"

section \<open>axil_master.py\<close>

text \<open>A sampled signal: \<open>None\<close> stands for a value with X/Z/U bits, which comes back as a string.\<close>

type_synonym sampled = "nat option"

record axil_pins =
  ax_awaddr :: nat
  ax_awvalid :: bool
  ax_wdata :: nat
  ax_wstrb :: nat
  ax_wvalid :: bool
  ax_bready :: bool
  ax_araddr :: nat
  ax_arvalid :: bool
  ax_rready :: bool

definition axil_idle :: axil_pins where
  "axil_idle = \<lparr>ax_awaddr = 0, ax_awvalid = False, ax_wdata = 0, ax_wstrb = 0, ax_wvalid = False,
     ax_bready = False, ax_araddr = 0, ax_arvalid = False, ax_rready = False\<rparr>"

text \<open>One entry per rising edge: the response valid and data as sampled before it.\<close>

fun wait_valid :: "(sampled \<times> sampled) list \<Rightarrow> (nat \<times> sampled \<times> (sampled \<times> sampled) list) option" where
  "wait_valid [] = None"
| "wait_valid ((v, d) # tr) =
     (if v = Some 1 then Some (1, d, tr)
      else case wait_valid tr of None \<Rightarrow> None | Some (n, got, tr') \<Rightarrow> Some (n + 1, got, tr'))"

definition axil_write_pins :: "nat \<Rightarrow> nat \<Rightarrow> nat \<Rightarrow> axil_pins \<Rightarrow> axil_pins" where
  "axil_write_pins addr data strb p =
     p\<lparr>ax_awaddr := addr, ax_awvalid := True, ax_wdata := data, ax_wstrb := strb,
       ax_wvalid := True, ax_bready := True\<rparr>"

definition axil_read_pins :: "nat \<Rightarrow> axil_pins \<Rightarrow> axil_pins" where
  "axil_read_pins addr p = p\<lparr>ax_araddr := addr, ax_arvalid := True, ax_rready := True\<rparr>"

text \<open>The pins at each rising edge of the call, the pins it leaves, and the rest of the trace.\<close>

definition axil_write ::
  "nat \<Rightarrow> nat \<Rightarrow> nat \<Rightarrow> (sampled \<times> sampled) list \<Rightarrow> axil_pins \<Rightarrow>
   (axil_pins list \<times> axil_pins \<times> (sampled \<times> sampled) list) option" where
  "axil_write addr data strb tr p =
     (let p1 = axil_write_pins addr data strb p in
      case wait_valid tr of
        None \<Rightarrow> None
      | Some (n, _, tr') \<Rightarrow>
          Some (replicate n p1, p1\<lparr>ax_awvalid := False, ax_wvalid := False, ax_bready := False\<rparr>, tr'))"

definition axil_read ::
  "nat \<Rightarrow> (sampled \<times> sampled) list \<Rightarrow> axil_pins \<Rightarrow>
   (sampled \<times> axil_pins list \<times> axil_pins \<times> (sampled \<times> sampled) list) option" where
  "axil_read addr tr p =
     (let p1 = axil_read_pins addr p in
      case wait_valid tr of
        None \<Rightarrow> None
      | Some (n, got, tr') \<Rightarrow>
          Some (got, replicate n p1, p1\<lparr>ax_arvalid := False, ax_rready := False\<rparr>, tr'))"

section \<open>Lemmas: transfers of the drivers\<close>

lemma axis_accept_accepted:
  "axis_accept p rs = Some (log, rs') \<Longrightarrow> px_valid p \<Longrightarrow> accepted log = [(px_data p, px_last p)]"
proof (induction rs arbitrary: log)
  case Nil
  then show ?case by simp
next
  case (Cons r rs)
  then show ?case by (auto simp: accepted_def split: if_splits option.splits)
qed

lemma axis_idle_accepted: "axis_idle d n rs = Some (log, rs') \<Longrightarrow> accepted log = []"
  by (auto simp: axis_idle_def accepted_def filter_empty_conv split: if_splits)

lemma ops_run_accepted: "ops_run ops d rs = Some (log, rs') \<Longrightarrow> accepted log = op_beats ops"
proof (induction ops arbitrary: d rs log rs')
  case Nil
  then show ?case by simp
next
  case (Cons x xs)
  then obtain l1 r1 l2 where x: "op_run x d rs = Some (l1, r1)"
    and xs: "ops_run xs (op_data x d) r1 = Some (l2, rs')" and log: "log = l1 @ l2"
    by (auto split: option.splits)
  have "accepted l1 = op_beats [x]"
    using x axis_accept_accepted axis_idle_accepted
    by (cases x) (fastforce simp: op_run_def)+
  moreover have "op_beats (x # xs) = op_beats [x] @ op_beats xs" by (cases x) simp_all
  ultimately show ?case using Cons.IH [OF xs] log by simp
qed

lemma op_beats_append [simp]: "op_beats (xs @ ys) = op_beats xs @ op_beats ys"
  by (induction xs rule: op_beats.induct) simp_all

lemma op_beats_Beats: "op_beats (map (\<lambda>(b, l). Beat b l) bs) = bs"
  by (induction bs) auto

lemma axis_bubble_beats: "axis_bubble m r = Inr (gap, r') \<Longrightarrow> op_beats gap = []"
  by (auto simp: axis_bubble_def res_simps split: if_splits)

lemma send_bytes_beats: "send_bytes m bs r = Inr (ops, r') \<Longrightarrow> op_beats ops = bs"
proof (induction bs arbitrary: r ops r')
  case Nil
  then show ?case by simp
next
  case (Cons x bs)
  then show ?case by (cases x) (auto simp: res_simps axis_bubble_beats)
qed

lemma send_segments_beats: "send_segments m segs r = Inr (ops, r') \<Longrightarrow> op_beats ops = saf_stream segs"
  by (induction segs arbitrary: r ops r')
    (auto simp: res_simps send_segment_def saf_stream_def dest: send_bytes_beats)

lemma send_all_beats: "send_all m segs r = Inr (ops, r') \<Longrightarrow> op_beats ops = saf_stream segs"
  by (auto simp: send_all_def res_simps send_segments_beats)

lemma axis_bubble_total: "1 \<le> am_max_gap m \<Longrightarrow> returns (axis_bubble m r)"
  unfolding axis_bubble_def
  by (intro rng_bind_total rng_chance_total)
    (auto intro!: rng_bind_total rng_randint_returns)

lemma send_all_total: "1 \<le> am_max_gap m \<Longrightarrow> returns (send_all m segs r)"
proof -
  assume g: "1 \<le> am_max_gap m"
  have b: "returns (send_bytes m bs r)" for bs r
  proof (induction bs arbitrary: r)
    case (Cons x bs)
    then show ?case by (cases x) (auto intro!: rng_bind_total axis_bubble_total g)
  qed simp
  have "returns (send_segments m segs r)" for r
    by (induction segs arbitrary: r) (auto intro!: rng_bind_total b simp: send_segment_def)
  then show ?thesis by (simp add: send_all_def rng_bind_total)
qed

text \<open>Liveness: when ready is high again and again, every driver call returns.\<close>

lemma upt_map_Cons: "k < N \<Longrightarrow> map f [k..<N] = f k # map f [Suc k..<N]"
  by (simp add: upt_conv_Cons)

lemma axis_accept_live:
  "f (k + i) \<Longrightarrow> \<exists>j\<ge>k. \<forall>N\<ge>j. \<exists>log. axis_accept p (map f [k..<N]) = Some (log, map f [j..<N])"
proof (induction i arbitrary: k)
  case 0
  then have "\<forall>N\<ge>Suc k. axis_accept p (map f [k..<N]) = Some ([(p, True)], map f [Suc k..<N])"
    by (auto simp: upt_map_Cons)
  then show ?case by (metis le_SucI order_refl)
next
  case (Suc i)
  show ?case
  proof (cases "f k")
    case True
    then have "\<forall>N\<ge>Suc k. axis_accept p (map f [k..<N]) = Some ([(p, True)], map f [Suc k..<N])"
      by (auto simp: upt_map_Cons)
    then show ?thesis by (metis le_SucI order_refl)
  next
    case False
    obtain j where j: "Suc k \<le> j"
      "\<forall>N\<ge>j. \<exists>log. axis_accept p (map f [Suc k..<N]) = Some (log, map f [j..<N])"
      using Suc.IH [of "Suc k"] Suc.prems by auto
    have "\<exists>log. axis_accept p (map f [k..<N]) = Some (log, map f [j..<N])" if N: "j \<le> N" for N
    proof -
      obtain log where "axis_accept p (map f [Suc k..<N]) = Some (log, map f [j..<N])"
        using j(2) N by blast
      moreover have "k < N" using j(1) N by simp
      ultimately show ?thesis using False by (simp add: upt_map_Cons)
    qed
    then show ?thesis using j(1) by (meson Suc_leD)
  qed
qed

lemma op_run_live:
  assumes inf: "\<forall>k. \<exists>i. f (k + i)"
  shows "\<exists>j\<ge>k. \<forall>N\<ge>j. \<exists>log. op_run x d (map f [k..<N]) = Some (log, map f [j..<N])"
proof (cases x)
  case (Gap n)
  have "\<forall>N\<ge>k + n. \<exists>log. op_run x d (map f [k..<N]) = Some (log, map f [k + n..<N])"
    by (auto simp: Gap op_run_def axis_idle_def drop_map)
  then show ?thesis by (metis le_add1)
next
  case (Beat b l)
  obtain i where "f (k + i)" using inf by blast
  then show ?thesis using axis_accept_live [of f k i] by (simp add: Beat op_run_def)
qed

lemma ops_run_live:
  assumes inf: "\<forall>k. \<exists>i. f (k + i)"
  shows "\<exists>j\<ge>k. \<forall>N\<ge>j. \<exists>log. ops_run ops d (map f [k..<N]) = Some (log, map f [j..<N])"
proof (induction ops arbitrary: d k)
  case Nil
  then show ?case by auto
next
  case (Cons x xs)
  obtain j where j: "k \<le> j" "\<forall>N\<ge>j. \<exists>log. op_run x d (map f [k..<N]) = Some (log, map f [j..<N])"
    using op_run_live [OF inf] by blast
  obtain j' where j': "j \<le> j'"
    "\<forall>N\<ge>j'. \<exists>log. ops_run xs (op_data x d) (map f [j..<N]) = Some (log, map f [j'..<N])"
    using Cons.IH by blast
  have "\<exists>log. ops_run (x # xs) d (map f [k..<N]) = Some (log, map f [j'..<N])" if N: "j' \<le> N" for N
  proof -
    obtain l1 where "op_run x d (map f [k..<N]) = Some (l1, map f [j..<N])"
      using j(2) j'(1) N by (meson order_trans)
    moreover obtain l2 where "ops_run xs (op_data x d) (map f [j..<N]) = Some (l2, map f [j'..<N])"
      using j'(2) N by blast
    ultimately show ?thesis by simp
  qed
  then show ?case using j(1) j'(1) by (meson order_trans)
qed

section \<open>Lemmas: the negedge senders\<close>

lemma neg_byte_ready:
  "neg_byte p True rs = Some (log, r, rs') \<Longrightarrow> px_valid p \<Longrightarrow> accepted log = [(px_data p, px_last p)] \<and> r"
proof -
  have low: "neg_byte p False rs = Some (log, r, rs') \<Longrightarrow> accepted log = [] \<and> r" for rs log r rs'
  proof (induction rs arbitrary: log)
    case Nil
    then show ?case by simp
  next
    case (Cons r1 rs)
    then show ?case by (cases r1) (auto simp: accepted_def split: option.splits)
  qed
  assume *: "neg_byte p True rs = Some (log, r, rs')" "px_valid p"
  show ?thesis
  proof (cases rs)
    case Nil
    with * show ?thesis by simp
  next
    case (Cons r1 rs1)
    show ?thesis
    proof (cases r1)
      case True
      with * Cons show ?thesis by (auto simp: accepted_def)
    next
      case False
      with * Cons obtain log' where "neg_byte p False rs1 = Some (log', r, rs')" "log = (p, True) # log'"
        by (auto split: option.splits)
      with low [OF this(1)] *(2) show ?thesis by (simp add: accepted_def)
    qed
  qed
qed

lemma neg_byte_not_ready: "neg_byte p False rs = Some (log, r, rs') \<Longrightarrow> accepted log = [] \<and> r"
proof (induction rs arbitrary: log)
  case Nil
  then show ?case by simp
next
  case (Cons r1 rs)
  then show ?case by (cases r1) (auto simp: accepted_def split: option.splits)
qed

lemma neg_bytes_ready: "neg_bytes bs True rs = Some (log, r, rs') \<Longrightarrow> accepted log = bs \<and> r"
proof (induction bs arbitrary: rs log)
  case Nil
  then show ?case by simp
next
  case (Cons x bs)
  obtain b l where x: "x = (b, l)" by (cases x)
  from Cons.prems x obtain l1 r1 rs1 l2 where
    1: "neg_byte \<lparr>px_valid = True, px_data = b, px_last = l\<rparr> True rs = Some (l1, r1, rs1)"
    and 2: "neg_bytes bs r1 rs1 = Some (l2, r, rs')" and log: "log = l1 @ l2"
    by (auto split: option.splits)
  from neg_byte_ready [OF 1] have a1: "accepted l1 = [(b, l)]" and "r1 = True" by simp_all
  with 2 have "neg_bytes bs True rs1 = Some (l2, r, rs')" by simp
  from Cons.IH [OF this] a1 log x show ?case by simp
qed

lemma neg_bytes_not_ready:
  "neg_bytes (x # bs) False rs = Some (log, r, rs') \<Longrightarrow> accepted log = bs"
proof -
  obtain b l where x: "x = (b, l)" by (cases x)
  assume "neg_bytes (x # bs) False rs = Some (log, r, rs')"
  then obtain l1 r1 rs1 l2 where
    1: "neg_byte \<lparr>px_valid = True, px_data = b, px_last = l\<rparr> False rs = Some (l1, r1, rs1)"
    and 2: "neg_bytes bs r1 rs1 = Some (l2, r, rs')" and log: "log = l1 @ l2"
    by (auto simp: x split: option.splits)
  from neg_byte_not_ready [OF 1] have a1: "accepted l1 = []" and "r1 = True" by simp_all
  with 2 have "neg_bytes bs True rs1 = Some (l2, r, rs')" by simp
  from neg_bytes_ready [OF this] a1 log show ?thesis by simp
qed

lemma last_flags_map: "map fst (last_flags data) = data"
  by (simp add: last_flags_def comp_def split_beta enumerate_eq_zip)

section \<open>Lemmas: saf_send_frame\<close>

definition saf_pattern :: "nat \<Rightarrow> nat \<Rightarrow> bool \<Rightarrow> nat \<Rightarrow> byte \<times> bool" where
  "saf_pattern plen first set_last i =
     (saf_byte (if i = 0 then first else i), set_last \<and> i = plen - 1)"

definition saf_inv :: "nat \<Rightarrow> nat \<Rightarrow> bool \<Rightarrow> saf_tx \<Rightarrow> bool" where
  "saf_inv plen first set_last s \<longleftrightarrow>
     sf_k s \<le> plen \<and> accepted (sf_log s) = map (saf_pattern plen first set_last) [0..<sf_k s] \<and>
     (sf_k s < plen \<longrightarrow> px_valid (sf_pins s) \<and>
        (px_data (sf_pins s), px_last (sf_pins s)) = saf_pattern plen first set_last (sf_k s))"

lemma saf_taken_inv:
  assumes inv: "saf_inv plen first set_last s" and k: "sf_k s < plen"
    and t: "saf_taken bub set_last plen rs s = Some (s', rs')"
  shows "saf_inv plen first set_last s'"
proof -
  have low: "accepted (map (Pair ((sf_pins s)\<lparr>px_valid := False\<rparr>)) xs) = []" for xs
    by (induction xs) simp_all
  have one: "accepted (sf_log s @ [(sf_pins s, True)]) = map (saf_pattern plen first set_last) [0..<Suc (sf_k s)]"
    using inv k by (auto simp: saf_inv_def accepted_def)
  show ?thesis
  proof (cases "Suc (sf_k s) = plen")
    case True
    then have "s' = s\<lparr>sf_k := Suc (sf_k s), sf_stall := 0, sf_log := sf_log s @ [(sf_pins s, True)],
        sf_pins := (sf_pins s)\<lparr>px_valid := False, px_last := False\<rparr>\<rparr>"
      using t by (simp add: saf_taken_def Let_def)
    then show ?thesis using one True by (simp add: saf_inv_def)
  next
    case False
    then obtain xs where "s' = s\<lparr>sf_k := Suc (sf_k s), sf_stall := 0,
        sf_log := sf_log s @ [(sf_pins s, True)] @ map (\<lambda>r. ((sf_pins s)\<lparr>px_valid := False\<rparr>, r)) xs,
        sf_pins := \<lparr>px_valid = True, px_data = saf_byte (Suc (sf_k s)),
                    px_last = (set_last \<and> Suc (sf_k s) = plen - 1)\<rparr>\<rparr>"
      using t by (auto simp: saf_taken_def Let_def split: if_splits)
    moreover have "Suc (sf_k s) < plen" using k False by simp
    ultimately show ?thesis using one low [of xs] by (simp add: saf_inv_def saf_pattern_def)
  qed
qed

lemma saf_loop_inv:
  "saf_loop bub set_last plen wd rs s = Some (s', rs') \<Longrightarrow> saf_inv plen first set_last s \<Longrightarrow>
     saf_inv plen first set_last s' \<and> saf_stop wd plen s'"
proof (induction bub set_last plen wd rs s arbitrary: s' rs' rule: saf_loop.induct)
  case (1 bub set_last plen wd rs s)
  show ?case
  proof (cases "saf_stop wd plen s")
    case True
    with "1.prems" show ?thesis by (subst (asm) saf_loop.simps) simp
  next
    case run: False
    then have k: "sf_k s < plen" by (simp add: saf_stop_def)
    show ?thesis
    proof (cases rs)
      case Nil
      with run "1.prems" show ?thesis by (subst (asm) saf_loop.simps) simp
    next
      case (Cons r rs1)
      show ?thesis
      proof (cases r)
        case True
        with run Cons "1.prems"(1) obtain s1 rs2 where
          t: "saf_taken bub set_last plen rs1 s = Some (s1, rs2)"
          and l: "saf_loop bub set_last plen wd rs2 s1 = Some (s', rs')"
          by (subst (asm) saf_loop.simps) (auto split: option.splits)
        show ?thesis
          using "1.IH"(1) [OF run Cons True t refl l] saf_taken_inv [OF "1.prems"(2) k t] by blast
      next
        case False
        let ?s = "s\<lparr>sf_stall := sf_stall s + 1, sf_log := sf_log s @ [(sf_pins s, False)]\<rparr>"
        have l: "saf_loop bub set_last plen wd rs1 ?s = Some (s', rs')"
          using run Cons False "1.prems"(1) by (subst (asm) saf_loop.simps) simp
        have "saf_inv plen first set_last ?s"
          using "1.prems"(2) by (simp add: saf_inv_def accepted_def)
        then show ?thesis using "1.IH"(2) [OF run Cons False l] by blast
      qed
    qed
  qed
qed

section \<open>Lemmas: the sink\<close>

definition taken_beats :: "(bool option \<times> axis_src) list \<Rightarrow> bool list \<Rightarrow> axis_src list" where
  "taken_beats tr rs = map snd (map fst (filter (\<lambda>((a, b), r). as_valid b \<and> r) (zip tr rs)))"

lemma sink_ready_cap: "sink_ready active s = Inr (rdy, s') \<Longrightarrow> sk_cap s' = sk_cap s"
  by (auto simp: sink_ready_def res_simps split: if_splits)

lemma sink_run_cap:
  "sink_run tr s = Inr (rs, s') \<Longrightarrow>
     length rs = length tr \<and> sk_cap s' = foldl sink_capture (sk_cap s) (taken_beats tr rs)"
proof (induction tr arbitrary: s rs)
  case Nil
  then show ?case by (simp add: taken_beats_def)
next
  case (Cons x tr)
  obtain a b where x: "x = (a, b)" by (cases x)
  from Cons.prems x obtain rdy s1 s2 rs' where
    r: "sink_ready a s = Inr (rdy, s1)"
    and s2: "s2 = (if as_valid b \<and> rdy then s1\<lparr>sk_cap := sink_capture (sk_cap s1) b\<rparr> else s1)"
    and rest: "sink_run tr s2 = Inr (rs', s')" and rs: "rs = rdy # rs'"
    by (auto simp: sink_step_def res_simps)
  have c: "sk_cap s1 = sk_cap s" using sink_ready_cap [OF r] .
  show ?case using Cons.IH [OF rest] s2 c rs x by (auto simp: taken_beats_def)
qed

lemma sink_ready_stall:
  assumes "sink_ready active s = Inr (rdy, s')" "int (sk_stall s) \<le> sk_max_stall s" "0 \<le> sk_max_stall s"
  shows "int (sk_stall s') \<le> sk_max_stall s' \<and> sk_max_stall s' = sk_max_stall s \<and>
    (\<not> rdy \<longrightarrow> sk_stall s = sk_stall s' + 1 \<and> active \<noteq> Some False)"
  using assms
  by (auto simp: sink_ready_def res_simps split: if_splits dest!: rng_randint_bounds)

lemma sink_run_stall:
  "sink_run tr s = Inr (rs, s') \<Longrightarrow> int (sk_stall s) \<le> sk_max_stall s \<Longrightarrow> 0 \<le> sk_max_stall s \<Longrightarrow>
   (\<forall>r\<in>set (take n rs). \<not> r) \<Longrightarrow> n \<le> length tr \<Longrightarrow> n \<le> sk_stall s"
proof (induction tr arbitrary: s rs n)
  case Nil
  then show ?case by simp
next
  case (Cons x tr)
  obtain a b where x: "x = (a, b)" by (cases x)
  from Cons.prems(1) x obtain rdy s1 s2 rs' where
    r: "sink_ready a s = Inr (rdy, s1)"
    and s2: "s2 = (if as_valid b \<and> rdy then s1\<lparr>sk_cap := sink_capture (sk_cap s1) b\<rparr> else s1)"
    and rest: "sink_run tr s2 = Inr (rs', s')" and rs: "rs = rdy # rs'"
    by (auto simp: sink_step_def res_simps)
  note st = sink_ready_stall [OF r Cons.prems(2,3)]
  show ?case
  proof (cases n)
    case 0
    then show ?thesis by simp
  next
    case (Suc m)
    then have "\<not> rdy" "\<forall>r\<in>set (take m rs'). \<not> r" "m \<le> length tr"
      using Cons.prems(4,5) rs by auto
    moreover have "int (sk_stall s2) \<le> sk_max_stall s2" "0 \<le> sk_max_stall s2" "sk_stall s2 = sk_stall s1"
      using st s2 Cons.prems(3) by auto
    ultimately have "m \<le> sk_stall s1" using Cons.IH [OF rest] by metis
    then show ?thesis using st \<open>\<not> rdy\<close> Suc by simp
  qed
qed

lemma sink_run_total:
  assumes "1 \<le> sk_max_stall s"
  shows "returns (sink_run tr s)"
  using assms
proof (induction tr arbitrary: s)
  case Nil
  then show ?case by simp
next
  case (Cons x tr)
  obtain a b where x: "x = (a, b)" by (cases x)
  have sr: "returns (sink_ready a s)"
    using Cons.prems
    by (auto simp: sink_ready_def intro!: returns_bind rng_chance_total rng_randint_returns split: prod.split)
  then obtain rdy s1 where r: "sink_ready a s = Inr (rdy, s1)" by (auto simp: returns_iff)
  have m: "sk_max_stall s1 = sk_max_stall s"
    using r by (auto simp: sink_ready_def res_simps split: if_splits)
  show ?case using Cons m by (auto simp: x sink_step_def r intro!: returns_bind split: prod.split)
qed

text \<open>A frame as a well-behaved source sends it: start of frame on the first beat, last on the
  last, an error flag per beat.\<close>

definition frame_beats :: "(byte \<times> bool) list \<Rightarrow> axis_src list" where
  "frame_beats f = map (\<lambda>(i, b, e). \<lparr>as_valid = True, as_data = b, as_last = (Suc i = length f),
       as_sof = (i = 0), as_terror = e\<rparr>) (enumerate 0 f)"

definition sink_frame_of :: "(byte \<times> bool) list \<Rightarrow> sink_frame" where
  "sink_frame_of f = \<lparr>ra_payload = map fst f, ra_terror = list_ex snd f, sf_sof = True\<rparr>"

lemma sink_capture_tail:
  "k + length f = n \<Longrightarrow> f \<noteq> [] \<Longrightarrow> 0 < k \<Longrightarrow>
   foldl sink_capture c (map (\<lambda>(i, b, e). \<lparr>as_valid = True, as_data = b, as_last = (Suc i = n),
       as_sof = (i = 0), as_terror = e\<rparr>) (enumerate k f)) =
   \<lparr>ac_cur = [], ac_err = False, ac_sof = False, ac_frames = ac_frames c @
      [\<lparr>ra_payload = ac_cur c @ map fst f, ra_terror = (ac_err c \<or> list_ex snd f), sf_sof = ac_sof c\<rparr>]\<rparr>"
proof (induction f arbitrary: k c)
  case Nil
  then show ?case by simp
next
  case (Cons x f)
  obtain b e where x: "x = (b, e)" by (cases x)
  show ?case
  proof (cases f)
    case Nil
    then show ?thesis using Cons.prems by (simp add: x sink_capture_def Let_def)
  next
    case (Cons y f')
    then show ?thesis
      using Cons.IH [of "Suc k"] Cons.prems by (simp add: x sink_capture_def Let_def)
  qed
qed

lemma sink_capture_frame:
  assumes "f \<noteq> []"
  shows "foldl sink_capture c (frame_beats f) =
    \<lparr>ac_cur = [], ac_err = False, ac_sof = False, ac_frames = ac_frames c @ [sink_frame_of f]\<rparr>"
proof -
  obtain b e f' where f: "f = (b, e) # f'" using assms by (cases f) auto
  show ?thesis
  proof (cases f')
    case Nil
    then show ?thesis by (simp add: f frame_beats_def sink_capture_def Let_def sink_frame_of_def)
  next
    case (Cons y g)
    then show ?thesis
      using sink_capture_tail [of 1 f' "length f"]
      by (simp add: f frame_beats_def sink_capture_def Let_def sink_frame_of_def)
  qed
qed

interpretation sink_link: framed_link sink_capture ac_frames "\<lambda>_. True" "\<lambda>_. False"
  frame_beats sink_frame_of "\<lambda>f. f \<noteq> []"
  by unfold_locales (simp_all add: sink_capture_frame)

lemma sink_capture_frames:
  assumes "\<forall>f\<in>set fs. f \<noteq> []"
  shows "ac_frames (foldl sink_capture c (concat (map frame_beats fs))) = ac_frames c @ map sink_frame_of fs"
proof -
  have "concat (map frame_beats fs) = sink_link.play (map (Pair []) fs)"
    by (induction fs) simp_all
  then show ?thesis using sink_link.many_frames [where s = c and gfs = "map (Pair []) fs"] assms by (simp add: comp_def)
qed

section \<open>Lemmas: AXI4-Lite\<close>

lemma wait_valid_Some:
  "wait_valid tr = Some (n, got, tr') \<longleftrightarrow>
     0 < n \<and> n \<le> length tr \<and> tr ! (n - 1) = (Some 1, got) \<and> tr' = drop n tr \<and>
     (\<forall>i<n - 1. fst (tr ! i) \<noteq> Some 1)"
proof (induction tr arbitrary: n got tr')
  case Nil
  then show ?case by auto
next
  case (Cons x tr)
  obtain v d where x: "x = (v, d)" by (cases x)
  show ?case
  proof (cases "v = Some 1")
    case True
    consider "n = 0" | "n = 1" | m where "n = Suc (Suc m)" by (metis One_nat_def not0_implies_Suc)
    then show ?thesis using True by cases (auto simp: x)
  next
    case False
    show ?thesis
    proof (cases n)
      case 0
      then show ?thesis using False by (auto simp: x split: option.split)
    next
      case (Suc m)
      have "wait_valid (x # tr) = Some (n, got, tr') \<longleftrightarrow> wait_valid tr = Some (m, got, tr')"
        using False Suc by (auto simp: x split: option.split)
      also have "\<dots> \<longleftrightarrow> 0 < m \<and> m \<le> length tr \<and> tr ! (m - 1) = (Some 1, got) \<and> tr' = drop m tr \<and>
          (\<forall>i<m - 1. fst (tr ! i) \<noteq> Some 1)" by (rule Cons.IH)
      also have "\<dots> \<longleftrightarrow> 0 < n \<and> n \<le> length (x # tr) \<and> (x # tr) ! (n - 1) = (Some 1, got) \<and>
          tr' = drop n (x # tr) \<and> (\<forall>i<n - 1. fst ((x # tr) ! i) \<noteq> Some 1)"
        using False Suc by (cases m) (auto simp: x nth_Cons')
      finally show ?thesis .
    qed
  qed
qed

lemma sink_run_split:
  "sink_run tr s = Inr (rs, s') \<Longrightarrow> int (sk_stall s) \<le> sk_max_stall s \<Longrightarrow> 0 \<le> sk_max_stall s \<Longrightarrow>
   \<exists>s1. sink_run (drop i tr) s1 = Inr (drop i rs, s') \<and> int (sk_stall s1) \<le> sk_max_stall s1 \<and>
     sk_max_stall s1 = sk_max_stall s"
proof (induction tr arbitrary: s rs i)
  case Nil
  then show ?case by auto
next
  case (Cons x tr)
  show ?case
  proof (cases i)
    case 0
    then show ?thesis using Cons.prems by auto
  next
    case (Suc j)
    obtain a b where x: "x = (a, b)" by (cases x)
    from Cons.prems(1) x obtain rdy s1 s2 rs' where
      r: "sink_ready a s = Inr (rdy, s1)"
      and s2: "s2 = (if as_valid b \<and> rdy then s1\<lparr>sk_cap := sink_capture (sk_cap s1) b\<rparr> else s1)"
      and rest: "sink_run tr s2 = Inr (rs', s')" and rs: "rs = rdy # rs'"
      by (auto simp: sink_step_def res_simps)
    have "int (sk_stall s2) \<le> sk_max_stall s2" "sk_max_stall s2 = sk_max_stall s"
      using sink_ready_stall [OF r Cons.prems(2,3)] s2 by auto
    then show ?thesis using Cons.IH [OF rest, of j] Cons.prems(3) rs Suc by simp
  qed
qed

lemma sink_window:
  assumes run: "sink_run tr s = Inr (rs, s')" and st: "int (sk_stall s) \<le> sk_max_stall s"
    and w: "\<forall>j<n. \<not> rs ! (i + j)" "i + n \<le> length tr"
  shows "int n \<le> sk_max_stall s"
proof -
  have m: "0 \<le> sk_max_stall s" using st by linarith
  obtain s1 where s1: "sink_run (drop i tr) s1 = Inr (drop i rs, s')"
    "int (sk_stall s1) \<le> sk_max_stall s1" "sk_max_stall s1 = sk_max_stall s"
    using sink_run_split [OF run st m] by blast
  have len: "length rs = length tr" using sink_run_cap [OF run] by blast
  have "\<forall>r\<in>set (take n (drop i rs)). \<not> r"
    using w len by (auto simp: in_set_conv_nth)
  then have "n \<le> sk_stall s1" using sink_run_stall [OF s1(1,2)] s1(3) m w(2) by simp
  then show ?thesis using s1(2,3) by linarith
qed

section \<open>Properties\<close>

text \<open>C16: With random bubbles and any backpressure that is released again and again, the AXIS driver
  returns, and it has transferred exactly the byte stream of its segments: every byte once, in
  order, with \<open>tlast\<close> on the last byte of each terminated segment.\<close>
theorem axis_driver_delivers:
  assumes "1 \<le> am_max_gap m" and "\<forall>k. \<exists>i. ready (k + i)"
  shows "\<exists>ops r' n. send_all m segs r = Inr (ops, r') \<and>
    (\<forall>N\<ge>n. \<exists>log rest. ops_run ops 0 (map ready [0..<N]) = Some (log, rest) \<and>
       accepted log = saf_stream segs)"
proof -
  obtain ops r' where ops: "send_all m segs r = Inr (ops, r')"
    using send_all_total [OF assms(1)] by (fastforce simp: returns_iff)
  obtain j where "\<forall>N\<ge>j. \<exists>log. ops_run ops 0 (map ready [0..<N]) = Some (log, map ready [j..<N])"
    using ops_run_live [OF assms(2), of 0 ops 0] by blast
  then have "\<forall>N\<ge>j. \<exists>log rest. ops_run ops 0 (map ready [0..<N]) = Some (log, rest) \<and>
      accepted log = saf_stream segs"
    using ops_run_accepted send_all_beats [OF ops] by metis
  with ops show ?thesis by blast
qed

theorem axis_driver_delivers_witness:
  "\<exists>ops r' log rest N. send_all \<lparr>am_p_bubble = 2251799813685248, am_max_gap = 6\<rparr>
       [\<lparr>seg_data = [1, 2], seg_last = True\<rparr>] [0, 3] = Inr (ops, r') \<and>
     ops_run ops 0 (map (\<lambda>k. k mod 2 = 0) [0..<N]) = Some (log, rest) \<and>
     accepted log = [(1, False), (2, True)]"
proof -
  have g: "1 \<le> am_max_gap \<lparr>am_p_bubble = 2251799813685248, am_max_gap = 6\<rparr>" by simp
  have ev: "\<forall>k :: nat. \<exists>i. (k + i) mod 2 = 0"
  proof
    fix k :: nat
    have "(k + k) mod 2 = 0" by simp
    then show "\<exists>i. (k + i) mod 2 = 0" by (rule exI [of _ k])
  qed
  obtain ops r' n where o: "send_all \<lparr>am_p_bubble = 2251799813685248, am_max_gap = 6\<rparr>
       [\<lparr>seg_data = [1, 2], seg_last = True\<rparr>] [0, 3] = Inr (ops, r')"
    and a: "\<forall>N\<ge>n. \<exists>log rest. ops_run ops 0 (map (\<lambda>k. k mod 2 = 0) [0..<N]) = Some (log, rest) \<and>
       accepted log = saf_stream [\<lparr>seg_data = [1, 2], seg_last = True\<rparr>]"
    using axis_driver_delivers [OF g ev, where segs = "[\<lparr>seg_data = [1, 2], seg_last = True\<rparr>]" and r = "[0, 3]"]
    by (elim exE conjE) (rule that)
  have "saf_stream [\<lparr>seg_data = [1, 2], seg_last = True\<rparr>] = [(1, False), (2, True)]"
    by (simp add: saf_stream_def seg_stream_def)
  moreover obtain log rest where "ops_run ops 0 (map (\<lambda>k. k mod 2 = 0) [0..<n]) = Some (log, rest)"
    "accepted log = saf_stream [\<lparr>seg_data = [1, 2], seg_last = True\<rparr>]" using a by blast
  ultimately show ?thesis using o by (intro exI conjI) simp_all
qed

text \<open>C19: The sender that reads ready at the falling edge transfers its bytes exactly once, in order,
  when ready is high at the falling edge where it starts; when ready is low there, its first byte
  is never transferred and all others are.\<close>
theorem negedge_sender_transfers:
  assumes "send_negedge_style data (r0 # rs) = Some (log, r, rest)" and "data \<noteq> []"
  shows "accepted log = (if r0 then last_flags data else tl (last_flags data))"
proof -
  have n: "neg_bytes (last_flags data) r0 rs = Some (log, r, rest)"
    using assms(1) by (simp add: send_negedge_style_def)
  obtain x bs where x: "last_flags data = x # bs"
    using assms(2) last_flags_map [of data] by (cases "last_flags data") auto
  show ?thesis
    using neg_bytes_ready [of "last_flags data" rs] neg_bytes_not_ready [of x bs rs] n
    by (cases r0) (auto simp: x)
qed

theorem negedge_sender_transfers_witness:
  "\<exists>log rest. send_negedge_style [7, 8] [False, True, True] = Some (log, True, rest) \<and>
     accepted log = [(8, True)]"
proof -
  have "send_negedge_style [7, 8] (False # [True, True]) =
      Some ([(\<lparr>px_valid = True, px_data = 7, px_last = False\<rparr>, False),
             (\<lparr>px_valid = True, px_data = 8, px_last = True\<rparr>, True)], True, [])"
    by (simp add: send_negedge_style_def last_flags_def)
  from negedge_sender_transfers [OF this] this show ?thesis by (simp add: last_flags_def)
qed

text \<open>When \<open>saf_send_frame\<close> returns, the bytes it counts are the ones transferred, in order, and
  without a watchdog all of them were sent, \<open>tlast\<close> on the final one when asked for.\<close>
theorem saf_send_frame_transfers:
  assumes "saf_send_frame plen first bub set_last watchdog trailing rs = Some (k, s)"
  shows "k \<le> plen \<and> accepted (sf_log s) = map (saf_pattern plen first set_last) [0..<k] \<and>
    (watchdog = None \<longrightarrow> k = plen)"
proof -
  obtain s1 rs' where l: "saf_loop bub set_last plen watchdog rs (saf_start plen first set_last) = Some (s1, rs')"
    and k: "k = sf_k s1" and s: "sf_log s = sf_log s1"
    using assms by (auto simp: saf_send_frame_def split: option.splits if_splits)
  have "saf_inv plen first set_last (saf_start plen first set_last)"
    by (auto simp: saf_inv_def saf_start_def saf_pattern_def)
  from saf_loop_inv [OF l this] show ?thesis
    by (auto simp: saf_inv_def saf_stop_def k s)
qed

theorem saf_send_frame_transfers_witness:
  "\<exists>s. saf_send_frame 2 9 0 True None False [True, False, True] = Some (2, s) \<and>
     accepted (sf_log s) = [(9, False), (1, True)]"
proof -
  have r: "saf_loop 0 True 2 None [True, False, True] (saf_start 2 9 True) =
      Some (\<lparr>sf_k = 2, sf_stall = 0, sf_pins = \<lparr>px_valid = False, px_data = 1, px_last = False\<rparr>,
        sf_log = [(\<lparr>px_valid = True, px_data = 9, px_last = False\<rparr>, True),
          (\<lparr>px_valid = True, px_data = 1, px_last = True\<rparr>, False),
          (\<lparr>px_valid = True, px_data = 1, px_last = True\<rparr>, True)]\<rparr>, [])"
    by (simp add: saf_loop.simps saf_stop_def saf_start_def saf_taken_def saf_bubble_def saf_byte_def)
  then have e: "saf_send_frame 2 9 0 True None False [True, False, True] =
      Some (2, \<lparr>sf_k = 2, sf_stall = 0, sf_pins = \<lparr>px_valid = False, px_data = 1, px_last = False\<rparr>,
        sf_log = [(\<lparr>px_valid = True, px_data = 9, px_last = False\<rparr>, True),
          (\<lparr>px_valid = True, px_data = 1, px_last = True\<rparr>, False),
          (\<lparr>px_valid = True, px_data = 1, px_last = True\<rparr>, True)]\<rparr>)"
    by (simp add: saf_send_frame_def)
  from saf_send_frame_transfers [OF e] e show ?thesis
    by (auto simp: saf_pattern_def saf_byte_def numeral_2_eq_2)
qed

text \<open>Whatever its random stalls, the sink captures exactly the frames that were transferred:
  when the beats taken are those of a list of well-formed frames, these frames are recorded in
  order, each with its payload, the disjunction of its error flags and its start of frame.\<close>
theorem axis_sink_captures:
  assumes "sink_run tr s = Inr (rs, s')" and "sk_cap s = axis_cap_init"
    and "taken_beats tr rs = concat (map frame_beats fs)" and "\<forall>f\<in>set fs. f \<noteq> []"
  shows "ac_frames (sk_cap s') = map sink_frame_of fs"
  using sink_run_cap [OF assms(1)] sink_capture_frames [OF assms(4), of axis_cap_init] assms(2,3)
  by (simp add: axis_cap_init_def)

theorem axis_sink_captures_witness:
  "\<exists>rs s'. sink_run (map (Pair None) (frame_beats [(1, False), (2, True)]))
       \<lparr>sk_p_stall = 0, sk_max_stall = 5, sk_stall = 0, sk_rng = [], sk_cap = axis_cap_init\<rparr> = Inr (rs, s') \<and>
     ac_frames (sk_cap s') = [\<lparr>ra_payload = [1, 2], ra_terror = True, sf_sof = True\<rparr>]"
proof -
  let ?s = "\<lparr>sk_p_stall = 0, sk_max_stall = 5, sk_stall = 0, sk_rng = [], sk_cap = axis_cap_init\<rparr>"
  obtain s' where r: "sink_run (map (Pair None) (frame_beats [(1, False), (2, True)])) ?s = Inr ([True, True], s')"
    by (simp add: frame_beats_def sink_step_def sink_ready_def rng_and_chance_def)
  have "taken_beats (map (Pair None) (frame_beats [(1, False), (2, True)])) [True, True] =
      concat (map frame_beats [[(1, False), (2, True)]])"
    by (simp add: frame_beats_def taken_beats_def)
  from axis_sink_captures [OF r _ this] r show ?thesis by (simp add: sink_frame_of_def)
qed

text \<open>The sink's backpressure is bounded: it never holds ready low for more than \<open>max_stall\<close>
  consecutive cycles, anywhere in a run.\<close>
theorem axis_sink_stall_bound:
  assumes "sink_run tr s = Inr (rs, s')" and "int (sk_stall s) \<le> sk_max_stall s"
    and "\<forall>j<n. \<not> rs ! (i + j)" and "i + n \<le> length tr"
  shows "int n \<le> sk_max_stall s"
  by (rule sink_window [OF assms])

theorem axis_sink_stall_bound_witness:
  "int 2 \<le> sk_max_stall \<lparr>sk_p_stall = 1, sk_max_stall = 2, sk_stall = 2, sk_rng = [], sk_cap = axis_cap_init\<rparr>"
proof -
  let ?s = "\<lparr>sk_p_stall = 1, sk_max_stall = 2, sk_stall = 2, sk_rng = [], sk_cap = axis_cap_init\<rparr>"
  let ?b = "\<lparr>as_valid = False, as_data = 0, as_last = False, as_sof = False, as_terror = False\<rparr>"
  have "sink_run [(None, ?b), (None, ?b)] ?s = Inr ([False, False], ?s\<lparr>sk_stall := 0\<rparr>)"
    by (simp add: sink_step_def sink_ready_def)
  from axis_sink_stall_bound [OF this, of 2 0] show ?thesis
    by (simp add: less_Suc_eq_0_disj numeral_2_eq_2)
qed

text \<open>An AXI4-Lite read returns the data sampled at the first edge where the response is valid,
  holds address, valid and ready unchanged up to and including that edge, and lowers valid and
  ready after it.\<close>
theorem axil_read_handshake:
  "axil_read addr tr p = Some (got, held, p', tr') \<longleftrightarrow>
     (\<exists>n. held = replicate n (axil_read_pins addr p) \<and> 0 < n \<and> n \<le> length tr \<and>
        tr ! (n - 1) = (Some 1, got) \<and> filter (\<lambda>i. fst (tr ! i) = Some 1) [0..<n - 1] = [] \<and>
        tr' = drop n tr \<and>
        p' = (axil_read_pins addr p)\<lparr>ax_arvalid := False, ax_rready := False\<rparr>)"
proof -
  have "axil_read addr tr p = Some (got, held, p', tr') \<longleftrightarrow>
      (\<exists>n. wait_valid tr = Some (n, got, tr') \<and> held = replicate n (axil_read_pins addr p) \<and>
        p' = (axil_read_pins addr p)\<lparr>ax_arvalid := False, ax_rready := False\<rparr>)"
    by (auto simp: axil_read_def Let_def split: option.splits)
  then show ?thesis by (auto simp: wait_valid_Some filter_empty_conv)
qed

end
