(* ===== verification/Emz_Bench.thy ===== *)
theory Emz_Bench
  imports Emz_Axis
begin

text \<open>
  The plumbing shared by the ports of the Verilog benches: \<open>bench.py\<close> (check bookkeeping),
  \<open>mac_sys_a.py\<close>, \<open>mac_sys_b.py\<close>, \<open>mii_bench.py\<close>, \<open>rgmii_tb.py\<close>, \<open>txpath_bench.py\<close>,
  \<open>rx_loop.py\<close> and \<open>hier.py\<close>.  Multi-bit signals are \<open>sampled\<close> values (\<open>None\<close> when a bit is not
  0 or 1), one-bit signals nine-valued logic.  Coroutines become step functions on the settled
  values of the time steps they look at.
\<close>

section \<open>Reading signals\<close>

datatype logic = L0 | L1 | LX | LZ | LU | LW | LL | LH | LD

datatype level3 = Lo | Hi | Unk

definition mii_level :: "logic \<Rightarrow> level3" where
  "mii_level v = (if v = L0 then Lo else if v = L1 then Hi else Unk)"

definition mii_is1 :: "logic \<Rightarrow> bool" where "mii_is1 v \<longleftrightarrow> mii_level v = Hi"
definition mii_is0 :: "logic \<Rightarrow> bool" where "mii_is0 v \<longleftrightarrow> mii_level v = Lo"

definition rgmii_level :: "logic \<Rightarrow> level3" where
  "rgmii_level v = (if v = L0 \<or> v = LL then Lo else if v = L1 \<or> v = LH then Hi else Unk)"

definition rgmii_is1 :: "logic \<Rightarrow> bool" where "rgmii_is1 v \<longleftrightarrow> rgmii_level v = Hi"

definition sys_is1 :: "logic \<Rightarrow> bool" where "sys_is1 v \<longleftrightarrow> v = L1"
definition loop_is1 :: "logic \<Rightarrow> bool" where "loop_is1 v \<longleftrightarrow> v = L1"

text \<open>A read that is an integer, or the string form of a value with unknown bits.\<close>

datatype py_value = IntV nat | StrV string

definition sys_bit :: "sampled \<Rightarrow> nat" where
  "sys_bit v = (case v of Some n \<Rightarrow> n | None \<Rightarrow> 0)"

definition sys_val :: "string \<Rightarrow> sampled \<Rightarrow> py_value" where
  "sys_val txt v = (case v of Some n \<Rightarrow> IntV n | None \<Rightarrow> StrV txt)"

definition axil_sample :: "string \<Rightarrow> sampled \<Rightarrow> py_value" where
  "axil_sample txt v = (case v of Some n \<Rightarrow> IntV n | None \<Rightarrow> StrV txt)"

definition tx_val :: "sampled \<Rightarrow> sampled" where "tx_val v = v"
definition tx_is1 :: "sampled \<Rightarrow> bool" where "tx_is1 v \<longleftrightarrow> tx_val v = Some 1"
definition byte_or_none :: "sampled \<Rightarrow> sampled" where "byte_or_none v = v"
definition as_int :: "sampled \<Rightarrow> sampled" where "as_int v = v"
definition sample_pre :: "sampled list \<Rightarrow> nat list" where "sample_pre vs = map sys_bit vs"

definition hdr_byte :: "nat \<Rightarrow> byte" where
  "hdr_byte k =
     (if k < 6 then 0xFF
      else if k < 12 then (if k = 6 then 0x02 else if k = 11 then 0x01 else 0x00)
      else if k = 12 then 0x08 else 0x00)"

section \<open>Constant inputs\<close>

definition tie_off :: "(string \<times> nat) list" where
  "tie_off =
     [(''mii_tx_clk'', 0), (''mii_rxd'', 0), (''mii_rx_dv'', 0), (''mii_rx_er'', 0),
      (''mii_rx_clk'', 0), (''mii_col'', 0), (''mii_crs'', 0), (''clk_25'', 0), (''clk_2_5'', 0),
      (''mdio_i'', 1), (''m_axis_tready'', 1)]"

text \<open>The writes of \<open>eth_mac_bench_start\<close> with their times in ns; each clock is \<open>(half, start)\<close>.\<close>

definition bench_start_writes :: "nat \<Rightarrow> (nat \<times> string \<times> nat) list" where
  "bench_start_writes our_mac =
     [(0, ''rst_n'', 0), (0, ''mii_rxd'', 0), (0, ''mii_rx_dv'', 0), (0, ''mii_rx_er'', 0),
      (0, ''mii_col'', 0), (0, ''mii_crs'', 0), (0, ''our_mac'', our_mac), (0, ''promisc'', 0),
      (0, ''s_axis_tkeep'', 1), (0, ''m_axis_tready'', 1), (0, ''s_axis_tdata'', 0),
      (0, ''s_axis_tvalid'', 0), (0, ''s_axis_tlast'', 0), (100, ''rst_n'', 1)]"

definition bench_start_clocks :: "(string \<times> nat) list" where
  "bench_start_clocks = [(''clk'', 5), (''mii_tx_clk'', 20), (''mii_rx_clk'', 20)]"

text \<open>\<open>bench_clock\<close>: low at \<open>delay\<close>, edge \<open>i\<close> (from 0, rising first) half a period after the last.\<close>

definition bench_clock_edge :: "nat \<Rightarrow> nat \<Rightarrow> nat \<Rightarrow> nat \<times> bool" where
  "bench_clock_edge half_ns delay_ns i = (delay_ns + (i + 1) * half_ns, even i)"

definition rgmii_clock_edge :: "bool \<Rightarrow> bool \<Rightarrow> nat \<Rightarrow> nat \<times> bool" where
  "rgmii_clock_edge lagging shifted i =
     ((if lagging \<and> shifted then 2 else 0) + (i + 1) * (8 div 2), even i)"

section \<open>Checks\<close>

record checks =
  ck_passed :: nat
  ck_failed :: "string list"

definition checks_init :: checks where
  "checks_init = \<lparr>ck_passed = 0, ck_failed = []\<rparr>"

definition check_msg :: "string \<Rightarrow> string \<Rightarrow> string" where
  "check_msg name detail = (if detail \<noteq> [] then name @ '' ('' @ detail @ '')'' else name)"

definition check_one :: "string \<Rightarrow> bool \<Rightarrow> string \<Rightarrow> checks \<Rightarrow> bool \<times> checks" where
  "check_one name cond detail c =
     (if cond then (True, c\<lparr>ck_passed := ck_passed c + 1\<rparr>)
      else (False, c\<lparr>ck_failed := ck_failed c @ [check_msg name detail]\<rparr>))"

text \<open>\<open>_fmt\<close>: the format \<open>08x\<close> of an integer.\<close>

definition hex_digit :: "nat \<Rightarrow> char" where
  "hex_digit d = char_of (if d < 10 then 48 + d else 87 + d)"

fun hex_nat :: "nat \<Rightarrow> string" where
  "hex_nat n = (if n < 16 then [hex_digit n] else hex_nat (n div 16) @ [hex_digit (n mod 16)])"

definition bench_fmt :: "py_value \<Rightarrow> string" where
  "bench_fmt x =
     (case x of
        IntV n \<Rightarrow> ''0x'' @ replicate (8 - length (hex_nat n)) (CHR ''0'') @ hex_nat n
      | StrV t \<Rightarrow> t)"

definition check_eq :: "string \<Rightarrow> py_value \<Rightarrow> py_value \<Rightarrow> checks \<Rightarrow> bool \<times> checks" where
  "check_eq name actual expd c =
     check_one name (actual = expd) (bench_fmt actual @ '', expected '' @ bench_fmt expd) c"

definition check_finish :: "checks \<Rightarrow> nat res" where
  "check_finish c =
     res_bind (res_guard (ck_failed c = []) (AssertionError ''check(s) failed'')) (\<lambda>_. Inr (ck_passed c))"

fun check_all :: "(string \<times> bool \<times> string) list \<Rightarrow> checks \<Rightarrow> checks" where
  "check_all [] c = c"
| "check_all ((name, cond, detail) # cs) c = check_all cs (snd (check_one name cond detail c))"

text \<open>\<open>_version\<close>: the three fields found in \<open>version.vh\<close>.\<close>

definition version_value :: "nat option \<Rightarrow> nat option \<Rightarrow> nat option \<Rightarrow> nat res" where
  "version_value major minor ident =
     (case (major, minor, ident) of
        (Some ma, Some mi, Some i) \<Rightarrow> Inr (push_bit 24 ma OR push_bit 16 mi OR i)
      | _ \<Rightarrow> Inl (AssertionError ''EMZ_VERSION not found''))"

section \<open>Edges and delays\<close>

text \<open>One value change seen by \<open>watch_edges\<close>: which callbacks run, and the level kept.\<close>

datatype edge_call = OnPos | OnNeg

definition watch_edge_step :: "level3 \<times> edge_call list \<Rightarrow> logic \<Rightarrow> level3 \<times> edge_call list" where
  "watch_edge_step st v =
     (case st of (prev, calls) \<Rightarrow>
        let new = rgmii_level v in
        if new = prev then (prev, calls)
        else if prev = Lo \<or> new = Hi then (new, calls @ [OnPos])
        else (new, calls @ [OnNeg]))"

definition watch_edges :: "logic \<Rightarrow> logic list \<Rightarrow> edge_call list" where
  "watch_edges v0 vs = snd (foldl watch_edge_step (rgmii_level v0, []) vs)"

definition watch_changes :: "logic list \<Rightarrow> nat" where
  "watch_changes vs = length vs"

text \<open>\<open>SettledWatch\<close>: the settled values at the ends of the time steps with an edge.\<close>

definition settled_step :: "'v \<times> (nat \<times> 'v) list \<Rightarrow> nat \<times> 'v \<Rightarrow> 'v \<times> (nat \<times> 'v) list" where
  "settled_step st tv =
     (case st of (prev, calls) \<Rightarrow> if snd tv \<noteq> prev then (snd tv, calls @ [tv]) else (prev, calls))"

definition settled_watch :: "'v \<Rightarrow> (nat \<times> 'v) list \<Rightarrow> (nat \<times> 'v) list" where
  "settled_watch v0 tvs = snd (foldl settled_step (v0, []) tvs)"

text \<open>\<open>InertialDelay\<close>: the change numbered \<open>gen\<close> is applied \<open>d\<close> later unless a newer one has come.
  At the time an older change is due its timer runs before the settled values are looked at, so a
  newer change at exactly that time does not cancel it.\<close>

definition inertial_writes :: "nat \<Rightarrow> (nat \<times> 'v) list \<Rightarrow> (nat \<times> 'v) list" where
  "inertial_writes d changes =
     map (\<lambda>(i, t, v). (t + d, v))
       (filter (\<lambda>(i, t, v). \<forall>(t', v') \<in> set (drop (Suc i) changes). t + d \<le> t')
          (enumerate 0 changes))"

text \<open>The simulator steps of a ns, for a precision of \<open>10 ^ precision\<close> seconds that is no coarser.\<close>

definition steps_per_ns :: "int \<Rightarrow> nat" where
  "steps_per_ns precision = 10 ^ nat (- 9 - precision)"

text \<open>\<open>clock_edges\<close>: edge \<open>n\<close> is at \<open>round (n * p / q)\<close> steps, ties to even.\<close>

definition round_half_even :: "nat \<Rightarrow> nat \<Rightarrow> nat" where
  "round_half_even a q =
     (let d = a div q; m = a mod q in
      if 2 * m < q then d else if q < 2 * m then d + 1 else if even d then d else d + 1)"

definition clock_edge_time :: "nat \<Rightarrow> nat \<Rightarrow> nat \<Rightarrow> nat" where
  "clock_edge_time p q n = round_half_even (n * p) q"

text \<open>The waits between the edges, as passed to \<open>Timer\<close>, and the level after edge \<open>n\<close>.\<close>

definition clock_wait :: "nat \<Rightarrow> nat \<Rightarrow> nat \<Rightarrow> int" where
  "clock_wait p q n = int (clock_edge_time p q (n + 1)) - int (clock_edge_time p q n)"

definition clock_level :: "bool \<Rightarrow> nat \<Rightarrow> bool" where
  "clock_level start_high n = (if even n then start_high else \<not> start_high)"

section \<open>Wire captures\<close>

record bridge_cap =
  bc_buf :: "sampled list"
  bc_prev :: bool
  bc_nib_sel :: bool
  bc_low :: sampled
  bc_idx :: nat
  bc_ends :: "(nat \<times> sampled list) list"

definition bridge_init :: "nat \<Rightarrow> bridge_cap" where
  "bridge_init n = \<lparr>bc_buf = replicate n None, bc_prev = False, bc_nib_sel = False,
     bc_low = Some 0, bc_idx = 0, bc_ends = []\<rparr>"

definition join_nibbles :: "sampled \<Rightarrow> sampled \<Rightarrow> sampled" where
  "join_nibbles hi lo =
     (case (hi, lo) of (Some h, Some l) \<Rightarrow> Some (push_bit 4 h OR l) | _ \<Rightarrow> None)"

text \<open>One sample: \<open>(rst_n, mii_tx_en, mii_txd)\<close>, the first two as \<open>is1\<close> reads them.\<close>

definition bridge_step :: "nat \<Rightarrow> bridge_cap \<Rightarrow> bool \<times> bool \<times> sampled \<Rightarrow> bridge_cap" where
  "bridge_step n c smp =
     (case smp of (rst_n, en, txd) \<Rightarrow>
        if \<not> rst_n then c\<lparr>bc_prev := False, bc_nib_sel := False, bc_low := Some 0, bc_idx := 0\<rparr>
        else
          let prev = bc_prev c; nib_sel = bc_nib_sel c; idx = bc_idx c;
              c1 = c\<lparr>bc_prev := en\<rparr>;
              c2 = (if \<not> prev \<and> en then c1\<lparr>bc_nib_sel := False, bc_idx := 0\<rparr> else c1);
              c3 = (if en then
                      (if \<not> nib_sel then c2\<lparr>bc_low := txd, bc_nib_sel := True\<rparr>
                       else
                         (let c4 = (if idx < n
                                    then c2\<lparr>bc_buf := (bc_buf c2)[idx := join_nibbles txd (bc_low c2)]\<rparr>
                                    else c2)
                          in c4\<lparr>bc_idx := idx + 1, bc_nib_sel := False\<rparr>))
                    else c2)
          in if prev \<and> \<not> en then c3\<lparr>bc_ends := bc_ends c3 @ [(idx, bc_buf c3)]\<rparr> else c3)"

record nibble_cap =
  nc_en_d :: bool
  nc_nsel :: bool
  nc_lown :: sampled
  nc_widx :: nat
  nc_bytes :: "(nat \<times> sampled) list"
  nc_frames :: "nat list"

definition nibble_init :: nibble_cap where
  "nibble_init = \<lparr>nc_en_d = False, nc_nsel = False, nc_lown = Some 0, nc_widx = 0,
     nc_bytes = [], nc_frames = []\<rparr>"

definition nibble_step :: "nibble_cap \<Rightarrow> bool \<times> bool \<times> sampled \<Rightarrow> nibble_cap" where
  "nibble_step c smp =
     (case smp of (rst_n, en, txd) \<Rightarrow>
        if \<not> rst_n then c\<lparr>nc_en_d := False, nc_nsel := False, nc_widx := 0\<rparr>
        else
          let en_d = nc_en_d c; c1 = c\<lparr>nc_en_d := en\<rparr> in
          if en then
            (if \<not> nc_nsel c1 then c1\<lparr>nc_lown := txd, nc_nsel := True\<rparr>
             else c1\<lparr>nc_bytes := nc_bytes c1 @ [(nc_widx c1, join_nibbles txd (nc_lown c1))],
                     nc_widx := nc_widx c1 + 1, nc_nsel := False\<rparr>)
          else if en_d then c1\<lparr>nc_frames := nc_frames c1 @ [nc_widx c1], nc_widx := 0, nc_nsel := False\<rparr>
          else c1)"

section \<open>The falling-edge loopback of rx_loop.py\<close>

record 'v neg_loop =
  nl_last :: "'v option list"
  nl_lb :: "'v list"
  nl_samples :: nat

definition neg_loop_init :: "'v \<Rightarrow> 'v neg_loop" where
  "neg_loop_init z = \<lparr>nl_last = [None, None, None], nl_lb = [z, z, z], nl_samples = 0\<rparr>"

text \<open>One falling edge with the source values and \<open>rst_n\<close>; a write happens only on a change.\<close>

definition neg_loop_step :: "'v neg_loop \<Rightarrow> 'v list \<times> logic \<Rightarrow> 'v neg_loop" where
  "neg_loop_step s smp =
     (case smp of (srcs, rst_n) \<Rightarrow>
        s\<lparr>nl_lb := map (\<lambda>(v, l, lb). if Some v \<noteq> l then v else lb) (zip srcs (zip (nl_last s) (nl_lb s))),
          nl_last := map (\<lambda>(v, l). if Some v \<noteq> l then Some v else l) (zip srcs (nl_last s)),
          nl_samples := nl_samples s + (if rst_n = L1 then 1 else 0)\<rparr>)"

text \<open>\<open>mdio_loop\<close> of \<open>mac_sys_a.py\<close>.\<close>

definition mdio_loop :: "logic \<Rightarrow> logic list \<Rightarrow> logic list" where
  "mdio_loop v0 changes = v0 # changes"

section \<open>hier.py\<close>

text \<open>A design handle is a tree of attributes.\<close>

datatype handle = Handle "(string \<times> handle) list"

fun getattr :: "handle \<Rightarrow> string \<Rightarrow> handle res" where
  "getattr (Handle as) part =
     (case map_of as part of Some h \<Rightarrow> Inr h | None \<Rightarrow> Inl (AttributeError part))"

fun walk :: "handle \<Rightarrow> string list \<Rightarrow> handle res" where
  "walk h [] = Inr h"
| "walk h (part # path) = res_bind (getattr h part) (\<lambda>h'. walk h' path)"

text \<open>\<open>hier\<close>: the handle at the first path that exists; every path is given split at its dots.\<close>

fun hier :: "handle \<Rightarrow> string list list \<Rightarrow> handle res" where
  "hier dut [] = Inl (AttributeError ''no such signal in this design'')"
| "hier dut (path # paths) =
     (case walk dut path of
        Inr h \<Rightarrow> Inr h
      | Inl (AttributeError e) \<Rightarrow> hier dut paths
      | Inl e \<Rightarrow> Inl e)"

section \<open>Lemmas\<close>

lemma check_all_counts:
  "ck_passed (check_all cs c) = ck_passed c + length (filter (\<lambda>(_, b, _). b) cs) \<and>
   length (ck_failed (check_all cs c)) = length (ck_failed c) + length (filter (\<lambda>(_, b, _). \<not> b) cs)"
  by (induction cs c rule: check_all.induct) (auto simp: check_one_def)

text \<open>A rendered integer reads back, so different integers are reported differently.\<close>

definition hex_value :: "char \<Rightarrow> nat" where
  "hex_value c = (let k = of_char c in if k < 58 then k - 48 else k - 87)"

definition read_hex :: "string \<Rightarrow> nat" where
  "read_hex = foldl (\<lambda>a c. 16 * a + hex_value c) 0"

lemma hex_value_digit: "d < 16 \<Longrightarrow> hex_value (hex_digit d) = d"
  by (auto simp: hex_value_def hex_digit_def Let_def)

lemma read_hex_nat: "read_hex (hex_nat n) = n"
proof (induction n rule: hex_nat.induct)
  case (1 n)
  show ?case
  proof (cases "n < 16")
    case True
    then show ?thesis by (simp add: read_hex_def hex_value_digit)
  next
    case False
    then show ?thesis
      using 1 by (subst hex_nat.simps) (simp add: read_hex_def hex_value_digit)
  qed
qed

lemma read_hex_zeros: "read_hex (replicate k (CHR ''0'') @ t) = read_hex t"
  by (induction k) (simp_all add: read_hex_def hex_value_def)

lemma bench_fmt_inj: "bench_fmt (IntV m) = bench_fmt (IntV n) \<longleftrightarrow> m = n"
proof
  assume "bench_fmt (IntV m) = bench_fmt (IntV n)"
  then have "read_hex (drop 2 (bench_fmt (IntV m))) = read_hex (drop 2 (bench_fmt (IntV n)))" by simp
  then show "m = n" by (simp add: bench_fmt_def read_hex_zeros read_hex_nat del: hex_nat.simps)
qed simp

lemma round_half_even_bound:
  assumes "0 < q"
  shows "2 * (q * round_half_even a q) \<le> 2 * a + q \<and> 2 * a \<le> 2 * (q * round_half_even a q) + q"
proof -
  have a: "a = q * (a div q) + a mod q" by simp
  have m: "a mod q < q" using assms by simp
  have e: "q * (a div q + 1) = q * (a div q) + q" by simp
  have "(round_half_even a q = a div q \<and> 2 * (a mod q) \<le> q) \<or>
      (round_half_even a q = a div q + 1 \<and> q \<le> 2 * (a mod q))"
    unfolding round_half_even_def Let_def
    by (cases "2 * (a mod q)" q rule: linorder_cases) simp_all
  then consider "round_half_even a q = a div q" "2 * (a mod q) \<le> q"
    | "round_half_even a q = a div q + 1" "q \<le> 2 * (a mod q)" by blast
  then show ?thesis
  proof cases
    case 1
    obtain D M where D: "q * (a div q) = D" "a mod q = M" by blast
    show ?thesis using a m 1(2) unfolding 1(1) D by linarith
  next
    case 2
    obtain D M where D: "q * (a div q) = D" "a mod q = M" by blast
    show ?thesis using a m 2(2) unfolding 2(1) e D by presburger
  qed
qed

lemma clock_edge_bound:
  "0 < q \<Longrightarrow> \<bar>2 * (int q * int (clock_edge_time p q n)) - 2 * (int n * int p)\<bar> \<le> int q"
proof -
  assume q: "0 < q"
  from round_half_even_bound [OF q, of "n * p"]
  have "2 * (q * clock_edge_time p q n) \<le> 2 * (n * p) + q" "2 * (n * p) \<le> 2 * (q * clock_edge_time p q n) + q"
    by (simp_all add: clock_edge_time_def)
  then have "int (2 * (q * clock_edge_time p q n)) \<le> int (2 * (n * p) + q)"
    "int (2 * (n * p)) \<le> int (2 * (q * clock_edge_time p q n) + q)" by (simp_all only: of_nat_le_iff)
  then show ?thesis by simp
qed

lemma clock_wait_sum: "(\<Sum>i<n. clock_wait p q i) = int (clock_edge_time p q n) - int (clock_edge_time p q 0)"
  by (induction n) (simp_all add: clock_wait_def)

lemma neg_loop_step_lb:
  assumes "length srcs = length (nl_last s)" "length (nl_lb s) = length (nl_last s)"
    "\<forall>i<length (nl_last s). nl_last s ! i = None \<or> nl_last s ! i = Some (nl_lb s ! i)"
  shows "nl_lb (neg_loop_step s (srcs, rst)) = srcs \<and> nl_last (neg_loop_step s (srcs, rst)) = map Some srcs"
proof -
  have "map (\<lambda>(v, l, lb). if Some v \<noteq> l then v else lb) (zip srcs (zip (nl_last s) (nl_lb s))) = srcs"
    using assms by (intro nth_equalityI) (auto split: if_splits)
  moreover have "map (\<lambda>(v, l). if Some v \<noteq> l then Some v else l) (zip srcs (nl_last s)) = map Some srcs"
    using assms(1) by (intro nth_equalityI) auto
  ultimately show ?thesis by (simp add: neg_loop_step_def)
qed

lemma nibble_run_bytes:
  assumes "\<not> nc_nsel c"
  shows "foldl nibble_step c (concat (map (\<lambda>b. [(True, True, Some (b mod 16)), (True, True, Some (b div 16))]) bs)) =
    c\<lparr>nc_en_d := (if bs = [] then nc_en_d c else True),
      nc_lown := (if bs = [] then nc_lown c else Some (last bs mod 16)),
      nc_bytes := nc_bytes c @ map (\<lambda>(i, b). (i, Some b)) (enumerate (nc_widx c) bs),
      nc_widx := nc_widx c + length bs\<rparr>"
  using assms
proof (induction bs arbitrary: c)
  case Nil
  then show ?case by simp
next
  case (Cons b bs)
  have j: "join_nibbles (Some (b div 16)) (Some (b mod 16)) = Some b"
  proof -
    have "push_bit 4 (b div 16) OR (b mod 16) = b"
    proof (rule bit_eqI)
      fix i
      have "b mod 16 = take_bit 4 b" "b div 16 = drop_bit 4 b"
        by (simp_all add: take_bit_eq_mod drop_bit_eq_div)
      then show "bit (push_bit 4 (b div 16) OR (b mod 16)) i = bit b i"
        by (auto simp: bit_or_iff bit_push_bit_iff bit_take_bit_iff bit_drop_bit_eq not_less)
    qed
    then show ?thesis by (simp add: join_nibbles_def)
  qed
  let ?c1 = "nibble_step (nibble_step c (True, True, Some (b mod 16))) (True, True, Some (b div 16))"
  have c1: "?c1 = c\<lparr>nc_en_d := True, nc_lown := Some (b mod 16),
      nc_bytes := nc_bytes c @ [(nc_widx c, Some b)], nc_widx := nc_widx c + 1\<rparr>"
    using Cons.prems j by (simp add: nibble_step_def Let_def)
  have "\<not> nc_nsel ?c1" using c1 Cons.prems by simp
  then show ?case using Cons.IH [of ?c1] c1 by simp
qed

lemma inertial_all:
  assumes "sorted_wrt (\<lambda>a b. fst a + d \<le> fst b) changes"
  shows "inertial_writes d changes = map (\<lambda>(t, v). (t + d, v)) changes"
proof -
  have "\<forall>x\<in>set (enumerate 0 changes). (case x of (i, t, v) \<Rightarrow>
      \<forall>(t', v') \<in> set (drop (Suc i) changes). t + d \<le> t')"
  proof
    fix x
    assume "x \<in> set (enumerate 0 changes)"
    then obtain i where i: "i < length changes" "x = (i, changes ! i)"
      by (auto simp: in_set_enumerate_eq)
    show "case x of (i, t, v) \<Rightarrow> \<forall>(t', v') \<in> set (drop (Suc i) changes). t + d \<le> t'"
      using assms i by (auto simp: sorted_wrt_iff_nth_less in_set_conv_nth split: prod.splits)
        (metis add.commute add_Suc_right fst_conv less_add_Suc1 less_diff_conv)
  qed
  then have "filter (\<lambda>(i, t, v). \<forall>(t', v') \<in> set (drop (Suc i) changes). t + d \<le> t') (enumerate 0 changes) =
      enumerate 0 changes"
    by (subst filter_id_conv) blast
  moreover have "map (\<lambda>(i, t, v). (t + d, v)) (enumerate k xs) = map (\<lambda>(t, v). (t + d, v)) xs" for k xs
    by (induction xs arbitrary: k) auto
  ultimately show ?thesis by (simp add: inertial_writes_def)
qed

lemma hier_first:
  "hier dut (pre @ path # rest) = Inr h"
  if "walk dut path = Inr h" "\<forall>p\<in>set pre. \<exists>e. walk dut p = Inl (AttributeError e)"
  using that by (induction pre) auto

section \<open>Properties\<close>

text \<open>A test finishes without an assertion exactly when every check held, and it then reports as
  many passed checks as were made.\<close>
theorem checks_finish_iff:
  "check_finish (check_all cs checks_init) = Inr n \<longleftrightarrow>
     filter (\<lambda>(_, b, _). \<not> b) cs = [] \<and> n = length cs"
proof -
  have "filter (\<lambda>(_, b, _). \<not> b) cs = [] \<Longrightarrow> length (filter (\<lambda>(_, b, _). b) cs) = length cs"
    by (induction cs) (auto split: if_splits)
  then show ?thesis
    using check_all_counts [of cs checks_init]
    by (auto simp: check_finish_def res_simps checks_init_def)
qed

text \<open>The clock with a fractional half period never drifts: edge \<open>n\<close> is within half a simulator
  step of \<open>n * p / q\<close>, and the waits add up to its time exactly.\<close>
theorem clock_edges_no_drift:
  assumes "0 < q"
  shows "\<bar>2 * (int q * int (clock_edge_time p q n)) - 2 * (int n * int p)\<bar> \<le> int q \<and>
    (\<Sum>i<n. clock_wait p q i) = int (clock_edge_time p q n)"
proof -
  have "clock_edge_time p q 0 = 0" using assms by (simp add: clock_edge_time_def round_half_even_def)
  then show ?thesis using clock_edge_bound [OF assms] clock_wait_sum [of p q n] by simp
qed

theorem clock_edges_no_drift_witness:
  "\<bar>2 * (int 10 * int (clock_edge_time 40004 10 7)) - 2 * (int 7 * int 40004)\<bar> \<le> int 10"
  using clock_edges_no_drift [of 10 40004 7] by simp

text \<open>The nibble capture reassembles a frame sent low nibble first: every byte with its index, and
  one frame end with the number of bytes.\<close>
theorem nibble_capture_frame:
  assumes "bs \<noteq> []" and "\<not> nc_nsel c" and "nc_widx c = 0"
  shows "let c' = foldl nibble_step c
      (concat (map (\<lambda>b. [(True, True, Some (b mod 16)), (True, True, Some (b div 16))]) bs) @ [(True, False, txd)])
    in nc_bytes c' = nc_bytes c @ map (\<lambda>(i, b). (i, Some b)) (enumerate 0 bs) \<and>
       nc_frames c' = nc_frames c @ [length bs] \<and> nc_widx c' = 0 \<and> \<not> nc_nsel c'"
  using nibble_run_bytes [OF assms(2), of bs] assms
  by (simp add: Let_def nibble_step_def)

theorem nibble_capture_frame_witness:
  "nc_frames (foldl nibble_step nibble_init
     (concat (map (\<lambda>b. [(True, True, Some (b mod 16)), (True, True, Some (b div 16))]) [0xD5, 0x12]) @
      [(True, False, None)])) = [2]"
  using nibble_capture_frame [of "[0xD5, 0x12]" nibble_init None] by (simp add: Let_def nibble_init_def)

end
