(* ===== verification/Emz_Csum.thy ===== *)
theory Emz_Csum
  imports Emz_Rng
begin

text \<open>
  The Internet-checksum reference of \<open>sim/cocotb/lib/csum.py\<close> (lines 34-97): the folded
  ones'-complement sum, the checksum, the walk over IPv4 options and the generator of option
  lists.  Integers are unbounded as in Python; the folding loop and the option walk are recursive
  functions with termination proofs.
\<close>

section \<open>Ones'-complement sum\<close>

fun word_sum :: "bytes \<Rightarrow> nat" where
  "word_sum (a # b # bs) = (push_bit 8 (unat a) OR unat b) + word_sum bs"
| "word_sum _ = 0"

lemma mask16_nat: "(s :: nat) AND 65535 = s mod 65536"
proof -
  have "(65535 :: nat) = mask 16" by (simp add: mask_eq_exp_minus_1)
  then show ?thesis by (simp only: flip: take_bit_eq_mask) (simp add: take_bit_eq_mod)
qed

lemma drop16_nat: "drop_bit 16 (s :: nat) = s div 65536"
  by (simp add: drop_bit_eq_div)

function fold16 :: "nat \<Rightarrow> nat" where
  "fold16 s = (if drop_bit 16 s \<noteq> 0 then fold16 ((s AND 0xFFFF) + drop_bit 16 s) else s)"
  by pat_completeness auto
termination
proof (relation "measure id")
  fix s :: nat
  assume "drop_bit 16 s \<noteq> 0"
  then have "0 < s div 65536" by (simp add: drop16_nat)
  then have "s mod 65536 + s div 65536 < s"
    using div_mult_mod_eq [of s 65536] by linarith
  then show "((s AND 65535) + drop_bit 16 s, s) \<in> measure id"
    by (simp add: mask16_nat drop16_nat)
qed simp

declare fold16.simps [simp del]

definition ones_sum :: "bytes \<Rightarrow> nat" where
  "ones_sum data =
     fold16 (word_sum (if length data mod 2 \<noteq> 0 then data @ [0] else data))"

text \<open>\<open>(~s) & 0xFFFF\<close> on Python integers.\<close>

definition csum :: "bytes \<Rightarrow> nat" where
  "csum data = nat (NOT (int (ones_sum data)) AND 0xFFFF)"

section \<open>IPv4 options\<close>

definition LSRR :: byte where "LSRR = 0x83"
definition SSRR :: byte where "SSRR = 0x89"

function opts_walk :: "bytes \<Rightarrow> nat \<Rightarrow> bool" where
  "opts_walk opts i =
     (if i < length opts then
        (let t = opts ! i in
         if t = 0 then False
         else if t = 1 then opts_walk opts (i + 1)
         else if t = LSRR \<or> t = SSRR then True
         else if length opts \<le> i + 1 then False
         else (let n = unat (opts ! (i + 1)) in
               if n < 2 then True else opts_walk opts (i + n)))
      else False)"
  by pat_completeness auto
termination
  by (relation "measure (\<lambda>(opts, i). length opts - i)") auto

declare opts_walk.simps [simp del]

definition ip4_opts_skip :: "bytes \<Rightarrow> bool" where
  "ip4_opts_skip opts = opts_walk opts 0"

datatype opt_kind = NopK | EolK | TlvK | SrrK | BadK

text \<open>One turn of the loop of \<open>random_opts\<close> with \<open>room\<close> bytes left: the bytes it appends.\<close>

definition random_opt :: "nat \<Rightarrow> rng \<Rightarrow> (bytes \<times> rng) res" where
  "random_opt room r =
     (case rng_choices [NopK, EolK, TlvK, SrrK, BadK] [30, 10, 40, 10, 3] r of (k, r1) \<Rightarrow>
        if k = NopK \<or> room < 2 then Inr ([1], r1)
        else if k = EolK then
          (case rng_bytes (room - 1) r1 of (bs, r2) \<Rightarrow> Inr (0 # bs, r2))
        else if k = BadK then
          (case rng_choice [7, 68, 130] r1 of (t, r2) \<Rightarrow>
             rng_bind (rng_nat 0 1 r2) (\<lambda>n r3. Inr ([t, word_of_nat n], r3)))
        else
          rng_bind (rng_nat 2 (min room 11) r1) (\<lambda>ln r2.
            case rng_choice (if k = SrrK then [LSRR, SSRR] else [7, 68, 130, 148]) r2 of (t, r3) \<Rightarrow>
            case rng_bytes (ln - 2) r3 of (bs, r4) \<Rightarrow> Inr ([t, word_of_nat ln] @ bs, r4)))"

lemma random_opt_length:
  assumes "random_opt room r = Inr (bs, r')" "0 < room"
  shows "1 \<le> length bs \<and> length bs \<le> room"
proof -
  obtain k r1 where k: "rng_choices [NopK, EolK, TlvK, SrrK, BadK] [30, 10, 40, 10, 3] r = (k, r1)"
    by fastforce
  show ?thesis
  proof (cases "k = NopK \<or> room < 2")
    case True
    with assms k show ?thesis by (auto simp: random_opt_def)
  next
    case False
    with assms k show ?thesis
      by (auto simp: random_opt_def res_simps split: if_splits prod.splits
          dest!: rng_bytes_length rng_nat_bounds)
  qed
qed

function random_opts_loop :: "nat \<Rightarrow> bytes \<Rightarrow> rng \<Rightarrow> (bytes \<times> rng) res" where
  "random_opts_loop n out r =
     (if length out < n then
        (case random_opt (n - length out) r of
           Inl e \<Rightarrow> Inl e
         | Inr (bs, r') \<Rightarrow> random_opts_loop n (out @ bs) r')
      else Inr (out, r))"
  by pat_completeness auto
termination
  by (relation "measure (\<lambda>(n, out, r). n - length out)") (auto dest: random_opt_length)

declare random_opts_loop.simps [simp del]

text \<open>\<open>n\<close> may be negative (a header shorter than 20 bytes): the loop does not run and
  \<open>out[:n]\<close> is empty.\<close>

definition random_opts :: "rng \<Rightarrow> int \<Rightarrow> bytes res" where
  "random_opts r n =
     res_bind (random_opts_loop (nat n) [] r) (\<lambda>(out, r'). Inr (slice_upto out n))"

section \<open>Lemmas\<close>

lemma byte_pair: "push_bit 8 (unat (a :: byte)) OR unat (b :: byte) = 256 * unat a + unat b"
proof -
  have "push_bit 8 (unat a) AND unat b = 0"
    by (rule bit_eqI)
      (auto simp: bit_and_iff bit_push_bit_iff bit_unsigned_iff dest: bit_imp_le_length)
  then show ?thesis by (simp add: push_bit_eq_mult flip: disjunctive_add_eq_or)
qed

lemma word_sum_Cons2 [simp]: "word_sum (a # b # bs) = 256 * unat a + unat b + word_sum bs"
  by (simp add: byte_pair)

declare word_sum.simps(1) [simp del]

lemma word_sum_append: "even (length xs) \<Longrightarrow> word_sum (xs @ ys) = word_sum xs + word_sum ys"
  by (induction xs rule: word_sum.induct) auto

lemma fold16_bound: "fold16 s < 65536"
  by (induction s rule: fold16.induct)
    (subst fold16.simps, auto simp: drop16_nat div_eq_0_iff)

lemma fold16_step_mod: "(s mod 65536 + s div 65536) mod 65535 = s mod (65535 :: nat)"
proof -
  have "s = 65535 * (s div 65536) + (s mod 65536 + s div 65536)"
    using div_mult_mod_eq [of s 65536] by linarith
  then show ?thesis by (metis mod_mult_self4)
qed

lemma fold16_mod: "fold16 s mod 65535 = s mod 65535"
proof (induction s rule: fold16.induct)
  case (1 s)
  then show ?case
    by (subst fold16.simps) (auto simp: mask16_nat drop16_nat fold16_step_mod)
qed

lemma fold16_0_iff: "fold16 s = 0 \<longleftrightarrow> s = 0"
proof (induction s rule: fold16.induct)
  case (1 s)
  show ?case
  proof (cases "drop_bit 16 s = 0")
    case True
    then show ?thesis by (subst fold16.simps) simp
  next
    case False
    then have "s div 65536 \<noteq> 0" "s \<noteq> 0" by (auto simp: drop16_nat)
    then show ?thesis using 1 False by (subst fold16.simps) (simp add: mask16_nat drop16_nat)
  qed
qed

lemma fold16_FFFF_iff: "fold16 s = 65535 \<longleftrightarrow> 0 < s \<and> s mod 65535 = 0"
proof -
  have m: "x < 65536 \<Longrightarrow> x = 65535 \<longleftrightarrow> x \<noteq> 0 \<and> x mod 65535 = 0" for x :: nat
  proof -
    assume "x < 65536"
    then consider "x = 65535" | "x < 65535" by linarith
    then show ?thesis by cases auto
  qed
  show ?thesis
    unfolding m [OF fold16_bound] fold16_mod fold16_0_iff by (auto intro: gr0I)
qed

definition even_pad :: "bytes \<Rightarrow> bytes" where
  "even_pad d = (if odd (length d) then d @ [0] else d)"

lemma ones_sum_even_pad: "ones_sum d = fold16 (word_sum (even_pad d))"
  by (simp add: ones_sum_def even_pad_def odd_iff_mod_2_eq_one)

lemma ones_sum_bound: "ones_sum d < 65536"
  by (simp add: ones_sum_def fold16_bound)

lemma csum_eq: "csum d = 65535 - ones_sum d"
proof -
  have "int (ones_sum d) < 65536" using ones_sum_bound [of d] by simp
  moreover have "NOT (int (ones_sum d)) AND 65535 = (- int (ones_sum d) - 1) mod 65536"
  proof -
    have "(65535 :: int) = mask 16" by (simp add: mask_eq_exp_minus_1)
    then show ?thesis
      by (simp only: flip: take_bit_eq_mask) (simp add: take_bit_eq_mod not_int_def)
  qed
  moreover have "(- int (ones_sum d) - 1) mod 65536 = 65535 - int (ones_sum d)"
  proof -
    have "(- int (ones_sum d) - 1) mod 65536 = (65535 - int (ones_sum d) - 65536) mod 65536"
      by (rule arg_cong) simp
    also have "\<dots> = (65535 - int (ones_sum d)) mod 65536" by (simp only: minus_mod_self2)
    also have "\<dots> = 65535 - int (ones_sum d)"
      using ones_sum_bound [of d] by (intro mod_pos_pos_trivial) auto
    finally show ?thesis .
  qed
  ultimately show ?thesis by (simp add: csum_def nat_diff_distrib')
qed

lemma csum_bound: "csum d < 65536"
  by (simp add: csum_eq)

text \<open>A 16-bit field at an even offset adds its value to the word sum.\<close>

lemma even_pad_append: "even (length xs) \<Longrightarrow> even_pad (xs @ ys) = xs @ even_pad ys"
  by (simp add: even_pad_def)

lemma ones_sum_field:
  assumes "even (length pre)" "v < 65536"
  shows "ones_sum (pre @ be_bytes 2 v @ post) = fold16 (v + (word_sum pre + word_sum (even_pad post)))"
proof -
  have "v div 256 < 256" using assms(2) by linarith
  then have v: "256 * unat (word_of_nat (v div 256 mod 256) :: byte) +
      unat (word_of_nat (v mod 256) :: byte) = v"
    by (simp add: unat_byte_of_nat)
  have "ones_sum (pre @ be_bytes 2 v @ post) =
      fold16 (word_sum pre + word_sum (be_bytes 2 v @ even_pad post))"
    using assms(1) even_pad_append [of pre "be_bytes 2 v @ post"] even_pad_append [of "be_bytes 2 v" post]
    by (simp add: ones_sum_even_pad word_sum_append)
  also have "word_sum (be_bytes 2 v @ even_pad post) = v + word_sum (even_pad post)"
    unfolding be_bytes_2 by (simp only: append_Cons append_Nil word_sum_Cons2 v)
  finally show ?thesis by (simp add: ac_simps)
qed

lemma fold16_complement:
  assumes "v < 65536"
  shows "fold16 (v + R) = 65535 \<longleftrightarrow>
    v = 65535 - fold16 R \<or> (v = 65535 \<and> fold16 R = 65535)"
proof -
  let ?f = "fold16 R"
  have f: "?f < 65536" by (rule fold16_bound)
  have "(v + R) mod 65535 = (v + ?f) mod 65535"
    by (metis fold16_mod mod_add_right_eq)
  then have "fold16 (v + R) = 65535 \<longleftrightarrow> (v \<noteq> 0 \<or> ?f \<noteq> 0) \<and> (v + ?f) mod 65535 = 0"
    using fold16_0_iff [of R] by (auto simp: fold16_FFFF_iff)
  also have "\<dots> \<longleftrightarrow> v + ?f = 65535 \<or> v + ?f = 131070"
  proof -
    have "v + ?f \<le> 131070" using f assms by linarith
    then consider "v + ?f = 0" | "0 < v + ?f" "v + ?f < 65535" | "v + ?f = 65535"
      | "65535 < v + ?f" "v + ?f < 131070" | "v + ?f = 131070" by linarith
    then show ?thesis
    proof cases
      case 4
      then have "(v + ?f) mod 65535 = v + ?f - 65535" by (simp add: mod_if)
      with 4 show ?thesis by linarith
    qed auto
  qed
  also have "\<dots> \<longleftrightarrow> v = 65535 - ?f \<or> (v = 65535 \<and> ?f = 65535)" using f assms by linarith
  finally show ?thesis .
qed

lemma be_bytes_2_zero: "be_bytes 2 0 = [0, 0]"
  by (simp add: be_bytes_2)

lemma checksum_field_iff:
  assumes "even (length pre)" "v < 65536"
  shows "ones_sum (pre @ be_bytes 2 v @ post) = 0xFFFF \<longleftrightarrow>
    v = csum (pre @ [0, 0] @ post) \<or> (v = 0xFFFF \<and> csum (pre @ [0, 0] @ post) = 0)"
proof -
  let ?R = "word_sum pre + word_sum (even_pad post)"
  have "csum (pre @ [0, 0] @ post) = 65535 - fold16 ?R"
    using ones_sum_field [of pre 0 post] assms by (simp add: csum_eq be_bytes_2_zero)
  moreover have "65535 - fold16 ?R = 0 \<longleftrightarrow> fold16 ?R = 65535"
    using fold16_bound [of ?R] by linarith
  ultimately show ?thesis
    using assms by (simp add: ones_sum_field fold16_complement)
qed

section \<open>Option lists\<close>

lemma random_opts_loop_length:
  "random_opts_loop n out r = Inr (bs, r') \<Longrightarrow> length out \<le> n \<Longrightarrow> length bs = n"
proof (induction n out r arbitrary: bs r' rule: random_opts_loop.induct)
  case (1 n out r)
  show ?case
  proof (cases "length out < n")
    case False
    with "1.prems" show ?thesis by (subst (asm) random_opts_loop.simps) simp
  next
    case True
    with "1.prems"(1) obtain b1 r1 where
      o: "random_opt (n - length out) r = Inr (b1, r1)"
      and l: "random_opts_loop n (out @ b1) r1 = Inr (bs, r')"
      by (subst (asm) random_opts_loop.simps) (auto split: sum.splits prod.splits)
    from random_opt_length [OF o] True have "length (out @ b1) \<le> n" by auto
    then show ?thesis using "1.IH" [OF True o refl l] by blast
  qed
qed

lemma random_opt_total:
  assumes "0 < room"
  shows "returns (random_opt room r)"
proof -
  obtain k r1 where k: "rng_choices [NopK, EolK, TlvK, SrrK, BadK] [30, 10, 40, 10, 3] r = (k, r1)"
    by fastforce
  show ?thesis
    by (auto simp: random_opt_def k split: prod.split
        intro!: rng_bind_total rng_nat_total)
qed

lemma random_opts_loop_total: "length out \<le> n \<Longrightarrow> returns (random_opts_loop n out r)"
proof (induction n out r rule: random_opts_loop.induct)
  case (1 n out r)
  show ?case
  proof (cases "length out < n")
    case False
    then show ?thesis by (subst random_opts_loop.simps) simp
  next
    case True
    then obtain b1 r1 where o: "random_opt (n - length out) r = Inr (b1, r1)"
      using random_opt_total [of "n - length out" r] by (fastforce simp: returns_iff)
    from random_opt_length [OF o] True have "length (out @ b1) \<le> n" by auto
    then have "returns (random_opts_loop n (out @ b1) r1)" using "1.IH" [OF True o refl] by blast
    then show ?thesis using True by (subst random_opts_loop.simps) (simp add: o)
  qed
qed

lemma random_opts_total:
  assumes "0 \<le> n"
  shows "\<exists>bs. random_opts r n = Inr bs \<and> int (length bs) = n"
proof -
  obtain bs r' where l: "random_opts_loop (nat n) [] r = Inr (bs, r')"
    using random_opts_loop_total [of "[]" "nat n" r] by (fastforce simp: returns_iff)
  then have "length bs = nat n" using random_opts_loop_length by fastforce
  with l assms show ?thesis by (auto simp: random_opts_def slice_upto_def)
qed

text \<open>The option lists RFC 791 lets a receiver step through: EOL ends the list, NOP is one byte, any
  other option but a source route has a length of at least two, and a type byte with nothing
  behind it ends the list.\<close>

inductive opts_plain :: "bytes \<Rightarrow> bool" where
  end_of_list: "opts_plain []"
| eol: "opts_plain (0 # rest)"
| nop: "opts_plain rest \<Longrightarrow> opts_plain (1 # rest)"
| dangling: "t \<notin> {0, 1, LSRR, SSRR} \<Longrightarrow> opts_plain [t]"
| tlv: "t \<notin> {0, 1, LSRR, SSRR} \<Longrightarrow> 2 \<le> unat n \<Longrightarrow> opts_plain (drop (unat n - 2) rest) \<Longrightarrow>
    opts_plain (t # n # rest)"

inductive_simps opts_plain_Cons: "opts_plain (t # rest)"

lemma opts_walk_plain: "opts_walk opts i \<longleftrightarrow> \<not> opts_plain (drop i opts)"
proof (induction opts i rule: opts_walk.induct)
  case (1 opts i)
  show ?case
  proof (cases "i < length opts")
    case False
    then show ?thesis by (subst opts_walk.simps) (simp add: opts_plain.end_of_list)
  next
    case True
    define t where "t = opts ! i"
    have d: "drop i opts = t # drop (Suc i) opts" using True by (simp add: Cons_nth_drop_Suc t_def)
    consider "t = 0" | "t = 1" | "t = LSRR \<or> t = SSRR" | "t \<notin> {0, 1, LSRR, SSRR}" by auto
    then show ?thesis
    proof cases
      case 1
      then show ?thesis using True d
        by (subst opts_walk.simps) (simp add: t_def [symmetric] opts_plain_Cons)
    next
      case 2
      then show ?thesis
        using True d "1.IH"(1) [OF True t_def]
        by (subst opts_walk.simps) (simp add: t_def [symmetric] opts_plain_Cons)
    next
      case 3
      then show ?thesis using True d
        by (subst opts_walk.simps) (auto simp: t_def [symmetric] opts_plain_Cons LSRR_def SSRR_def)
    next
      case 4
      show ?thesis
      proof (cases "length opts \<le> i + 1")
        case T: True
        then show ?thesis using True d 4
          by (subst opts_walk.simps) (auto simp: t_def [symmetric] opts_plain_Cons)
      next
        case F: False
        define n where "n = opts ! Suc i"
        have d2: "drop (Suc i) opts = n # drop (Suc (Suc i)) opts"
          using F by (simp add: Cons_nth_drop_Suc n_def)
        have ih: "\<not> unat n < 2 \<Longrightarrow> opts_walk opts (i + unat n) \<longleftrightarrow> \<not> opts_plain (drop (i + unat n) opts)"
          using "1.IH"(2) [OF True t_def _ _ _ F] 4 by (simp add: n_def)
        have skip: "2 \<le> k \<Longrightarrow> drop (k - 2) (drop (Suc (Suc i)) opts) = drop (i + k) opts" for k
          by (simp only: drop_drop) (rule arg_cong [of _ _ "\<lambda>j. drop j opts"], simp)
        have "opts_walk opts i \<longleftrightarrow> unat n < 2 \<or> opts_walk opts (i + unat n)"
          using True 4 F
          by (subst opts_walk.simps) (simp add: t_def [symmetric] n_def [symmetric] Let_def)
        also have "\<dots> \<longleftrightarrow> unat n < 2 \<or> \<not> opts_plain (drop (i + unat n) opts)" using ih by blast
        also have "\<dots> \<longleftrightarrow> \<not> opts_plain (t # n # drop (Suc (Suc i)) opts)"
          using 4 skip [of "unat n"] by (auto simp: opts_plain_Cons not_less simp del: drop_drop)
        finally show ?thesis by (simp add: d d2)
      qed
    qed
  qed
qed

section \<open>Properties\<close>

text \<open>C14: The folded sum is a 16-bit value congruent to the sum of the 16-bit words modulo 65535,
  and it is zero only for all-zero data: the ones'-complement sum of RFC 1071.\<close>
theorem ones_sum_rfc1071:
  "ones_sum d < 65536 \<and> ones_sum d mod 65535 = word_sum (even_pad d) mod 65535 \<and>
   (ones_sum d = 0 \<longleftrightarrow> word_sum (even_pad d) = 0)"
  by (simp add: ones_sum_bound ones_sum_even_pad fold16_mod fold16_0_iff fold16_bound)

text \<open>C4: Data with the checksum of its zero-filled field inserted at an even offset sums to 0xFFFF,
  and no other field value does except 0xFFFF where the checksum is 0.\<close>
theorem checksum_verifies_iff:
  assumes "even (length pre)" and "v < 65536"
  shows "ones_sum (pre @ be_bytes 2 v @ post) = 0xFFFF \<longleftrightarrow>
    v = csum (pre @ [0, 0] @ post) \<or> (v = 0xFFFF \<and> csum (pre @ [0, 0] @ post) = 0)"
  by (rule checksum_field_iff [OF assms])

theorem checksum_verifies_iff_witness:
  "ones_sum ([0x45, 0] @ be_bytes 2 47871 @ [0]) = 0xFFFF"
proof -
  have "csum ([0x45, 0] @ [0, 0] @ [0]) = 47871"
    by (simp add: csum_eq ones_sum_def fold16.simps drop16_nat)
  then show ?thesis
    using checksum_verifies_iff [of "[0x45, 0]" 47871 "[0]"] by simp
qed

text \<open>C8: The option walk terminates on every byte string and reports exactly the lists that hold a
  source route or an option length below two before an end-of-list.\<close>
theorem ip4_opts_skip_grammar: "ip4_opts_skip opts \<longleftrightarrow> \<not> opts_plain opts"
  using opts_walk_plain [of opts 0] by (simp add: ip4_opts_skip_def)

text \<open>For every request of at least zero bytes and every sequence of draws the option generator
  returns, with exactly the requested number of bytes.\<close>
theorem random_opts_fills:
  assumes "0 \<le> n"
  shows "\<exists>bs. random_opts r n = Inr bs \<and> int (length bs) = n"
  by (rule random_opts_total [OF assms])

theorem random_opts_fills_witness: "\<exists>bs. random_opts [5, 9] 4 = Inr bs \<and> int (length bs) = 4"
  by (rule random_opts_fills) simp

end
