(* ===== verification/Emz_Packet.thy ===== *)
theory Emz_Packet
  imports Emz_Csum
begin

text \<open>
  The packet builder and its expectations, \<open>sim/cocotb/lib/csum.py\<close> lines 100-357: Ethernet frames
  with an optional VLAN tag carrying IPv4 or IPv6 with TCP, UDP, ICMP / ICMPv6 or another protocol,
  and what the checksum engines must compute for them.  \<open>random.Random(seed)\<close> is the parameter
  \<open>seeds\<close>, a function from a seed to its draws.  Every exception the methods can raise is a value:
  integers that do not fit their bytes, indices outside a short header, the option-length assertion
  and the attribute \<open>_addr_bytes\<close> that only \<open>build\<close> creates.
\<close>

section \<open>Constants and records\<close>

definition ETH_IPV4 :: nat where "ETH_IPV4 = 0x0800"
definition ETH_IPV6 :: nat where "ETH_IPV6 = 0x86DD"
definition TPID_8021Q :: nat where "TPID_8021Q = 0x8100"
definition TPID_8021AD :: nat where "TPID_8021AD = 0x88A8"
definition ICMP :: nat where "ICMP = 1"
definition TCP :: nat where "TCP = 6"
definition UDP :: nat where "UDP = 17"
definition ICMPV6 :: nat where "ICMPV6 = 58"

lemmas proto_defs = ICMP_def TCP_def UDP_def ICMPV6_def

definition L4_CSUM_OFF :: "nat \<Rightarrow> nat option" where
  "L4_CSUM_OFF = [TCP \<mapsto> 16, UDP \<mapsto> 6, ICMP \<mapsto> 2, ICMPV6 \<mapsto> 2]"

record expect_rec =
  e_done :: bool
  e_ip4 :: bool
  e_l4_ok :: bool
  e_l4_udp :: bool
  e_l3_end :: nat
  e_ip_csum_pos :: nat
  e_l4_csum_pos :: nat
  e_ip_csum :: nat
  e_l4_csum :: nat
  e_ip_good :: bool
  e_l4_good :: bool

text \<open>\<open>p_addr_bytes\<close> is the attribute that exists only after \<open>build\<close>.\<close>

record packet =
  p_vlan :: nat
  p_family :: nat
  p_proto :: nat
  p_l4_len :: nat
  p_ihl :: nat
  p_mf :: bool
  p_frag_off :: nat
  p_trailer :: bytes
  p_bad_ip :: bool
  p_bad_l4 :: bool
  p_udp_zero :: bool
  p_udp_len :: "nat option"
  p_opts :: "bytes option"
  p_truncate :: nat
  p_seed :: nat
  p_l4 :: bytes
  p_addr_bytes :: "bytes option"

definition default_packet :: packet where
  "default_packet = \<lparr>p_vlan = 0, p_family = 4, p_proto = UDP, p_l4_len = 8, p_ihl = 5,
     p_mf = False, p_frag_off = 0, p_trailer = [], p_bad_ip = False, p_bad_l4 = False,
     p_udp_zero = False, p_udp_len = None, p_opts = None, p_truncate = 0, p_seed = 0,
     p_l4 = [], p_addr_bytes = None\<rparr>"

section \<open>Construction\<close>

definition l3_off :: "packet \<Rightarrow> nat" where
  "l3_off p = (if p_vlan p \<noteq> 0 then 18 else 14)"

definition ip_hdr_len :: "packet \<Rightarrow> nat" where
  "ip_hdr_len p = (if p_family p = 4 then p_ihl p * 4 else 40)"

definition addrs :: "packet \<Rightarrow> rng \<Rightarrow> bytes \<times> rng" where
  "addrs p r = rng_bytes (if p_family p = 4 then 8 else 32) r"

text \<open>The length field: \<open>b[4:6] = ul.to_bytes(2, "big")\<close>.\<close>

definition put_be16 :: "bytes \<Rightarrow> nat \<Rightarrow> nat \<Rightarrow> bytes res" where
  "put_be16 b off v = res_bind (to_bytes_be 2 v) (\<lambda>w. Inr (put_slice b off (off + 2) w))"

definition l4_bytes :: "packet \<Rightarrow> rng \<Rightarrow> (bytes \<times> rng) res" where
  "l4_bytes p r =
     (case rng_bytes (p_l4_len p) r of (b, r') \<Rightarrow>
      let b1 = (if p_proto p = TCP \<and> 20 \<le> p_l4_len p
                then b[12 := (push_bit 4 5 OR (b ! 12 AND 0x0F))] else b) in
      res_bind
        (if p_proto p = UDP \<and> 6 \<le> p_l4_len p
         then put_be16 b1 4 (case p_udp_len p of None \<Rightarrow> p_l4_len p | Some ul \<Rightarrow> ul)
         else Inr b1)
        (\<lambda>b2. Inr (case L4_CSUM_OFF (p_proto p) of
             None \<Rightarrow> b2
           | Some off \<Rightarrow> if off + 2 \<le> p_l4_len p then put_slice b2 off (off + 2) [0, 0] else b2,
           r')))"

definition build_with :: "rng \<Rightarrow> packet \<Rightarrow> packet res" where
  "build_with r p =
     (case addrs p r of (as, r1) \<Rightarrow>
        res_bind (l4_bytes p r1) (\<lambda>(l4, r2).
          Inr (p\<lparr>p_addr_bytes := Some as, p_l4 := l4\<rparr>)))"

definition build :: "(nat \<Rightarrow> rng) \<Rightarrow> packet \<Rightarrow> packet res" where
  "build seeds p = build_with (seeds (p_seed p)) p"

definition udp_cov :: "packet \<Rightarrow> nat" where
  "udp_cov p = (if p_proto p = UDP then (case p_udp_len p of Some ul \<Rightarrow> ul | None \<Rightarrow> p_l4_len p)
                else p_l4_len p)"

definition opts_of :: "(nat \<Rightarrow> rng) \<Rightarrow> packet \<Rightarrow> bytes res" where
  "opts_of seeds p =
     (let n = int (p_ihl p * 4) - 20 in
      case p_opts p of
        Some opts \<Rightarrow>
          res_bind (res_guard (int (length opts) = n)
                      (AssertionError ''opts must fill ihl*4 - 20 bytes'')) (\<lambda>_. Inr opts)
      | None \<Rightarrow> random_opts (seeds (p_seed p XOR 0x5A5A)) n)"

definition cut :: "packet \<Rightarrow> bytes \<Rightarrow> bytes" where
  "cut p dgram = slice_upto dgram (int (length dgram) - int (p_truncate p))"

definition byte_of :: "nat \<Rightarrow> byte res" where
  "byte_of n = (if n < 256 then Inr (word_of_nat n) else Inl (ValueError ''byte must be in range(0, 256)''))"

definition addr_bytes :: "packet \<Rightarrow> bytes res" where
  "addr_bytes p = (case p_addr_bytes p of Some a \<Rightarrow> Inr a | None \<Rightarrow> Inl (AttributeError ''_addr_bytes''))"

text \<open>The checksum over the pseudo header and the first \<open>cover\<close> bytes of \<open>l4\<close>.\<close>

definition l4_csum :: "packet \<Rightarrow> bytes \<Rightarrow> nat option \<Rightarrow> nat res" where
  "l4_csum p l4 cover =
     (let l4' = take (case cover of None \<Rightarrow> udp_cov p | Some c \<Rightarrow> c) l4 in
      if p_proto p = ICMP \<and> p_family p = 4 then Inr (csum l4')
      else
        res_bind (addr_bytes p) (\<lambda>as.
        res_bind (byte_of (p_proto p)) (\<lambda>pr.
        res_bind (to_bytes_be 2 (length l4')) (\<lambda>len2.
          if p_family p = 6
          then res_bind (to_bytes_be 4 (length l4')) (\<lambda>len4.
                 Inr (csum ((as @ len4 @ [0, 0, 0, pr]) @ l4')))
          else Inr (csum ((as @ [0, pr] @ len2) @ l4'))))))"

definition l4_applies :: "(nat \<Rightarrow> rng) \<Rightarrow> packet \<Rightarrow> nat option \<Rightarrow> bool res" where
  "l4_applies seeds p udp_len =
     (case L4_CSUM_OFF (p_proto p) of
        None \<Rightarrow> Inr False
      | Some off \<Rightarrow>
          if p_l4_len p < off + 2 then Inr False
          else
            let ul = (case udp_len of None \<Rightarrow> udp_cov p | Some u \<Rightarrow> u) in
            if p_proto p = UDP \<and> \<not> (8 \<le> ul \<and> ul \<le> p_l4_len p) then Inr False
            else if p_family p = 4 then
              (if p_proto p \<in> {TCP, UDP, ICMP} \<and> \<not> p_mf p \<and> p_frag_off p = 0
               then res_bind (opts_of seeds p) (\<lambda>o'. Inr (\<not> ip4_opts_skip o'))
               else Inr False)
            else if p_family p = 6 then Inr (p_proto p \<in> {TCP, UDP, ICMPV6})
            else Inr False)"

section \<open>The frame\<close>

text \<open>\<open>b[i] = v\<close> on a \<open>bytearray\<close>.\<close>

definition put_byte :: "bytes \<Rightarrow> nat \<Rightarrow> nat \<Rightarrow> bytes res" where
  "put_byte b i v =
     (if i < length b then res_bind (byte_of v) (\<lambda>w. Inr (b[i := w])) else Inl IndexError)"

definition l4_field :: "packet \<Rightarrow> nat \<Rightarrow> nat" where
  "l4_field p c =
     (let c1 = (if p_proto p = UDP \<and> c = 0 then 0xFFFF else c);
          c2 = (if p_proto p = UDP \<and> p_udp_zero p then 0 else c1)
      in if p_bad_l4 p then c2 XOR 0x0101 else c2)"

definition l4_filled :: "(nat \<Rightarrow> rng) \<Rightarrow> packet \<Rightarrow> bytes res" where
  "l4_filled seeds p =
     res_bind (l4_applies seeds p None) (\<lambda>app.
       if app then
         res_bind (l4_csum p (p_l4 p) None) (\<lambda>c.
           put_be16 (p_l4 p) (the (L4_CSUM_OFF (p_proto p))) (l4_field p c))
       else Inr (p_l4 p))"

definition ip4_header :: "(nat \<Rightarrow> rng) \<Rightarrow> packet \<Rightarrow> nat \<Rightarrow> nat \<Rightarrow> bytes res" where
  "ip4_header seeds p l4_length ident =
     (let hlen = p_ihl p * 4; hdr = replicate hlen 0;
          fo = (if p_mf p then 0x2000 else 0) OR (p_frag_off p AND 0x1FFF) in
      res_bind (put_byte hdr 0 (0x40 OR p_ihl p)) (\<lambda>hdr.
      res_bind (put_be16 hdr 2 (hlen + l4_length)) (\<lambda>hdr.
      res_bind (put_be16 hdr 4 ident) (\<lambda>hdr.
      res_bind (put_be16 hdr 6 fo) (\<lambda>hdr.
      res_bind (put_byte hdr 8 64) (\<lambda>hdr.
      res_bind (put_byte hdr 9 (p_proto p)) (\<lambda>hdr.
      res_bind (addr_bytes p) (\<lambda>as.
      let hdr = put_slice hdr 12 20 as in
      res_bind (opts_of seeds p) (\<lambda>o'.
      let hdr = put_slice hdr 20 (max 20 hlen) o';
          c = csum hdr;
          c' = (if p_bad_ip p then c XOR 0x8001 else c)
      in put_be16 hdr 10 c')))))))))"

definition ip6_header :: "packet \<Rightarrow> nat \<Rightarrow> bytes res" where
  "ip6_header p l4_length =
     res_bind (put_be16 ((replicate 40 0)[0 := 0x60]) 4 l4_length) (\<lambda>hdr.
     res_bind (byte_of (p_proto p)) (\<lambda>pr.
     res_bind (addr_bytes p) (\<lambda>as.
       Inr (put_slice (hdr[6 := pr, 7 := 64]) 8 40 as))))"

definition ETH_ADDRS :: bytes where
  "ETH_ADDRS = [0x02, 0, 0, 0, 0, 0x01, 0x0A, 0x0B, 0x0C, 0x0D, 0x0E, 0x0F]"

definition eth_part :: "packet \<Rightarrow> rng \<Rightarrow> (bytes \<times> rng) res" where
  "eth_part p r =
     (if p_vlan p \<noteq> 0 then
        res_bind (to_bytes_be 2 (p_vlan p)) (\<lambda>t.
          case rng_below 65536 r of (tci, r') \<Rightarrow> Inr (ETH_ADDRS @ t @ be_bytes 2 tci, r'))
      else Inr (ETH_ADDRS, r))"

definition frame_built :: "(nat \<Rightarrow> rng) \<Rightarrow> packet \<Rightarrow> bytes res" where
  "frame_built seeds p =
     res_bind (eth_part p (seeds (p_seed p))) (\<lambda>(eth, r).
       if p_family p = 0 then Inr (eth @ [0x88, 0xB5] @ p_l4 p @ p_trailer p)
       else
         res_bind (l4_filled seeds p) (\<lambda>l4.
           if p_family p = 4 then
             case rng_below 65536 r of (ident, r') \<Rightarrow>
               res_bind (ip4_header seeds p (length l4) ident) (\<lambda>hdr.
                 Inr (eth @ [0x08, 0x00] @ cut p (hdr @ l4) @ p_trailer p))
           else
             res_bind (ip6_header p (length l4)) (\<lambda>hdr.
               Inr (eth @ [0x86, 0xDD] @ cut p (hdr @ l4) @ p_trailer p))))"

text \<open>\<open>frame()\<close>: the packet is built on demand when it has L4 bytes to draw, and stays built.\<close>

definition frame :: "(nat \<Rightarrow> rng) \<Rightarrow> packet \<Rightarrow> (bytes \<times> packet) res" where
  "frame seeds p =
     res_bind (if p_l4 p = [] \<and> p_l4_len p \<noteq> 0 then build seeds p else Inr p) (\<lambda>p'.
       res_bind (frame_built seeds p') (\<lambda>f. Inr (f, p')))"

section \<open>Expectations\<close>

definition no_expect :: expect_rec where
  "no_expect = \<lparr>e_done = False, e_ip4 = False, e_l4_ok = False, e_l4_udp = False, e_l3_end = 0,
     e_ip_csum_pos = 0, e_l4_csum_pos = 0, e_ip_csum = 0, e_l4_csum = 0,
     e_ip_good = False, e_l4_good = False\<rparr>"

definition ip4_verdict :: "bytes \<Rightarrow> bool \<times> nat" where
  "ip4_verdict hdr = (ones_sum hdr = 0xFFFF, csum (put_slice hdr 10 12 [0, 0]))"

definition l4_verdict :: "packet \<Rightarrow> bytes \<Rightarrow> nat \<Rightarrow> nat \<Rightarrow> (nat \<times> bool) res" where
  "l4_verdict p l4 off cover =
     (let field_val = from_bytes_be (slice l4 off (off + 2)) in
      res_bind (l4_csum p (put_slice l4 off (off + 2) [0, 0]) (Some cover)) (\<lambda>c.
        if p_proto p = UDP \<and> field_val = 0 then Inr (c, True)
        else Inr (c, field_val = (if p_proto p = UDP \<and> c = 0 then 0xFFFF else c))))"

definition expect :: "(nat \<Rightarrow> rng) \<Rightarrow> packet \<Rightarrow> bytes \<Rightarrow> expect_rec res" where
  "expect seeds p f =
     (if p_family p = 0 then Inr no_expect
      else
        let l3 = l3_off p; hlen = ip_hdr_len p; l3_end = l3 + hlen + p_l4_len p; l4s = l3 + hlen;
            done = (l3_end \<le> length f); ip4 = (p_family p = 4 \<and> l4s \<le> length f);
            (ip_good, ip_csum) = (if ip4 then ip4_verdict (slice f l3 (l3 + hlen)) else (True, 0));
            cover = (if p_proto p = UDP \<and> done \<and> 6 \<le> p_l4_len p
                     then from_bytes_be (slice f (l4s + 4) (l4s + 6)) else p_l4_len p)
        in res_bind (l4_applies seeds p (Some cover)) (\<lambda>app.
           res_bind
             (if app \<and> done
              then l4_verdict p (slice f l4s l3_end) (the (L4_CSUM_OFF (p_proto p))) cover
              else Inr (0, False)) (\<lambda>(c, good).
           Inr \<lparr>e_done = done, e_ip4 = ip4, e_l4_ok = (app \<and> done), e_l4_udp = (p_proto p = UDP),
                e_l3_end = l3_end, e_ip_csum_pos = l3 + 10,
                e_l4_csum_pos = l4s + (case L4_CSUM_OFF (p_proto p) of Some o' \<Rightarrow> o' | None \<Rightarrow> 0),
                e_ip_csum = ip_csum, e_l4_csum = c, e_ip_good = ip_good, e_l4_good = good\<rparr>)))"

text \<open>\<open>p.expect()\<close> without an argument.\<close>

definition expect_own :: "(nat \<Rightarrow> rng) \<Rightarrow> packet \<Rightarrow> expect_rec res" where
  "expect_own seeds p = res_bind (frame seeds p) (\<lambda>(f, p'). expect seeds p' f)"

section \<open>Random packets\<close>

definition rng_pick :: "'a list \<Rightarrow> rng \<Rightarrow> ('a \<times> rng) res" where
  "rng_pick xs r = Inr (rng_choice xs r)"

definition rng_pick_weighted :: "'a list \<Rightarrow> nat list \<Rightarrow> rng \<Rightarrow> ('a \<times> rng) res" where
  "rng_pick_weighted xs ws r = Inr (rng_choices xs ws r)"

definition min_l4_of :: "nat \<Rightarrow> nat" where
  "min_l4_of proto =
     (case ([TCP \<mapsto> 20, UDP \<mapsto> 8, ICMP \<mapsto> 4, ICMPV6 \<mapsto> 4] :: nat \<Rightarrow> nat option) proto of
        Some n \<Rightarrow> n | None \<Rightarrow> 0)"

definition draw_kind :: "rng \<Rightarrow> ((nat \<times> nat) \<times> rng) res" where
  "draw_kind r =
     rng_bind (rng_pick_weighted [4, 6, 0] [6, 3, 1] r) (\<lambda>family r.
     rng_bind
       (if family = 4 then rng_pick_weighted [UDP, TCP, ICMP, 47] [4, 4, 2, 1] r
        else if family = 6 then rng_pick_weighted [UDP, TCP, ICMPV6, 0] [4, 4, 2, 1] r
        else Inr (0, r)) (\<lambda>proto r. Inr ((family, proto), r)))"

definition draw_l4_len :: "nat \<Rightarrow> nat \<Rightarrow> rng \<Rightarrow> (nat \<times> rng) res" where
  "draw_l4_len min_l4 max_l4 r =
     rng_bind (rng_nat min_l4 max_l4 r) (\<lambda>l4_len r.
     rng_bind (rng_chance 900719925474100 r) (\<lambda>short r.
       if short \<and> min_l4 \<noteq> 0 then rng_nat 0 (min_l4 + 1) r else Inr (l4_len, r)))"

definition draw_base :: "nat \<Rightarrow> nat \<Rightarrow> nat \<Rightarrow> rng \<Rightarrow> ((packet \<times> bool) \<times> rng) res" where
  "draw_base family proto l4_len r =
     rng_bind (rng_and_chance (family = 4) 1351079888211149 r) (\<lambda>frag r.
     rng_bind (rng_pick [0, 0, 1, 2, 7, 33] r) (\<lambda>tn r.
     rng_bind (Inr (rng_bytes tn r)) (\<lambda>trailer r.
     rng_bind (rng_pick [0, 0, 0, TPID_8021Q, TPID_8021AD] r) (\<lambda>vlan r.
     rng_bind (rng_pick [5, 5, 5, 6, 9, 15] r) (\<lambda>ihl r.
     rng_bind (rng_and_chance frag 4503599627370496 r) (\<lambda>mf r.
     rng_bind (rng_and_chance frag 5404319552844595 r) (\<lambda>fo r.
     rng_bind (if fo then rng_nat 1 100 r else Inr (0, r)) (\<lambda>frag_off r.
     rng_bind (rng_chance 1801439850948199 r) (\<lambda>bad_ip r.
     rng_bind (rng_chance 2251799813685248 r) (\<lambda>bad_l4 r.
     rng_bind (rng_chance 1351079888211149 r) (\<lambda>udp_zero r.
     rng_bind (Inr (rng_below (2 ^ 30) r)) (\<lambda>seed r.
       Inr ((default_packet\<lparr>p_vlan := vlan, p_family := family, p_proto := proto,
               p_l4_len := l4_len, p_ihl := ihl, p_mf := mf, p_frag_off := frag_off,
               p_trailer := trailer, p_bad_ip := bad_ip, p_bad_l4 := bad_l4,
               p_udp_zero := udp_zero, p_seed := seed\<rparr>, frag), r)))))))))))))"

definition draw_udp_len :: "packet \<Rightarrow> rng \<Rightarrow> (packet \<times> rng) res" where
  "draw_udp_len p r =
     rng_bind (rng_and_chance (p_proto p = UDP \<and> 8 \<le> p_l4_len p) 1801439850948199 r) (\<lambda>c r.
       if c then
         rng_bind (rng_nat 8 (p_l4_len p) r) (\<lambda>x r.
         rng_bind (rng_nat 1 20 r) (\<lambda>y r.
         rng_bind (rng_nat 0 7 r) (\<lambda>z r.
         rng_bind (rng_pick [x, p_l4_len p + y, z] r) (\<lambda>ul r.
           Inr (p\<lparr>p_udp_len := Some ul\<rparr>, r)))))
       else Inr (p, r))"

definition draw_truncate :: "packet \<Rightarrow> rng \<Rightarrow> (packet \<times> rng) res" where
  "draw_truncate p r =
     rng_bind (rng_and_chance (p_family p \<noteq> 0 \<and> p_l4_len p \<noteq> 0) 720575940379280 r) (\<lambda>c r.
       if c then rng_bind (rng_nat 1 (p_l4_len p) r) (\<lambda>t r. Inr (p\<lparr>p_truncate := t\<rparr>, r))
       else Inr (p, r))"

definition random_packet :: "(nat \<Rightarrow> rng) \<Rightarrow> nat \<Rightarrow> rng \<Rightarrow> (packet \<times> rng) res" where
  "random_packet seeds max_l4 r =
     rng_bind (draw_kind r) (\<lambda>(family, proto) r.
     rng_bind (draw_l4_len (min_l4_of proto) max_l4 r) (\<lambda>l4_len r.
     rng_bind (draw_base family proto l4_len r) (\<lambda>(p, frag) r.
     rng_bind (draw_udp_len
                 (if \<not> p_mf p \<and> frag \<and> p_frag_off p = 0 then p\<lparr>p_mf := True\<rparr> else p) r) (\<lambda>p r.
     rng_bind (draw_truncate p r) (\<lambda>p r.
       res_bind (build seeds p) (\<lambda>p. Inr (p, r)))))))"

definition force_zero_l4_csum :: "(nat \<Rightarrow> rng) \<Rightarrow> packet \<Rightarrow> packet res" where
  "force_zero_l4_csum seeds p =
     res_bind (if 10 \<le> p_l4_len p then l4_applies seeds p None else Inr False) (\<lambda>ok.
     res_bind (res_guard ok (AssertionError ''applies'')) (\<lambda>_.
     res_bind (l4_csum p (p_l4 p) None) (\<lambda>c.
       let w = from_bytes_be (slice (p_l4 p) 8 10) + c;
           w' = (w AND 0xFFFF) + drop_bit 16 w in
     res_bind (put_be16 (p_l4 p) 8 w') (\<lambda>l4.
       let p' = p\<lparr>p_l4 := l4\<rparr> in
     res_bind (l4_csum p' l4 None) (\<lambda>c'.
     res_bind (res_guard (c' = 0) (AssertionError ''checksum is 0'')) (\<lambda>_. Inr p'))))))"

section \<open>Well-formed packets\<close>

text \<open>What a built packet inside the field ranges satisfies: the L4 bytes have the announced length,
  their checksum field is zero and the UDP length field holds \<open>udp_cov\<close>.\<close>

definition packet_wf :: "(nat \<Rightarrow> rng) \<Rightarrow> packet \<Rightarrow> bool" where
  "packet_wf seeds p \<longleftrightarrow>
     p_family p \<in> {4, 6} \<and> p_proto p < 256 \<and> 5 \<le> p_ihl p \<and> p_ihl p \<le> 15 \<and>
     p_vlan p < 65536 \<and> ip_hdr_len p + p_l4_len p < 65536 \<and> udp_cov p < 65536 \<and>
     (\<forall>opts. p_opts p = Some opts \<longrightarrow> length opts + 20 = p_ihl p * 4) \<and>
     length (p_l4 p) = p_l4_len p \<and>
     map_option length (p_addr_bytes p) = Some (if p_family p = 4 then 8 else 32) \<and>
     (case L4_CSUM_OFF (p_proto p) of None \<Rightarrow> True
      | Some off \<Rightarrow> off + 2 \<le> p_l4_len p \<longrightarrow> slice (p_l4 p) off (off + 2) = [0, 0]) \<and>
     (p_proto p = UDP \<and> 6 \<le> p_l4_len p \<longrightarrow> slice (p_l4 p) 4 6 = be_bytes 2 (udp_cov p))"

lemma or_bound_nat: "a < 2 ^ k \<Longrightarrow> b < 2 ^ k \<Longrightarrow> (a OR b :: nat) < 2 ^ k"
  by (metis take_bit_nat_eq_self_iff take_bit_or)

lemma xor_bound_nat: "a < 2 ^ k \<Longrightarrow> b < 2 ^ k \<Longrightarrow> (a XOR b :: nat) < 2 ^ k"
  by (metis take_bit_nat_eq_self_iff take_bit_xor)

lemma and_bound_nat: "b < 2 ^ k \<Longrightarrow> (a AND b :: nat) < 2 ^ k"
  by (metis take_bit_and take_bit_nat_eq_self_iff and.left_idem and.commute take_bit_eq_mask and.assoc)

lemma xor_neq: "b \<noteq> 0 \<Longrightarrow> a XOR b \<noteq> (a :: nat)"
  by (metis xor.assoc xor.left_neutral xor_self_eq)

lemma opts_of_total:
  assumes "packet_wf seeds p"
  obtains o' where "opts_of seeds p = Inr o'" "length o' + 20 = p_ihl p * 4"
proof -
  have ihl: "5 \<le> p_ihl p" using assms by (simp add: packet_wf_def)
  show ?thesis
  proof (cases "p_opts p")
    case (Some opts)
    then have "length opts + 20 = p_ihl p * 4" using assms by (simp add: packet_wf_def)
    then show ?thesis using that Some by (simp add: opts_of_def)
  next
    case None
    obtain bs where "random_opts (seeds (p_seed p XOR 0x5A5A)) (int (p_ihl p * 4) - 20) = Inr bs"
      "int (length bs) = int (p_ihl p * 4) - 20"
      using random_opts_total [where n = "int (p_ihl p * 4) - 20"] ihl by auto
    then show ?thesis using that None by (simp add: opts_of_def)
  qed
qed

text \<open>The IPv4 header before its checksum is inserted.\<close>

definition ip4_fields :: "packet \<Rightarrow> nat \<Rightarrow> nat \<Rightarrow> bytes \<Rightarrow> bytes \<Rightarrow> bytes" where
  "ip4_fields p n ident as opts =
     [word_of_nat (64 OR p_ihl p), 0] @ be_bytes 2 (p_ihl p * 4 + n) @ be_bytes 2 ident @
     be_bytes 2 ((if p_mf p then 0x2000 else 0) OR (p_frag_off p AND 0x1FFF)) @
     [64, word_of_nat (p_proto p)] @ [0, 0] @ as @ opts"

lemma put_be16_ok: "v < 65536 \<Longrightarrow> put_be16 b i v = Inr (put_slice b i (i + 2) (be_bytes 2 v))"
  by (simp add: put_be16_def to_bytes_be_def)

lemma put_slice_at:
  "length A = a \<Longrightarrow> a + length B = b \<Longrightarrow> put_slice (A @ B @ C) a b ys = A @ ys @ C"
  by (auto simp: put_slice_def)

lemma put_byte_ok: "length A = i \<Longrightarrow> v < 256 \<Longrightarrow> put_byte (A @ [x] @ C) i v = Inr (A @ [word_of_nat v] @ C)"
  by (auto simp: put_byte_def byte_of_def)

lemma ip4_header_eq:
  assumes wf: "packet_wf seeds p" and f4: "p_family p = 4" and o': "opts_of seeds p = Inr opts"
    and len: "length opts + 20 = p_ihl p * 4" and as: "p_addr_bytes p = Some as"
    and n: "p_ihl p * 4 + n < 65536" and ident: "ident < 65536"
  shows "ip4_header seeds p n ident =
    (let h = ip4_fields p n ident as opts; c = csum h
     in Inr (take 10 h @ be_bytes 2 (if p_bad_ip p then c XOR 0x8001 else c) @ drop 12 h))"
proof -
  have l8: "length as = 8" using wf f4 as by (simp add: packet_wf_def)
  let ?Z = "[0,0,0,0,0,0,0,0] :: bytes" and ?R = "replicate (length opts) (0 :: byte)"
  have "p_ihl p * 4 = 20 + length opts" using len by simp
  then have rep: "replicate (p_ihl p * 4) (0 :: byte) =
      [] @ [0] @ [0] @ [0, 0] @ [0, 0] @ [0, 0] @ [0] @ [0] @ [0, 0] @ ?Z @ ?R"
    by (simp only: replicate_add) (simp add: numeral_eq_Suc)
  have mx: "max 20 (p_ihl p * 4) = 20 + length opts" using len by simp
  have b0: "64 OR p_ihl p < 256" using or_bound_nat [where a = 64 and k = 8 and b = "p_ihl p"] wf by (simp add: packet_wf_def)
  have fo: "(if p_mf p then 0x2000 else 0) OR (p_frag_off p AND 0x1FFF) < (65536 :: nat)"
    using or_bound_nat [where a = "if p_mf p then 0x2000 else 0" and k = 16 and b = "p_frag_off p AND 0x1FFF"]
      and_bound_nat [where b = "0x1FFF" and k = 16 and a = "p_frag_off p"] by simp
  have pr: "p_proto p < 256" using wf by (simp add: packet_wf_def)
  have cs: "(if p_bad_ip p then csum h XOR 0x8001 else csum h) < 65536" for h
    using xor_bound_nat [where a = "csum h" and k = 16 and b = "0x8001"] csum_bound [of h] by simp
  let ?w0 = "word_of_nat (64 OR p_ihl p) :: byte" and ?pr = "word_of_nat (p_proto p) :: byte"
    and ?len = "be_bytes 2 (p_ihl p * 4 + n)" and ?id = "be_bytes 2 ident"
    and ?fo = "be_bytes 2 ((if p_mf p then 0x2000 else 0) OR (p_frag_off p AND 0x1FFF))"
  have s1: "put_byte ([] @ [0] @ [0] @ [0, 0] @ [0, 0] @ [0, 0] @ [0] @ [0] @ [0, 0] @ ?Z @ ?R) 0 (0x40 OR p_ihl p) =
      Inr ([?w0, 0] @ [0, 0] @ [0, 0] @ [0, 0] @ [0] @ [0] @ [0, 0] @ ?Z @ ?R)"
    using b0 by (subst put_byte_ok) simp_all
  have s2: "put_be16 ([?w0, 0] @ [0, 0] @ [0, 0] @ [0, 0] @ [0] @ [0] @ [0, 0] @ ?Z @ ?R) 2 (p_ihl p * 4 + n) =
      Inr (([?w0, 0] @ ?len) @ [0, 0] @ [0, 0] @ [0] @ [0] @ [0, 0] @ ?Z @ ?R)"
    by (simp only: put_be16_ok [OF n]) (subst put_slice_at, simp_all)
  have s3: "put_be16 (([?w0, 0] @ ?len) @ [0, 0] @ [0, 0] @ [0] @ [0] @ [0, 0] @ ?Z @ ?R) 4 ident =
      Inr (([?w0, 0] @ ?len @ ?id) @ [0, 0] @ [0] @ [0] @ [0, 0] @ ?Z @ ?R)"
    by (simp only: put_be16_ok [OF ident]) (subst put_slice_at, simp_all)
  have s4: "put_be16 (([?w0, 0] @ ?len @ ?id) @ [0, 0] @ [0] @ [0] @ [0, 0] @ ?Z @ ?R) 6
        ((if p_mf p then 0x2000 else 0) OR (p_frag_off p AND 0x1FFF)) =
      Inr (([?w0, 0] @ ?len @ ?id @ ?fo) @ [0] @ [0] @ [0, 0] @ ?Z @ ?R)"
    by (simp only: put_be16_ok [OF fo]) (subst put_slice_at, simp_all)
  have s5: "put_byte (([?w0, 0] @ ?len @ ?id @ ?fo) @ [0] @ [0] @ [0, 0] @ ?Z @ ?R) 8 64 =
      Inr (([?w0, 0] @ ?len @ ?id @ ?fo @ [64]) @ [0] @ [0, 0] @ ?Z @ ?R)"
    by (subst put_byte_ok) simp_all
  have s6: "put_byte (([?w0, 0] @ ?len @ ?id @ ?fo @ [64]) @ [0] @ [0, 0] @ ?Z @ ?R) 9 (p_proto p) =
      Inr (([?w0, 0] @ ?len @ ?id @ ?fo @ [64, ?pr, 0, 0]) @ ?Z @ ?R)"
    using pr by (subst put_byte_ok) simp_all
  have s7: "put_slice (([?w0, 0] @ ?len @ ?id @ ?fo @ [64, ?pr, 0, 0]) @ ?Z @ ?R) 12 20 as =
      ([?w0, 0] @ ?len @ ?id @ ?fo @ [64, ?pr, 0, 0] @ as) @ ?R @ []"
    by (subst put_slice_at) simp_all
  have s8: "put_slice (([?w0, 0] @ ?len @ ?id @ ?fo @ [64, ?pr, 0, 0] @ as) @ ?R @ []) 20 (20 + length opts) opts =
      ip4_fields p n ident as opts"
    using l8 by (subst put_slice_at) (simp_all add: ip4_fields_def)
  show ?thesis
    by (simp only: ip4_header_def Let_def rep s1 s2 s3 s4 s5 s6 s7 s8 mx o' as addr_bytes_def
        res_bind_simps option.case put_be16_ok [OF cs]) (simp add: put_slice_def)
qed

lemma wf_addr:
  assumes "packet_wf seeds p"
  obtains as where "p_addr_bytes p = Some as" "length as = (if p_family p = 4 then 8 else 32)"
  using assms by (auto simp: packet_wf_def)

lemma length_ip4_fields:
  "length as = 8 \<Longrightarrow> length opts + 20 = p_ihl p * 4 \<Longrightarrow> length (ip4_fields p n ident as opts) = p_ihl p * 4"
  by (simp add: ip4_fields_def)

lemma ip4_fields_zero:
  "take 10 (ip4_fields p n ident as opts) @ [0, 0] @ drop 12 (ip4_fields p n ident as opts) =
     ip4_fields p n ident as opts"
  by (simp add: ip4_fields_def)

lemma ip4_verdict_eq:
  assumes h: "take 10 h @ [0, 0] @ drop 12 h = h" and len: "12 \<le> length h"
  shows "ip4_verdict (take 10 h @ be_bytes 2 (if bad then csum h XOR 0x8001 else csum h) @ drop 12 h) =
    (\<not> bad, csum h)"
proof -
  let ?c = "if bad then csum h XOR 0x8001 else csum h"
  have c: "?c < 65536"
    using xor_bound_nat [where a = "csum h" and k = 16 and b = "0x8001"] csum_bound [of h] by simp
  have l10: "length (take 10 h) = 10" using len by simp
  then have "ones_sum (take 10 h @ be_bytes 2 ?c @ drop 12 h) = 0xFFFF \<longleftrightarrow>
      ?c = csum h \<or> (?c = 0xFFFF \<and> csum h = 0)"
    using checksum_field_iff [of "take 10 h" ?c "drop 12 h"] c h by simp
  moreover have "(?c = csum h \<or> (?c = 0xFFFF \<and> csum h = 0)) \<longleftrightarrow> \<not> bad"
    using xor_neq [of "0x8001" "csum h"] by (auto intro!: gr0I)
  moreover have "put_slice (take 10 h @ be_bytes 2 ?c @ drop 12 h) 10 12 [0, 0] = h"
    using put_slice_at [of "take 10 h" 10 "be_bytes 2 ?c" 12 "drop 12 h" "[0, 0]"] l10 h by simp
  ultimately show ?thesis by (simp add: ip4_verdict_def)
qed

lemma ip4_header_len:
  assumes "packet_wf seeds p" "p_family p = 4" "p_ihl p * 4 + n < 65536" "ident < 65536"
  obtains hdr where "ip4_header seeds p n ident = Inr hdr" "length hdr = p_ihl p * 4"
    "fst (ip4_verdict hdr) \<longleftrightarrow> \<not> p_bad_ip p"
proof -
  obtain opts where o': "opts_of seeds p = Inr opts" "length opts + 20 = p_ihl p * 4"
    using opts_of_total assms(1) by blast
  obtain as where as: "p_addr_bytes p = Some as" "length as = 8"
    using wf_addr [OF assms(1)] assms(2) by auto
  let ?h = "ip4_fields p n ident as opts"
  have len: "length ?h = p_ihl p * 4" using length_ip4_fields as o' by blast
  have l12: "12 \<le> length ?h" using len o'(2) by simp
  have "ip4_header seeds p n ident =
      Inr (take 10 ?h @ be_bytes 2 (if p_bad_ip p then csum ?h XOR 0x8001 else csum ?h) @ drop 12 ?h)"
    using ip4_header_eq [OF assms(1,2) o' as(1) assms(3,4)] by (simp only: Let_def)
  then show ?thesis
    by (rule that) (use ip4_verdict_eq [OF ip4_fields_zero l12] l12 len in simp_all)
qed

lemma ip6_header_len:
  assumes "packet_wf seeds p" "p_family p = 6" "n < 65536"
  obtains hdr where "ip6_header p n = Inr hdr" "length hdr = 40"
proof -
  obtain as where as: "p_addr_bytes p = Some as" "length as = 32"
    using wf_addr [OF assms(1)] assms(2) by auto
  have "p_proto p < 256" using assms(1) by (simp add: packet_wf_def)
  with as assms(3) show ?thesis
    by (simp add: ip6_header_def put_be16_ok byte_of_def addr_bytes_def that length_put_slice)
qed

lemma csum_off_cases:
  "L4_CSUM_OFF pr = Some off \<longleftrightarrow>
     (pr = TCP \<and> off = 16) \<or> (pr = UDP \<and> off = 6) \<or> (pr = ICMP \<and> off = 2) \<or> (pr = ICMPV6 \<and> off = 2)"
  by (auto simp: L4_CSUM_OFF_def proto_defs)

lemma l4_csum_total:
  assumes "packet_wf seeds p" "length l4 < 65536"
  shows "\<exists>c. l4_csum p l4 cover = Inr c \<and> c < 65536"
proof -
  obtain as where as: "p_addr_bytes p = Some as" using wf_addr [OF assms(1)] by blast
  moreover have "p_proto p < 256" using assms(1) by (simp add: packet_wf_def)
  moreover have "length (take k l4) < 256 ^ 2" "length (take k l4) < 256 ^ 4" for k
    using assms(2) by simp_all
  ultimately show ?thesis
    by (simp add: l4_csum_def Let_def addr_bytes_def byte_of_def to_bytes_be_def csum_bound)
qed

lemma l4_applies_total: "packet_wf seeds p \<Longrightarrow> returns (l4_applies seeds p cover)"
  by (rule opts_of_total [of seeds p])
    (auto simp: l4_applies_def Let_def split: option.split)

lemma l4_applies_True:
  assumes "l4_applies seeds p cover = Inr True"
  obtains off where "L4_CSUM_OFF (p_proto p) = Some off" "off + 2 \<le> p_l4_len p"
  using assms by (auto simp: l4_applies_def split: option.splits if_splits)

lemma l4_field_bound: "c < 65536 \<Longrightarrow> l4_field p c < 65536"
  using xor_bound_nat [where k = 16 and b = "0x0101"] by (simp add: l4_field_def Let_def)

text \<open>The L4 bytes that go on the wire.\<close>

lemma l4_filled_total:
  assumes wf: "packet_wf seeds p"
  obtains l4 where "l4_filled seeds p = Inr l4" "length l4 = p_l4_len p"
    "l4_applies seeds p None = Inr False \<longrightarrow> l4 = p_l4 p"
    "l4_applies seeds p None = Inr True \<longrightarrow>
      (\<exists>c off. l4_csum p (p_l4 p) None = Inr c \<and> c < 65536 \<and> L4_CSUM_OFF (p_proto p) = Some off \<and>
         off + 2 \<le> p_l4_len p \<and> l4 = put_slice (p_l4 p) off (off + 2) (be_bytes 2 (l4_field p c)))"
proof -
  have len: "length (p_l4 p) = p_l4_len p" "p_l4_len p < 65536" using wf by (auto simp: packet_wf_def)
  obtain app where app: "l4_applies seeds p None = Inr app"
    using l4_applies_total [OF wf] by (auto simp: returns_iff)
  show ?thesis
  proof (cases app)
    case False
    then show ?thesis using that app len by (simp add: l4_filled_def)
  next
    case True
    with app have "l4_applies seeds p None = Inr True" by simp
    then obtain off where off: "L4_CSUM_OFF (p_proto p) = Some off" "off + 2 \<le> p_l4_len p"
      using l4_applies_True by blast
    obtain c where c: "l4_csum p (p_l4 p) None = Inr c" "c < 65536"
      using l4_csum_total [OF wf, of "p_l4 p" None] len by auto
    have "l4_filled seeds p = Inr (put_slice (p_l4 p) off (off + 2) (be_bytes 2 (l4_field p c)))"
      using app True off c by (simp add: l4_filled_def put_be16_ok l4_field_bound)
    moreover have "length (put_slice (p_l4 p) off (off + 2) (be_bytes 2 (l4_field p c))) = p_l4_len p"
      using off len by (simp add: length_put_slice)
    ultimately show ?thesis using that app True off c by auto
  qed
qed

text \<open>The layout of an uncut frame: everything before the L4 bytes, the L4 bytes, the trailer.\<close>

lemma eth_part_total:
  assumes "p_vlan p < 65536"
  obtains eth r' where "eth_part p r = Inr (eth, r')" "length eth + 2 = l3_off p"
proof (cases "p_vlan p = 0")
  case True
  then show ?thesis using that [of ETH_ADDRS r] by (simp add: eth_part_def l3_off_def ETH_ADDRS_def)
next
  case False
  obtain tci r' where "rng_below 65536 r = (tci, r')" by fastforce
  then show ?thesis
    using False assms that [of "ETH_ADDRS @ be_bytes 2 (p_vlan p) @ be_bytes 2 tci" r']
    by (simp add: eth_part_def l3_off_def ETH_ADDRS_def to_bytes_be_def)
qed

lemma cut_0: "p_truncate p = 0 \<Longrightarrow> cut p d = d"
  by (simp add: cut_def slice_upto_def)

lemma frame_layout:
  assumes wf: "packet_wf seeds p" and t: "p_truncate p = 0"
  obtains eth hdr l4 where
    "frame_built seeds p = Inr (eth @ hdr @ l4 @ p_trailer p)"
    "length eth = l3_off p" "length hdr = ip_hdr_len p" "l4_filled seeds p = Inr l4"
    "p_family p = 4 \<Longrightarrow> fst (ip4_verdict hdr) \<longleftrightarrow> \<not> p_bad_ip p"
proof -
  obtain eth r' where e: "eth_part p (seeds (p_seed p)) = Inr (eth, r')" "length eth + 2 = l3_off p"
    using eth_part_total [of p "seeds (p_seed p)"] wf by (auto simp: packet_wf_def)
  obtain l4 where l: "l4_filled seeds p = Inr l4" "length l4 = p_l4_len p"
    using l4_filled_total [OF wf] by blast
  obtain ident r'' where i: "rng_below 65536 r' = (ident, r'')" by fastforce
  have i': "ident < 65536" using rng_below_less [OF _ i] by simp
  show ?thesis
  proof (cases "p_family p = 4")
    case True
    then have "p_ihl p * 4 + length l4 < 65536" using wf l by (simp add: packet_wf_def ip_hdr_len_def)
    then obtain hdr where h: "ip4_header seeds p (length l4) ident = Inr hdr" "length hdr = p_ihl p * 4"
      "fst (ip4_verdict hdr) \<longleftrightarrow> \<not> p_bad_ip p"
      using ip4_header_len [OF wf True _ i'] by blast
    have "frame_built seeds p = Inr ((eth @ [8, 0]) @ hdr @ l4 @ p_trailer p)"
      using True by (simp add: frame_built_def e(1) l(1) i h(1) cut_0 [OF t])
    then show ?thesis
      by (rule that) (use e(2) l(1) h(2,3) True in \<open>simp_all add: ip_hdr_len_def\<close>)
  next
    case False
    then have f6: "p_family p = 6" using wf by (simp add: packet_wf_def)
    have "length l4 < 65536" using wf l by (simp add: packet_wf_def)
    then obtain hdr where h: "ip6_header p (length l4) = Inr hdr" "length hdr = 40"
      using ip6_header_len [OF wf f6] by blast
    have "frame_built seeds p = Inr ((eth @ [0x86, 0xDD]) @ hdr @ l4 @ p_trailer p)"
      using f6 by (simp add: frame_built_def e(1) l(1) i h(1) cut_0 [OF t])
    then show ?thesis
      by (rule that) (use e(2) l(1) h(2) f6 in \<open>simp_all add: ip_hdr_len_def\<close>)
  qed
qed

section \<open>Expectations agree with the frame\<close>

lemma slice_mid: "length A = n \<Longrightarrow> b \<le> length B \<Longrightarrow> slice (A @ B @ C) (n + a) (n + b) = slice B a b"
  by (simp add: slice_def)

lemma l4_applies_cover:
  assumes "p_proto p = UDP \<and> 8 \<le> p_l4_len p \<longrightarrow> cover = udp_cov p"
  shows "l4_applies seeds p (Some cover) = l4_applies seeds p None"
proof (cases "p_proto p = UDP")
  case True
  then have "L4_CSUM_OFF (p_proto p) = Some 6" by (simp add: csum_off_cases)
  then show ?thesis using assms True by (cases "8 \<le> p_l4_len p") (simp_all add: l4_applies_def)
next
  case False
  then show ?thesis by (cases "L4_CSUM_OFF (p_proto p)") (simp_all add: l4_applies_def Let_def)
qed

lemma udp_len_field:
  assumes wf: "packet_wf seeds p" and udp: "p_proto p = UDP" "8 \<le> p_l4_len p"
    and l4: "l4_filled seeds p = Inr l4"
  shows "slice l4 4 6 = be_bytes 2 (udp_cov p)"
proof -
  have len: "length (p_l4 p) = p_l4_len p" using wf by (simp add: packet_wf_def)
  have "slice (p_l4 p) 4 6 = be_bytes 2 (udp_cov p)" using wf udp by (simp add: packet_wf_def)
  moreover have "slice l4 4 6 = slice (p_l4 p) 4 6"
  proof (cases "l4_applies seeds p None")
    case (Inl e)
    then show ?thesis using l4_applies_total [OF wf] by (metis returns_simps(2))
  next
    case (Inr app)
    obtain l4' where l: "l4_filled seeds p = Inr l4'"
      "l4_applies seeds p None = Inr False \<longrightarrow> l4' = p_l4 p"
      "l4_applies seeds p None = Inr True \<longrightarrow> (\<exists>c off. L4_CSUM_OFF (p_proto p) = Some off \<and>
          l4' = put_slice (p_l4 p) off (off + 2) (be_bytes 2 (l4_field p c)))"
      using l4_filled_total [OF wf] by metis
    have eq: "l4' = l4" using l(1) l4 by simp
    show ?thesis
    proof (cases app)
      case False
      then show ?thesis using l(2) Inr eq by simp
    next
      case True
      then obtain c where "l4 = put_slice (p_l4 p) 6 8 (be_bytes 2 (l4_field p c))"
        using l(3) Inr eq udp by (auto simp: csum_off_cases proto_defs)
      then show ?thesis using len udp by (simp add: put_slice_def slice_def drop_take)
    qed
  qed
  ultimately show ?thesis by simp
qed

definition want_l4 :: "packet \<Rightarrow> nat \<Rightarrow> nat" where
  "want_l4 p c = (if p_proto p = UDP \<and> c = 0 then 0xFFFF else c)"

lemma l4_field_good:
  assumes "c < 65536"
  shows "(p_proto p = UDP \<and> l4_field p c = 0) \<or> l4_field p c = want_l4 p c \<longleftrightarrow>
    \<not> p_bad_l4 p \<or> (p_proto p = UDP \<and> c = 0x0101)"
proof -
  have z: "x XOR 257 = 0 \<longleftrightarrow> x = 257" for x :: nat
    by (metis xor_self_eq xor_cancel_left xor.right_neutral)
  have n: "x XOR 257 \<noteq> x" for x :: nat by (rule xor_neq) simp
  have f: "65535 XOR 257 = (65278 :: nat)" by simp
  show ?thesis
    using z [of c] n [of c]
    by (cases "p_bad_l4 p"; cases "p_udp_zero p"; cases "p_proto p = UDP"; cases "c = 0")
      (auto simp: l4_field_def want_l4_def Let_def)
qed

lemma l4_verdict_eq:
  assumes wf: "packet_wf seeds p" and app: "l4_applies seeds p None = Inr True"
    and l4: "l4_filled seeds p = Inr l4"
  obtains c off where "L4_CSUM_OFF (p_proto p) = Some off" "l4_csum p (p_l4 p) None = Inr c"
    "l4_verdict p l4 off (udp_cov p) = Inr (c, \<not> p_bad_l4 p \<or> (p_proto p = UDP \<and> c = 0x0101))"
proof -
  obtain c off where c: "l4_csum p (p_l4 p) None = Inr c" "c < 65536"
    and off: "L4_CSUM_OFF (p_proto p) = Some off" "off + 2 \<le> p_l4_len p"
    and eq: "l4 = put_slice (p_l4 p) off (off + 2) (be_bytes 2 (l4_field p c))"
    using l4_filled_total [OF wf] app l4 by (metis sum.inject(2))
  have len: "length (p_l4 p) = p_l4_len p" using wf by (simp add: packet_wf_def)
  have "slice (p_l4 p) off (off + 2) = [0, 0]" using wf off by (simp add: packet_wf_def)
  then have "put_slice (p_l4 p) off (off + 2) [0, 0] = p_l4 p"
    using put_slice_slice_id [of off "off + 2" "p_l4 p"] by simp
  then have z: "put_slice l4 off (off + 2) [0, 0] = p_l4 p"
    unfolding eq using off len by (subst put_slice_put_slice) simp_all
  have "slice l4 off (off + 2) = be_bytes 2 (l4_field p c)"
    unfolding eq using off len by (subst slice_put_slice_same) simp_all
  then have v: "from_bytes_be (slice l4 off (off + 2)) = l4_field p c"
    using l4_field_bound [OF c(2)] by (simp add: from_be_bytes)
  have cov: "l4_csum p (p_l4 p) (Some (udp_cov p)) = Inr c"
    using c(1) by (simp add: l4_csum_def)
  have "l4_verdict p l4 off (udp_cov p) = Inr (c,
      (p_proto p = UDP \<and> l4_field p c = 0) \<or> l4_field p c = want_l4 p c)"
    by (simp only: l4_verdict_def Let_def v z cov res_bind_simps) (auto simp: want_l4_def)
  then show ?thesis using that off(1) c l4_field_good [OF c(2)] by simp
qed

lemma expect_built:
  assumes wf: "packet_wf seeds p" and t: "p_truncate p = 0"
  obtains f e app where "frame_built seeds p = Inr f" "expect seeds p f = Inr e"
    "l4_applies seeds p None = Inr app"
    "length f = l3_off p + ip_hdr_len p + p_l4_len p + length (p_trailer p)"
    "e_done e" "e_ip4 e \<longleftrightarrow> p_family p = 4" "e_ip_good e \<longleftrightarrow> p_family p = 6 \<or> \<not> p_bad_ip p"
    "e_l4_ok e \<longleftrightarrow> app" "app \<Longrightarrow> l4_csum p (p_l4 p) None = Inr (e_l4_csum e)"
    "e_l4_good e \<longleftrightarrow> app \<and> (\<not> p_bad_l4 p \<or> (p_proto p = UDP \<and> e_l4_csum e = 0x0101))"
proof -
  obtain eth hdr l4 where f: "frame_built seeds p = Inr (eth @ hdr @ l4 @ p_trailer p)"
    and len: "length eth = l3_off p" "length hdr = ip_hdr_len p" and l4: "l4_filled seeds p = Inr l4"
    and ipg: "p_family p = 4 \<Longrightarrow> fst (ip4_verdict hdr) \<longleftrightarrow> \<not> p_bad_ip p"
    using frame_layout [OF wf t] by metis
  have l4len: "length l4 = p_l4_len p" using l4_filled_total [OF wf] l4 by (metis sum.inject(2))
  obtain app where app: "l4_applies seeds p None = Inr app"
    using l4_applies_total [OF wf] by (auto simp: returns_iff)
  let ?f = "eth @ hdr @ l4 @ p_trailer p"
  let ?l4s = "l3_off p + ip_hdr_len p"
  define cover where "cover = (if p_proto p = UDP \<and> 6 \<le> p_l4_len p
      then from_bytes_be (slice ?f (?l4s + 4) (?l4s + 6)) else p_l4_len p)"
  have hs: "slice ?f (l3_off p) ?l4s = hdr"
    using slice_mid [of eth "l3_off p" "length hdr" hdr "l4 @ p_trailer p" 0] len
    by (simp add: slice_all)
  have sl: "b \<le> p_l4_len p \<Longrightarrow> slice ?f (?l4s + a) (?l4s + b) = slice l4 a b" for a b
    using slice_mid [of "eth @ hdr" ?l4s b l4 "p_trailer p" a] len l4len by simp
  have l4s: "slice ?f ?l4s (?l4s + p_l4_len p) = l4"
    using sl [of "p_l4_len p" 0] l4len by (simp add: slice_all)
  have ucov: "udp_cov p < 65536" using wf by (simp add: packet_wf_def)
  have cov: "cover = udp_cov p" if "p_proto p = UDP \<longrightarrow> 8 \<le> p_l4_len p"
    using that sl [of 6 4] udp_len_field [OF wf _ _ l4] ucov
    by (auto simp: cover_def from_be_bytes udp_cov_def)
  have ap: "l4_applies seeds p (Some cover) = Inr app"
    using l4_applies_cover [of p cover seeds] cov app by auto
  have fam: "p_family p \<in> {4, 6}" using wf by (simp add: packet_wf_def)
  obtain c good where v: "(if app then l4_verdict p l4 (the (L4_CSUM_OFF (p_proto p))) cover
        else Inr (0, False)) = Inr (c, good)"
    and vc: "app \<Longrightarrow> l4_csum p (p_l4 p) None = Inr c"
    and vg: "good \<longleftrightarrow> app \<and> (\<not> p_bad_l4 p \<or> (p_proto p = UDP \<and> c = 0x0101))"
  proof (cases app)
    case False
    then show ?thesis using that by simp
  next
    case True
    with app have at: "l4_applies seeds p None = Inr True" by simp
    obtain off where off: "L4_CSUM_OFF (p_proto p) = Some off" "off + 2 \<le> p_l4_len p"
      using l4_applies_True [OF at] by blast
    then have cu: "cover = udp_cov p" by (intro cov) (auto simp: csum_off_cases proto_defs)
    obtain c off' where v: "L4_CSUM_OFF (p_proto p) = Some off'" "l4_csum p (p_l4 p) None = Inr c"
      "l4_verdict p l4 off' (udp_cov p) = Inr (c, \<not> p_bad_l4 p \<or> (p_proto p = UDP \<and> c = 0x0101))"
      using l4_verdict_eq [OF wf at l4] .
    show ?thesis by (rule that) (use v True cu in simp_all)
  qed
  obtain ip_csum where ipv: "(if p_family p = 4 then ip4_verdict hdr else (True, 0)) =
      (p_family p = 6 \<or> \<not> p_bad_ip p, ip_csum)"
    using ipg fam by (cases "ip4_verdict hdr") auto
  define e where "e = \<lparr>e_done = True, e_ip4 = (p_family p = 4), e_l4_ok = app,
      e_l4_udp = (p_proto p = UDP), e_l3_end = ?l4s + p_l4_len p, e_ip_csum_pos = l3_off p + 10,
      e_l4_csum_pos = ?l4s + (case L4_CSUM_OFF (p_proto p) of Some o' \<Rightarrow> o' | None \<Rightarrow> 0),
      e_ip_csum = ip_csum, e_l4_csum = c, e_ip_good = (p_family p = 6 \<or> \<not> p_bad_ip p),
      e_l4_good = good\<rparr>"
  have flen: "length ?f = ?l4s + p_l4_len p + length (p_trailer p)" using len l4len by simp
  obtain F where F: "?f = F" by blast
  have d: "?l4s + p_l4_len p \<le> length F" "?l4s \<le> length F" using flen F by simp_all
  have cov': "(if p_proto p = UDP \<and> 6 \<le> p_l4_len p
      then from_bytes_be (slice F (?l4s + 4) (?l4s + 6)) else p_l4_len p) = cover"
    by (simp only: cover_def F)
  have f0: "p_family p \<noteq> 0" using fam by auto
  have "expect seeds p F = Inr e"
    by (simp only: expect_def Let_def f0 d cov' if_False simp_thms hs [unfolded F] l4s [unfolded F]
        ipv prod.case ap res_bind_simps v e_def)
  then show ?thesis
    by (rule that [OF f [unfolded F] _ app flen [unfolded F]])
      (use vc vg in \<open>simp_all add: e_def\<close>)
qed

section \<open>Building\<close>

definition params_ok :: "packet \<Rightarrow> bool" where
  "params_ok p \<longleftrightarrow>
     p_family p \<in> {4, 6} \<and> p_proto p < 256 \<and> 5 \<le> p_ihl p \<and> p_ihl p \<le> 15 \<and>
     p_vlan p < 65536 \<and> ip_hdr_len p + p_l4_len p < 65536 \<and> udp_cov p < 65536 \<and>
     (\<forall>opts. p_opts p = Some opts \<longrightarrow> length opts + 20 = p_ihl p * 4)"

lemma slice_put_slice_below:
  "b \<le> a' \<Longrightarrow> a' \<le> length xs \<Longrightarrow> slice (put_slice xs a' b' ys) a b = slice xs a b"
  by (simp add: slice_def put_slice_def flip: drop_take)

lemma l4_bytes_ok:
  assumes ul: "udp_cov p < 65536"
  obtains l4 r' where "l4_bytes p r = Inr (l4, r')" "length l4 = p_l4_len p"
    "case L4_CSUM_OFF (p_proto p) of None \<Rightarrow> True
      | Some off \<Rightarrow> off + 2 \<le> p_l4_len p \<longrightarrow> slice l4 off (off + 2) = [0, 0]"
    "p_proto p = UDP \<and> 6 \<le> p_l4_len p \<longrightarrow> slice l4 4 6 = be_bytes 2 (udp_cov p)"
proof -
  obtain b r' where b: "rng_bytes (p_l4_len p) r = (b, r')" by fastforce
  then have lb: "length b = p_l4_len p" by (rule rng_bytes_length)
  define b1 where "b1 = (if p_proto p = TCP \<and> 20 \<le> p_l4_len p
      then b[12 := (push_bit 4 5 OR (b ! 12 AND 0x0F))] else b)"
  define b2 where "b2 = (if p_proto p = UDP \<and> 6 \<le> p_l4_len p
      then put_slice b1 4 6 (be_bytes 2 (udp_cov p)) else b1)"
  define b3 where "b3 = (case L4_CSUM_OFF (p_proto p) of None \<Rightarrow> b2
      | Some off \<Rightarrow> if off + 2 \<le> p_l4_len p then put_slice b2 off (off + 2) [0, 0] else b2)"
  have l1: "length b1 = p_l4_len p" by (simp add: b1_def lb)
  have l2: "length b2 = p_l4_len p" by (simp add: b2_def l1 length_put_slice)
  have l3: "length b3 = p_l4_len p" by (simp add: b3_def l2 length_put_slice split: option.split)
  have ulv: "p_proto p = UDP \<Longrightarrow> (case p_udp_len p of None \<Rightarrow> p_l4_len p | Some ul \<Rightarrow> ul) = udp_cov p"
    by (simp add: udp_cov_def split: option.split)
  have m: "(if p_proto p = UDP \<and> 6 \<le> p_l4_len p
      then put_be16 b1 4 (case p_udp_len p of None \<Rightarrow> p_l4_len p | Some ul \<Rightarrow> ul) else Inr b1) = Inr b2"
    using ulv by (cases "p_proto p = UDP") (simp_all add: b2_def put_be16_ok [OF ul])
  have "l4_bytes p r = Inr (b3, r')"
    by (simp only: l4_bytes_def b prod.case Let_def b1_def [symmetric] m res_bind_simps b3_def)
  moreover have "case L4_CSUM_OFF (p_proto p) of None \<Rightarrow> True
      | Some off \<Rightarrow> off + 2 \<le> p_l4_len p \<longrightarrow> slice b3 off (off + 2) = [0, 0]"
    using l2 by (auto simp: b3_def slice_put_slice_same split: option.split)
  moreover have "slice b3 4 6 = be_bytes 2 (udp_cov p)" if "p_proto p = UDP" "6 \<le> p_l4_len p"
  proof -
    have "slice b2 4 6 = be_bytes 2 (udp_cov p)"
      using that l1 by (simp add: b2_def slice_put_slice_same)
    moreover have "L4_CSUM_OFF (p_proto p) = Some 6" using that by (simp add: csum_off_cases)
    ultimately show ?thesis using l2 that by (simp add: b3_def slice_put_slice_below)
  qed
  ultimately show ?thesis using that l3 by blast
qed

lemma build_with_wf:
  assumes "params_ok p"
  obtains p' where "build_with r p = Inr p'" "packet_wf seeds p'"
    "\<exists>l4 as. p' = p\<lparr>p_addr_bytes := as, p_l4 := l4\<rparr>"
proof -
  obtain as r1 where as: "addrs p r = (as, r1)" by fastforce
  then have la: "length as = (if p_family p = 4 then 8 else 32)"
    unfolding addrs_def by (rule rng_bytes_length)
  have uc: "udp_cov p < 65536" using assms by (simp add: params_ok_def)
  obtain l4 r2 where l: "l4_bytes p r1 = Inr (l4, r2)" "length l4 = p_l4_len p"
    "case L4_CSUM_OFF (p_proto p) of None \<Rightarrow> True
      | Some off \<Rightarrow> off + 2 \<le> p_l4_len p \<longrightarrow> slice l4 off (off + 2) = [0, 0]"
    "p_proto p = UDP \<and> 6 \<le> p_l4_len p \<longrightarrow> slice l4 4 6 = be_bytes 2 (udp_cov p)"
    using l4_bytes_ok [OF uc] .
  let ?p = "p\<lparr>p_addr_bytes := Some as, p_l4 := l4\<rparr>"
  have "ip_hdr_len ?p = ip_hdr_len p" "udp_cov ?p = udp_cov p"
    by (simp_all add: ip_hdr_len_def udp_cov_def split: option.split)
  then have "packet_wf seeds ?p"
    using assms l la by (simp add: packet_wf_def params_ok_def split: option.splits)
  moreover have "build_with r p = Inr ?p" by (simp add: build_with_def as l)
  ultimately show ?thesis using that by blast
qed

section \<open>Random packets\<close>

lemma draw_kind_ok:
  "returns (draw_kind r)"
  "draw_kind r = Inr ((family, proto), r') \<Longrightarrow> family \<in> {0, 4, 6} \<and> proto < 256"
proof -
  show "returns (draw_kind r)"
    by (auto simp: draw_kind_def rng_pick_weighted_def intro!: rng_bind_total)
  assume "draw_kind r = Inr ((family, proto), r')"
  then show "family \<in> {0, 4, 6} \<and> proto < 256"
    by (auto simp: draw_kind_def rng_pick_weighted_def res_simps proto_defs split: if_splits
        dest!: rng_choices_in [rotated])
qed

lemma min_l4_of_le: "min_l4_of proto \<le> 20"
  by (auto simp: min_l4_of_def split: option.split)

lemma draw_l4_len_ok:
  assumes "m \<le> 20" "20 \<le> max_l4"
  shows "returns (draw_l4_len m max_l4 r)"
    and "draw_l4_len m max_l4 r = Inr (n, r') \<Longrightarrow> n \<le> max 21 max_l4"
proof -
  show "returns (draw_l4_len m max_l4 r)"
    unfolding draw_l4_len_def using assms
    by (intro rng_bind_total) (auto intro: rng_nat_total rng_chance_total)
  assume "draw_l4_len m max_l4 r = Inr (n, r')"
  then show "n \<le> max 21 max_l4"
    using assms by (auto simp: draw_l4_len_def res_simps dest!: rng_nat_bounds split: if_splits)
qed

lemma draw_base_ok:
  "returns (draw_base family proto l4_len r)"
  "draw_base family proto l4_len r = Inr ((p, frag), r') \<Longrightarrow>
     p_family p = family \<and> p_proto p = proto \<and> p_l4_len p = l4_len \<and> p_ihl p \<in> {5, 6, 9, 15} \<and>
     p_vlan p \<in> {0, TPID_8021Q, TPID_8021AD} \<and> p_udp_len p = None \<and> p_opts p = None \<and>
     p_truncate p = 0"
proof -
  show "returns (draw_base family proto l4_len r)"
    unfolding draw_base_def
    by (intro rng_bind_total) (auto simp: rng_pick_def intro: rng_chance_total rng_nat_total)
  assume "draw_base family proto l4_len r = Inr ((p, frag), r')"
  then obtain vlan ihl r1 r2 r3 r4 mf fo to' bi bl uz tr sd where
    v: "rng_choice [0, 0, 0, TPID_8021Q, TPID_8021AD] r1 = (vlan, r2)"
      "rng_choice [5, 5, 5, 6, 9, 15] r3 = (ihl, r4)"
    and p: "p = default_packet\<lparr>p_vlan := vlan, p_family := family, p_proto := proto,
               p_l4_len := l4_len, p_ihl := ihl, p_mf := mf, p_frag_off := fo,
               p_trailer := tr, p_bad_ip := bi, p_bad_l4 := bl,
               p_udp_zero := uz, p_seed := sd\<rparr>"
    unfolding draw_base_def rng_pick_def rng_bind_Inr_iff sum.inject prod.inject by blast
  show "p_family p = family \<and> p_proto p = proto \<and> p_l4_len p = l4_len \<and> p_ihl p \<in> {5, 6, 9, 15} \<and>
     p_vlan p \<in> {0, TPID_8021Q, TPID_8021AD} \<and> p_udp_len p = None \<and> p_opts p = None \<and>
     p_truncate p = 0"
    using rng_choice_in [OF _ v(1)] rng_choice_in [OF _ v(2)] by (simp add: p default_packet_def)
qed

lemma draw_udp_len_ok:
  "returns (draw_udp_len p r)"
  "draw_udp_len p r = Inr (p', r') \<Longrightarrow> p' = p \<or> (\<exists>ul. p' = p\<lparr>p_udp_len := Some ul\<rparr> \<and> ul \<le> p_l4_len p + 20)"
proof -
  show "returns (draw_udp_len p r)"
  proof (cases "p_proto p = UDP \<and> 8 \<le> p_l4_len p")
    case True
    then show ?thesis unfolding draw_udp_len_def
      by (intro rng_bind_total rng_chance_total) (auto simp: rng_pick_def intro!: rng_bind_total rng_nat_total)
  next
    case False
    then have "\<And>k. rng_and_chance (p_proto p = UDP \<and> 8 \<le> p_l4_len p) k r = Inr (False, r)"
      by (simp only: rng_and_chance_def if_False)
    then show ?thesis by (simp add: draw_udp_len_def rng_bind_def)
  qed
  assume *: "draw_udp_len p r = Inr (p', r')"
  show "p' = p \<or> (\<exists>ul. p' = p\<lparr>p_udp_len := Some ul\<rparr> \<and> ul \<le> p_l4_len p + 20)"
  proof (cases "p' = p")
    case False
    with * obtain x r1 r2 y r3 z r4 ul r5 where
      "rng_nat 8 (p_l4_len p) r1 = Inr (x, r2)" "rng_nat 1 20 r2 = Inr (y, r3)"
      "rng_nat 0 7 r3 = Inr (z, r4)" and u: "rng_choice [x, p_l4_len p + y, z] r4 = (ul, r5)"
      and p': "p' = p\<lparr>p_udp_len := Some ul\<rparr>"
      by (auto simp: draw_udp_len_def res_simps rng_pick_def split: if_splits)
    then have "8 \<le> x \<and> x \<le> p_l4_len p" "y \<le> 20" "z \<le> 7"
      using rng_nat_bounds by (blast, blast, blast)
    with rng_choice_in [OF _ u] p' show ?thesis by auto
  qed simp
qed

lemma truncate_self: "\<exists>t. p = p\<lparr>p_truncate := t\<rparr>"
  by (rule exI [of _ "p_truncate p"]) simp

lemma draw_truncate_ok:
  "returns (draw_truncate p r)"
  "draw_truncate p r = Inr (p', r') \<Longrightarrow> \<exists>t. p' = p\<lparr>p_truncate := t\<rparr>"
proof -
  show "returns (draw_truncate p r)"
  proof (cases "p_l4_len p = 0")
    case True
    then show ?thesis by (simp add: draw_truncate_def rng_and_chance_def rng_bind_def)
  next
    case False
    then show ?thesis unfolding draw_truncate_def
      by (intro rng_bind_total rng_chance_total) (auto intro!: rng_bind_total rng_nat_total)
  qed
  assume "draw_truncate p r = Inr (p', r')"
  then show "\<exists>t. p' = p\<lparr>p_truncate := t\<rparr>"
    by (auto simp: draw_truncate_def res_simps split: if_splits intro: truncate_self)
qed

lemma params_ok_draws:
  assumes "params_ok p" "p_udp_len p = None" "p_l4_len p \<le> 60000"
  shows "params_ok (p\<lparr>p_mf := m\<rparr>)" "ul \<le> p_l4_len p + 20 \<Longrightarrow> params_ok (p\<lparr>p_udp_len := Some ul\<rparr>)"
    "ul \<le> p_l4_len p + 20 \<Longrightarrow> params_ok (p\<lparr>p_mf := m, p_udp_len := Some ul\<rparr>)"
  using assms by (auto simp: params_ok_def udp_cov_def ip_hdr_len_def)

lemma params_ok_truncate: "params_ok (p\<lparr>p_truncate := t\<rparr>) = params_ok p"
  by (simp add: params_ok_def udp_cov_def ip_hdr_len_def split: option.split)

lemma build_total: "udp_cov p < 65536 \<Longrightarrow> returns (build seeds p)"
  by (rule l4_bytes_ok [of p "snd (addrs p (seeds (p_seed p)))"])
    (auto simp: build_def build_with_def split: prod.split)

lemma build_fields:
  "build seeds p = Inr p' \<Longrightarrow> \<exists>l4 as. p' = p\<lparr>p_addr_bytes := as, p_l4 := l4\<rparr>"
  by (auto simp: build_def build_with_def res_simps)

lemma random_packet_ok:
  assumes m: "20 \<le> max_l4" "max_l4 \<le> 60000"
  shows "returns (random_packet seeds max_l4 r)"
    and "random_packet seeds max_l4 r = Inr (p, r') \<Longrightarrow> p_family p = 0 \<or> packet_wf seeds p"
proof -
  have key: "udp_cov p3 < 65536 \<and> (p_family p3 = 0 \<or> params_ok p3)"
    if d: "draw_kind r0 = Inr ((family, proto), r1)" "draw_l4_len (min_l4_of proto) max_l4 r1 = Inr (n, r2)"
      "draw_base family proto n r2 = Inr ((p1, frag), r3)"
      "draw_udp_len (if \<not> p_mf p1 \<and> frag \<and> p_frag_off p1 = 0 then p1\<lparr>p_mf := True\<rparr> else p1) r3 = Inr (p2, r4)"
      "draw_truncate p2 r4 = Inr (p3, r5)"
    for r0 family proto r1 n r2 p1 frag r3 p2 r4 p3 r5
  proof -
    note k = draw_kind_ok(2) [OF d(1)] and b = draw_base_ok(2) [OF d(3)]
    have n: "n \<le> 60000" using draw_l4_len_ok(2) [OF min_l4_of_le m(1) d(2)] m(2) by simp
    have p1: "p_family p1 = 0 \<or> params_ok p1"
      using k b n by (auto simp: params_ok_def udp_cov_def ip_hdr_len_def TPID_8021Q_def TPID_8021AD_def)
    let ?q = "if \<not> p_mf p1 \<and> frag \<and> p_frag_off p1 = 0 then p1\<lparr>p_mf := True\<rparr> else p1"
    have q: "p_l4_len ?q = n" "p_udp_len ?q = None" "p_family ?q = p_family p1"
      "p_family ?q = 0 \<or> params_ok ?q" using b p1 params_ok_draws(1) [of p1] n by auto
    have u2: "udp_cov p2 < 65536 \<and> (p_family p2 = 0 \<or> params_ok p2)"
      using draw_udp_len_ok(2) [OF d(4)]
    proof
      assume "p2 = ?q"
      then show ?thesis using q n by (simp only: udp_cov_def) simp
    next
      assume "\<exists>ul. p2 = ?q\<lparr>p_udp_len := Some ul\<rparr> \<and> ul \<le> p_l4_len ?q + 20"
      then obtain ul where p2: "p2 = ?q\<lparr>p_udp_len := Some ul\<rparr>" and ul: "ul \<le> p_l4_len ?q + 20" by blast
      have "p_family p2 = 0 \<or> params_ok p2"
        using q(4) params_ok_draws(2) [OF _ q(2) _ ul] n q(1) by (auto simp only: p2) auto
      moreover have "udp_cov p2 < 65536" using ul q(1) n by (simp only: p2 udp_cov_def) simp
      ultimately show ?thesis by blast
    qed
    obtain t where "p3 = p2\<lparr>p_truncate := t\<rparr>" using draw_truncate_ok(2) [OF d(5)] by blast
    moreover have "udp_cov (p2\<lparr>p_truncate := t\<rparr>) = udp_cov p2"
      by (simp add: udp_cov_def split: option.split)
    ultimately show ?thesis using u2 params_ok_truncate [where p = p2 and t = t] by simp
  qed
  show "random_packet seeds max_l4 r = Inr (p, r') \<Longrightarrow> p_family p = 0 \<or> packet_wf seeds p"
  proof -
    assume "random_packet seeds max_l4 r = Inr (p, r')"
    then obtain family proto r1 n r2 p1 frag r3 p2 r4 p3 where
      s: "draw_kind r = Inr ((family, proto), r1)" "draw_l4_len (min_l4_of proto) max_l4 r1 = Inr (n, r2)"
      "draw_base family proto n r2 = Inr ((p1, frag), r3)"
      "draw_udp_len (if \<not> p_mf p1 \<and> frag \<and> p_frag_off p1 = 0 then p1\<lparr>p_mf := True\<rparr> else p1) r3 = Inr (p2, r4)"
      "draw_truncate p2 r4 = Inr (p3, r')" and p: "build seeds p3 = Inr p"
      by (auto simp: random_packet_def rng_bind_Inr_iff res_bind_Inr_iff)
    from key [OF s] show ?thesis
    proof (elim conjE disjE)
      assume "p_family p3 = 0"
      then show ?thesis using build_fields [OF p] by auto
    next
      assume "params_ok p3"
      then obtain p' where "build_with (seeds (p_seed p3)) p3 = Inr p'" "packet_wf seeds p'"
        using build_with_wf by blast
      then show ?thesis using p by (simp add: build_def)
    qed
  qed
  show "returns (random_packet seeds max_l4 r)"
  proof -
    obtain family proto r1 where s1: "draw_kind r = Inr ((family, proto), r1)"
      using draw_kind_ok(1) [of r] by (auto simp: returns_iff)
    obtain n r2 where s2: "draw_l4_len (min_l4_of proto) max_l4 r1 = Inr (n, r2)"
      using draw_l4_len_ok(1) [OF min_l4_of_le m(1)] by (fastforce simp: returns_iff)
    obtain p1 frag r3 where s3: "draw_base family proto n r2 = Inr ((p1, frag), r3)"
      using draw_base_ok(1) by (fastforce simp: returns_iff)
    obtain p2 r4 where s4: "draw_udp_len (if \<not> p_mf p1 \<and> frag \<and> p_frag_off p1 = 0
        then p1\<lparr>p_mf := True\<rparr> else p1) r3 = Inr (p2, r4)"
      using draw_udp_len_ok(1) by (fastforce simp: returns_iff)
    obtain p3 r5 where s5: "draw_truncate p2 r4 = Inr (p3, r5)"
      using draw_truncate_ok(1) by (fastforce simp: returns_iff)
    obtain p4 where "build seeds p3 = Inr p4"
      using build_total [of p3 seeds] key [OF s1 s2 s3 s4 s5] by (auto simp: returns_iff)
    then show ?thesis
      by (simp only: random_packet_def rng_bind_def s1 s2 s3 s4 s5 res_bind_simps prod.case returns_simps)
  qed
qed

section \<open>Forcing a zero checksum\<close>

lemma fold_once:
  assumes "c < 65536" "w < 65536"
  shows "((w + c) AND 0xFFFF) + drop_bit 16 (w + c) < (65536 :: nat) \<and>
    (((w + c) AND 0xFFFF) + drop_bit 16 (w + c)) mod 65535 = (w + c) mod 65535 \<and>
    (((w + c) AND 0xFFFF) + drop_bit 16 (w + c) = 0 \<longleftrightarrow> w + c = 0)"
proof -
  have "w + c \<le> 131070" using assms by simp
  then have "(w + c) div 65536 \<le> 1" by simp
  moreover have "(w + c) mod 65536 < 65536" by simp
  moreover have "(w + c) div 65536 = 1 \<Longrightarrow> (w + c) mod 65536 \<le> 65534"
    using \<open>w + c \<le> 131070\<close> div_mult_mod_eq [of "w + c" 65536] by simp
  ultimately have "(w + c) mod 65536 + (w + c) div 65536 < 65536" by linarith
  moreover have "(w + c) mod 65536 + (w + c) div 65536 = 0 \<longleftrightarrow> w + c = 0"
    by (metis add_is_0 div_mult_mod_eq div_0 mod_0 mult_0)
  ultimately show ?thesis using fold16_step_mod [of "w + c"] by (simp add: mask16_nat drop16_nat)
qed

lemma add_complement_sum:
  assumes ev: "even (length pre)" and w: "w < 65536"
    and c: "c = csum (pre @ be_bytes 2 w @ post)"
    and w': "w' = ((w + c) AND 0xFFFF) + drop_bit 16 (w + c)"
  shows "csum (pre @ be_bytes 2 w' @ post) = 0"
proof -
  let ?R = "word_sum pre + word_sum (even_pad post)"
  let ?f = "fold16 (w + ?R)"
  have f: "?f < 65536" by (rule fold16_bound)
  have c': "c = 65535 - ?f" using ones_sum_field [OF ev w] c by (simp add: csum_eq)
  have cl: "c < 65536" using c' by simp
  note fo = fold_once [OF cl w, folded w']
  have "(w' + ?R) mod 65535 = (w + c + ?R) mod 65535" using fo by (metis mod_add_left_eq)
  also have "w + c + ?R = (w + ?R) + c" by simp
  also have "\<dots> mod 65535 = (?f + c) mod 65535" by (metis fold16_mod mod_add_left_eq)
  also have "?f + c = 65535" using c' f by simp
  finally have m: "(w' + ?R) mod 65535 = 0" by simp
  have "0 < w' + ?R"
  proof (rule ccontr)
    assume "\<not> 0 < w' + ?R"
    then have z: "w' = 0" "?R = 0" by simp_all
    then have "w = 0" "c = 0" using fo by simp_all
    with z c' show False by (simp add: fold16.simps)
  qed
  then have "fold16 (w' + ?R) = 65535" using m by (simp add: fold16_FFFF_iff)
  then show ?thesis using ones_sum_field [OF ev, of w' post] fo by (simp add: csum_eq)
qed

text \<open>What \<open>l4_csum\<close> sums, with its prefix of even length.\<close>

lemma l4_csum_prefix:
  assumes wf: "packet_wf seeds p" and k: "p_l4_len p < 65536"
  obtains ph where "even (length ph)"
    "\<And>l4. length l4 = p_l4_len p \<Longrightarrow> l4_csum p l4 None = Inr (csum (ph @ take (udp_cov p) l4))"
proof -
  obtain as where as: "p_addr_bytes p = Some as" "length as = (if p_family p = 4 then 8 else 32)"
    using wf_addr [OF wf] .
  have pr: "p_proto p < 256" using wf by (simp add: packet_wf_def)
  let ?n = "min (udp_cov p) (p_l4_len p)"
  have n: "?n < 256 ^ 2" "?n < 256 ^ 4" using k by simp_all
  let ?ph = "if p_proto p = ICMP \<and> p_family p = 4 then []
    else if p_family p = 6 then as @ be_bytes 4 ?n @ [0, 0, 0, word_of_nat (p_proto p)]
    else as @ [0, word_of_nat (p_proto p)] @ be_bytes 2 ?n"
  show ?thesis
  proof (rule that [of ?ph])
    show "even (length ?ph)" using as(2) by auto
    fix l4 :: bytes
    assume "length l4 = p_l4_len p"
    then have "length (take (udp_cov p) l4) = ?n" by simp
    then show "l4_csum p l4 None = Inr (csum (?ph @ take (udp_cov p) l4))"
      using n pr by (simp add: l4_csum_def Let_def addr_bytes_def as byte_of_def to_bytes_be_def del: length_take)
  qed
qed

lemma split_word:
  assumes "10 \<le> length xs"
  shows "take k xs = take k (take 8 xs @ be_bytes 2 (from_bytes_be (slice xs 8 10)) @ drop 10 xs)"
proof -
  have "length (slice xs 8 10) = 2" using assms by simp
  then have "be_bytes 2 (from_bytes_be (slice xs 8 10)) = slice xs 8 10"
    using be_bytes_from [of "slice xs 8 10"] by simp
  moreover have "put_slice xs 8 10 (slice xs 8 10) = xs" by (rule put_slice_slice_id) simp
  ultimately show ?thesis by (simp add: put_slice_def)
qed

lemma force_zero_ok:
  assumes wf: "packet_wf seeds p" and app: "l4_applies seeds p None = Inr True"
    and cov: "10 \<le> udp_cov p" "10 \<le> p_l4_len p"
  obtains l4 where "force_zero_l4_csum seeds p = Inr (p\<lparr>p_l4 := l4\<rparr>)" "length l4 = p_l4_len p"
    "l4_csum (p\<lparr>p_l4 := l4\<rparr>) l4 None = Inr 0"
proof -
  have len: "length (p_l4 p) = p_l4_len p" and k: "p_l4_len p < 65536" using wf by (auto simp: packet_wf_def)
  obtain ph where ev: "even (length ph)"
    and cs: "\<And>l4. length l4 = p_l4_len p \<Longrightarrow> l4_csum p l4 None = Inr (csum (ph @ take (udp_cov p) l4))"
    using l4_csum_prefix [OF wf k] by blast
  define w where "w = from_bytes_be (slice (p_l4 p) 8 10)"
  define pre where "pre = ph @ take 8 (p_l4 p)"
  define post where "post = take (udp_cov p - 10) (drop 10 (p_l4 p))"
  define c where "c = csum (pre @ be_bytes 2 w @ post)"
  define w' where "w' = ((w + c) AND 0xFFFF) + drop_bit 16 (w + c)"
  have tk: "take (udp_cov p) (take 8 (p_l4 p) @ be_bytes 2 v @ drop 10 (p_l4 p)) =
      take 8 (p_l4 p) @ be_bytes 2 v @ post" for v
    using cov len by (simp add: post_def)
  have c: "l4_csum p (p_l4 p) None = Inr c"
    unfolding cs [OF len] split_word [of "p_l4 p" "udp_cov p", unfolded len, OF cov(2), folded w_def] tk
    by (simp add: c_def pre_def)
  have w: "w < 65536" using from_bytes_be_less [of "slice (p_l4 p) 8 10"] len cov by (simp add: w_def)
  have ev': "even (length pre)" using ev len cov by (simp add: pre_def)
  have w'l: "w' < 65536" unfolding w'_def using fold_once [OF _ w, of c] csum_bound c_def by simp
  define l4 where "l4 = put_slice (p_l4 p) 8 10 (be_bytes 2 w')"
  have ll: "length l4 = p_l4_len p" using len cov by (simp add: l4_def length_put_slice)
  have "l4_csum p l4 None = Inr (csum (pre @ be_bytes 2 w' @ post))"
    unfolding cs [OF ll] by (simp only: l4_def put_slice_def tk pre_def append_assoc)
  then have z: "l4_csum p l4 None = Inr 0"
    using add_complement_sum [OF ev' w c_def w'_def] by simp
  moreover have "l4_csum (p\<lparr>p_l4 := l4\<rparr>) x None = l4_csum p x None" for x
  proof -
    have "udp_cov (p\<lparr>p_l4 := l4\<rparr>) = udp_cov p" "addr_bytes (p\<lparr>p_l4 := l4\<rparr>) = addr_bytes p"
      by (simp_all add: udp_cov_def addr_bytes_def split: option.split)
    then show ?thesis by (simp add: l4_csum_def Let_def cong: if_cong)
  qed
  ultimately have z': "l4_csum (p\<lparr>p_l4 := l4\<rparr>) l4 None = Inr 0" by simp
  have "force_zero_l4_csum seeds p = Inr (p\<lparr>p_l4 := l4\<rparr>)"
    using cov(2) app c w'l z' by (simp add: force_zero_l4_csum_def Let_def w_def [symmetric]
        w'_def [symmetric] put_be16_ok l4_def [symmetric])
  then show ?thesis using that ll z' by blast
qed

lemma l4_csum_set_l4: "l4_csum (p\<lparr>p_l4 := l4\<rparr>) x None = l4_csum p x None"
proof -
  have "udp_cov (p\<lparr>p_l4 := l4\<rparr>) = udp_cov p" "addr_bytes (p\<lparr>p_l4 := l4\<rparr>) = addr_bytes p"
    by (simp_all add: udp_cov_def addr_bytes_def split: option.split)
  then show ?thesis by (simp add: l4_csum_def Let_def cong: if_cong)
qed

lemma force_zero_short:
  assumes wf: "packet_wf seeds p" and app: "l4_applies seeds p None = Inr True"
    and cov: "udp_cov p = 8" "10 \<le> p_l4_len p"
    and c: "l4_csum p (p_l4 p) None = Inr c" "c \<noteq> 0"
  shows "force_zero_l4_csum seeds p = Inl (AssertionError ''checksum is 0'')"
proof -
  have len: "length (p_l4 p) = p_l4_len p" and k: "p_l4_len p < 65536" using wf by (auto simp: packet_wf_def)
  obtain ph where
    cs: "\<And>l4. length l4 = p_l4_len p \<Longrightarrow> l4_csum p l4 None = Inr (csum (ph @ take (udp_cov p) l4))"
    using l4_csum_prefix [OF wf k] by blast
  have cb: "c < 65536" using cs [OF len] c(1) csum_bound by auto
  define w where "w = from_bytes_be (slice (p_l4 p) 8 10)"
  define w' where "w' = ((w + c) AND 0xFFFF) + drop_bit 16 (w + c)"
  have w: "w < 65536" using from_bytes_be_less [of "slice (p_l4 p) 8 10"] len cov by (simp add: w_def)
  have w'l: "w' < 65536" unfolding w'_def using fold_once [OF cb w] by simp
  define l4 where "l4 = put_slice (p_l4 p) 8 10 (be_bytes 2 w')"
  have ll: "length l4 = p_l4_len p" using len cov by (simp add: l4_def length_put_slice)
  have "take 8 l4 = take 8 (p_l4 p)" using len cov by (simp add: l4_def put_slice_def)
  then have "l4_csum p l4 None = Inr c" using cs [OF ll] cs [OF len] c(1) cov(1) by simp
  then have z: "l4_csum (p\<lparr>p_l4 := l4\<rparr>) l4 None = Inr c" by (simp only: l4_csum_set_l4)
  then show ?thesis
    using cov(2) app c w'l by (simp add: force_zero_l4_csum_def Let_def w_def [symmetric]
        w'_def [symmetric] put_be16_ok l4_def [symmetric])
qed

section \<open>Properties\<close>

text \<open>C2: For every well-formed, untruncated packet the frame builder and the expectation agree:
  the frame has the announced length, the expectation reports it complete, the IPv4 header verdict
  is good exactly when \<open>bad_ip\<close> was not asked for, the L4 part applies exactly when the builder
  inserted a checksum, and the L4 verdict is good exactly when \<open>bad_l4\<close> was not asked for or the
  packet is UDP with the checksum 0x0101, whose corruption is the UDP value for "none".\<close>
theorem packet_expectation:
  assumes "packet_wf seeds p" and "p_truncate p = 0"
  shows "\<exists>f e app. frame_built seeds p = Inr f \<and> expect seeds p f = Inr e \<and>
    l4_applies seeds p None = Inr app \<and>
    length f = l3_off p + ip_hdr_len p + p_l4_len p + length (p_trailer p) \<and>
    e_done e \<and> (e_ip4 e \<longleftrightarrow> p_family p = 4) \<and>
    (e_ip_good e \<longleftrightarrow> p_family p = 6 \<or> \<not> p_bad_ip p) \<and> (e_l4_ok e \<longleftrightarrow> app) \<and>
    (e_l4_good e \<longleftrightarrow> app \<and> (\<not> p_bad_l4 p \<or> (p_proto p = UDP \<and> e_l4_csum e = 0x0101)))"
  by (rule expect_built [OF assms]) blast

definition sample_packet :: packet where
  "sample_packet = default_packet\<lparr>p_l4 := [1, 2, 3, 4, 0, 8, 0, 0],
     p_addr_bytes := Some [10, 0, 0, 1, 10, 0, 0, 2], p_bad_l4 := True\<rparr>"

lemma sample_packet_wf: "packet_wf (\<lambda>_. []) sample_packet"
  by (simp add: packet_wf_def sample_packet_def default_packet_def ip_hdr_len_def udp_cov_def
      L4_CSUM_OFF_def proto_defs slice_def be_bytes_2)

theorem packet_expectation_witness:
  "\<exists>f e. frame_built (\<lambda>_. []) sample_packet = Inr f \<and> expect (\<lambda>_. []) sample_packet f = Inr e \<and>
     length f = 42 \<and> e_ip_good e"
  using packet_expectation [OF sample_packet_wf]
  by (auto simp: sample_packet_def default_packet_def l3_off_def ip_hdr_len_def)

text \<open>C7: Whatever the draws, the random packet generator returns for every maximum between 20 and
  60000, and the packet is well formed unless it is not an IP packet at all.\<close>
theorem random_packet_wf:
  assumes "20 \<le> max_l4" and "max_l4 \<le> 60000"
  shows "\<exists>p r'. random_packet seeds max_l4 r = Inr (p, r') \<and> (p_family p = 0 \<or> packet_wf seeds p)"
proof -
  obtain p r' where "random_packet seeds max_l4 r = Inr (p, r')"
    using random_packet_ok(1) [OF assms] by (fastforce simp: returns_iff)
  then show ?thesis using random_packet_ok(2) [OF assms] by blast
qed

theorem random_packet_wf_witness:
  "\<exists>p r'. random_packet (\<lambda>s. [s]) 300 [3, 1, 4, 1, 5] = Inr (p, r') \<and>
     (p_family p = 0 \<or> packet_wf (\<lambda>s. [s]) p)"
  by (rule random_packet_wf) simp_all

text \<open>C6: When the checksum applies and covers the word at 8..9, forcing a zero checksum succeeds: it
  changes only that L4 word and the checksum of the result is 0.\<close>
theorem force_zero_works:
  assumes "packet_wf seeds p" and "l4_applies seeds p None = Inr True"
    and "10 \<le> udp_cov p" and "10 \<le> p_l4_len p"
  shows "\<exists>l4. force_zero_l4_csum seeds p = Inr (p\<lparr>p_l4 := l4\<rparr>) \<and> length l4 = p_l4_len p \<and>
    l4_csum (p\<lparr>p_l4 := l4\<rparr>) l4 None = Inr 0"
  by (rule force_zero_ok [OF assms]) blast

definition sample_udp :: "nat option \<Rightarrow> nat \<Rightarrow> packet" where
  "sample_udp ul n = default_packet\<lparr>p_l4_len := 10, p_udp_len := ul,
     p_l4 := [1, 2, 3, 4, 0, word_of_nat n, 0, 0, 7, 7],
     p_addr_bytes := Some [10, 0, 0, 1, 10, 0, 0, 2]\<rparr>"

lemma sample_udp_wf:
  "packet_wf (\<lambda>_. []) (sample_udp None 10)" "packet_wf (\<lambda>_. []) (sample_udp (Some 8) 8)"
  by (simp_all add: packet_wf_def sample_udp_def default_packet_def ip_hdr_len_def udp_cov_def
      L4_CSUM_OFF_def proto_defs slice_def be_bytes_2)

lemma random_opts_0: "random_opts r 0 = Inr []"
  using random_opts_total [of 0 r] by auto

lemma opts_skip_Nil: "\<not> ip4_opts_skip []"
  by (simp add: ip4_opts_skip_def opts_walk.simps)

lemma sample_udp_applies:
  "l4_applies (\<lambda>_. []) (sample_udp None 10) None = Inr True"
  "l4_applies (\<lambda>_. []) (sample_udp (Some 8) 8) None = Inr True"
  by (simp_all add: l4_applies_def sample_udp_def default_packet_def udp_cov_def L4_CSUM_OFF_def
      proto_defs opts_of_def random_opts_0 opts_skip_Nil)

theorem force_zero_works_witness:
  "\<exists>l4. force_zero_l4_csum (\<lambda>_. []) (sample_udp None 10) = Inr ((sample_udp None 10)\<lparr>p_l4 := l4\<rparr>)"
  using force_zero_works [OF sample_udp_wf(1) sample_udp_applies(1)]
  by (auto simp: sample_udp_def default_packet_def udp_cov_def)

text \<open>C15: The documented precondition of \<open>force_zero_l4_csum\<close> (at least 10 L4 bytes and a protocol the
  checksum applies to) does not suffice: on a UDP packet whose Length field covers only the
  8-byte header its own closing assertion fails unless the checksum was 0 before.\<close>
theorem force_zero_precondition_gap:
  assumes "packet_wf seeds p" and "l4_applies seeds p None = Inr True"
    and "udp_cov p = 8" and "10 \<le> p_l4_len p"
    and "l4_csum p (p_l4 p) None = Inr c" and "c \<noteq> 0"
  shows "force_zero_l4_csum seeds p = Inl (AssertionError ''checksum is 0'')"
  by (rule force_zero_short [OF assms])

theorem force_zero_precondition_gap_witness:
  "force_zero_l4_csum (\<lambda>_. []) (sample_udp (Some 8) 8) = Inl (AssertionError ''checksum is 0'')"
proof -
  have f: "fold16 6186 = 6186" by (subst fold16.simps) (simp add: drop16_nat)
  have "csum [10, 0, 0, 1, 10, 0, 0, 2, 0, 17, 0, 8, 1, 2, 3, 4, 0, 8, 0, 0] = 59349"
    by (simp add: csum_eq ones_sum_def f)
  then have c: "l4_csum (sample_udp (Some 8) 8) (p_l4 (sample_udp (Some 8) 8)) None = Inr 59349"
    by (simp add: l4_csum_def Let_def sample_udp_def default_packet_def udp_cov_def proto_defs
        addr_bytes_def byte_of_def to_bytes_be_def be_bytes_2)
  show ?thesis
    by (rule force_zero_precondition_gap [OF sample_udp_wf(2) sample_udp_applies(2) _ _ c])
      (simp_all add: sample_udp_def default_packet_def udp_cov_def)
qed

text \<open>A packet without L4 bytes that was never built explicitly cannot be framed: \<open>frame\<close> builds on
  demand only when there are L4 bytes to draw, so the address bytes are missing.\<close>
theorem frame_unbuilt_empty:
  assumes "p_l4 p = []" and "p_l4_len p = 0" and "p_addr_bytes p = None" and "p_family p = 4"
    and "5 \<le> p_ihl p" and "p_ihl p \<le> 15" and "p_proto p < 256" and "p_vlan p < 65536"
  shows "frame seeds p = Inl (AttributeError ''_addr_bytes'')"
proof -
  obtain eth r' where e: "eth_part p (seeds (p_seed p)) = Inr (eth, r')"
    using eth_part_total [OF assms(8)] by blast
  obtain ident r'' where i: "rng_below 65536 r' = (ident, r'')" by fastforce
  have ib: "ident < 65536" using rng_below_less [OF _ i] by simp
  have "l4_applies seeds p None = Inr False"
    using assms by (simp add: l4_applies_def split: option.split)
  then have f: "l4_filled seeds p = Inr []" using assms by (simp add: l4_filled_def)
  have b0: "64 OR p_ihl p < 256"
    using or_bound_nat [where a = 64 and k = 8 and b = "p_ihl p"] assms by simp
  have fo: "(if p_mf p then 0x2000 else 0) OR (p_frag_off p AND 0x1FFF) < (65536 :: nat)"
    using or_bound_nat [where a = "if p_mf p then 0x2000 else 0" and k = 16 and b = "p_frag_off p AND 0x1FFF"]
      and_bound_nat [where b = "0x1FFF" and k = 16 and a = "p_frag_off p"] by simp
  have "p_ihl p * 4 < 65536" using assms by simp
  note n = put_be16_ok [OF this]
  have "ip4_header seeds p 0 ident = Inl (AttributeError ''_addr_bytes'')"
    using assms b0
    by (simp add: ip4_header_def Let_def put_byte_def byte_of_def n put_be16_ok [OF ib]
        put_be16_ok [OF fo] addr_bytes_def length_put_slice)
  then show ?thesis using assms e f i by (simp add: frame_def frame_built_def)
qed

theorem frame_unbuilt_empty_witness:
  "frame (\<lambda>_. []) (default_packet\<lparr>p_l4_len := 0\<rparr>) = Inl (AttributeError ''_addr_bytes'')"
  by (rule frame_unbuilt_empty) (simp_all add: default_packet_def proto_defs)

end
