(* ===== verification/Emz_Tests.thy ===== *)
theory Emz_Tests
  imports Emz_Text
begin

text \<open>
  The table of Icarus testbenches of \<open>build_and_test.py\<close> (\<open>TESTS\<close>), entry for entry: the name,
  the sources in the order they are compiled, the simulation image and the two optional keys
  (\<open>None\<close> where the entry does not have the key). The list is cut into four pieces.
\<close>

record sim_test =
  t_name :: string
  t_srcs :: "string list"
  t_out :: string
  t_args :: "string option"
  t_sim_timeout :: "nat option"

definition TESTS_1 :: "sim_test list" where
  "TESTS_1 = [
     \<lparr>t_name = ''CRC32'',
      t_srcs = [
        ''rtl/crc32.v'', ''sim/tb/tb_crc32.v''],
      t_out = ''sim/tb_crc32.vvp'', t_args = None, t_sim_timeout = None\<rparr>,
     \<lparr>t_name = ''ASYNC-FIFO'',
      t_srcs = [
        ''rtl/async_fifo.v'', ''sim/tb/tb_async_fifo.v''],
      t_out = ''sim/tb_async_fifo.vvp'', t_args = None, t_sim_timeout = None\<rparr>,
     \<lparr>t_name = ''ASYNC-FIFO-BLOCK'',
      t_srcs = [
        ''rtl/async_fifo.v'', ''sim/tb/tb_async_fifo.v''],
      t_out = ''sim/tb_async_fifo_block.vvp'', t_args = Some ''-DASYNC_FIFO_BLOCK'', t_sim_timeout = None\<rparr>,
     \<lparr>t_name = ''ETH-MAC-FCS'',
      t_srcs = [
        ''rtl/crc32.v'', ''rtl/eth_mac_tx.v'', ''sim/tb/tb_eth_mac_fcs.v''],
      t_out = ''sim/tb_eth_mac_fcs.vvp'', t_args = None, t_sim_timeout = None\<rparr>,
     \<lparr>t_name = ''ETH-MAC-TX-PAD'',
      t_srcs = [
        ''rtl/async_fifo.v'', ''rtl/eth_mac_tx.v'', ''rtl/mii_tx_saf.v'',
        ''sim/tb/tb_eth_mac_tx_pad.v''],
      t_out = ''sim/tb_eth_mac_tx_pad.vvp'', t_args = None, t_sim_timeout = None\<rparr>,
     \<lparr>t_name = ''ETH-MAC-MULTIFRAME'',
      t_srcs = [
        ''rtl/crc32.v'', ''rtl/async_fifo.v'', ''rtl/mii_if.v'', ''rtl/sync_fifo.v'',
        ''rtl/net/csum_calc.v'', ''rtl/eth_mac_rx.v'', ''rtl/eth_mac_tx.v'', ''rtl/eth_mac.v'',
        ''sim/tb/tb_eth_mac_multiframe.v''],
      t_out = ''sim/tb_eth_mac_multiframe.vvp'', t_args = None, t_sim_timeout = None\<rparr>,
     \<lparr>t_name = ''ETH-MAC-JUMBO'',
      t_srcs = [
        ''rtl/crc32.v'', ''rtl/async_fifo.v'', ''rtl/mii_if.v'', ''rtl/sync_fifo.v'',
        ''rtl/net/csum_calc.v'', ''rtl/eth_mac_rx.v'', ''rtl/eth_mac_tx.v'', ''rtl/eth_mac.v'',
        ''sim/tb/tb_eth_mac_jumbo.v''],
      t_out = ''sim/tb_eth_mac_jumbo.vvp'', t_args = None, t_sim_timeout = Some 120\<rparr>,
     \<lparr>t_name = ''MII-TX-BRIDGE'',
      t_srcs = [
        ''rtl/crc32.v'', ''rtl/async_fifo.v'', ''rtl/mii_if.v'', ''rtl/eth_mac_tx.v'',
        ''sim/tb/tb_mii_tx_bridge.v''],
      t_out = ''sim/tb_mii_tx_bridge.vvp'', t_args = None, t_sim_timeout = None\<rparr>,
     \<lparr>t_name = ''MII-TX-BURST-BACKPRESSURE'',
      t_srcs = [
        ''rtl/crc32.v'', ''rtl/async_fifo.v'', ''rtl/mii_if.v'', ''rtl/eth_mac_tx.v'',
        ''sim/tb/tb_mii_tx_burst_backpressure.v''],
      t_out = ''sim/tb_mii_tx_burst_backpressure.vvp'', t_args = None, t_sim_timeout = Some 180\<rparr>,
     \<lparr>t_name = ''MII-STORE-FORWARD'',
      t_srcs = [
        ''rtl/crc32.v'', ''rtl/async_fifo.v'', ''rtl/mii_if.v'', ''rtl/sync_fifo.v'',
        ''rtl/net/csum_calc.v'', ''rtl/eth_mac_rx.v'', ''rtl/eth_mac_tx.v'', ''rtl/eth_mac.v'',
        ''sim/tb/tb_mii_store_forward.v''],
      t_out = ''sim/tb_mii_store_forward.vvp'', t_args = None, t_sim_timeout = None\<rparr>,
     \<lparr>t_name = ''MII-LOOPBACK'',
      t_srcs = [
        ''rtl/crc32.v'', ''rtl/async_fifo.v'', ''rtl/mii_if.v'', ''rtl/sync_fifo.v'',
        ''rtl/net/csum_calc.v'', ''rtl/eth_mac_rx.v'', ''rtl/eth_mac_tx.v'', ''rtl/eth_mac.v'',
        ''sim/tb/tb_mii_loopback.v''],
      t_out = ''sim/tb_mii_loopback.vvp'', t_args = None, t_sim_timeout = None\<rparr>,
     \<lparr>t_name = ''MII-TX-SAF'',
      t_srcs = [
        ''rtl/async_fifo.v'', ''rtl/mii_tx_saf.v'', ''sim/tb/tb_mii_tx_saf.v''],
      t_out = ''sim/tb_mii_tx_saf.vvp'', t_args = None, t_sim_timeout = None\<rparr>,
     \<lparr>t_name = ''MII-TX-SAF-BURST-STALL'',
      t_srcs = [
        ''rtl/async_fifo.v'', ''rtl/mii_tx_saf.v'', ''sim/tb/tb_mii_tx_saf_burst_stall.v''],
      t_out = ''sim/tb_mii_tx_saf_burst_stall.vvp'', t_args = None, t_sim_timeout = Some 90\<rparr>,
     \<lparr>t_name = ''MII-TX-SAF-OVERSIZE'',
      t_srcs = [
        ''rtl/async_fifo.v'', ''rtl/mii_tx_saf.v'', ''sim/tb/tb_mii_tx_saf_oversize.v''],
      t_out = ''sim/tb_mii_tx_saf_oversize.vvp'', t_args = None, t_sim_timeout = Some 90\<rparr>,
     \<lparr>t_name = ''MII-RX-REPLAY-STRESS'',
      t_srcs = [
        ''sim/tb/xpm_fifo_async_model.v'', ''sim/tb/xpm_memory_sdpram_model.v'',
        ''rtl/mii_if.v'', ''sim/tb/tb_mii_rx_replay_stress.v''],
      t_out = ''sim/tb_mii_rx_replay_stress.vvp'', t_args = Some ''-DXILINX_7SERIES'', t_sim_timeout = Some 120\<rparr>,
     \<lparr>t_name = ''ETH-STATS'',
      t_srcs = [
        ''rtl/eth_stats.v'', ''sim/tb/tb_eth_stats.v''],
      t_out = ''sim/tb_eth_stats.vvp'', t_args = None, t_sim_timeout = None\<rparr>,
     \<lparr>t_name = ''AXILITE-REGS'',
      t_srcs = [
        ''rtl/axilite_regs.v'', ''sim/tb/tb_axilite_regs.v''],
      t_out = ''sim/tb_axilite_regs.vvp'', t_args = None, t_sim_timeout = None\<rparr>,
     \<lparr>t_name = ''GMII-CDC'',
      t_srcs = [
        ''rtl/async_fifo.v'', ''rtl/gmii_cdc.v'', ''sim/tb/tb_gmii_cdc.v''],
      t_out = ''sim/tb_gmii_cdc.vvp'', t_args = None, t_sim_timeout = None\<rparr>,
     \<lparr>t_name = ''ETH-MAC-SYS'',
      t_srcs = [
        ''rtl/crc32.v'', ''rtl/async_fifo.v'', ''rtl/mii_if.v'', ''rtl/sync_fifo.v'',
        ''rtl/net/csum_calc.v'', ''rtl/eth_mac_rx.v'', ''rtl/eth_mac_tx.v'', ''rtl/eth_stats.v'',
        ''rtl/eth_pause_rx.v'', ''rtl/eth_pause.v'', ''rtl/axilite_regs.v'',
        ''rtl/mdio_master.v'', ''rtl/ddr_output.v'', ''rtl/ddr_input.v'', ''rtl/rgmii_if.v'',
        ''rtl/gmii_if.v'', ''rtl/gmii_cdc.v'', ''rtl/net/tx_csum_off.v'', ''rtl/mii_tx_saf.v'',
        ''rtl/eth_mac_sys.v'', ''sim/tb/tb_eth_mac_sys.v''],
      t_out = ''sim/tb_eth_mac_sys.vvp'', t_args = None, t_sim_timeout = Some 300\<rparr>,
     \<lparr>t_name = ''RGMII-IF'',
      t_srcs = [
        ''rtl/ddr_output.v'', ''rtl/ddr_input.v'', ''rtl/rgmii_if.v'', ''sim/tb/tb_rgmii_if.v''],
      t_out = ''sim/tb_rgmii_if.vvp'', t_args = None, t_sim_timeout = None\<rparr>,
     \<lparr>t_name = ''MCAST-FILTER'',
      t_srcs = [
        ''rtl/crc32.v'', ''rtl/eth_mac_tx.v'', ''rtl/sync_fifo.v'', ''rtl/net/csum_calc.v'',
        ''rtl/eth_mac_rx.v'', ''sim/tb/tb_eth_mac_rx_mcast.v''],
      t_out = ''sim/tb_eth_mac_rx_mcast.vvp'', t_args = None, t_sim_timeout = None\<rparr>
   ]"

definition TESTS_2 :: "sim_test list" where
  "TESTS_2 = [
     \<lparr>t_name = ''ETH-MAC-RX-BACKPRESSURE'',
      t_srcs = [
        ''rtl/crc32.v'', ''rtl/eth_mac_tx.v'', ''rtl/sync_fifo.v'', ''rtl/net/csum_calc.v'',
        ''rtl/eth_mac_rx.v'', ''sim/tb/tb_eth_mac_rx_backpressure.v''],
      t_out = ''sim/tb_eth_mac_rx_backpressure.vvp'', t_args = None, t_sim_timeout = None\<rparr>,
     \<lparr>t_name = ''ETH-MAC-RX-JUMBO-GATE'',
      t_srcs = [
        ''rtl/crc32.v'', ''rtl/eth_mac_tx.v'', ''rtl/sync_fifo.v'', ''rtl/net/csum_calc.v'',
        ''rtl/eth_mac_rx.v'', ''sim/tb/tb_eth_mac_rx_jumbo_gate.v''],
      t_out = ''sim/tb_eth_mac_rx_jumbo_gate.vvp'', t_args = None, t_sim_timeout = Some 60\<rparr>,
     \<lparr>t_name = ''ETH-MAC-RX-BYTE0'',
      t_srcs = [
        ''rtl/crc32.v'', ''rtl/eth_mac_tx.v'', ''rtl/sync_fifo.v'', ''rtl/net/csum_calc.v'',
        ''rtl/eth_mac_rx.v'', ''sim/tb/tb_eth_mac_rx_byte0.v''],
      t_out = ''sim/tb_eth_mac_rx_byte0.vvp'', t_args = None, t_sim_timeout = None\<rparr>,
     \<lparr>t_name = ''MDIO-MASTER'',
      t_srcs = [
        ''rtl/mdio_master.v'', ''sim/tb/tb_mdio_master.v''],
      t_out = ''sim/tb_mdio_master.vvp'', t_args = None, t_sim_timeout = None\<rparr>,
     \<lparr>t_name = ''TX-CSUM-OFF'',
      t_srcs = [
        ''rtl/sync_fifo.v'', ''rtl/net/csum_calc.v'', ''rtl/net/tx_csum_off.v'',
        ''sim/tb/tb_tx_csum_off.v''],
      t_out = ''sim/tb_tx_csum_off.vvp'', t_args = None, t_sim_timeout = None\<rparr>,
     \<lparr>t_name = ''NET-RX'',
      t_srcs = [
        ''rtl/net/net_rx.v'', ''sim/tb/tb_net_rx.v''],
      t_out = ''sim/tb_net_rx.vvp'', t_args = None, t_sim_timeout = None\<rparr>,
     \<lparr>t_name = ''ICMP-ECHO'',
      t_srcs = [
        ''rtl/net/icmp_echo.v'', ''sim/tb/tb_icmp_echo.v''],
      t_out = ''sim/tb_icmp_echo.vvp'', t_args = None, t_sim_timeout = None\<rparr>,
     \<lparr>t_name = ''UDP-IPERF-SINK'',
      t_srcs = [
        ''rtl/net/udp_iperf_sink.v'', ''sim/tb/tb_udp_iperf_sink.v''],
      t_out = ''sim/tb_udp_iperf_sink.vvp'', t_args = None, t_sim_timeout = None\<rparr>,
     \<lparr>t_name = ''UDP-BLAST-TRIGGER'',
      t_srcs = [
        ''rtl/net/udp_blast_trigger.v'', ''sim/tb/tb_udp_blast_trigger.v''],
      t_out = ''sim/tb_udp_blast_trigger.vvp'', t_args = None, t_sim_timeout = None\<rparr>,
     \<lparr>t_name = ''UDP-BLAST-START-DELAY'',
      t_srcs = [
        ''rtl/net/udp_blast.v'', ''sim/tb/tb_udp_blast_start_delay.v''],
      t_out = ''sim/tb_udp_blast_start_delay.vvp'', t_args = None, t_sim_timeout = None\<rparr>,
     \<lparr>t_name = ''UDP-BLAST-BACKPRESSURE'',
      t_srcs = [
        ''rtl/net/udp_blast.v'', ''sim/tb/tb_udp_blast_backpressure.v''],
      t_out = ''sim/tb_udp_blast_backpressure.vvp'', t_args = None, t_sim_timeout = None\<rparr>,
     \<lparr>t_name = ''ICMP-ECHO-BACKPRESSURE'',
      t_srcs = [
        ''rtl/net/icmp_echo.v'', ''sim/tb/tb_icmp_echo_backpressure.v''],
      t_out = ''sim/tb_icmp_echo_backpressure.vvp'', t_args = None, t_sim_timeout = None\<rparr>,
     \<lparr>t_name = ''ICMP-ECHO-SIZES'',
      t_srcs = [
        ''rtl/net/icmp_echo.v'', ''sim/tb/tb_icmp_echo_sizes.v''],
      t_out = ''sim/tb_icmp_echo_sizes.vvp'', t_args = None, t_sim_timeout = None\<rparr>,
     \<lparr>t_name = ''UDP-ECHO-BACKPRESSURE'',
      t_srcs = [
        ''rtl/net/udp_echo.v'', ''sim/tb/tb_udp_echo_backpressure.v''],
      t_out = ''sim/tb_udp_echo_backpressure.vvp'', t_args = None, t_sim_timeout = None\<rparr>,
     \<lparr>t_name = ''UDP-STATS-REPLY-BACKPRESSURE'',
      t_srcs = [
        ''rtl/net/udp_stats_reply.v'', ''sim/tb/tb_udp_stats_reply_backpressure.v''],
      t_out = ''sim/tb_udp_stats_reply_backpressure.vvp'', t_args = None, t_sim_timeout = None\<rparr>,
     \<lparr>t_name = ''ARTY-TX-ARBITER'',
      t_srcs = [
        ''fpga/arty_a7/rtl/arty_tx_arbiter.v'', ''sim/tb/tb_arty_tx_arbiter.v''],
      t_out = ''sim/tb_arty_tx_arbiter.vvp'', t_args = None, t_sim_timeout = None\<rparr>,
     \<lparr>t_name = ''AXIL-ARB2'',
      t_srcs = [
        ''rtl/axil_arb2.v'', ''sim/tb/tb_axil_arb2.v''],
      t_out = ''sim/tb_axil_arb2.vvp'', t_args = None, t_sim_timeout = None\<rparr>,
     \<lparr>t_name = ''UDP-BLAST-PATH'',
      t_srcs = [
        ''rtl/crc32.v'', ''rtl/eth_mac_tx.v'', ''rtl/net/net_rx.v'',
        ''rtl/net/udp_blast_trigger.v'', ''rtl/net/udp_blast.v'', ''sim/tb/tb_udp_blast_path.v''],
      t_out = ''sim/tb_udp_blast_path.vvp'', t_args = None, t_sim_timeout = None\<rparr>,
     \<lparr>t_name = ''UDP-STATS-REPLY'',
      t_srcs = [
        ''rtl/net/udp_stats_reply.v'', ''sim/tb/tb_udp_stats_reply.v''],
      t_out = ''sim/tb_udp_stats_reply.vvp'', t_args = None, t_sim_timeout = None\<rparr>,
     \<lparr>t_name = ''ETH-MAC-SYS-CSUM'',
      t_srcs = [
        ''rtl/crc32.v'', ''rtl/async_fifo.v'', ''rtl/mii_if.v'', ''rtl/sync_fifo.v'',
        ''rtl/net/csum_calc.v'', ''rtl/eth_mac_rx.v'', ''rtl/eth_mac_tx.v'', ''rtl/eth_stats.v'',
        ''rtl/eth_pause_rx.v'', ''rtl/eth_pause.v'', ''rtl/axilite_regs.v'',
        ''rtl/mdio_master.v'', ''rtl/ddr_output.v'', ''rtl/ddr_input.v'', ''rtl/rgmii_if.v'',
        ''rtl/gmii_if.v'', ''rtl/gmii_cdc.v'', ''rtl/net/tx_csum_off.v'', ''rtl/mii_tx_saf.v'',
        ''rtl/eth_mac_sys.v'', ''sim/tb/tb_eth_mac_sys_csum.v''],
      t_out = ''sim/tb_eth_mac_sys_csum.vvp'', t_args = Some ''-DTB_TX_CSUM_OFFLOAD'', t_sim_timeout = Some 60\<rparr>,
     \<lparr>t_name = ''ETH-MAC-SYS-CSUM-BYPASS'',
      t_srcs = [
        ''rtl/crc32.v'', ''rtl/async_fifo.v'', ''rtl/mii_if.v'', ''rtl/sync_fifo.v'',
        ''rtl/net/csum_calc.v'', ''rtl/eth_mac_rx.v'', ''rtl/eth_mac_tx.v'', ''rtl/eth_stats.v'',
        ''rtl/eth_pause_rx.v'', ''rtl/eth_pause.v'', ''rtl/axilite_regs.v'',
        ''rtl/mdio_master.v'', ''rtl/ddr_output.v'', ''rtl/ddr_input.v'', ''rtl/rgmii_if.v'',
        ''rtl/gmii_if.v'', ''rtl/gmii_cdc.v'', ''rtl/net/tx_csum_off.v'', ''rtl/mii_tx_saf.v'',
        ''rtl/eth_mac_sys.v'', ''sim/tb/tb_eth_mac_sys_csum.v''],
      t_out = ''sim/tb_eth_mac_sys_csum_bypass.vvp'', t_args = None, t_sim_timeout = Some 60\<rparr>,
     \<lparr>t_name = ''ETH-MAC-SYS-CSUM-LOOP'',
      t_srcs = [
        ''rtl/crc32.v'', ''rtl/async_fifo.v'', ''rtl/mii_if.v'', ''rtl/sync_fifo.v'',
        ''rtl/net/csum_calc.v'', ''rtl/eth_mac_rx.v'', ''rtl/eth_mac_tx.v'', ''rtl/eth_stats.v'',
        ''rtl/eth_pause_rx.v'', ''rtl/eth_pause.v'', ''rtl/axilite_regs.v'',
        ''rtl/mdio_master.v'', ''rtl/ddr_output.v'', ''rtl/ddr_input.v'', ''rtl/rgmii_if.v'',
        ''rtl/gmii_if.v'', ''rtl/gmii_cdc.v'', ''rtl/net/tx_csum_off.v'', ''rtl/mii_tx_saf.v'',
        ''rtl/eth_mac_sys.v'', ''sim/tb/tb_eth_mac_sys_csum_loop.v''],
      t_out = ''sim/tb_eth_mac_sys_csum_loop.vvp'', t_args = None, t_sim_timeout = Some 60\<rparr>
   ]"

definition TESTS_3 :: "sim_test list" where
  "TESTS_3 = [
     \<lparr>t_name = ''ETH-MAC-SYS-JUMBO'',
      t_srcs = [
        ''rtl/crc32.v'', ''rtl/eth_mac_tx.v'', ''rtl/sync_fifo.v'', ''rtl/net/csum_calc.v'',
        ''rtl/eth_mac_rx.v'', ''sim/tb/tb_eth_mac_sys_jumbo.v''],
      t_out = ''sim/tb_eth_mac_sys_jumbo.vvp'', t_args = None, t_sim_timeout = Some 120\<rparr>,
     \<lparr>t_name = ''GMII-CDC-RX-OVERFLOW'',
      t_srcs = [
        ''rtl/async_fifo.v'', ''rtl/gmii_cdc.v'', ''sim/tb/tb_gmii_cdc_rx_overflow.v''],
      t_out = ''sim/tb_gmii_cdc_rx_overflow.vvp'', t_args = None, t_sim_timeout = None\<rparr>,
     \<lparr>t_name = ''GMII-CDC-RX-OVERFLOW-DIST'',
      t_srcs = [
        ''rtl/async_fifo.v'', ''rtl/gmii_cdc.v'', ''sim/tb/tb_gmii_cdc_rx_overflow.v''],
      t_out = ''sim/tb_gmii_cdc_rx_overflow_dist.vvp'', t_args = Some ''-DGMII_CDC_DISTRIBUTED'', t_sim_timeout = None\<rparr>,
     \<lparr>t_name = ''GMII-CDC-100M'',
      t_srcs = [
        ''rtl/async_fifo.v'', ''rtl/gmii_cdc.v'', ''sim/tb/tb_gmii_cdc_100m.v''],
      t_out = ''sim/tb_gmii_cdc_100m.vvp'', t_args = None, t_sim_timeout = None\<rparr>,
     \<lparr>t_name = ''GMII-CDC-10M'',
      t_srcs = [
        ''rtl/async_fifo.v'', ''rtl/gmii_cdc.v'', ''sim/tb/tb_gmii_cdc_10m.v''],
      t_out = ''sim/tb_gmii_cdc_10m.vvp'', t_args = None, t_sim_timeout = Some 60\<rparr>,
     \<lparr>t_name = ''RGMII-IF-100M'',
      t_srcs = [
        ''rtl/ddr_input.v'', ''rtl/ddr_output.v'', ''rtl/rgmii_if.v'',
        ''sim/tb/tb_rgmii_if_100m.v''],
      t_out = ''sim/tb_rgmii_if_100m.vvp'', t_args = None, t_sim_timeout = None\<rparr>,
     \<lparr>t_name = ''RGMII-IF-SPEED-SWITCH'',
      t_srcs = [
        ''rtl/ddr_input.v'', ''rtl/ddr_output.v'', ''rtl/rgmii_if.v'',
        ''sim/tb/tb_rgmii_if_speed_switch.v''],
      t_out = ''sim/tb_rgmii_if_speed_switch.vvp'', t_args = None, t_sim_timeout = Some 60\<rparr>,
     \<lparr>t_name = ''RGMII-IF-VARIANTS'',
      t_srcs = [
        ''rtl/ddr_input.v'', ''rtl/ddr_output.v'', ''rtl/rgmii_if.v'',
        ''sim/tb/tb_rgmii_if_variants.v''],
      t_out = ''sim/tb_rgmii_if_variants.vvp'', t_args = None, t_sim_timeout = None\<rparr>,
     \<lparr>t_name = ''RGMII-LOOPBACK'',
      t_srcs = [
        ''rtl/crc32.v'', ''rtl/async_fifo.v'', ''rtl/mii_if.v'', ''rtl/sync_fifo.v'',
        ''rtl/net/csum_calc.v'', ''rtl/eth_mac_rx.v'', ''rtl/eth_mac_tx.v'', ''rtl/eth_stats.v'',
        ''rtl/eth_pause_rx.v'', ''rtl/eth_pause.v'', ''rtl/axilite_regs.v'',
        ''rtl/mdio_master.v'', ''rtl/ddr_output.v'', ''rtl/ddr_input.v'', ''rtl/rgmii_if.v'',
        ''rtl/gmii_if.v'', ''rtl/gmii_cdc.v'', ''rtl/net/tx_csum_off.v'', ''rtl/mii_tx_saf.v'',
        ''rtl/eth_mac_sys.v'', ''sim/tb/tb_rgmii_loopback.v''],
      t_out = ''sim/tb_rgmii_loopback.vvp'', t_args = None, t_sim_timeout = Some 300\<rparr>,
     \<lparr>t_name = ''RGMII-100M-LOOPBACK'',
      t_srcs = [
        ''rtl/crc32.v'', ''rtl/async_fifo.v'', ''rtl/mii_if.v'', ''rtl/sync_fifo.v'',
        ''rtl/net/csum_calc.v'', ''rtl/eth_mac_rx.v'', ''rtl/eth_mac_tx.v'', ''rtl/eth_stats.v'',
        ''rtl/eth_pause_rx.v'', ''rtl/eth_pause.v'', ''rtl/axilite_regs.v'',
        ''rtl/mdio_master.v'', ''rtl/ddr_output.v'', ''rtl/ddr_input.v'', ''rtl/rgmii_if.v'',
        ''rtl/gmii_if.v'', ''rtl/gmii_cdc.v'', ''rtl/net/tx_csum_off.v'', ''rtl/mii_tx_saf.v'',
        ''rtl/eth_mac_sys.v'', ''sim/tb/tb_rgmii_10_100_loopback.v''],
      t_out = ''sim/tb_rgmii_100m_loopback.vvp'', t_args = None, t_sim_timeout = Some 300\<rparr>,
     \<lparr>t_name = ''RGMII-10M-LOOPBACK'',
      t_srcs = [
        ''rtl/crc32.v'', ''rtl/async_fifo.v'', ''rtl/mii_if.v'', ''rtl/sync_fifo.v'',
        ''rtl/net/csum_calc.v'', ''rtl/eth_mac_rx.v'', ''rtl/eth_mac_tx.v'', ''rtl/eth_stats.v'',
        ''rtl/eth_pause_rx.v'', ''rtl/eth_pause.v'', ''rtl/axilite_regs.v'',
        ''rtl/mdio_master.v'', ''rtl/ddr_output.v'', ''rtl/ddr_input.v'', ''rtl/rgmii_if.v'',
        ''rtl/gmii_if.v'', ''rtl/gmii_cdc.v'', ''rtl/net/tx_csum_off.v'', ''rtl/mii_tx_saf.v'',
        ''rtl/eth_mac_sys.v'', ''sim/tb/tb_rgmii_10_100_loopback.v''],
      t_out = ''sim/tb_rgmii_10m_loopback.vvp'', t_args = Some ''-DRGMII_10M'', t_sim_timeout = Some 300\<rparr>,
     \<lparr>t_name = ''GMII-LOOPBACK'',
      t_srcs = [
        ''rtl/crc32.v'', ''rtl/async_fifo.v'', ''rtl/mii_if.v'', ''rtl/sync_fifo.v'',
        ''rtl/net/csum_calc.v'', ''rtl/eth_mac_rx.v'', ''rtl/eth_mac_tx.v'', ''rtl/eth_stats.v'',
        ''rtl/eth_pause_rx.v'', ''rtl/eth_pause.v'', ''rtl/axilite_regs.v'',
        ''rtl/mdio_master.v'', ''rtl/ddr_output.v'', ''rtl/ddr_input.v'', ''rtl/rgmii_if.v'',
        ''rtl/gmii_if.v'', ''rtl/gmii_cdc.v'', ''rtl/net/tx_csum_off.v'', ''rtl/mii_tx_saf.v'',
        ''rtl/eth_mac_sys.v'', ''sim/tb/tb_gmii_loopback.v''],
      t_out = ''sim/tb_gmii_loopback.vvp'', t_args = None, t_sim_timeout = Some 300\<rparr>,
     \<lparr>t_name = ''ETH-MAC-SYS-MAX-FRAME'',
      t_srcs = [
        ''rtl/crc32.v'', ''rtl/async_fifo.v'', ''rtl/mii_if.v'', ''rtl/sync_fifo.v'',
        ''rtl/eth_mac_rx.v'', ''rtl/eth_mac_tx.v'', ''rtl/eth_stats.v'', ''rtl/eth_pause_rx.v'',
        ''rtl/eth_pause.v'', ''rtl/axilite_regs.v'', ''rtl/mdio_master.v'', ''rtl/ddr_output.v'',
        ''rtl/ddr_input.v'', ''rtl/rgmii_if.v'', ''rtl/gmii_if.v'', ''rtl/gmii_cdc.v'',
        ''rtl/net/tx_csum_off.v'', ''rtl/mii_tx_saf.v'', ''rtl/eth_mac_sys.v'',
        ''sim/tb/tb_eth_mac_sys_max_frame.v''],
      t_out = ''sim/tb_eth_mac_sys_max_frame.vvp'', t_args = None, t_sim_timeout = None\<rparr>,
     \<lparr>t_name = ''ETH-MAC-SYS-PAUSE'',
      t_srcs = [
        ''rtl/crc32.v'', ''rtl/async_fifo.v'', ''rtl/mii_if.v'', ''rtl/sync_fifo.v'',
        ''rtl/net/csum_calc.v'', ''rtl/eth_mac_rx.v'', ''rtl/eth_mac_tx.v'', ''rtl/eth_stats.v'',
        ''rtl/eth_pause_rx.v'', ''rtl/eth_pause.v'', ''rtl/axilite_regs.v'',
        ''rtl/mdio_master.v'', ''rtl/ddr_output.v'', ''rtl/ddr_input.v'', ''rtl/rgmii_if.v'',
        ''rtl/gmii_if.v'', ''rtl/gmii_cdc.v'', ''rtl/net/tx_csum_off.v'', ''rtl/mii_tx_saf.v'',
        ''rtl/eth_mac_sys.v'', ''sim/tb/tb_eth_mac_sys_pause.v''],
      t_out = ''sim/tb_eth_mac_sys_pause.vvp'', t_args = None, t_sim_timeout = None\<rparr>,
     \<lparr>t_name = ''GMII-RX-LINE-RATE'',
      t_srcs = [
        ''rtl/crc32.v'', ''rtl/async_fifo.v'', ''rtl/mii_if.v'', ''rtl/sync_fifo.v'',
        ''rtl/net/csum_calc.v'', ''rtl/eth_mac_rx.v'', ''rtl/eth_mac_tx.v'', ''rtl/eth_stats.v'',
        ''rtl/eth_pause_rx.v'', ''rtl/eth_pause.v'', ''rtl/axilite_regs.v'',
        ''rtl/mdio_master.v'', ''rtl/ddr_output.v'', ''rtl/ddr_input.v'', ''rtl/rgmii_if.v'',
        ''rtl/gmii_if.v'', ''rtl/gmii_cdc.v'', ''rtl/net/tx_csum_off.v'', ''rtl/mii_tx_saf.v'',
        ''rtl/eth_mac_sys.v'', ''sim/tb/tb_gmii_rx_line_rate.v''],
      t_out = ''sim/tb_gmii_rx_line_rate.vvp'', t_args = None, t_sim_timeout = Some 300\<rparr>
   ]"

definition TESTS_4 :: "sim_test list" where
  "TESTS_4 = [
     \<lparr>t_name = ''GMII-LB-SELFTEST'',
      t_srcs = [
        ''rtl/crc32.v'', ''rtl/async_fifo.v'', ''rtl/mii_if.v'', ''rtl/sync_fifo.v'',
        ''rtl/net/csum_calc.v'', ''rtl/eth_mac_rx.v'', ''rtl/eth_mac_tx.v'', ''rtl/eth_stats.v'',
        ''rtl/eth_pause_rx.v'', ''rtl/eth_pause.v'', ''rtl/axilite_regs.v'',
        ''rtl/mdio_master.v'', ''rtl/ddr_output.v'', ''rtl/ddr_input.v'', ''rtl/rgmii_if.v'',
        ''rtl/gmii_if.v'', ''rtl/gmii_cdc.v'', ''rtl/net/tx_csum_off.v'', ''rtl/mii_tx_saf.v'',
        ''rtl/eth_mac_sys.v'', ''fpga/arty_a7/rtl/gmii_lb_selftest.v'',
        ''sim/tb/tb_gmii_lb_selftest.v''],
      t_out = ''sim/tb_gmii_lb_selftest.vvp'', t_args = None, t_sim_timeout = Some 300\<rparr>,
     \<lparr>t_name = ''RGMII-LB-SELFTEST'',
      t_srcs = [
        ''rtl/crc32.v'', ''rtl/async_fifo.v'', ''rtl/mii_if.v'', ''rtl/sync_fifo.v'',
        ''rtl/net/csum_calc.v'', ''rtl/eth_mac_rx.v'', ''rtl/eth_mac_tx.v'', ''rtl/eth_stats.v'',
        ''rtl/eth_pause_rx.v'', ''rtl/eth_pause.v'', ''rtl/axilite_regs.v'',
        ''rtl/mdio_master.v'', ''rtl/ddr_output.v'', ''rtl/ddr_input.v'', ''rtl/rgmii_if.v'',
        ''rtl/gmii_if.v'', ''rtl/gmii_cdc.v'', ''rtl/net/tx_csum_off.v'', ''rtl/mii_tx_saf.v'',
        ''rtl/eth_mac_sys.v'', ''fpga/arty_a7/rtl/rgmii_lb_selftest.v'',
        ''sim/tb/tb_rgmii_lb_selftest.v''],
      t_out = ''sim/tb_rgmii_lb_selftest.vvp'', t_args = None, t_sim_timeout = Some 600\<rparr>,
     \<lparr>t_name = ''ZCU106-I2C-INIT'',
      t_srcs = [
        ''fpga/zcu106/rtl/i2c_init.v'', ''sim/tb/tb_zcu106_i2c_init.v''],
      t_out = ''sim/tb_zcu106_i2c_init.vvp'', t_args = Some ''-Ifpga/zcu106/rtl'', t_sim_timeout = Some 120\<rparr>,
     \<lparr>t_name = ''ZCU106-SFP-LB'',
      t_srcs = [
        ''rtl/crc32.v'', ''rtl/async_fifo.v'', ''rtl/mii_if.v'', ''rtl/sync_fifo.v'',
        ''rtl/net/csum_calc.v'', ''rtl/eth_mac_rx.v'', ''rtl/eth_mac_tx.v'', ''rtl/eth_stats.v'',
        ''rtl/eth_pause_rx.v'', ''rtl/eth_pause.v'', ''rtl/axilite_regs.v'',
        ''rtl/mdio_master.v'', ''rtl/ddr_output.v'', ''rtl/ddr_input.v'', ''rtl/rgmii_if.v'',
        ''rtl/gmii_if.v'', ''rtl/gmii_cdc.v'', ''rtl/net/tx_csum_off.v'', ''rtl/mii_tx_saf.v'',
        ''rtl/eth_mac_sys.v'', ''rtl/net/net_rx.v'', ''rtl/net/icmp_echo.v'',
        ''rtl/net/udp_echo.v'', ''fpga/arty_a7/rtl/arp_responder.v'',
        ''fpga/arty_a7/rtl/arty_tx_arbiter.v'', ''rtl/net/udp_blast.v'',
        ''rtl/net/udp_blast_trigger.v'', ''rtl/net/udp_iperf_sink.v'',
        ''rtl/net/udp_stats_reply.v'', ''fpga/zcu106/rtl/zcu106_eth_demo.v'',
        ''fpga/zcu106/rtl/sfp_lb_tester.v'', ''sim/tb/tb_zcu106_sfp_lb.v''],
      t_out = ''sim/tb_zcu106_sfp_lb.vvp'', t_args = None, t_sim_timeout = Some 600\<rparr>,
     \<lparr>t_name = ''ZCU106-PERF'',
      t_srcs = [
        ''rtl/crc32.v'', ''rtl/async_fifo.v'', ''rtl/mii_if.v'', ''rtl/sync_fifo.v'',
        ''rtl/net/csum_calc.v'', ''rtl/eth_mac_rx.v'', ''rtl/eth_mac_tx.v'', ''rtl/eth_stats.v'',
        ''rtl/eth_pause_rx.v'', ''rtl/eth_pause.v'', ''rtl/axilite_regs.v'',
        ''rtl/mdio_master.v'', ''rtl/ddr_output.v'', ''rtl/ddr_input.v'', ''rtl/rgmii_if.v'',
        ''rtl/gmii_if.v'', ''rtl/gmii_cdc.v'', ''rtl/net/tx_csum_off.v'', ''rtl/mii_tx_saf.v'',
        ''rtl/eth_mac_sys.v'', ''rtl/net/net_rx.v'', ''rtl/net/icmp_echo.v'',
        ''rtl/net/udp_echo.v'', ''rtl/net/udp_blast.v'', ''rtl/net/udp_blast_trigger.v'',
        ''rtl/net/udp_iperf_sink.v'', ''rtl/net/udp_stats_reply.v'',
        ''fpga/arty_a7/rtl/arp_responder.v'', ''fpga/arty_a7/rtl/arty_tx_arbiter.v'',
        ''fpga/zcu106/rtl/zcu106_eth_demo.v'', ''sim/tb/tb_zcu106_perf.v''],
      t_out = ''sim/tb_zcu106_perf.vvp'', t_args = None, t_sim_timeout = Some 1200\<rparr>
   ]"

definition TESTS :: "sim_test list" where
  "TESTS = TESTS_1 @ TESTS_2 @ TESTS_3 @ TESTS_4"

section \<open>The table\<close>

lemmas TESTS_defs = TESTS_def TESTS_1_def TESTS_2_def TESTS_3_def TESTS_4_def

lemma TESTS_names: "map t_name TESTS = map t_name TESTS_1 @ map t_name TESTS_2 @ map t_name TESTS_3 @ map t_name TESTS_4"
  by (simp add: TESTS_def)

lemma TESTS_distinct_names: "distinct (map t_name TESTS)"
  by code_simp

lemma TESTS_distinct_images: "distinct (map (\<lambda>t. basename (t_out t)) TESTS)"
  by code_simp

end
