(* ===== verification/Emz_Version.thy ===== *)
theory Emz_Version
  imports Emz_Text
begin

text \<open>
  The version consistency phase of \<open>build_and_test.py\<close>: the parsers of the four files that carry
  the version and the check that they agree. A parsed file is a map from the macro name to its
  value; \<open>read\<close>, the contents of a file or the error of opening it, is a parameter. The
  messages are not modelled; what is, is which check decides the phase.
\<close>

section \<open>The regular expressions\<close>

definition VERSION_KEYS :: "string list" where
  "VERSION_KEYS = [''EMZ_VERSION_MAJOR'', ''EMZ_VERSION_MINOR'', ''EMZ_VERSION_ID'']"

type_synonym version_dict = "string \<rightharpoonup> nat"

definition spaces1 :: "string \<Rightarrow> string option" where
  "spaces1 s = map_option snd (m_some py_space s)"

definition spaces :: "string \<Rightarrow> string option" where
  "spaces s = Some (dropWhile py_space s)"

text \<open>A sized hexadecimal literal, \<open>8'h01\<close>.\<close>

definition VH_DEFINE_RE :: "(string \<times> string) matcher" where
  "VH_DEFINE_RE s =
    Option.bind (m_lit ''`define'' s) (\<lambda>s. Option.bind (spaces1 s) (\<lambda>s.
    Option.bind (m_word VERSION_KEYS s) (\<lambda>(key, s). Option.bind (spaces1 s) (\<lambda>s.
    Option.bind (m_some py_digit s) (\<lambda>(_, s). Option.bind (m_lit [CHR 0x27] s) (\<lambda>s.
    Option.bind (if prefix ''h'' s \<or> prefix ''H'' s then Some (tl s) else None) (\<lambda>s.
    Option.bind (m_some (\<lambda>c. py_hex c \<or> c = CHR ''_'') s) (\<lambda>(v, s).
    Some ((key, v), s)))))))))"

text \<open>Any value: it ends at a comment or at the end of the line, whichever is first. White space
  at the very end of the text can serve as the value, since \<open>.\<close> matches all but a newline.\<close>

fun any_tail :: "string \<Rightarrow> string" where
  "any_tail [] = []"
| "any_tail (c # cs) =
    (if prefix ''//'' (dropWhile py_space (c # cs))
     then dropWhile (\<lambda>c. c \<noteq> CHR 0x0A) (dropWhile py_space (c # cs))
     else if c = CHR 0x0A then c # cs
     else any_tail cs)"

definition VH_DEFINE_ANY_RE :: "string matcher" where
  "VH_DEFINE_ANY_RE s =
    Option.bind (m_lit ''`define'' s) (\<lambda>s. Option.bind (spaces1 s) (\<lambda>s.
    Option.bind (m_word VERSION_KEYS s) (\<lambda>(key, s).
      let w = takeWhile py_space s; r = dropWhile py_space s
      in if w = [] then None
         else if r \<noteq> [] then Some (key, any_tail (tl r))
         else if list_ex (\<lambda>c. c \<noteq> CHR 0x0A) (tl w) then Some (key, [])
         else None)))"

text \<open>\<open>(?:0x([0-9A-Fa-f]+)u?|(\d+)u?)\<close>: the base and the digits.\<close>

definition C_LITERAL :: "(nat \<times> string) matcher" where
  "C_LITERAL s =
    (let opt_u = (\<lambda>s. if prefix ''u'' s then tl s else s) in
     case Option.bind (m_lit ''0x'' s) (m_some py_hex) of
       Some (v, s) \<Rightarrow> Some ((16, v), opt_u s)
     | None \<Rightarrow> (case m_some py_digit s of
         Some (v, s) \<Rightarrow> Some ((10, v), opt_u s)
       | None \<Rightarrow> None))"

definition C_DEFINE_RE :: "(string \<times> nat \<times> string) matcher" where
  "C_DEFINE_RE s =
    Option.bind (m_lit ''#define'' s) (\<lambda>s. Option.bind (spaces1 s) (\<lambda>s.
    Option.bind (m_word VERSION_KEYS s) (\<lambda>(key, s). Option.bind (spaces1 s) (\<lambda>s.
    Option.bind (C_LITERAL s) (\<lambda>(lit, s). Some ((key, lit), s))))))"

definition C_VALUE_LITERAL_RE :: "(nat \<times> string) matcher" where
  "C_VALUE_LITERAL_RE s =
    Option.bind (m_lit ''#define'' s) (\<lambda>s. Option.bind (spaces1 s) (\<lambda>s.
    Option.bind (m_lit ''EMZ_VERSION_VALUE'' s) (\<lambda>s. Option.bind (spaces1 s) C_LITERAL)))"

definition CORE_NAME_RE :: "(string \<times> string) matcher" where
  "CORE_NAME_RE s =
    Option.bind (m_lit ''name:'' s) (\<lambda>s.
    Option.bind (m_some (\<lambda>c. c \<noteq> CHR '':'') s) (\<lambda>(_, s). Option.bind (m_lit '':'' s) (\<lambda>s.
    Option.bind (m_some (\<lambda>c. c \<noteq> CHR '':'') s) (\<lambda>(_, s). Option.bind (m_lit '':'' s) (\<lambda>s.
    Option.bind (m_some (\<lambda>c. c \<noteq> CHR '':'') s) (\<lambda>(_, s). Option.bind (m_lit '':'' s) (\<lambda>s.
    Option.bind (m_some py_digit s) (\<lambda>(major, s). Option.bind (m_lit ''.'' s) (\<lambda>s.
    Option.bind (m_some py_digit s) (\<lambda>(minor, s). Option.bind (m_lit ''.'' s) (\<lambda>s.
    Option.bind (m_some py_digit s) (\<lambda>(_, s). Some ((major, minor), s)))))))))))))"

text \<open>\<open>re.IGNORECASE\<close>: words are compared in lower case.\<close>

definition m_lit_i :: "string \<Rightarrow> string \<Rightarrow> string option" where
  "m_lit_i w s = (if lower (take (length w) s) = lower w \<and> length w \<le> length s
     then Some (drop (length w) s) else None)"

fun m_word_i :: "string list \<Rightarrow> string matcher" where
  "m_word_i [] s = None"
| "m_word_i (w # ws) s =
    (case m_lit_i w s of Some r \<Rightarrow> Some (take (length w) s, r) | None \<Rightarrow> m_word_i ws s)"

definition VHDL_CONST_RE :: "(string \<times> string) matcher" where
  "VHDL_CONST_RE s =
    Option.bind (m_lit_i ''constant'' s) (\<lambda>s. Option.bind (spaces1 s) (\<lambda>s.
    Option.bind (m_word_i VERSION_KEYS s) (\<lambda>(key, s). Option.bind (spaces s) (\<lambda>s.
    Option.bind (m_lit '':'' s) (\<lambda>s.
    Option.bind (m_lit '':='' (dropWhile (\<lambda>c. c \<noteq> CHR '':'') s)) (\<lambda>s. Option.bind (spaces s) (\<lambda>s.
    Option.bind (m_lit_i ''x'' s) (\<lambda>s. Option.bind (m_lit [CHR 0x22] s) (\<lambda>s.
    Option.bind (m_some (\<lambda>c. py_hex c \<or> c = CHR ''_'') s) (\<lambda>(v, s).
    Option.bind (m_lit [CHR 0x22] s) (\<lambda>s. Some ((key, v), s))))))))))))"

section \<open>The parsers\<close>

definition no_underscore :: "string \<Rightarrow> string" where
  "no_underscore v = filter (\<lambda>c. c \<noteq> CHR ''_'') v"

text \<open>\<open>out[key] = int(digits, base)\<close> for the matches in order; the later of two entries of a key
  stays.\<close>

fun int_dict :: "version_dict \<Rightarrow> (string \<times> nat \<times> string) list \<Rightarrow> version_dict res" where
  "int_dict out [] = Inr out"
| "int_dict out ((key, base, v) # ms) =
    res_bind (int_of base v) (\<lambda>n. int_dict (out(key \<mapsto> n)) ms)"

definition parse_vh :: "string \<Rightarrow> version_dict res" where
  "parse_vh text =
    res_bind (int_dict Map.empty
        (map (\<lambda>(key, v). (key, 16, no_underscore v)) (finditer VH_DEFINE_RE text))) (\<lambda>out.
    if \<exists>key \<in> set (finditer VH_DEFINE_ANY_RE text). out key = None
    then Inl (ValueError ''unsupported format'') else Inr out)"

definition parse_c :: "string \<Rightarrow> version_dict res" where
  "parse_c text = int_dict Map.empty (finditer C_DEFINE_RE text)"

definition parse_c_version_value :: "string \<Rightarrow> version_dict \<Rightarrow> nat option res" where
  "parse_c_version_value text cdef =
    (case search C_VALUE_LITERAL_RE text of
       Some (base, v) \<Rightarrow> res_bind (int_of base v) (\<lambda>n. Inr (Some n))
     | None \<Rightarrow>
         if contains ''EMZ_VERSION_VALUE'' text then
           (case (cdef ''EMZ_VERSION_MAJOR'', cdef ''EMZ_VERSION_MINOR'', cdef ''EMZ_VERSION_ID'') of
              (Some a, Some b, Some i) \<Rightarrow> Inr (Some (push_bit 24 a OR push_bit 16 b OR i))
            | _ \<Rightarrow> Inl (KeyError ''EMZ_VERSION''))
         else Inr None)"

definition parse_vhdl :: "string \<Rightarrow> version_dict res" where
  "parse_vhdl text = int_dict Map.empty
     (map (\<lambda>(key, v). (upper key, 16, no_underscore v)) (finditer VHDL_CONST_RE text))"

definition parse_core :: "string \<Rightarrow> (nat \<times> nat) option res" where
  "parse_core text =
    (case search_bol True CORE_NAME_RE text of
       None \<Rightarrow> Inr None
     | Some (a, b) \<Rightarrow> res_bind (int_of 10 a) (\<lambda>a. res_bind (int_of 10 b) (\<lambda>b. Inr (Some (a, b)))))"

section \<open>The check\<close>

record version_files =
  f_vh :: string
  f_c :: string
  f_core :: string
  f_vhdl :: string

text \<open>The comparison of the parsed files, every early \<open>return False\<close> in order.\<close>

definition versions_agree ::
  "version_dict \<Rightarrow> version_dict \<Rightarrow> (nat \<times> nat) option \<Rightarrow> version_dict \<Rightarrow> string \<Rightarrow> bool res" where
  "versions_agree vh cdef core vhdl c_text =
    (let others = [(''emaczero.h'', cdef), (''emz_version_pkg.vhd'', vhdl)];
         missing = [(name, k). (name, src) \<leftarrow> (''version.vh'', vh) # others, k \<leftarrow> VERSION_KEYS,
                      src k = None];
         mismatches = [(name, k, src k). (name, src) \<leftarrow> others, k \<leftarrow> VERSION_KEYS,
                         vh k \<noteq> src k];
         expected = push_bit 24 (the (vh ''EMZ_VERSION_MAJOR''))
                    OR push_bit 16 (the (vh ''EMZ_VERSION_MINOR''))
                    OR the (vh ''EMZ_VERSION_ID'')
     in if missing \<noteq> [] then Inr False
        else if core = None then Inr False
        else if mismatches \<noteq> [] then Inr False
        else res_bind (parse_c_version_value c_text cdef) (\<lambda>c_value.
          if c_value = None then Inr False
          else if c_value \<noteq> Some expected then Inr False
          else if the core \<noteq> (the (vh ''EMZ_VERSION_MAJOR''), the (vh ''EMZ_VERSION_MINOR''))
          then Inr False
          else Inr True))"

definition run_version_check :: "(string \<Rightarrow> string res) \<Rightarrow> version_files \<Rightarrow> bool res" where
  "run_version_check read fs =
    (case res_bind (res_bind (read (f_vh fs)) parse_vh) (\<lambda>vh.
          res_bind (res_bind (read (f_c fs)) parse_c) (\<lambda>cdef.
          res_bind (res_bind (read (f_core fs)) parse_core) (\<lambda>core.
          res_bind (res_bind (read (f_vhdl fs)) parse_vhdl) (\<lambda>vhdl.
          Inr (vh, cdef, core, vhdl))))) of
       Inl (OSError _) \<Rightarrow> Inr False
     | Inl (ValueError _) \<Rightarrow> Inr False
     | Inl e \<Rightarrow> Inl e
     | Inr (vh, cdef, core, vhdl) \<Rightarrow>
         res_bind (read (f_c fs)) (versions_agree vh cdef core vhdl))"

section \<open>What the phase decides\<close>

lemma int_dict_error: "int_dict out ms = Inl e \<Longrightarrow> e = ValueError ''invalid literal for int()''"
  by (induction out ms rule: int_dict.induct)
    (auto simp: res_bind_def int_of_def split: sum.splits if_splits)

lemma parse_error:
  "parse_vh t = Inl e \<Longrightarrow> \<exists>m. e = ValueError m"
  "parse_c t = Inl e \<Longrightarrow> \<exists>m. e = ValueError m"
  "parse_vhdl t = Inl e \<Longrightarrow> \<exists>m. e = ValueError m"
  "parse_core t = Inl e \<Longrightarrow> \<exists>m. e = ValueError m"
  by (auto simp: parse_vh_def parse_c_def parse_vhdl_def parse_core_def res_bind_def int_of_def
      dest: int_dict_error split: sum.splits if_splits option.splits)

definition has_keys :: "version_dict \<Rightarrow> bool" where
  "has_keys d \<longleftrightarrow> (\<exists>a b i. d ''EMZ_VERSION_MAJOR'' = Some a \<and> d ''EMZ_VERSION_MINOR'' = Some b
     \<and> d ''EMZ_VERSION_ID'' = Some i)"

lemma keys_present:
  "[(name, k). (name, src) \<leftarrow> srcs, k \<leftarrow> VERSION_KEYS, src k = None] = [] \<longleftrightarrow>
    (\<forall>src \<in> snd ` set srcs. has_keys src)"
proof (induction srcs)
  case (Cons p srcs)
  obtain name src where p: "p = (name, src)" by force
  show ?case using Cons.IH unfolding p by (simp add: VERSION_KEYS_def has_keys_def del: concat_eq_Nil_conv)
qed simp

lemma keys_equal:
  "[(name, k, src k). (name, src) \<leftarrow> srcs, k \<leftarrow> VERSION_KEYS, vh k \<noteq> src k] = [] \<longleftrightarrow>
    (\<forall>src \<in> snd ` set srcs. \<forall>k \<in> set VERSION_KEYS. src k = (vh k :: nat option))"
proof (induction srcs)
  case (Cons p srcs)
  obtain name src where p: "p = (name, src)" by force
  show ?case using Cons.IH unfolding p
    by (simp add: VERSION_KEYS_def eq_commute [of "vh _" "src _"] del: concat_eq_Nil_conv)
qed simp

lemma scan_matched: "a \<in> set (scan m k s) \<Longrightarrow> \<exists>t r. m t = Some (a, r)"
  by (induction s arbitrary: k) (auto split: if_splits option.splits)

lemma search_matched: "search m s = Some a \<Longrightarrow> \<exists>t r. m t = Some (a, r)"
  unfolding search_def finditer_def using scan_matched [of a m 0 s]
  by (cases "scan m 0 s") auto

lemma C_LITERAL_nonempty: "C_LITERAL s = Some ((base, v), r) \<Longrightarrow> v \<noteq> []"
  by (auto simp: C_LITERAL_def m_some_def Let_def bind_eq_Some_conv
      split: option.splits if_splits)

lemma c_value_returns:
  assumes "cdef ''EMZ_VERSION_MAJOR'' = Some a" "cdef ''EMZ_VERSION_MINOR'' = Some b"
    "cdef ''EMZ_VERSION_ID'' = Some i"
  shows "returns (parse_c_version_value text cdef)"
proof (cases "search C_VALUE_LITERAL_RE text")
  case None
  then show ?thesis using assms by (simp add: parse_c_version_value_def)
next
  case (Some lit)
  obtain base v where lit: "lit = (base, v)" by force
  have "v \<noteq> []"
    using search_matched [OF Some]
    by (auto simp: lit C_VALUE_LITERAL_RE_def bind_eq_Some_conv dest: C_LITERAL_nonempty)
  then show ?thesis using Some by (simp add: parse_c_version_value_def lit int_of_def)
qed

lemma versions_agree_unfold:
  "versions_agree vh cdef core vhdl tc =
    (if \<not> (has_keys vh \<and> has_keys cdef \<and> has_keys vhdl) then Inr False
     else if core = None then Inr False
     else if \<not> (\<forall>d \<in> {cdef, vhdl}. \<forall>k \<in> set VERSION_KEYS. d k = vh k) then Inr False
     else res_bind (parse_c_version_value tc cdef) (\<lambda>c_value.
       if c_value = None then Inr False
       else if c_value \<noteq> Some (push_bit 24 (the (vh ''EMZ_VERSION_MAJOR''))
                OR push_bit 16 (the (vh ''EMZ_VERSION_MINOR'')) OR the (vh ''EMZ_VERSION_ID''))
       then Inr False
       else if the core \<noteq> (the (vh ''EMZ_VERSION_MAJOR''), the (vh ''EMZ_VERSION_MINOR''))
       then Inr False else Inr True))"
  unfolding versions_agree_def Let_def keys_present keys_equal by simp

lemma versions_agree_iff:
  "versions_agree vh cdef core vhdl tc = Inr True \<longleftrightarrow>
    (\<exists>a b i. core = Some (a, b)
       \<and> (\<forall>d \<in> {vh, cdef, vhdl}. d ''EMZ_VERSION_MAJOR'' = Some a
            \<and> d ''EMZ_VERSION_MINOR'' = Some b \<and> d ''EMZ_VERSION_ID'' = Some i)
       \<and> parse_c_version_value tc cdef = Inr (Some (push_bit 24 a OR push_bit 16 b OR i)))"
    (is "?l \<longleftrightarrow> ?r")
proof
  assume ?l
  then show ?r
    unfolding versions_agree_unfold
    by (auto simp: VERSION_KEYS_def has_keys_def res_bind_Inr_iff split: if_splits)
next
  assume ?r
  then show ?l
    unfolding versions_agree_unfold by (auto simp: VERSION_KEYS_def has_keys_def)
qed

lemma versions_agree_returns: "returns (versions_agree vh cdef core vhdl tc)"
proof (cases "has_keys vh \<and> has_keys cdef \<and> has_keys vhdl")
  case True
  then have "has_keys cdef" by simp
  then have "returns (parse_c_version_value tc cdef)"
    unfolding has_keys_def using c_value_returns by metis
  then obtain v where "parse_c_version_value tc cdef = Inr v"
    unfolding returns_iff ..
  then show ?thesis unfolding versions_agree_unfold using True by simp
next
  case False
  then show ?thesis unfolding versions_agree_unfold by simp
qed

lemma run_version_check_parsed:
  assumes "read (f_vh fs) = Inr tv" "read (f_c fs) = Inr tc"
    "read (f_core fs) = Inr tp" "read (f_vhdl fs) = Inr th"
  shows "run_version_check read fs =
    (case parse_vh tv of Inl _ \<Rightarrow> Inr False | Inr vh \<Rightarrow>
     (case parse_c tc of Inl _ \<Rightarrow> Inr False | Inr cdef \<Rightarrow>
      (case parse_core tp of Inl _ \<Rightarrow> Inr False | Inr core \<Rightarrow>
       (case parse_vhdl th of Inl _ \<Rightarrow> Inr False | Inr vhdl \<Rightarrow>
          versions_agree vh cdef core vhdl tc))))"
proof -
  have "(\<exists>m. parse_vh tv = Inl (ValueError m)) \<or> (\<exists>v. parse_vh tv = Inr v)"
    "(\<exists>m. parse_c tc = Inl (ValueError m)) \<or> (\<exists>v. parse_c tc = Inr v)"
    "(\<exists>m. parse_core tp = Inl (ValueError m)) \<or> (\<exists>v. parse_core tp = Inr v)"
    "(\<exists>m. parse_vhdl th = Inl (ValueError m)) \<or> (\<exists>v. parse_vhdl th = Inr v)"
    by (metis parse_error sum.exhaust)+
  then show ?thesis
    by (elim disjE exE) (simp_all add: run_version_check_def assms)
qed

lemma read_parse_error:
  assumes "returns m \<or> (\<exists>x. m = Inl (OSError x) \<or> m = Inl (ValueError x))"
    and "\<And>t e. parse t = Inl e \<Longrightarrow> \<exists>x. e = ValueError x"
  shows "returns (res_bind m parse)
    \<or> (\<exists>x. res_bind m parse = Inl (OSError x) \<or> res_bind m parse = Inl (ValueError x))"
proof (cases m)
  case (Inr t)
  then show ?thesis using assms(2) [of t] by (cases "parse t") auto
qed (use assms(1) in simp)

section \<open>Theorems\<close>

text \<open>C10: The version phase passes exactly when the four files parse, the three files that carry the
  macros give all three of them with the same values, the package name in \<open>emaczero.core\<close> has
  that major and minor number, and \<open>EMZ_VERSION_VALUE\<close> in the C header is the word the
  three components make.\<close>

theorem version_check_true_iff:
  assumes "read (f_vh fs) = Inr tv" "read (f_c fs) = Inr tc"
    "read (f_core fs) = Inr tp" "read (f_vhdl fs) = Inr th"
  shows "run_version_check read fs = Inr True \<longleftrightarrow>
    (\<exists>vh cdef vhdl a b i. parse_vh tv = Inr vh \<and> parse_c tc = Inr cdef
       \<and> parse_core tp = Inr (Some (a, b)) \<and> parse_vhdl th = Inr vhdl
       \<and> (\<forall>d \<in> {vh, cdef, vhdl}. d ''EMZ_VERSION_MAJOR'' = Some a
            \<and> d ''EMZ_VERSION_MINOR'' = Some b \<and> d ''EMZ_VERSION_ID'' = Some i)
       \<and> parse_c_version_value tc cdef = Inr (Some (push_bit 24 a OR push_bit 16 b OR i)))"
  unfolding run_version_check_parsed [OF assms]
  by (simp add: versions_agree_iff split: sum.splits)

text \<open>The phase ends with a verdict, never with an exception, as long as reading a file fails with
  \<open>OSError\<close> or a decoding error only.\<close>

theorem version_check_returns:
  assumes "\<And>p. returns (read p) \<or> (\<exists>m. read p = Inl (OSError m) \<or> read p = Inl (ValueError m))"
  shows "returns (run_version_check read fs)"
proof -
  let ?ok = "\<lambda>m. returns m \<or> (\<exists>x. m = Inl (OSError x) \<or> m = Inl (ValueError x))"
  have "?ok (res_bind (read (f_vh fs)) parse_vh)" "?ok (res_bind (read (f_c fs)) parse_c)"
    "?ok (res_bind (read (f_core fs)) parse_core)" "?ok (res_bind (read (f_vhdl fs)) parse_vhdl)"
    by (intro read_parse_error assms parse_error; assumption)+
  moreover have "returns (read (f_c fs))" if "returns (res_bind (read (f_c fs)) parse_c)"
    using that by (cases "read (f_c fs)") simp_all
  ultimately show ?thesis
    by (auto simp: run_version_check_def returns_iff versions_agree_returns [unfolded returns_iff])
qed

text \<open>The four files as they are in the repository, cut to the lines that carry the version.\<close>

definition sample_vh :: string where
  "sample_vh = ''`define EMZ_VERSION_MAJOR 8'' @ [CHR 0x27] @ ''h00'' @ [CHR 0x0A]
     @ ''`define EMZ_VERSION_MINOR 8'' @ [CHR 0x27] @ ''h02'' @ [CHR 0x0A]
     @ ''`define EMZ_VERSION_ID    16'' @ [CHR 0x27] @ ''h454D  // ASCII''"

definition sample_c :: string where
  "sample_c = ''#define EMZ_VERSION_MAJOR        0u'' @ [CHR 0x0A]
     @ ''#define EMZ_VERSION_MINOR        2u'' @ [CHR 0x0A]
     @ ''#define EMZ_VERSION_ID           0x454Du'' @ [CHR 0x0A]
     @ ''#define EMZ_VERSION_VALUE        ((EMZ''"

definition sample_core :: string where
  "sample_core = ''CAPI=2:'' @ [CHR 0x0A] @ ''name: bard0:eth:emaczero:0.2.0'' @ [CHR 0x0A]"

definition sample_vhdl :: string where
  "sample_vhdl = ''constant EMZ_VERSION_MAJOR : bits(7 downto 0) := x'' @ quoted ''00'' @ [CHR 0x0A]
     @ ''constant EMZ_VERSION_MINOR : bits(7 downto 0) := x'' @ quoted ''02'' @ [CHR 0x0A]
     @ ''constant EMZ_VERSION_ID : bits(15 downto 0) := x'' @ quoted ''454D''"

definition sample_read :: "string \<Rightarrow> string res" where
  "sample_read p = (if p = ''vh'' then Inr sample_vh else if p = ''c'' then Inr sample_c
     else if p = ''core'' then Inr sample_core else if p = ''vhdl'' then Inr sample_vhdl
     else Inl (OSError p))"

definition sample_files :: version_files where
  "sample_files = \<lparr>f_vh = ''vh'', f_c = ''c'', f_core = ''core'', f_vhdl = ''vhdl''\<rparr>"

lemma sample_scan:
  "finditer VH_DEFINE_RE sample_vh = [(''EMZ_VERSION_MAJOR'', ''00''), (''EMZ_VERSION_MINOR'', ''02''),
     (''EMZ_VERSION_ID'', ''454D'')]"
  "finditer VH_DEFINE_ANY_RE sample_vh = VERSION_KEYS"
  "finditer C_DEFINE_RE sample_c = [(''EMZ_VERSION_MAJOR'', 10, ''0''), (''EMZ_VERSION_MINOR'', 10, ''2''),
     (''EMZ_VERSION_ID'', 16, ''454D'')]"
  "search C_VALUE_LITERAL_RE sample_c = None" "contains ''EMZ_VERSION_VALUE'' sample_c"
  "finditer VHDL_CONST_RE sample_vhdl = [(''EMZ_VERSION_MAJOR'', ''00''), (''EMZ_VERSION_MINOR'', ''02''),
     (''EMZ_VERSION_ID'', ''454D'')]"
  "parse_core sample_core = Inr (Some (0, 2))"
  by code_simp+

lemma sample_ints: "int_of 16 ''00'' = Inr 0" "int_of 16 ''02'' = Inr 2" "int_of 16 ''454D'' = Inr 17741"
  "int_of 10 ''0'' = Inr 0" "int_of 10 ''2'' = Inr 2"
  "no_underscore ''00'' = ''00''" "no_underscore ''02'' = ''02''" "no_underscore ''454D'' = ''454D''"
  "map upper VERSION_KEYS = VERSION_KEYS"
  by code_simp+

definition sample_dict :: version_dict where
  "sample_dict = [''EMZ_VERSION_MAJOR'' \<mapsto> 0, ''EMZ_VERSION_MINOR'' \<mapsto> 2, ''EMZ_VERSION_ID'' \<mapsto> 17741]"

lemma sample_parse:
  "parse_vh sample_vh = Inr sample_dict" "parse_c sample_c = Inr sample_dict"
  "parse_vhdl sample_vhdl = Inr sample_dict"
  "parse_c_version_value sample_c sample_dict = Inr (Some (push_bit 24 0 OR push_bit 16 2 OR 17741))"
  using sample_ints(9)
  by (simp_all add: parse_vh_def parse_c_def parse_vhdl_def parse_c_version_value_def sample_scan
      sample_ints(1-8) sample_dict_def VERSION_KEYS_def)

theorem version_check_true_iff_witness:
  "run_version_check sample_read sample_files = Inr True"
proof -
  have r: "sample_read (f_vh sample_files) = Inr sample_vh" "sample_read (f_c sample_files) = Inr sample_c"
    "sample_read (f_core sample_files) = Inr sample_core" "sample_read (f_vhdl sample_files) = Inr sample_vhdl"
    by (simp_all add: sample_files_def sample_read_def)
  show ?thesis
    unfolding version_check_true_iff [OF r]
    using sample_parse sample_scan(7) by (fastforce simp: sample_dict_def)
qed

theorem version_check_returns_witness:
  "returns (run_version_check (\<lambda>p. Inl (OSError p)) sample_files)"
  by (rule version_check_returns) simp

end
