(* ===== verification/Emz_Build.thy ===== *)
theory Emz_Build
  imports Emz_Tests Emz_Version
begin

text \<open>
  The phases of \<open>build_and_test.py\<close>: which tool runs with which command line, and which verdict
  follows from the results. The machine the script runs on is the record \<open>host\<close>: the results
  of the commands it starts, the tools on its path and its files. A phase returns its verdict
  and the list of actions it took, in order: the commands with their directory and timeout, the
  directories it made and removed, and the lines it printed (headers and colours left out).
\<close>

section \<open>The host\<close>

record host =
  is_nt :: bool
  project_dir :: string
  pid :: string
  executable :: string
  shell :: "string \<Rightarrow> string \<Rightarrow> nat \<Rightarrow> proc_result"
  wsl_proc :: "string list \<Rightarrow> nat \<Rightarrow> proc_result"
  which :: "string \<Rightarrow> string option"
  getenv :: "string \<Rightarrow> string option"
  path_exists :: "string \<Rightarrow> bool"
  path_isfile :: "string \<Rightarrow> bool"
  read_file :: "string \<Rightarrow> string res"
  has_cocotb :: bool
  cpu_count :: "nat option"

datatype action =
    Run string string nat
  | Wsl "string list" nat
  | Mkdir string
  | Rmtree string
  | Remove string
  | Passed string
  | Failed string
  | Skipped string
  | Warned string
  | Said string

type_synonym verdict = "bool \<times> action list"

definition is_sep :: "host \<Rightarrow> char \<Rightarrow> bool" where
  "is_sep h c \<longleftrightarrow> c = CHR ''/'' \<or> (is_nt h \<and> c = CHR 0x5C)"

definition os_join :: "host \<Rightarrow> string \<Rightarrow> string \<Rightarrow> string" where
  "os_join h a b =
    (if a = [] \<or> is_sep h (last a) then a @ b
     else a @ [if is_nt h then CHR 0x5C else CHR ''/''] @ b)"

definition in_project :: "host \<Rightarrow> string \<Rightarrow> string" where
  "in_project h p = os_join h (project_dir h) p"

text \<open>\<open>run_cmd\<close>: a timeout and a missing shell are reported as return code \<open>-1\<close>.\<close>

definition run_cmd :: "host \<Rightarrow> string \<Rightarrow> string \<Rightarrow> nat \<Rightarrow> int \<times> string \<times> string" where
  "run_cmd h cmd cwd timeout =
    (case shell h cmd cwd timeout of
       Completed rc out err \<Rightarrow> (rc, out, err)
     | Timed_out \<Rightarrow> (-1, [], ''TIMEOUT'')
     | Not_started _ \<Rightarrow> (-1, [], ''Command not found: '' @ cmd))"

text \<open>The loops over tests, families and targets: every item is tried, and the loop's verdict is
  that of all items.\<close>

fun run_all :: "('a \<Rightarrow> verdict) \<Rightarrow> 'a list \<Rightarrow> verdict" where
  "run_all f [] = (True, [])"
| "run_all f (x # xs) = (fst (f x) \<and> fst (run_all f xs), snd (f x) @ snd (run_all f xs))"

lemma fst_run_all [simp]: "fst (run_all f xs) \<longleftrightarrow> (\<forall>x \<in> set xs. fst (f x))"
  by (induction xs) auto

lemma snd_run_all: "snd (run_all f xs) = concat (map (\<lambda>x. snd (f x)) xs)"
  by (induction xs) auto

definition str_lines :: "string list \<Rightarrow> string" where
  "str_lines = join [CHR 0x0A]"

text \<open>\<open>"\n".join(x for x in [stdout.strip(), stderr.strip()] if x)\<close>\<close>

definition both_outputs :: "string \<Rightarrow> string \<Rightarrow> string" where
  "both_outputs out err = str_lines (filter (\<lambda>x. x \<noteq> []) [strip out, strip err])"

definition said_lines :: "nat \<Rightarrow> string list \<Rightarrow> action list" where
  "said_lines n ls = map (\<lambda>l. Said (''    '' @ l)) (take n ls)"

definition incdir_args :: "host \<Rightarrow> string" where
  "incdir_args h = join '' '' (map (\<lambda>d. ''-I'' @ quoted (in_project h d)) [''rtl''])"

section \<open>Windows and WSL\<close>

definition nt_slashes :: "string \<Rightarrow> string" where
  "nt_slashes = map (\<lambda>c. if c = CHR 0x5C then CHR ''/'' else c)"

text \<open>\<open>os.path.splitdrive\<close> for drive letters.\<close>

definition splitdrive :: "host \<Rightarrow> string \<Rightarrow> string \<times> string" where
  "splitdrive h p =
    (if is_nt h \<and> 2 \<le> length p \<and> p ! 1 = CHR '':'' then (take 2 p, drop 2 p) else ([], p))"

definition windows_to_wsl_path :: "host \<Rightarrow> string \<Rightarrow> string" where
  "windows_to_wsl_path h path =
    (case splitdrive h path of
       ([], _) \<Rightarrow> nt_slashes path
     | (d # _, rest) \<Rightarrow> ''/mnt/'' @ [lower_char d] @ nt_slashes rest)"

definition find_first :: "host \<Rightarrow> string list \<Rightarrow> string option" where
  "find_first h cands =
    (case List.map_filter (\<lambda>c. case which h c of Some p \<Rightarrow> (if p = [] then None else Some p) | None \<Rightarrow> None) cands of
       [] \<Rightarrow> None | p # _ \<Rightarrow> Some p)"

definition find_wsl :: "host \<Rightarrow> string option" where
  "find_wsl h =
    (if \<not> is_nt h then None
     else (case find_first h [''wsl'', ''wsl.exe''] of
         Some p \<Rightarrow> Some p
       | None \<Rightarrow>
           let root = (case getenv h ''SystemRoot'' of Some r \<Rightarrow> r | None \<Rightarrow> ''C:'' @ [CHR 0x5C] @ ''Windows'');
               fallback = os_join h (os_join h root ''System32'') ''wsl.exe''
           in if path_exists h fallback then Some fallback else None))"

definition wsl_argv :: "host \<Rightarrow> string \<Rightarrow> string \<Rightarrow> string list" where
  "wsl_argv h wsl cmd =
    [wsl, ''-e'', ''bash'', ''-lc'',
     ''cd '' @ [CHR 0x27] @ windows_to_wsl_path h (project_dir h) @ [CHR 0x27] @ '' && '' @ cmd]"

definition wsl_run :: "host \<Rightarrow> string \<Rightarrow> string \<Rightarrow> nat \<Rightarrow> int \<times> string \<times> string" where
  "wsl_run h wsl cmd timeout =
    (case wsl_proc h (wsl_argv h wsl cmd) timeout of
       Completed rc out err \<Rightarrow> (rc, out, err)
     | Timed_out \<Rightarrow> (-1, [], ''timed out'')
     | Not_started e \<Rightarrow> (-1, [], e))"

section \<open>Lint\<close>

definition LINT_SOURCES :: "string list" where
  "LINT_SOURCES =
    [''rtl/crc32.v'', ''rtl/async_fifo.v'', ''rtl/mii_if.v'', ''rtl/mii_tx_saf.v'',
     ''rtl/sync_fifo.v'', ''rtl/net/csum_calc.v'', ''rtl/eth_mac_rx.v'', ''rtl/eth_mac_tx.v'',
     ''rtl/eth_mac.v'', ''rtl/mdio_master.v'', ''rtl/eth_stats.v'', ''rtl/eth_pause_rx.v'',
     ''rtl/eth_pause.v'', ''rtl/axilite_regs.v'', ''rtl/ddr_output.v'', ''rtl/ddr_input.v'',
     ''rtl/rgmii_if.v'', ''rtl/gmii_if.v'', ''rtl/gmii_cdc.v'', ''rtl/net/tx_csum_off.v'',
     ''rtl/net/net_rx.v'', ''rtl/net/icmp_echo.v'', ''rtl/net/udp_echo.v'',
     ''rtl/net/udp_blast.v'', ''rtl/net/udp_blast_trigger.v'', ''rtl/net/udp_iperf_sink.v'',
     ''rtl/net/udp_stats_reply.v'', ''fpga/arty_a7/rtl/arty_tx_arbiter.v'', ''rtl/axil_arb2.v'',
     ''rtl/eth_mac_sys.v'']"

definition LINT_SUPPRESS :: "string list" where
  "LINT_SUPPRESS = [''is sensitive to all'', ''timescale'']"

definition VERILATOR_LINT_ARGS :: "string list" where
  "VERILATOR_LINT_ARGS =
    [''--lint-only'', ''-Wall'', ''-DSIM'', ''--top-module'', ''eth_mac_sys'', ''-Irtl'',
     ''-Wno-DECLFILENAME'', ''-Wno-UNUSEDSIGNAL'', ''-Wno-UNUSEDPARAM'', ''-Wno-PINCONNECTEMPTY'',
     ''-Wno-TIMESCALEMOD'', ''-Wno-WIDTH'', ''-Wno-BLKSEQ'', ''-Wno-SYNCASYNCNET'',
     ''-f'', ''rtl/eth_mac_sys.f'']"

text \<open>The two lists the lines of \<open>stderr\<close> are sorted into: errors and warnings.\<close>

fun lint_classify :: "string list \<Rightarrow> string list \<times> string list" where
  "lint_classify [] = ([], [])"
| "lint_classify (line # ls) =
    (let (errors, warnings) = lint_classify ls
     in if \<exists>s \<in> set LINT_SUPPRESS. contains s line then (errors, warnings)
        else if contains ''error'' (lower line) then (line # errors, warnings)
        else if contains ''warning'' (lower line) then (errors, line # warnings)
        else (errors, warnings))"

definition lint_cmd :: "host \<Rightarrow> string" where
  "lint_cmd h = ''iverilog -g2001 -Wall -DSIM '' @ incdir_args h @ '' -o ''
     @ quoted (in_project h (os_join h ''sim'' ''lint_check.vvp'')) @ '' ''
     @ join '' '' (map (in_project h) LINT_SOURCES)"

definition run_lint :: "host \<Rightarrow> verdict" where
  "run_lint h =
    (let (rc, out, err) = run_cmd h (lint_cmd h) (project_dir h) 30;
         raw_lines = (if strip err \<noteq> [] then splitlines (strip err) else []);
         (errors, warnings) = lint_classify raw_lines;
         pre = [Mkdir (in_project h ''sim''), Run (lint_cmd h) (project_dir h) 30]
     in if rc \<noteq> 0 \<and> errors \<noteq> [] then
          (False, pre @ [Failed (''Lint: '' @ show_nat (length errors) @ '' error(s)'')]
             @ said_lines 10 errors)
        else if warnings \<noteq> [] then
          (True, pre @ [Warned (''Lint: '' @ show_nat (length warnings) @ '' warning(s)'')]
             @ said_lines 10 warnings)
        else (True, pre @ [Passed ''Lint: clean'']))"

definition run_verilator_lint :: "host \<Rightarrow> verdict" where
  "run_verilator_lint h =
    (let cmd = join '' '' (''verilator'' # VERILATOR_LINT_ARGS);
         conclude = (\<lambda>acts (rc, out, err).
           if rc \<noteq> (0 :: int) then
             (False, acts @ [Failed ''Verilator lint failed'']
                @ said_lines 40 (splitlines (both_outputs out err)))
           else (True, acts @ [Passed ''Verilator lint: clean'']))
     in case find_first h [''verilator''] of
          Some _ \<Rightarrow> conclude [Run cmd (project_dir h) 120] (run_cmd h cmd (project_dir h) 120)
        | None \<Rightarrow>
            (case find_wsl h of
               Some wsl \<Rightarrow>
                 (case wsl_proc h (wsl_argv h wsl cmd) 120 of
                    Completed rc out err \<Rightarrow> conclude [Wsl (wsl_argv h wsl cmd) 120] (rc, out, err)
                  | _ \<Rightarrow> (False, [Wsl (wsl_argv h wsl cmd) 120,
                       Failed ''Verilator lint via WSL failed to launch'']))
             | None \<Rightarrow> (False, [Failed ''Verilator lint: verilator not found (native PATH or WSL)''])))"

definition find_vivado :: "host \<Rightarrow> string option" where
  "find_vivado h = find_first h [''vivado'', ''vivado.bat'']"

definition run_vivado_elab :: "host \<Rightarrow> verdict" where
  "run_vivado_elab h =
    (case find_vivado h of
       None \<Rightarrow> (True, [Skipped ''Vivado not found on PATH - elaboration-only errors are NOT covered by this run''])
     | Some vivado \<Rightarrow>
         let cmd = quoted vivado @ '' -mode batch -source ''
               @ quoted ''fpga/arty_a7/scripts/elab_check.tcl'' @ '' -nojournal -nolog'';
             (rc, out, err) = run_cmd h cmd (project_dir h) 1200;
             output = splitlines (both_outputs out err);
             errors = filter (contains ''ERROR'') output
         in if rc \<noteq> 0 then
              (False, [Run cmd (project_dir h) 1200, Failed ''Vivado RTL elaboration failed'']
                 @ said_lines 20 (if errors \<noteq> [] then errors else output))
            else (True, [Run cmd (project_dir h) 1200, Passed ''Vivado RTL elaboration: clean'']))"

end
