(* ===== verification/Emz_Phases.thy ===== *)
theory Emz_Phases
  imports Emz_Build
begin

text \<open>
  The remaining phases of \<open>build_and_test.py\<close>: GHDL lint, the Icarus simulations, the same
  benches on the VHDL port in xsim, RGMII on the vendor DDR models, the RGMII implementation
  check, the two cocotb phases and \<open>main\<close>, which turns the verdicts into the exit code.
  A phase that reads files or indexes output can raise, so it returns a \<open>verdict res\<close>.
\<close>

fun run_all_res :: "('a \<Rightarrow> verdict res) \<Rightarrow> 'a list \<Rightarrow> verdict res" where
  "run_all_res f [] = Inr (True, [])"
| "run_all_res f (x # xs) =
    res_bind (f x) (\<lambda>(b, acts). res_bind (run_all_res f xs) (\<lambda>(bs, actss). Inr (b \<and> bs, acts @ actss)))"

section \<open>GHDL lint\<close>

definition VHDL_TARGETS :: "string list" where
  "VHDL_TARGETS = [''sim'', ''xilinx_7series'', ''xilinx_ultrascale_plus'', ''intel_cyclone'', ''none'']"

definition PARITY_GEN_CHECKS :: "(string \<times> string) list" where
  "PARITY_GEN_CHECKS = [
    (''sim/parity/mii_if/gen_smallram.py'', ''mii_if small-RAM parity models''),
    (''sim/parity/gmii_cdc/gen_smallmem.py'', ''async_fifo small-memory parity models''),
    (''sim/parity/gen_goldens.py'', ''test_sequencer and udp_echo x-refined parity goldens''),
    (''sim/parity/zcu106_top/gen_split.py'', ''zcu106_top split-pin parity models''),
    (''sim/parity/rgmii_lb_selftest/gen_split.py'', ''rgmii_lb_selftest split-pad parity models''),
    (''sim/parity/i2c_init/check_rom.py'', ''Si5328 ROM: .vh table vs VHDL package'')]"

definition VHDL_BOARD_STEPS :: "(string list \<times> string list) list" where
  "VHDL_BOARD_STEPS = [
    ([''rtl/vhdl/axil_arb2.vhd'', ''fpga/arty_a7/rtl/clk_gen.vhd'', ''fpga/arty_a7/rtl/uart_tx.vhd'',
      ''fpga/arty_a7/rtl/arp_responder.vhd'', ''fpga/arty_a7/rtl/test_sequencer.vhd'',
      ''fpga/arty_a7/rtl/gmii_lb_selftest.vhd'', ''fpga/arty_a7/rtl/rgmii_lb_selftest.vhd'',
      ''fpga/zcu106/rtl/zcu106_si5328_rom_pkg.vhd'', ''fpga/zcu106/rtl/i2c_init.vhd'',
      ''fpga/zcu106/rtl/sfp_lb_tester.vhd''],
     [''icmp_echo'', ''udp_echo'', ''udp_blast'', ''udp_blast_trigger'', ''udp_iperf_sink'',
      ''udp_stats_reply'', ''axil_arb2'', ''clk_gen'', ''uart_tx'', ''arp_responder'',
      ''test_sequencer'', ''gmii_lb_selftest'', ''rgmii_lb_selftest'', ''i2c_init'',
      ''sfp_lb_tester'']),
    ([''fpga/zcu106/rtl/zcu106_top.vhd''], [''zcu106_top'']),
    ([''fpga/zcu106/rtl/zcu106_top_lb.vhd''], [''zcu106_top''])]"

definition file_lines :: "string \<Rightarrow> string list" where
  "file_lines = split_at (CHR 0x0A)"

definition vhdl_sources :: "host \<Rightarrow> string \<Rightarrow> string list res" where
  "vhdl_sources h target =
    res_bind (read_file h (in_project h (os_join h ''rtl'' ''eth_mac_sys_vhdl.f''))) (\<lambda>text.
    Inr (map (\<lambda>l. if contains ''/target/emz_target_'' l
                then ''rtl/vhdl/target/emz_target_'' @ target @ ''.vhd'' else l)
          (filter (\<lambda>l. l \<noteq> [] \<and> \<not> prefix ''#'' l) (map strip (file_lines text)))))"

text \<open>\<open>os.path.join(PROJECT_DIR, *script.split("/"))\<close>\<close>

definition project_path :: "host \<Rightarrow> string \<Rightarrow> string" where
  "project_path h p = foldl (os_join h) (project_dir h) (split_at (CHR ''/'') p)"

definition check_parity_gen :: "host \<Rightarrow> string \<times> string \<Rightarrow> verdict" where
  "check_parity_gen h sw =
    (let (script, what) = sw;
         cmd = quoted (executable h) @ '' '' @ quoted (project_path h script) @ '' --check'';
         (rc, out, err) = run_cmd h cmd (project_dir h) 60
     in if rc \<noteq> 0 then
          (False, [Run cmd (project_dir h) 60, Failed (what @ '': out of date ('' @ script @ '' --check)'')]
             @ said_lines 5 (splitlines (strip (strip out @ [CHR 0x0A] @ strip err))))
        else (True, [Run cmd (project_dir h) 60, Passed (what @ '': in sync'')]))"

text \<open>The last line of an empty output does not exist: \<open>IndexError\<close>.\<close>

definition check_sensitivity :: "host \<Rightarrow> verdict res" where
  "check_sensitivity h =
    (let cmd = quoted (executable h) @ '' ''
               @ quoted (in_project h (os_join h (os_join h ''sim'' ''parity'') ''sens_check.py''));
         (rc, out, err) = run_cmd h cmd (project_dir h) 60;
         ls = splitlines (strip out)
     in if rc \<noteq> 0 then
          Inr (False, [Run cmd (project_dir h) 60, Failed ''VHDL sensitivity lists (sim/parity/sens_check.py)'']
             @ said_lines 10 (splitlines (strip (strip out @ [CHR 0x0A] @ strip err))))
        else if ls = [] then Inl IndexError
        else Inr (True, [Run cmd (project_dir h) 60, Passed (''VHDL sensitivity lists: '' @ last ls)]))"

text \<open>Where GHDL runs: natively, in WSL, or nowhere.\<close>

datatype ghdl_where = Native string | In_wsl string | Nowhere

definition find_ghdl :: "host \<Rightarrow> ghdl_where \<times> action list" where
  "find_ghdl h =
    (let ghdl = (case getenv h ''GHDL'' of Some p \<Rightarrow> (if p = [] then find_first h [''ghdl''] else Some p)
                 | None \<Rightarrow> find_first h [''ghdl''])
     in case ghdl of
          Some p \<Rightarrow> (Native p, [])
        | None \<Rightarrow> (case find_wsl h of
            None \<Rightarrow> (Nowhere, [])
          | Some wsl \<Rightarrow>
              (let (rc, _, _) = wsl_run h wsl ''command -v ghdl'' 120
               in (if rc \<noteq> 0 then Nowhere else In_wsl wsl, [Wsl (wsl_argv h wsl ''command -v ghdl'') 120]))))"

text \<open>Running a GHDL script: \<open>script\<close> maps the name of the tool to the command line.\<close>

definition run_ghdl :: "host \<Rightarrow> ghdl_where \<Rightarrow> (string \<Rightarrow> string) \<Rightarrow> nat \<Rightarrow> (int \<times> string \<times> string) \<times> action list" where
  "run_ghdl h g script timeout =
    (case g of
       Native p \<Rightarrow> (run_cmd h (script (quoted p)) (project_dir h) timeout,
                    [Run (script (quoted p)) (project_dir h) timeout])
     | In_wsl wsl \<Rightarrow> (wsl_run h wsl (script ''ghdl'') timeout, [Wsl (wsl_argv h wsl (script ''ghdl'')) timeout])
     | Nowhere \<Rightarrow> ((-1, [], []), []))"

definition ghdl_report :: "string \<Rightarrow> string \<Rightarrow> int \<times> string \<times> string \<Rightarrow> verdict" where
  "ghdl_report failed passed r =
    (let (rc, out, err) = r
     in if rc \<noteq> 0 then (False, Failed failed # said_lines 20 (splitlines (both_outputs out err)))
        else (True, [Passed passed]))"

definition lint_target :: "host \<Rightarrow> ghdl_where \<Rightarrow> string \<Rightarrow> verdict res" where
  "lint_target h g target =
    (let rel = ''sim/.ghdl_'' @ pid h @ ''_'' @ target;
         workdir = in_project h rel;
         flags = ''--std=93 --workdir='' @ rel
     in res_bind (vhdl_sources h target) (\<lambda>srcs.
        let script = (\<lambda>q. q @ '' -a '' @ flags @ '' '' @ join '' '' srcs @ '' && '' @ q @ '' -e '' @ flags
                            @ '' eth_mac_sys'');
            (r, ran) = run_ghdl h g script 300;
            junk = filter (path_isfile h)
              (map (in_project h) [''eth_mac_sys'', ''eth_mac_sys.exe'', ''e~eth_mac_sys.o'']);
            (b, said) = ghdl_report (''GHDL lint ('' @ target @ '')'')
              (''GHDL lint ('' @ target @ ''): analyse + elaborate eth_mac_sys'') r
        in Inr (b, Mkdir workdir # ran @ [Rmtree workdir] @ map Remove junk @ said)))"

definition lint_boards :: "host \<Rightarrow> ghdl_where \<Rightarrow> verdict res" where
  "lint_boards h g =
    (let rel = ''sim/.ghdl_'' @ pid h @ ''_boards'';
         workdir = in_project h rel;
         up = (\<lambda>s. ''../../'' @ s)
     in res_bind (vhdl_sources h ''xilinx_7series'') (\<lambda>core.
        res_bind (read_file h (in_project h (os_join h ''rtl'' ''eth_mac_sys_l3_vhdl.f''))) (\<lambda>text.
        let l3 = map strip (filter (\<lambda>l. strip l \<noteq> [] \<and> \<not> prefix ''#'' l) (file_lines text));
            steps = (\<lambda>q. [''cd '' @ rel, q @ '' -a --std=93 '' @ join '' '' (map up (core @ l3))]
              @ concat (map (\<lambda>(files, entities).
                  (q @ '' -a --std=93 '' @ join '' '' (map up files))
                  # map (\<lambda>e. q @ '' -e --std=93 '' @ e) entities) VHDL_BOARD_STEPS));
            tops = concat (map snd VHDL_BOARD_STEPS);
            (r, ran) = run_ghdl h g (\<lambda>q. join '' && '' (steps q)) 600;
            (b, said) = ghdl_report ''GHDL lint (L3 + board VHDL)''
              (''GHDL lint (L3 + board VHDL): analyse + elaborate '' @ show_nat (length tops) @ '' tops'') r
        in Inr (b, Mkdir workdir # ran @ [Rmtree workdir] @ said))))"

definition run_ghdl_lint :: "host \<Rightarrow> verdict res" where
  "run_ghdl_lint h =
    (let (gen_ok, gen_acts) = run_all (check_parity_gen h) PARITY_GEN_CHECKS
     in res_bind (check_sensitivity h) (\<lambda>(sens_ok, sens_acts).
        let (g, probe) = find_ghdl h;
            pre = gen_acts @ sens_acts @ probe
        in if g = Nowhere then
             Inr (gen_ok \<and> sens_ok, pre @ [Skipped ''GHDL not found (native PATH, $GHDL or WSL) - the VHDL port is NOT checked by this run''])
           else
             res_bind (run_all_res (lint_target h g) VHDL_TARGETS) (\<lambda>(t_ok, t_acts).
             res_bind (lint_boards h g) (\<lambda>(b_ok, b_acts).
             Inr (gen_ok \<and> sens_ok \<and> t_ok \<and> b_ok, pre @ t_acts @ b_acts)))))"

section \<open>Icarus simulation\<close>

definition count_match :: "string \<Rightarrow> string matcher" where
  "count_match word_lower s =
    Option.bind (m_some py_digit s) (\<lambda>(n, s).
    Option.bind (m_some py_space s) (\<lambda>(_, s).
    if prefix word_lower (lower s) then Some (n, drop (length word_lower) s) else None))"

text \<open>The number of passed tests a simulation prints: the \<open>PASS:\<close> lines, or else the number in
  front of \<open>tests passed\<close> or of \<open>PASS\<close>, in any case.\<close>

definition pass_count :: "string \<Rightarrow> nat res" where
  "pass_count combined =
    (if count_str combined ''PASS:'' \<noteq> 0 then Inr (count_str combined ''PASS:'')
     else (case search (count_match ''tests passed'') combined of
         Some n \<Rightarrow> int_of 10 n
       | None \<Rightarrow> (case search (count_match ''pass'') combined of
           Some n \<Rightarrow> int_of 10 n
         | None \<Rightarrow> Inr 0)))"

definition prints_failure :: "string \<Rightarrow> bool" where
  "prints_failure combined = list_ex (\<lambda>l. prefix ''FAIL'' (strip l)) (splitlines combined)"

definition sim_result :: "string \<Rightarrow> int \<Rightarrow> string \<Rightarrow> verdict" where
  "sim_result name rc combined =
    (if rc = 0 \<and> contains ''ALL TESTS PASSED'' combined \<and> \<not> prints_failure combined then
       (True, [Passed (name @ '': '' @ (case pass_count combined of Inr n \<Rightarrow> show_nat n | Inl _ \<Rightarrow> [])
          @ '' tests passed'')])
     else
       (False, Failed (name @ '': simulation failed (rc='' @ show_int rc @ '')'')
          # map (\<lambda>l. Said (''    '' @ strip l))
              (filter (\<lambda>l. contains ''FAIL'' l \<or> contains ''PASS'' l \<or> contains ''Error'' l) (splitlines combined))
          @ (if rc = -1 then [Said ''    (timeout or command not found)''] else [])))"

definition out_image :: "host \<Rightarrow> string \<Rightarrow> sim_test \<Rightarrow> string" where
  "out_image h run_dir t = os_join h run_dir (basename (t_out t))"

definition get_or :: "'a option \<Rightarrow> 'a \<Rightarrow> 'a" where
  "get_or x d = (case x of Some v \<Rightarrow> v | None \<Rightarrow> d)"

definition compile_cmd :: "host \<Rightarrow> string \<Rightarrow> sim_test \<Rightarrow> string" where
  "compile_cmd h run_dir t =
    ''iverilog -g2001 -DSIM '' @ get_or (t_args t) [] @ '' '' @ incdir_args h @ '' -o ''
    @ quoted (out_image h run_dir t) @ '' '' @ join '' '' (map (in_project h) (t_srcs t))"

definition sim_cmd :: "host \<Rightarrow> string \<Rightarrow> sim_test \<Rightarrow> string" where
  "sim_cmd h run_dir t = ''vvp '' @ quoted (out_image h run_dir t)"

definition sim_dir :: "host \<Rightarrow> string" where
  "sim_dir h = in_project h (os_join h ''sim'' (''.run_'' @ pid h))"

definition run_sim_test :: "host \<Rightarrow> string \<Rightarrow> sim_test \<Rightarrow> verdict" where
  "run_sim_test h run_dir t =
    (let (rc, out, err) = run_cmd h (compile_cmd h run_dir t) (project_dir h) 30;
         compiled = Run (compile_cmd h run_dir t) (project_dir h) 30
     in if rc \<noteq> 0 then
          (False, [compiled, Failed (t_name t @ '': compile error''),
             Said (''    '' @ take 200 (strip err))])
        else
          (let timeout = get_or (t_sim_timeout t) 60;
               (rc, out, err) = run_cmd h (sim_cmd h run_dir t) run_dir timeout;
               (b, acts) = sim_result (t_name t) rc (out @ err)
           in (b, compiled # Run (sim_cmd h run_dir t) run_dir timeout # acts)))"

definition run_simulation :: "host \<Rightarrow> verdict" where
  "run_simulation h =
    (let (all_pass, acts) = run_all (run_sim_test h (sim_dir h)) TESTS
     in (all_pass, Mkdir (sim_dir h) # acts
          @ [Said (if all_pass then ''All simulations passed.'' else ''Simulation failures detected.'')]))"

section \<open>The VHDL port in xsim\<close>

definition XSIM_VHDL_SKIP :: "(string \<times> string) list" where
  "XSIM_VHDL_SKIP = [(''RGMII-LOOPBACK'', ''forces gmii_cdc internals (uut.gen_rgmii.u_gmii_cdc)'')]"

definition XSIM_VHDL_DEFINES :: "(string \<times> string list) list" where
  "XSIM_VHDL_DEFINES = [(''ETH-STATS'', [''TB_NO_HIER_FORCE''])]"

definition xsim_tool :: "host \<Rightarrow> string \<Rightarrow> string option" where
  "xsim_tool h name = find_first h [name, name @ ''.bat'']"

definition file_stem :: "string \<Rightarrow> string" where
  "file_stem s = stem (basename s)"

type_synonym xsim_run = "sim_test \<times> string \<times> string list \<times> string list"

text \<open>One test of the plan: \<open>None\<close> when it is passed over (its RTL is not all ported), a name
  when it is skipped, a run otherwise.\<close>

definition plan_test :: "string list \<Rightarrow> sim_test \<Rightarrow> (string + xsim_run) option" where
  "plan_test ported t =
    (let rtl = filter (prefix ''rtl/'') (t_srcs t);
         bench = filter (\<lambda>s. \<not> prefix ''rtl/'' s) (t_srcs t)
     in if list_ex (\<lambda>s. file_stem s \<notin> set ported) rtl
           \<or> list_ex (\<lambda>s. \<not> prefix ''sim/tb/'' s) bench then None
        else if map_of XSIM_VHDL_SKIP (t_name t) \<noteq> None then Some (Inl (t_name t))
        else
          (let defines = [''SIM''] @ map (drop 2) (filter (prefix ''-D'') (split_ws (get_or (t_args t) [])))
                 @ get_or (map_of XSIM_VHDL_DEFINES (t_name t)) [];
               target = (if ''XILINX_7SERIES'' \<in> set defines then ''xilinx_7series'' else ''sim'')
           in Some (Inr (t, target, defines, bench))))"

definition lefts :: "('a + 'b) list \<Rightarrow> 'a list" where
  "lefts xs = List.map_filter (\<lambda>x. case x of Inl a \<Rightarrow> Some a | Inr _ \<Rightarrow> None) xs"

definition rights :: "('a + 'b) list \<Rightarrow> 'b list" where
  "rights xs = List.map_filter (\<lambda>x. case x of Inl _ \<Rightarrow> None | Inr b \<Rightarrow> Some b) xs"

definition xsim_vhdl_plan :: "host \<Rightarrow> (xsim_run list \<times> string list) res" where
  "xsim_vhdl_plan h =
    res_bind (vhdl_sources h ''sim'') (\<lambda>srcs.
    let ported = map file_stem (filter (\<lambda>s. \<not> contains ''/target/'' s) srcs);
        items = List.map_filter (plan_test ported) TESTS
    in Inr (rights items, lefts items))"

text \<open>The three tools on one bench, in order; the first that fails ends the bench and leaves its
  return code and output.\<close>

fun run_steps :: "host \<Rightarrow> string \<Rightarrow> (string \<times> nat) list \<Rightarrow> int \<times> string \<Rightarrow> (int \<times> string) \<times> action list" where
  "run_steps h dir [] r = (r, [])"
| "run_steps h dir ((cmd, timeout) # steps) r =
    (let (rc, out, err) = run_cmd h cmd dir timeout
     in if rc \<noteq> 0 then ((rc, out @ err), [Run cmd dir timeout])
        else (let (r', acts) = run_steps h dir steps (rc, out @ err) in (r', Run cmd dir timeout # acts)))"

definition xsim_steps :: "host \<Rightarrow> (string \<Rightarrow> string) \<Rightarrow> xsim_run \<Rightarrow> (string \<times> nat) list" where
  "xsim_steps h q r =
    (let (t, target, defines, bench) = r;
         snap = ''snap_'' @ map (\<lambda>c. if word_char c then c else CHR ''_'') (lower (t_name t));
         top = file_stem (last bench);
         defs = join '' '' (map (\<lambda>d. ''-d '' @ d) defines);
         incdirs = join '' '' (map (\<lambda>d. ''-i '' @ quoted (in_project h d)) [''rtl'']);
         srcs = join '' '' (map (\<lambda>s. quoted (in_project h s)) bench)
     in [(q ''xvlog'' @ '' '' @ defs @ '' '' @ incdirs @ '' '' @ srcs, 300),
         (q ''xelab'' @ '' -debug off --relax -timescale 1ns/1ps work.'' @ top @ '' -s '' @ snap, 600),
         (q ''xsim'' @ '' '' @ snap @ '' -R'', max 300 (3 * get_or (t_sim_timeout t) 60))])"

definition run_xsim_bench :: "host \<Rightarrow> (string \<Rightarrow> string) \<Rightarrow> string \<Rightarrow> xsim_run \<Rightarrow> verdict" where
  "run_xsim_bench h q run_dir r =
    (let (t, target, defines, bench) = r;
         ((rc, out), acts) = run_steps h run_dir (xsim_steps h q r) (0, []);
         label = t_name t @ '' (VHDL''
           @ (if map_of XSIM_VHDL_DEFINES (t_name t) \<noteq> None then '', without its force-based check'' else [])
           @ '')''
     in if rc \<noteq> 0 \<and> \<not> contains ''ALL TESTS PASSED'' out then
          (False, acts @ Failed (t_name t @ '' (VHDL): rc='' @ show_int rc)
             # map (\<lambda>l. Said (''    '' @ take 200 (strip l)))
                 (filter (\<lambda>l. contains ''ERROR'' l \<or> contains ''FAIL'' l) (splitlines out)))
        else (let (b, said) = sim_result label rc out in (b, acts @ said)))"

text \<open>The loop over the plan; \<open>compiled\<close> remembers, per target, whether the port compiled.\<close>

definition compile_port :: "host \<Rightarrow> (string \<Rightarrow> string) \<Rightarrow> string \<Rightarrow> string \<Rightarrow> verdict res" where
  "compile_port h q run_dir target =
    res_bind (vhdl_sources h target) (\<lambda>srcs.
    let cmd = q ''xvhdl'' @ '' '' @ join '' '' (map (\<lambda>s. quoted (in_project h s)) srcs);
        (rc, out, err) = run_cmd h cmd run_dir 600
    in Inr (rc = 0, [Mkdir run_dir, Run cmd run_dir 600]
         @ (if rc \<noteq> 0 then Failed (''xvhdl ('' @ target @ ''): VHDL port does not compile'')
              # map (\<lambda>l. Said (''    '' @ take 200 (strip l)))
                  (filter (contains ''ERROR'') (splitlines (out @ err))) else [])))"

fun run_plan :: "host \<Rightarrow> (string \<Rightarrow> string) \<Rightarrow> string \<Rightarrow> (string \<rightharpoonup> bool) \<Rightarrow> xsim_run list \<Rightarrow> verdict res" where
  "run_plan h q root compiled [] = Inr (True, [])"
| "run_plan h q root compiled (r # rs) =
    (let target = fst (snd r); run_dir = os_join h root target
     in res_bind (case compiled target of
            Some ok \<Rightarrow> Inr (ok, [])
          | None \<Rightarrow> compile_port h q run_dir target) (\<lambda>(ok, c_acts).
        let (b, acts) = (if ok then run_xsim_bench h q run_dir r else (False, []))
        in res_bind (run_plan h q root (compiled(target \<mapsto> ok)) rs) (\<lambda>(bs, actss).
           Inr (b \<and> bs, c_acts @ acts @ actss))))"

definition run_vhdl_xsim :: "host \<Rightarrow> verdict res" where
  "run_vhdl_xsim h =
    (let tools = [''xvlog'', ''xvhdl'', ''xelab'', ''xsim'']
     in if \<exists>n \<in> set tools. xsim_tool h n = None then
          Inr (True, [Skipped ''Vivado xsim not on PATH - the VHDL port is NOT simulated by this run''])
        else
          (let q = (\<lambda>n. quoted (the (xsim_tool h n)));
               root = in_project h (os_join h ''sim'' (''.xsim_vhdl_'' @ pid h))
           in res_bind (xsim_vhdl_plan h) (\<lambda>(plan, skipped).
              res_bind (run_plan h q root Map.empty plan) (\<lambda>(all_pass, acts).
              Inr (all_pass, acts @ [Rmtree root]
                @ map (\<lambda>n. Skipped (n @ '' (VHDL): '' @ get_or (map_of XSIM_VHDL_SKIP n) [])) skipped
                @ [Said (if all_pass
                     then ''All VHDL simulations passed ('' @ show_nat (length plan) @ '' benches, ''
                       @ show_nat (length skipped) @ '' Verilog-only).''
                     else ''VHDL simulation failures detected.'')])))))"

section \<open>RGMII on the vendor DDR models\<close>

definition RGMII_VENDOR_TBS :: "(string \<times> nat) list" where
  "RGMII_VENDOR_TBS = [(''RGMII-IF'', 300), (''RGMII-IF-100M'', 300),
     (''RGMII-IF-SPEED-SWITCH'', 300), (''RGMII-IF-VARIANTS'', 300)]"

definition XILINX_DDR_FAMILIES :: "(string \<times> string \<times> string list) list" where
  "XILINX_DDR_FAMILIES = [
    (''7-series'', ''XILINX_7SERIES'', [''ODDR.v'', ''IDDR.v'']),
    (''UltraScale+'', ''XILINX_ULTRASCALE_PLUS'', [''ODDRE1.v'', ''IDDRE1.v''])]"

text \<open>\<open>all(...)\<close> stops at the first wrapper without the define and does not read the other.\<close>

definition ddr_wrappers_support :: "host \<Rightarrow> string \<Rightarrow> bool res" where
  "ddr_wrappers_support h define =
    res_bind (read_file h (in_project h (os_join h ''rtl'' ''ddr_input.v''))) (\<lambda>a.
    if \<not> contains define a then Inr False
    else res_bind (read_file h (in_project h (os_join h ''rtl'' ''ddr_output.v''))) (\<lambda>b.
         Inr (contains define b)))"

definition by_name :: "string \<Rightarrow> sim_test res" where
  "by_name name = (case map_of (rev (map (\<lambda>t. (t_name t, t)) TESTS)) name of
     Some t \<Rightarrow> Inr t | None \<Rightarrow> Inl (KeyError name))"

definition run_vendor_tb ::
  "host \<Rightarrow> string \<Rightarrow> string \<Rightarrow> string \<times> string \<times> string list \<Rightarrow> string \<times> nat \<Rightarrow> verdict res" where
  "run_vendor_tb h src run_dir family tb =
    (let (label, define, models) = family; (name, sim_timeout) = tb;
         libs = os_join h src ''glbl.v'' # map (\<lambda>m. os_join h (os_join h src ''unisims'') m) models
     in res_bind (by_name name) (\<lambda>t.
        let top = file_stem (last (t_srcs t));
            srcs = join '' '' (map quoted libs) @ '' '' @ join '' '' (map (in_project h) (t_srcs t));
            image = os_join h run_dir (top @ ''_'' @ define @ ''.vvp'');
            cmd = ''iverilog -g2005 -D'' @ define @ '' '' @ incdir_args h @ '' -s '' @ top
              @ '' -s glbl -o '' @ quoted image @ '' '' @ srcs;
            (rc, out, err) = run_cmd h cmd (project_dir h) 60
        in if rc \<noteq> 0 then
             Inr (False, [Run cmd (project_dir h) 60,
               Failed (name @ '' ('' @ label @ '' models): compile error''),
               Said (''    '' @ take 200 (strip err))])
           else
             (let (rc, out, err) = run_cmd h (''vvp '' @ quoted image) run_dir sim_timeout;
                  (b, acts) = sim_result (name @ '' ('' @ label @ '' models)'') rc (out @ err)
              in Inr (b, [Run cmd (project_dir h) 60, Run (''vvp '' @ quoted image) run_dir sim_timeout] @ acts))))"

definition run_vendor_family ::
  "host \<Rightarrow> string \<Rightarrow> string \<Rightarrow> string \<times> string \<times> string list \<Rightarrow> verdict res" where
  "run_vendor_family h src run_dir family =
    res_bind (ddr_wrappers_support h (fst (snd family))) (\<lambda>ok.
    if \<not> ok then
      Inr (True, [Skipped (fst family @ '': rtl/ddr_input.v / ddr_output.v have no '' @ fst (snd family)
        @ '' branch'')])
    else run_all_res (run_vendor_tb h src run_dir family) RGMII_VENDOR_TBS)"

definition run_vendor_ddr_sims :: "host \<Rightarrow> verdict res" where
  "run_vendor_ddr_sims h =
    (case find_vivado h of
       None \<Rightarrow> Inr (True, [Skipped ''Vivado not found on PATH - RGMII is only checked against the behavioral DDR model''])
     | Some vivado \<Rightarrow>
         (let src = foldl (os_join h) (dirname (is_sep h) (dirname (is_sep h) vivado)) [''data'', ''verilog'', ''src'']
          in if \<not> path_isfile h (os_join h src ''glbl.v'') then
               Inr (False, [Failed (''Vivado simulation models not found under '' @ src)])
             else res_bind (run_all_res (run_vendor_family h src (sim_dir h)) XILINX_DDR_FAMILIES) (\<lambda>(b, acts).
               Inr (b, Mkdir (sim_dir h) # acts))))"

section \<open>RGMII implementation\<close>

definition RGMII_IMPL_PARTS :: "(string \<times> string \<times> string) list" where
  "RGMII_IMPL_PARTS = [
    (''7-series'', ''XILINX_7SERIES'', ''xc7a100tcsg324-1''),
    (''UltraScale+'', ''XILINX_ULTRASCALE_PLUS'', ''xczu7ev-ffvc1156-2-e'')]"

text \<open>\<open>^RGMII_IMPL (OK|FAIL) \S+ \S+ (.*)$\<close>\<close>

definition IMPL_RE :: "(string \<times> string) matcher" where
  "IMPL_RE s =
    Option.bind (m_lit ''RGMII_IMPL '' s) (\<lambda>s. Option.bind (m_word [''OK'', ''FAIL''] s) (\<lambda>(v, s).
    Option.bind (m_lit '' '' s) (\<lambda>s. Option.bind (m_some (\<lambda>c. \<not> py_space c) s) (\<lambda>(_, s).
    Option.bind (m_lit '' '' s) (\<lambda>s. Option.bind (m_some (\<lambda>c. \<not> py_space c) s) (\<lambda>(_, s).
    Option.bind (m_lit '' '' s) (\<lambda>s.
    Some ((v, takeWhile (\<lambda>c. c \<noteq> CHR 0x0A) s), dropWhile (\<lambda>c. c \<noteq> CHR 0x0A) s))))))))"

definition run_impl_speed :: "host \<Rightarrow> string \<Rightarrow> string \<times> string \<times> string \<Rightarrow> string \<Rightarrow> verdict" where
  "run_impl_speed h vivado family speeds =
    (let (label, define, part) = family;
         cmd = quoted vivado @ '' -mode batch -source '' @ quoted ''fpga/scripts/rgmii_impl_check.tcl''
           @ '' -nojournal -nolog -tclargs '' @ quoted (project_dir h) @ '' '' @ speeds @ '' '' @ part
           @ '' '' @ define;
         (rc, out, err) = run_cmd h cmd (project_dir h) 1800;
         output = out @ err;
         m = search_bol True IMPL_RE output;
         what = ''RGMII '' @ label @ '' '' @ speeds @ '' ('' @ part @ '')'';
         errors = filter (\<lambda>l. prefix ''ERROR'' l \<and> \<not> contains ''17-39'' l) (splitlines output);
         shown = (if errors \<noteq> [] then errors
                  else drop (length (splitlines output) - 10) (splitlines output))
     in if rc = 0 \<and> (\<exists>g. m = Some (''OK'', g)) then
          (True, [Run cmd (project_dir h) 1800, Passed (what @ '': '' @ snd (the m))])
        else
          (False, [Run cmd (project_dir h) 1800, Failed (what @ '' rc='' @ show_int rc)]
             @ (case m of Some (_, g) \<Rightarrow> [Said (''    '' @ take 300 g)] | None \<Rightarrow> [])
             @ map (\<lambda>l. Said (''    '' @ take 300 l)) (take 6 shown)))"

definition run_rgmii_impl :: "host \<Rightarrow> verdict res" where
  "run_rgmii_impl h =
    (case find_vivado h of
       None \<Rightarrow> Inr (False, [Failed ''Vivado not found on PATH (--impl needs it)''])
     | Some vivado \<Rightarrow>
         run_all_res (\<lambda>family.
           res_bind (ddr_wrappers_support h (fst (snd family))) (\<lambda>ok.
           if \<not> ok then
             Inr (True, [Skipped (fst family @ '': rtl/ddr_input.v / ddr_output.v have no ''
               @ fst (snd family) @ '' branch'')])
           else Inr (run_all (run_impl_speed h vivado family) [''ALL'', ''1G_ONLY'', ''10_100''])))
         RGMII_IMPL_PARTS)"

section \<open>The cocotb phases\<close>

definition COCOTB_JOBS :: "host \<Rightarrow> nat" where
  "COCOTB_JOBS h = max 1 (case cpu_count h of Some n \<Rightarrow> if n = 0 then 1 else n | None \<Rightarrow> 1)"

definition cocotb_report :: "string \<Rightarrow> action list" where
  "cocotb_report combined =
    (let ls = splitlines combined;
         rest = dropWhile (\<lambda>l. \<not> prefix ''[cocotb] Summary'' l) ls;
         shown = (if rest \<noteq> [] then tl rest else drop (length ls - 20) ls)
     in map (\<lambda>l. Said (''    '' @ take 160 (strip l))) (filter (\<lambda>l. strip l \<noteq> []) shown))"

definition cocotb_verdict :: "string \<Rightarrow> int \<times> string \<times> string \<Rightarrow> verdict" where
  "cocotb_verdict what r =
    (let (rc, out, err) = r
     in if rc = 0 then (True, cocotb_report (out @ err) @ [Passed what])
        else (False, cocotb_report (out @ err) @ [Failed (what @ '' rc='' @ show_int rc)]))"

definition run_cocotb :: "host \<Rightarrow> verdict" where
  "run_cocotb h =
    (let runner = project_path h ''sim/cocotb/run.py'';
         cmd = quoted (executable h) @ '' '' @ quoted runner @ '' --hdl verilog -j '' @ show_nat (COCOTB_JOBS h)
     in if \<not> has_cocotb h then
          (True, [Skipped ''cocotb not installed - cocotb suites not run''])
        else if \<not> path_exists h runner then (False, [Failed ''cocotb runner missing''])
        else (let (b, acts) = cocotb_verdict ''cocotb suites on the Verilog RTL (Icarus)''
                    (run_cmd h cmd (project_dir h) 3600)
              in (b, Run cmd (project_dir h) 3600 # acts)))"

definition run_cocotb_vhdl :: "host \<Rightarrow> verdict" where
  "run_cocotb_vhdl h =
    (let probe = ''import cocotb_tools.runner'';
         probe_cmd = quoted (executable h) @ '' -c '' @ quoted probe;
         has_ghdl = (case getenv h ''GHDL'' of Some p \<Rightarrow> p \<noteq> [] | None \<Rightarrow> False)
                    \<or> find_first h [''ghdl''] \<noteq> None;
         native = has_ghdl \<and> fst (run_cmd h probe_cmd (project_dir h) 60) = 0;
         a1 = (if has_ghdl then [Run probe_cmd (project_dir h) 60] else []);
         wsl_cmd = ''command -v ghdl && python3 -c '' @ [CHR 0x27] @ probe @ [CHR 0x27];
         wsl0 = (if native then None else find_wsl h);
         wsl = (case wsl0 of None \<Rightarrow> None
                | Some w \<Rightarrow> if fst (wsl_run h w wsl_cmd 120) \<noteq> 0 then None else Some w);
         a2 = (case wsl0 of None \<Rightarrow> [] | Some w \<Rightarrow> [Wsl (wsl_argv h w wsl_cmd) 120]);
         what = ''cocotb suites on the VHDL port (GHDL)'';
         cmd = quoted (executable h) @ '' '' @ quoted (project_path h ''sim/cocotb/run.py'')
           @ '' --hdl vhdl -j '' @ show_nat (COCOTB_JOBS h);
         cmd_wsl = ''python3 sim/cocotb/run.py --hdl vhdl -j '' @ show_nat (COCOTB_JOBS h)
     in if native then
          (let (b, acts) = cocotb_verdict what (run_cmd h cmd (project_dir h) 3600)
           in (b, a1 @ a2 @ Run cmd (project_dir h) 3600 # acts))
        else (case wsl of
            None \<Rightarrow> (True, a1 @ a2 @ [Skipped ''GHDL + cocotb not found (native or WSL) - the VHDL port is NOT simulated by this run''])
          | Some w \<Rightarrow>
              (let (b, acts) = cocotb_verdict what (wsl_run h w cmd_wsl 3600)
               in (b, a1 @ a2 @ Wsl (wsl_argv h w cmd_wsl) 3600 # acts))))"

section \<open>The run\<close>

definition version_paths :: "host \<Rightarrow> version_files" where
  "version_paths h =
    \<lparr>f_vh = project_path h ''rtl/version.vh'', f_c = project_path h ''sw/emaczero/emaczero.h'',
     f_core = project_path h ''emaczero.core'', f_vhdl = project_path h ''rtl/vhdl/emz_version_pkg.vhd''\<rparr>"

text \<open>The exit code of \<open>main\<close>: every phase runs, whatever the earlier ones said; an exception
  ends the run.\<close>

definition main_exit :: "host \<Rightarrow> bool \<Rightarrow> int res" where
  "main_exit h impl =
    res_bind (run_version_check (read_file h) (version_paths h)) (\<lambda>version_ok.
    let lint_ok = fst (run_lint h);
        verilator_ok = fst (run_verilator_lint h);
        elab_ok = fst (run_vivado_elab h)
    in res_bind (run_ghdl_lint h) (\<lambda>ghdl.
       let sim_ok = fst (run_simulation h)
       in res_bind (run_vhdl_xsim h) (\<lambda>vhdl_sim.
          res_bind (run_vendor_ddr_sims h) (\<lambda>vendor.
          let cocotb_ok = fst (run_cocotb h);
              cocotb_vhdl_ok = fst (run_cocotb_vhdl h)
          in res_bind (if impl then run_rgmii_impl h else Inr (True, [])) (\<lambda>impl_r.
             if version_ok \<and> lint_ok \<and> verilator_ok \<and> elab_ok \<and> fst ghdl \<and> sim_ok
                \<and> fst vhdl_sim \<and> fst vendor \<and> cocotb_ok \<and> cocotb_vhdl_ok \<and> fst impl_r
             then Inr 0 else Inr 1)))))"

end
