(* ===== verification/Emz_Verdicts.thy ===== *)
theory Emz_Verdicts
  imports Emz_Phases
begin

text \<open>
  What the phases of \<open>build_and_test.py\<close> decide: for each, the command results its verdict
  depends on, and for the whole run when the exit code is 0. The first section has the lemmas
  the theorems share: the verdict and the actions of a loop over items, of a simulation and of
  the three tools of one xsim bench.
\<close>

section \<open>Lemmas\<close>

lemma fst_sim_result:
  "fst (sim_result name rc combined) \<longleftrightarrow>
    rc = 0 \<and> contains ''ALL TESTS PASSED'' combined \<and> \<not> prints_failure combined"
  by (simp add: sim_result_def)


lemma lint_classify_errors:
  "fst (lint_classify ls) = filter (\<lambda>l. contains ''error'' (lower l)
     \<and> \<not> (\<exists>s \<in> set LINT_SUPPRESS. contains s l)) ls"
  by (induction ls) (simp_all add: split_beta Let_def)

lemma os_join_inj: "os_join h a b = os_join h a b' \<longleftrightarrow> b = b'"
  by (simp add: os_join_def)

lemma run_all_res_verdict:
  "run_all_res f xs = Inr (b, acts) \<Longrightarrow> b \<longleftrightarrow> (\<forall>x \<in> set xs. \<exists>a. f x = Inr (True, a))"
  by (induction xs arbitrary: b acts) (auto simp: res_simps)

lemma run_all_res_actions:
  "run_all_res f xs = Inr (b, acts) \<Longrightarrow>
    act \<in> set acts \<longleftrightarrow> (\<exists>x b a. x \<in> set xs \<and> f x = Inr (b, a) \<and> act \<in> set a)"
proof (induction xs arbitrary: b acts)
  case (Cons x xs)
  from Cons.prems obtain b1 a1 b2 a2 where r: "f x = Inr (b1, a1)" "run_all_res f xs = Inr (b2, a2)"
    "acts = a1 @ a2"
    by (auto simp: res_simps)
  have "(\<exists>y b a. y \<in> set (x # xs) \<and> f y = Inr (b, a) \<and> act \<in> set a) \<longleftrightarrow>
      act \<in> set a1 \<or> (\<exists>y b a. y \<in> set xs \<and> f y = Inr (b, a) \<and> act \<in> set a)"
    using r(1) by (simp add: conj_disj_distribR ex_disj_distrib)
  then show ?case using r(3) Cons.IH [OF r(2)] by simp
qed simp

lemma returns_run_all_res: "(\<And>x. x \<in> set xs \<Longrightarrow> returns (f x)) \<Longrightarrow> returns (run_all_res f xs)"
proof (induction xs)
  case (Cons x xs)
  obtain r where "f x = Inr r" using Cons.prems [of x] by (auto simp: returns_iff)
  moreover obtain rs where "run_all_res f xs = Inr rs"
    using Cons.IH Cons.prems by (auto simp: returns_iff)
  ultimately show ?case by (cases r; cases rs) simp
qed simp

lemma vendor_tbs_known: "list_all (\<lambda>tb. returns (by_name (fst tb))) RGMII_VENDOR_TBS"
  by code_simp

lemma run_steps_ok:
  "fst (run_steps h d steps r) = (0, out) \<longleftrightarrow>
    list_all (\<lambda>(cmd, t). fst (run_cmd h cmd d t) = 0) steps \<and>
    (if steps = [] then r = (0, out)
     else out = (case run_cmd h (fst (last steps)) d (snd (last steps)) of (_, a, b) \<Rightarrow> a @ b))"
proof (induction steps arbitrary: r)
  case (Cons step steps)
  obtain cmd t where step: "step = (cmd, t)" by force
  obtain rc a b where cmd: "run_cmd h cmd d t = (rc, a, b)" by (cases "run_cmd h cmd d t") auto
  show ?case
    using Cons.IH [of "(rc, a @ b)"] by (cases steps) (auto simp: step cmd split_beta)
qed simp

section \<open>Theorems\<close>


text \<open>No two tests of the table share a name or a simulation image, so no test of the Icarus
  phase runs an image another test compiled.\<close>

theorem simulation_images_private:
  "distinct (map t_name TESTS) \<and> distinct (map (out_image h d) TESTS)"
proof -
  have "map (out_image h d) TESTS = map (os_join h d) (map (\<lambda>t. basename (t_out t)) TESTS)"
    by (simp add: out_image_def)
  then show ?thesis
    using TESTS_distinct_names TESTS_distinct_images
    by (simp only: distinct_map [of "os_join h d"]) (simp add: inj_on_def os_join_inj)
qed

text \<open>The iverilog lint phase fails exactly when the compiler returns non-zero and prints, on
  \<open>stderr\<close>, a line with the word \<open>error\<close> that no suppression pattern matches.\<close>

theorem run_lint_fails_iff:
  "\<not> fst (run_lint h) \<longleftrightarrow>
    (let (rc, out, err) = run_cmd h (lint_cmd h) (project_dir h) 30
     in rc \<noteq> 0 \<and> (\<exists>l. l \<in> set (splitlines (strip err)) \<and> contains ''error'' (lower l)
          \<and> \<not> contains ''is sensitive to all'' l \<and> \<not> contains ''timescale'' l))"
  by (cases "run_cmd h (lint_cmd h) (project_dir h) 30")
    (auto simp: run_lint_def split_beta Let_def if_distrib [of fst] lint_classify_errors
      filter_empty_conv LINT_SUPPRESS_def splitlines_def)

text \<open>C13: A compiler that runs into its 30 second timeout passes the lint phase as clean, although
  nothing was linted: the text the script reports then, \<open>TIMEOUT\<close>, has no \<open>error\<close> in it.\<close>

theorem run_lint_timeout_is_clean:
  assumes "shell h (lint_cmd h) (project_dir h) 30 = Timed_out"
  shows "fst (run_lint h) \<and> last (snd (run_lint h)) = Passed ''Lint: clean''"
proof -
  have "run_cmd h (lint_cmd h) (project_dir h) 30 = (-1, [], ''TIMEOUT'')"
    using assms by (simp add: run_cmd_def)
  moreover have "strip ''TIMEOUT'' = ''TIMEOUT''" "splitlines ''TIMEOUT'' = [''TIMEOUT'']"
    "lint_classify [''TIMEOUT''] = ([], [])"
    by code_simp+
  ultimately show ?thesis by (simp add: run_lint_def)
qed

definition timed_out_host :: host where
  "timed_out_host = \<lparr>is_nt = False, project_dir = ''/p'', pid = ''1'', executable = ''python3'',
     shell = (\<lambda>_ _ _. Timed_out), wsl_proc = (\<lambda>_ _. Timed_out), which = (\<lambda>_. None),
     getenv = (\<lambda>_. None), path_exists = (\<lambda>_. False), path_isfile = (\<lambda>_. False),
     read_file = (\<lambda>p. Inl (OSError p)), has_cocotb = False, cpu_count = None\<rparr>"

theorem run_lint_timeout_is_clean_witness: "fst (run_lint timed_out_host)"
  using run_lint_timeout_is_clean [of timed_out_host] by (simp add: timed_out_host_def)

text \<open>One bench on the VHDL port passes exactly when \<open>xvlog\<close>, \<open>xelab\<close> and \<open>xsim\<close> all
  return 0 and the output of \<open>xsim\<close>, the last of them, is that of a passing simulation.\<close>

theorem xsim_bench_passes_iff:
  "fst (run_xsim_bench h q d r) \<longleftrightarrow>
    list_all (\<lambda>(cmd, t). fst (run_cmd h cmd d t) = 0) (xsim_steps h q r) \<and>
    (let (cmd, t) = last (xsim_steps h q r); (rc, out, err) = run_cmd h cmd d t
     in contains ''ALL TESTS PASSED'' (out @ err) \<and> \<not> prints_failure (out @ err))"
proof -
  let ?steps = "xsim_steps h q r"
  obtain rc out where r: "fst (run_steps h d ?steps (0, [])) = (rc, out)" by force
  obtain cmd t where last: "last ?steps = (cmd, t)" by force
  obtain lrc a b where cmd: "run_cmd h cmd d t = (lrc, a, b)" by (cases "run_cmd h cmd d t") auto
  have ne: "?steps \<noteq> []" by (simp add: xsim_steps_def split_beta)
  have passes: "fst (run_xsim_bench h q d r) \<longleftrightarrow>
      rc = 0 \<and> contains ''ALL TESTS PASSED'' out \<and> \<not> prints_failure out"
    using r by (simp add: run_xsim_bench_def split_beta fst_sim_result)
  have steps: "fst (run_steps h d ?steps (0, [])) = (0, w) \<longleftrightarrow>
      list_all (\<lambda>(cmd, t). fst (run_cmd h cmd d t) = 0) ?steps \<and> w = a @ b" for w
    unfolding run_steps_ok using ne by (simp add: last cmd)
  have "rc = 0 \<and> out = a @ b" if "list_all (\<lambda>(cmd, t). fst (run_cmd h cmd d t) = 0) ?steps"
    using steps [of "a @ b"] that r by simp
  moreover have "list_all (\<lambda>(cmd, t). fst (run_cmd h cmd d t) = 0) ?steps" if "rc = 0"
    using steps [of out] that r by simp
  ultimately show ?thesis unfolding passes last by (auto simp: cmd)
qed

lemma run_plan_verdict_from:
  assumes "run_plan h q root compiled plan = Inr (b, acts)"
    and "\<forall>tg ok. compiled tg = Some ok \<longrightarrow> (\<exists>a. compile_port h q (os_join h root tg) tg = Inr (ok, a))"
  shows "b \<longleftrightarrow> (\<forall>r \<in> set plan.
      (\<exists>a. compile_port h q (os_join h root (fst (snd r))) (fst (snd r)) = Inr (True, a))
      \<and> fst (run_xsim_bench h q (os_join h root (fst (snd r))) r))"
  using assms
proof (induction plan arbitrary: compiled b acts)
  case (Cons r plan)
  let ?tg = "fst (snd r)"
  let ?dir = "os_join h root ?tg"
  obtain ok c_acts where ok: "(case compiled ?tg of Some ok \<Rightarrow> Inr (ok, [])
      | None \<Rightarrow> compile_port h q ?dir ?tg) = Inr (ok, c_acts)"
    using Cons.prems(1) by (auto simp: Let_def res_simps)
  obtain bs actss where rest: "run_plan h q root (compiled(?tg \<mapsto> ok)) plan = Inr (bs, actss)"
    and b: "b \<longleftrightarrow> (ok \<and> fst (run_xsim_bench h q ?dir r)) \<and> bs"
    using Cons.prems(1) ok by (auto simp: Let_def res_simps split_beta split: if_splits)
  have port: "\<exists>a. compile_port h q ?dir ?tg = Inr (ok, a)"
    using ok Cons.prems(2) by (auto split: option.splits)
  have "\<forall>tg ok'. (compiled(?tg \<mapsto> ok)) tg = Some ok' \<longrightarrow>
      (\<exists>a. compile_port h q (os_join h root tg) tg = Inr (ok', a))"
    using port Cons.prems(2) by auto
  from Cons.IH [OF rest this] b port show ?case by auto
qed simp

text \<open>C12: The verdict of the xsim phase over a plan: although the port is compiled once per target and
  the result remembered, the phase passes exactly when, for every bench of the plan, the port
  compiles for the bench's target and the bench passes.\<close>

theorem run_plan_verdict:
  assumes "run_plan h q root Map.empty plan = Inr (b, acts)"
  shows "b \<longleftrightarrow> (\<forall>r \<in> set plan.
      (\<exists>a. compile_port h q (os_join h root (fst (snd r))) (fst (snd r)) = Inr (True, a))
      \<and> fst (run_xsim_bench h q (os_join h root (fst (snd r))) r))"
  by (rule run_plan_verdict_from [OF assms]) simp

lemma ghdl_runs_make_nothing:
  "Mkdir d \<notin> set (snd (run_ghdl h g script t))"
  "Mkdir d \<notin> set (snd (ghdl_report failed passed r))"
  by (auto simp: run_ghdl_def ghdl_report_def split_beta said_lines_def split: ghdl_where.splits)

lemma lint_target_removes:
  "lint_target h g target = Inr (b, acts) \<Longrightarrow> Mkdir d \<in> set acts \<Longrightarrow> Rmtree d \<in> set acts"
  by (auto simp: lint_target_def Let_def res_bind_Inr_iff split_beta ghdl_runs_make_nothing)

lemma lint_boards_removes:
  "lint_boards h g = Inr (b, acts) \<Longrightarrow> Mkdir d \<in> set acts \<Longrightarrow> Rmtree d \<in> set acts"
  by (auto simp: lint_boards_def Let_def res_bind_Inr_iff split_beta ghdl_runs_make_nothing)

lemma ghdl_checks_make_nothing:
  "Mkdir d \<notin> set (snd (run_all (check_parity_gen h) xs))"
  "check_sensitivity h = Inr (b, acts) \<Longrightarrow> Mkdir d \<notin> set acts"
  "Mkdir d \<notin> set (snd (find_ghdl h))"
  by (auto simp: snd_run_all check_parity_gen_def check_sensitivity_def find_ghdl_def Let_def
      split_beta said_lines_def split: option.splits if_splits)

text \<open>Whatever the GHDL phase does, every work directory it made is removed again.\<close>

theorem ghdl_workdirs_removed:
  assumes "run_ghdl_lint h = Inr (b, acts)" and "Mkdir d \<in> set acts"
  shows "Rmtree d \<in> set acts"
proof -
  obtain sens where sens: "check_sensitivity h = Inr sens"
    using assms(1) by (auto simp: run_ghdl_lint_def split_beta Let_def res_bind_Inr_iff)
  show ?thesis
  proof (cases "fst (find_ghdl h) = Nowhere")
    case True
    then show ?thesis
      using assms sens ghdl_checks_make_nothing(1, 3) [of d h] ghdl_checks_make_nothing(2) [of h "fst sens" "snd sens" d]
      by (auto simp: run_ghdl_lint_def split_beta Let_def)
  next
    case False
    obtain tb ta bb ba where t: "run_all_res (lint_target h (fst (find_ghdl h))) VHDL_TARGETS = Inr (tb, ta)"
      and bd: "lint_boards h (fst (find_ghdl h)) = Inr (bb, ba)"
      and acts: "acts = snd (run_all (check_parity_gen h) PARITY_GEN_CHECKS) @ snd sens
        @ snd (find_ghdl h) @ ta @ ba"
      using assms(1) sens False
      by (simp add: run_ghdl_lint_def split_beta Let_def res_bind_Inr_iff) blast
    have "Mkdir d \<in> set ta \<or> Mkdir d \<in> set ba"
      using assms(2) acts ghdl_checks_make_nothing(1, 3) [of d h] ghdl_checks_make_nothing(2) [of h "fst sens" "snd sens" d]
        sens by auto
    moreover have "Rmtree d \<in> set ta" if "Mkdir d \<in> set ta"
      using that unfolding run_all_res_actions [OF t] using lint_target_removes by blast
    ultimately show ?thesis using lint_boards_removes [OF bd, of d] acts by auto
  qed
qed

text \<open>The vendor phase ends with a verdict whenever the two DDR wrappers can be read: every bench
  it names is in the table.\<close>

theorem vendor_sims_return:
  assumes "returns (read_file h (in_project h (os_join h ''rtl'' ''ddr_input.v'')))"
    and "returns (read_file h (in_project h (os_join h ''rtl'' ''ddr_output.v'')))"
  shows "returns (run_vendor_ddr_sims h)"
proof -
  have tb: "returns (run_vendor_tb h src d family tb)" if "tb \<in> set RGMII_VENDOR_TBS" for src d family tb
  proof -
    have "returns (by_name (fst tb))" using vendor_tbs_known that by (simp add: list_all_iff)
    then obtain t where "by_name (fst tb) = Inr t" unfolding returns_iff ..
    then show ?thesis by (simp add: run_vendor_tb_def split_beta Let_def returns_def)
  qed
  have support: "returns (ddr_wrappers_support h d)" for d
    using assms by (auto simp: ddr_wrappers_support_def returns_iff)
  have family: "returns (run_vendor_family h src d family)" for src d family
  proof -
    obtain ok where "ddr_wrappers_support h (fst (snd family)) = Inr ok"
      using support returns_iff by metis
    moreover have "returns (run_all_res (run_vendor_tb h src d family) RGMII_VENDOR_TBS)"
      by (rule returns_run_all_res) (rule tb)
    ultimately show ?thesis by (simp add: run_vendor_family_def)
  qed
  have all: "returns (run_all_res (run_vendor_family h src d) XILINX_DDR_FAMILIES)" for src d
    by (rule returns_run_all_res) (rule family)
  show ?thesis
    by (cases "find_vivado h")
      (auto simp: run_vendor_ddr_sims_def Let_def split_beta intro: returns_bind all)
qed

text \<open>\<open>main\<close> exits with 0 exactly when every phase, the implementation check only if it was asked
  for, ran to its end and passed.\<close>

theorem main_exit_zero_iff:
  "main_exit h impl = Inr 0 \<longleftrightarrow>
    run_version_check (read_file h) (version_paths h) = Inr True
    \<and> fst (run_lint h) \<and> fst (run_verilator_lint h) \<and> fst (run_vivado_elab h)
    \<and> (\<exists>a. run_ghdl_lint h = Inr (True, a)) \<and> fst (run_simulation h)
    \<and> (\<exists>a. run_vhdl_xsim h = Inr (True, a)) \<and> (\<exists>a. run_vendor_ddr_sims h = Inr (True, a))
    \<and> fst (run_cocotb h) \<and> fst (run_cocotb_vhdl h)
    \<and> (\<exists>a. (if impl then run_rgmii_impl h else Inr (True, [])) = Inr (True, a))"
  by (auto simp: main_exit_def Let_def res_bind_Inr_iff ex_bool_eq split: if_splits)

definition bare_host :: host where
  "bare_host = \<lparr>is_nt = False, project_dir = ''/p'', pid = ''1'', executable = ''python3'',
     shell = (\<lambda>_ _ _. Completed 0 ''VHDL'' []), wsl_proc = (\<lambda>_ _. Timed_out), which = (\<lambda>_. None),
     getenv = (\<lambda>n. if n = ''GHDL'' then Some ''ghdl'' else None), path_exists = (\<lambda>_. False),
     path_isfile = (\<lambda>_. False), read_file = (\<lambda>p. Inr []), has_cocotb = False, cpu_count = None\<rparr>"

theorem vendor_sims_return_witness: "returns (run_vendor_ddr_sims bare_host)"
  by (rule vendor_sims_return) (simp_all add: bare_host_def)

theorem run_plan_verdict_witness:
  "\<exists>b acts. run_plan bare_host (\<lambda>n. n) ''/x'' Map.empty [(hd TESTS, ''sim'', [''SIM''], [''sim/tb/tb_crc32.v''])]
     = Inr (b, acts) \<and> \<not> b"
proof -
  let ?plan = "[(hd TESTS, ''sim'', [''SIM''], [''sim/tb/tb_crc32.v''])]"
  obtain b acts where r: "run_plan bare_host (\<lambda>n. n) ''/x'' Map.empty ?plan = Inr (b, acts)"
    by (force simp: compile_port_def vhdl_sources_def bare_host_def Let_def run_cmd_def split_beta)
  have "\<not> contains ''ALL TESTS PASSED'' ''VHDL''" by code_simp
  then have "\<not> fst (run_xsim_bench bare_host (\<lambda>n. n) (os_join bare_host ''/x'' ''sim'') (hd ?plan))"
    by (simp add: xsim_bench_passes_iff xsim_steps_def Let_def run_cmd_def bare_host_def)
  then show ?thesis using r run_plan_verdict [OF r] by auto
qed

lemma bare_run: "shell bare_host = (\<lambda>_ _ _. Completed 0 ''VHDL'' [])"
  "read_file bare_host = (\<lambda>p. Inr [])" "find_ghdl bare_host = (Native ''ghdl'', [])"
  by (simp_all add: bare_host_def find_ghdl_def)

lemma bare_targets: "returns (run_all_res (lint_target bare_host g) VHDL_TARGETS)"
  by (rule returns_run_all_res) (simp add: lint_target_def vhdl_sources_def bare_run split_beta Let_def)

lemma bare_boards: "\<exists>b a. lint_boards bare_host g = Inr (b, Mkdir (in_project bare_host
    (''sim/.ghdl_'' @ pid bare_host @ ''_boards'')) # a)"
  by (simp add: lint_boards_def vhdl_sources_def bare_run split_beta Let_def)

lemma bare_sensitivity: "\<exists>a. check_sensitivity bare_host = Inr (True, a)"
proof -
  have "splitlines (strip ''VHDL'') = [''VHDL'']" by code_simp
  then show ?thesis by (simp add: check_sensitivity_def run_cmd_def bare_run)
qed

theorem ghdl_workdirs_removed_witness:
  "\<exists>b acts. run_ghdl_lint bare_host = Inr (b, acts) \<and> Rmtree ''/p/sim/.ghdl_1_boards'' \<in> set acts"
proof -
  obtain t where t: "run_all_res (lint_target bare_host (Native ''ghdl'')) VHDL_TARGETS = Inr t"
    using bare_targets unfolding returns_iff by blast
  obtain b a where b: "lint_boards bare_host (Native ''ghdl'') = Inr (b, Mkdir (in_project bare_host
    (''sim/.ghdl_'' @ pid bare_host @ ''_boards'')) # a)"
    using bare_boards by blast
  obtain s where s: "check_sensitivity bare_host = Inr (True, s)"
    using bare_sensitivity by blast
  have d: "in_project bare_host (''sim/.ghdl_'' @ pid bare_host @ ''_boards'') = ''/p/sim/.ghdl_1_boards''"
    by (simp add: in_project_def os_join_def is_sep_def bare_host_def)
  obtain v acts where r: "run_ghdl_lint bare_host = Inr (v, acts)"
    and m: "Mkdir ''/p/sim/.ghdl_1_boards'' \<in> set acts"
    using t b s unfolding d by (cases t) (auto simp: run_ghdl_lint_def bare_run split_beta Let_def)
  show ?thesis using r ghdl_workdirs_removed [OF r m] by blast
qed

end
