(* ===== verification/Emz_Sfp.thy ===== *)
theory Emz_Sfp
  imports Emz_Io
begin

text \<open>
  \<open>fpga/zcu106/scripts/sfp_counters.py\<close>: reading and clearing the counters of the ZCU106 demo
  over JTAG. The fcapz host library is not part of the repository; the world holds what its calls
  will answer (each answer a value or the exception the call raises) and logs the calls.
\<close>

section \<open>The JTAG world\<close>

datatype jtag_call =
    EioConnect
  | EioWrite nat
  | EioClose
  | AxiConnect
  | AxiWrite nat nat
  | AxiRead nat
  | AxiClose
  | RetrySleep

record jtag =
  j_eio_connect :: "(nat \<times> nat) res list"
  j_eio_read :: "nat res list"
  j_eio_write :: "unit res list"
  j_eio_outputs :: "nat res list"
  j_axi_connect :: "unit res list"
  j_axi_write :: "nat res list"
  j_axi_read :: "nat res list"
  j_log :: "jtag_call list"

definition j_call :: "jtag_call \<Rightarrow> (jtag, unit) io" where
  "j_call c = io_modify (\<lambda>s. s\<lparr>j_log := j_log s @ [c]\<rparr>)"

definition eio_connect :: "(jtag, nat \<times> nat) io" where
  "eio_connect = io_seq (j_call EioConnect)
     (io_answer j_eio_connect (\<lambda>xs s. s\<lparr>j_eio_connect := xs\<rparr>))"

definition eio_read_inputs :: "(jtag, nat) io" where
  "eio_read_inputs = io_answer j_eio_read (\<lambda>xs s. s\<lparr>j_eio_read := xs\<rparr>)"

definition eio_write_outputs :: "nat \<Rightarrow> (jtag, unit) io" where
  "eio_write_outputs v = io_seq (j_call (EioWrite v))
     (io_answer j_eio_write (\<lambda>xs s. s\<lparr>j_eio_write := xs\<rparr>))"

definition eio_read_outputs :: "(jtag, nat) io" where
  "eio_read_outputs = io_answer j_eio_outputs (\<lambda>xs s. s\<lparr>j_eio_outputs := xs\<rparr>)"

definition axi_connect :: "(jtag, unit) io" where
  "axi_connect = io_seq (j_call AxiConnect)
     (io_answer j_axi_connect (\<lambda>xs s. s\<lparr>j_axi_connect := xs\<rparr>))"

definition axi_write :: "nat \<Rightarrow> nat \<Rightarrow> (jtag, nat) io" where
  "axi_write addr data = io_seq (j_call (AxiWrite addr data))
     (io_answer j_axi_write (\<lambda>xs s. s\<lparr>j_axi_write := xs\<rparr>))"

definition axi_read :: "nat \<Rightarrow> (jtag, nat) io" where
  "axi_read addr = io_seq (j_call (AxiRead addr))
     (io_answer j_axi_read (\<lambda>xs s. s\<lparr>j_axi_read := xs\<rparr>))"

lemmas jtag_calls = j_call_def eio_connect_def eio_read_inputs_def eio_write_outputs_def
  eio_read_outputs_def axi_connect_def axi_write_def axi_read_def

section \<open>The counters\<close>

definition MARKER :: nat where "MARKER = 0x107"
definition LAYOUT :: nat where "LAYOUT = 1"
definition EIO_IN_W :: nat where "EIO_IN_W = 256"
definition EIO_OUT_W :: nat where "EIO_OUT_W = 8"
definition EIO_CLEAR :: nat where "EIO_CLEAR = 0x01"
definition PAUSE_CTRL :: nat where "PAUSE_CTRL = 0x84"

definition MAC_REGS :: "(string \<times> nat) list" where
  "MAC_REGS = [
    (''tx_frames'', 0x28), (''tx_bytes'', 0x2C), (''rx_frames'', 0x30), (''rx_bytes'', 0x34),
    (''rx_bad_frames'', 0x38), (''rx_err_align'', 0x4C), (''rx_err_overflow'', 0x50),
    (''rx_err_oversize'', 0x54), (''pause_rx'', 0x8C), (''pause_tx'', 0x90)]"

definition EIO_FIELDS :: "field list" where
  "EIO_FIELDS = [
    (''pcs_status'', 0, 16), (''link_downs'', 16, 32), (''sync_losses'', 48, 32),
    (''rudi_invalid_events'', 80, 32), (''disperr_cycles'', 112, 32),
    (''notintable_cycles'', 144, 32), (''rx_er_events'', 176, 32), (''blast_frames'', 208, 32),
    (''layout'', 240, 4), (''marker'', 244, 12)]"

text \<open>\<open>d[k]\<close> for a key the table has.\<close>

definition item :: "(string \<times> nat) list \<Rightarrow> string \<Rightarrow> nat" where
  "item d k = the (map_of d k)"

text \<open>\<open>read_eio\<close>: at most ten reads; two equal reads in a row give the value.\<close>

fun read_eio_from :: "nat \<Rightarrow> nat option \<Rightarrow> (jtag, (string \<times> nat) list) io" where
  "read_eio_from 0 prev = io_raise (RuntimeError ''EIO inputs changed on every read'')"
| "read_eio_from (Suc n) prev = io_bind eio_read_inputs (\<lambda>raw.
     if Some raw = prev then io_ret (decode_fields EIO_FIELDS raw)
     else read_eio_from n (Some raw))"

definition read_eio :: "(jtag, (string \<times> nat) list) io" where
  "read_eio = read_eio_from 10 None"

definition eio_write :: "nat \<Rightarrow> (jtag, unit) io" where
  "eio_write v = io_seq (eio_write_outputs v) (io_bind eio_read_outputs (\<lambda>got.
     if got \<noteq> v then io_raise (RuntimeError ''EIO output readback'') else io_ret ()))"

definition right_build :: "(string \<times> nat) list \<Rightarrow> bool" where
  "right_build fs \<longleftrightarrow> \<not> (item fs ''marker'' \<noteq> MARKER \<or> item fs ''layout'' \<noteq> LAYOUT)"

definition eio_session :: "bool \<Rightarrow> (jtag, (string \<times> nat) list) io" where
  "eio_session clear = io_finally
    (io_bind eio_connect (\<lambda>ws.
     if ws \<noteq> (EIO_IN_W, EIO_OUT_W) then io_raise (WrongBuild ''EIO widths'')
     else io_bind read_eio (\<lambda>fs.
       if \<not> right_build fs then io_raise (WrongBuild ''EIO marker'')
       else if clear then
         io_seq (eio_write EIO_CLEAR) (io_seq (eio_write 0) read_eio)
       else io_ret fs)))
    (\<lambda>s. s\<lparr>j_log := j_log s @ [EioClose]\<rparr>)"

definition mac_write :: "nat \<Rightarrow> nat \<Rightarrow> (jtag, unit) io" where
  "mac_write addr data = io_bind (axi_write addr data) (\<lambda>resp.
     if resp \<noteq> 0 then io_raise (RuntimeError ''AXI write'') else io_ret ())"

fun clear_regs :: "(string \<times> nat) list \<Rightarrow> (jtag, unit) io" where
  "clear_regs [] = io_ret ()"
| "clear_regs ((_, addr) # regs) = io_seq (mac_write addr 0) (clear_regs regs)"

fun read_regs :: "(string \<times> nat) list \<Rightarrow> (jtag, (string \<times> nat) list) io" where
  "read_regs [] = io_ret []"
| "read_regs ((name, addr) # regs) =
    io_bind (axi_read addr) (\<lambda>v. io_bind (read_regs regs) (\<lambda>vs. io_ret ((name, v) # vs)))"

definition mac_session :: "bool \<Rightarrow> bool option \<Rightarrow> (jtag, (string \<times> nat) list) io" where
  "mac_session clear pause = io_finally
    (io_seq axi_connect
     (io_seq (case pause of None \<Rightarrow> io_ret () | Some p \<Rightarrow> mac_write PAUSE_CTRL (if p then 2 else 0))
     (io_seq (if clear then clear_regs MAC_REGS else io_ret ())
     (io_bind (read_regs MAC_REGS) (\<lambda>regs.
      io_bind (axi_read PAUSE_CTRL) (\<lambda>ctrl.
      if pause \<noteq> None \<and> (ctrl AND 2 \<noteq> 0) \<noteq> the pause
      then io_raise (RuntimeError ''PAUSE_CTRL readback'')
      else io_ret (regs @ [(''pause_ctrl'', ctrl)])))))))
    (\<lambda>s. s\<lparr>j_log := j_log s @ [AxiClose]\<rparr>)"

text \<open>\<open>except (RuntimeError, OSError)\<close>; \<open>TimeoutError\<close> is an \<open>OSError\<close>, \<open>WrongBuild\<close> is
  neither.\<close>

fun retryable :: "py_error \<Rightarrow> bool" where
  "retryable (RuntimeError _) = True"
| "retryable (OSError _) = True"
| "retryable TimeoutError = True"
| "retryable _ = False"

text \<open>\<open>retry\<close> with \<open>n\<close> attempts left after this one.\<close>

fun retry_left :: "nat \<Rightarrow> (jtag, 'a) io \<Rightarrow> (jtag, 'a) io" where
  "retry_left 0 session = session"
| "retry_left (Suc n) session =
    io_catch session retryable (\<lambda>_. io_seq (j_call RetrySleep) (retry_left n session))"

definition retry :: "(jtag, 'a) io \<Rightarrow> (jtag, 'a) io" where
  "retry session = retry_left 2 session"

fun wrong_build :: "py_error \<Rightarrow> bool" where
  "wrong_build (WrongBuild _) = True"
| "wrong_build _ = False"

definition sfp_main :: "bool \<Rightarrow> bool option \<Rightarrow> (jtag, (string \<times> nat) list \<times> (string \<times> nat) list) io" where
  "sfp_main clear pause =
    io_bind (io_catch (retry (eio_session clear)) wrong_build
        (\<lambda>_. io_raise (SystemExit ''not the throughput build''))) (\<lambda>pcs.
    io_bind (retry (mac_session clear pause)) (\<lambda>mac. io_ret (mac, pcs)))"

text \<open>The numbers of \<open>report\<close>, line by line.\<close>

definition report :: "(string \<times> nat) list \<Rightarrow> (string \<times> nat) list \<Rightarrow> (string \<times> int list) list" where
  "report mac pcs =
    (let st = item pcs ''pcs_status'';
         m = (\<lambda>k. int (item mac k));
         p = (\<lambda>k. int (item pcs k))
     in [(''PCS/PMA status_vector'', [int st, int (st AND 1), int (drop_bit 1 st AND 1)]),
         (''MAC TX frames'', [m ''tx_frames'']),
         (''blast frames'', [p ''blast_frames'']),
         (''other TX frames'', [m ''tx_frames'' - p ''blast_frames'']),
         (''MAC RX frames'', [m ''rx_frames'']),
         (''MAC RX bad frames'', [m ''rx_bad_frames'', m ''rx_err_align'', m ''rx_err_overflow'',
            m ''rx_err_oversize'']),
         (''MAC PAUSE frames'', [m ''pause_rx'', m ''pause_tx'',
            if item mac ''pause_ctrl'' AND 2 \<noteq> 0 then 1 else 0]),
         (''PCS events'', [p ''link_downs'', p ''sync_losses'', p ''rudi_invalid_events'',
            p ''disperr_cycles'', p ''notintable_cycles'', p ''rx_er_events''])])"

section \<open>Lemmas\<close>

lemma eio_read_inputs_Done [io_simps]:
  "eio_read_inputs s = Done x t \<longleftrightarrow>
    (\<exists>rest. j_eio_read s = Inr x # rest \<and> t = s\<lparr>j_eio_read := rest\<rparr>)"
  by (simp add: eio_read_inputs_def io_answer_Done)

lemma EIO_FIELDS_tiles: "tiles 0 EIO_FIELDS 256"
  by (simp add: EIO_FIELDS_def)

text \<open>Two equal neighbours in a list of reads.\<close>

fun stable_at :: "nat list \<Rightarrow> bool" where
  "stable_at (x # y # xs) = (x = y \<or> stable_at (y # xs))"
| "stable_at xs = False"

lemma read_eio_from_reads:
  assumes "j_eio_read s = map Inr xs @ rest" and "length xs = n"
  shows "(\<exists>d t. read_eio_from n (Some p) s = Done d t) \<longleftrightarrow> stable_at (p # xs)"
  using assms
proof (induction n arbitrary: p xs s)
  case (Suc n)
  then obtain x ys where xs: "xs = x # ys" "length ys = n" by (cases xs) auto
  have r: "eio_read_inputs s = Done x (s\<lparr>j_eio_read := map Inr ys @ rest\<rparr>)"
    using Suc.prems(1) xs by (simp add: eio_read_inputs_Done)
  show ?case
    using Suc.IH [of "s\<lparr>j_eio_read := map Inr ys @ rest\<rparr>" ys x] xs by (auto simp: r)
qed simp

lemma read_eio_from_value:
  "read_eio_from n prev s = Done d t \<Longrightarrow>
    \<exists>pre x. d = decode_fields EIO_FIELDS x
      \<and> (prev = Some x \<and> j_eio_read s = Inr x # j_eio_read t
         \<or> j_eio_read s = map Inr (pre @ [x, x]) @ j_eio_read t \<and> length pre + 2 \<le> n)"
proof (induction n arbitrary: prev s)
  case (Suc n)
  then obtain raw rest where r: "j_eio_read s = Inr raw # rest"
    and k: "(if Some raw = prev then io_ret (decode_fields EIO_FIELDS raw)
       else read_eio_from n (Some raw)) (s\<lparr>j_eio_read := rest\<rparr>) = Done d t"
    by (auto simp: io_simps)
  show ?case
  proof (cases "Some raw = prev")
    case True
    then have "t = s\<lparr>j_eio_read := rest\<rparr>" "d = decode_fields EIO_FIELDS raw" using k by simp_all
    then show ?thesis using r True by (intro exI [of _ "[]"] exI [of _ raw]) simp
  next
    case False
    then have "read_eio_from n (Some raw) (s\<lparr>j_eio_read := rest\<rparr>) = Done d t" using k by simp
    from Suc.IH [OF this] obtain pre x where d: "d = decode_fields EIO_FIELDS x"
      and o: "Some raw = Some x \<and> rest = Inr x # j_eio_read t
        \<or> rest = map Inr (pre @ [x, x]) @ j_eio_read t \<and> length pre + 2 \<le> n"
      by auto
    have "n \<noteq> 0" using k False by (cases n) auto
    from o show ?thesis
    proof
      assume "Some raw = Some x \<and> rest = Inr x # j_eio_read t"
      then show ?thesis using r d \<open>n \<noteq> 0\<close> by (intro exI [of _ "[]"] exI [of _ x]) simp
    next
      assume "rest = map Inr (pre @ [x, x]) @ j_eio_read t \<and> length pre + 2 \<le> n"
      then show ?thesis using r d by (intro exI [of _ "raw # pre"] exI [of _ x]) simp
    qed
  qed
qed simp

lemma read_eio_log:
  "final (read_eio_from n prev s) = Some t \<Longrightarrow> j_log t = j_log s"
proof (induction n arbitrary: prev s)
  case (Suc n)
  show ?case
  proof (cases "eio_read_inputs s")
    case (Done raw s')
    then have "j_log s' = j_log s" by (auto simp: eio_read_inputs_Done)
    then show ?thesis using Suc Done by (auto split: if_splits)
  next
    case (Raised e s')
    then have "j_log s' = j_log s" by (auto simp: eio_read_inputs_def io_answer_Raised)
    then show ?thesis using Suc.prems Raised by (simp add: io_bind_def)
  qed (use Suc.prems in \<open>simp add: io_bind_def\<close>)
qed simp

text \<open>A part of a session that neither opens nor closes anything.\<close>

definition inside :: "jtag \<Rightarrow> jtag \<Rightarrow> bool" where
  "inside s t \<longleftrightarrow> (\<exists>new. j_log t = j_log s @ new \<and> EioConnect \<notin> set new \<and> EioClose \<notin> set new)"

lemma inside_refl: "reflp inside"
  by (simp add: reflp_def inside_def)

lemma inside_trans: "transp inside"
  unfolding transp_def inside_def
proof (intro allI impI, elim exE conjE)
  fix x y z new1 new2
  assume "j_log y = j_log x @ new1" "j_log z = j_log y @ new2"
    "EioConnect \<notin> set new1" "EioClose \<notin> set new1" "EioConnect \<notin> set new2" "EioClose \<notin> set new2"
  then show "\<exists>new. j_log z = j_log x @ new \<and> EioConnect \<notin> set new \<and> EioClose \<notin> set new"
    by (intro exI [of _ "new1 @ new2"]) simp
qed

lemma read_eio_inside: "io_keeps inside read_eio"
  by (rule io_keepsI) (simp add: read_eio_def read_eio_log inside_def)

lemma io_answer_inside:
  "(\<And>xs s. j_log (f xs s) = j_log s) \<Longrightarrow> io_keeps inside (io_answer g f)"
  by (rule io_keepsI) (auto simp: io_answer_def inside_def split: list.splits sum.splits)

lemma j_call_inside: "c \<noteq> EioConnect \<Longrightarrow> c \<noteq> EioClose \<Longrightarrow> io_keeps inside (j_call c)"
  by (rule io_keepsI) (auto simp: j_call_def inside_def)

lemmas inside_intros = io_keeps_seq io_keeps_bind io_keeps_ret io_keeps_raise inside_refl inside_trans
  io_answer_inside j_call_inside read_eio_inside

lemma eio_write_inside: "io_keeps inside (eio_write v)"
  unfolding eio_write_def eio_write_outputs_def eio_read_outputs_def
  by (intro inside_intros) (simp_all add: inside_intros)

lemma eio_body_inside:
  "io_keeps inside (if ws \<noteq> (EIO_IN_W, EIO_OUT_W) then io_raise (WrongBuild ''EIO widths'')
     else io_bind read_eio (\<lambda>fs.
       if \<not> right_build fs then io_raise (WrongBuild ''EIO marker'')
       else if clear then io_seq (eio_write EIO_CLEAR) (io_seq (eio_write 0) read_eio)
       else io_ret fs))"
  by (intro io_keeps_if io_keeps_bind io_keeps_seq io_keeps_raise io_keeps_ret inside_refl inside_trans
      eio_write_inside read_eio_inside)

text \<open>One session opens once and closes last.\<close>

lemma eio_session_log:
  assumes "final (eio_session clear s) = Some t"
  shows "\<exists>new. j_log t = j_log s @ EioConnect # new @ [EioClose]
    \<and> EioConnect \<notin> set new \<and> EioClose \<notin> set new"
proof -
  let ?s1 = "s\<lparr>j_log := j_log s @ [EioConnect]\<rparr>"
  let ?rest = "\<lambda>ws. if ws \<noteq> (EIO_IN_W, EIO_OUT_W) then io_raise (WrongBuild ''EIO widths'')
     else io_bind read_eio (\<lambda>fs.
       if \<not> right_build fs then io_raise (WrongBuild ''EIO marker'')
       else if clear then io_seq (eio_write EIO_CLEAR) (io_seq (eio_write 0) read_eio)
       else io_ret fs)"
  have split: "eio_session clear s = io_finally (io_bind
      (io_answer j_eio_connect (\<lambda>xs s. s\<lparr>j_eio_connect := xs\<rparr>)) ?rest)
      (\<lambda>s. s\<lparr>j_log := j_log s @ [EioClose]\<rparr>) ?s1"
    by (simp add: eio_session_def eio_connect_def j_call_def io_finally_def io_bind_def io_seq_def)
  have "io_keeps inside (io_bind (io_answer j_eio_connect (\<lambda>xs s. s\<lparr>j_eio_connect := xs\<rparr>)) ?rest)"
    by (intro io_keeps_bind io_answer_inside eio_body_inside inside_trans) simp
  moreover obtain u where "final (io_bind (io_answer j_eio_connect (\<lambda>xs s. s\<lparr>j_eio_connect := xs\<rparr>)) ?rest ?s1) = Some u"
    and "t = u\<lparr>j_log := j_log u @ [EioClose]\<rparr>"
    using assms unfolding split io_finally_def by (auto split: outcome.splits)
  ultimately show ?thesis by (auto dest!: io_keepsD simp: inside_def)
qed

lemma retry_left_log:
  assumes "final (retry_left n (eio_session clear) s) = Some t"
  shows "\<exists>new. j_log t = j_log s @ new \<and> last new = EioClose \<and> new \<noteq> []
    \<and> count_list new EioConnect = count_list new EioClose \<and> count_list new EioConnect \<le> Suc n"
  using assms
proof (induction n arbitrary: s)
  case 0
  then obtain new where "j_log t = j_log s @ EioConnect # new @ [EioClose]"
    "EioConnect \<notin> set new" "EioClose \<notin> set new"
    using eio_session_log [of clear s t] by auto
  then show ?case by (intro exI [of _ "EioConnect # new @ [EioClose]"]) simp
next
  case (Suc n)
  show ?case
  proof (cases "\<exists>e u. eio_session clear s = Raised e u \<and> retryable e")
    case False
    then have "final (eio_session clear s) = Some t"
      using Suc.prems by (auto simp: io_catch_def split: outcome.splits if_splits)
    then obtain new where "j_log t = j_log s @ EioConnect # new @ [EioClose]"
      "EioConnect \<notin> set new" "EioClose \<notin> set new"
      using eio_session_log [of clear s t] by auto
    then show ?thesis by (intro exI [of _ "EioConnect # new @ [EioClose]"]) simp
  next
    case True
    then obtain e u where u: "eio_session clear s = Raised e u" "retryable e" by auto
    then obtain new where new: "j_log u = j_log s @ EioConnect # new @ [EioClose]"
      "EioConnect \<notin> set new" "EioClose \<notin> set new"
      using eio_session_log [of clear s u] by auto
    have "final (retry_left n (eio_session clear) (u\<lparr>j_log := j_log u @ [RetrySleep]\<rparr>)) = Some t"
      using Suc.prems u by (simp add: io_catch_def j_call_def)
    from Suc.IH [OF this] obtain new2 where "j_log t = j_log u @ [RetrySleep] @ new2" "last new2 = EioClose"
      "new2 \<noteq> []" "count_list new2 EioConnect = count_list new2 EioClose" "count_list new2 EioConnect \<le> Suc n"
      by auto
    then show ?thesis using new
      by (intro exI [of _ "EioConnect # new @ [EioClose, RetrySleep] @ new2"]) simp
  qed
qed

lemma clear_regs_log:
  "clear_regs regs s = Done u t \<Longrightarrow> j_log t = j_log s @ map (\<lambda>(_, a). AxiWrite a 0) regs"
  by (induction regs arbitrary: s rule: clear_regs.induct)
    (fastforce simp: io_simps mac_write_def axi_write_def j_call_def split: if_splits)+

lemma read_regs_log:
  "read_regs regs s = Done vs t \<Longrightarrow>
    j_log t = j_log s @ map (\<lambda>(_, a). AxiRead a) regs \<and> map fst vs = map fst regs"
  by (induction regs arbitrary: s vs rule: read_regs.induct)
    (fastforce simp: io_simps axi_read_def j_call_def)+

section \<open>Theorems\<close>

text \<open>The fields of the EIO tile its 256 bits, so decoding loses nothing: the status word is the
  sum of its fields at their positions.\<close>

theorem eio_status_lossless:
  "st < 2 ^ 256 \<Longrightarrow> encode_fields EIO_FIELDS (decode_fields EIO_FIELDS st) = st"
  by (rule encode_decode [OF EIO_FIELDS_tiles])

theorem eio_status_lossless_witness:
  "encode_fields EIO_FIELDS (decode_fields EIO_FIELDS (0x107 * 2 ^ 244 + 2 ^ 240 + 77)) = 0x107 * 2 ^ 244 + 2 ^ 240 + 77"
  by (rule eio_status_lossless) simp

text \<open>\<open>read_eio\<close> takes a status only when two whole reads in a row agree: with ten reads that
  answer, it returns exactly when some two neighbours among them are equal, and fails otherwise.\<close>

theorem read_eio_stable_iff:
  assumes "j_eio_read s = map Inr xs @ rest" and "length xs = 10"
  shows "(\<exists>d t. read_eio s = Done d t) \<longleftrightarrow> stable_at xs"
proof -
  obtain x ys where xs: "xs = x # ys" "length ys = 9" using assms(2) by (cases xs) auto
  have r: "eio_read_inputs s = Done x (s\<lparr>j_eio_read := map Inr ys @ rest\<rparr>)"
    using assms(1) xs by (simp add: eio_read_inputs_Done)
  have "read_eio s = read_eio_from 9 (Some x) (s\<lparr>j_eio_read := map Inr ys @ rest\<rparr>)"
    using r by (simp add: read_eio_def eval_nat_numeral)
  then show ?thesis
    using read_eio_from_reads [of "s\<lparr>j_eio_read := map Inr ys @ rest\<rparr>" ys rest 9 x] xs by simp
qed

definition sample_jtag :: "nat \<Rightarrow> jtag" where
  "sample_jtag w = \<lparr>j_eio_connect = [Inr (256, 8)], j_eio_read = map Inr ([1, 2] @ replicate 10 w),
     j_eio_write = [Inr (), Inr ()], j_eio_outputs = [Inr 1, Inr 0], j_axi_connect = [Inr ()],
     j_axi_write = replicate 11 (Inr 0), j_axi_read = map Inr [1, 2, 3, 4, 5, 6, 7, 8, 9, 10, 2], j_log = []\<rparr>"

theorem read_eio_stable_iff_witness: "\<exists>d t. read_eio (sample_jtag 5) = Done d t"
  by (subst read_eio_stable_iff [of _ "[1, 2, 5, 5, 5, 5, 5, 5, 5, 5]" "[Inr 5, Inr 5]"])
    (simp_all add: sample_jtag_def eval_nat_numeral)

text \<open>A value \<open>read_eio\<close> returns is the decoding of a word that was read twice in a row.\<close>

theorem read_eio_value:
  assumes "read_eio s = Done d t"
  shows "\<exists>pre x. j_eio_read s = map Inr (pre @ [x, x]) @ j_eio_read t
    \<and> d = decode_fields EIO_FIELDS x \<and> length pre \<le> 8"
  using read_eio_from_value [of 10 None s d t] assms unfolding read_eio_def by fastforce

theorem read_eio_value_witness:
  "\<exists>d t. read_eio (sample_jtag 5) = Done d t \<and> d = decode_fields EIO_FIELDS 5"
proof -
  obtain d t where r: "read_eio (sample_jtag 5) = Done d t"
    by (simp add: read_eio_def eval_nat_numeral sample_jtag_def eio_read_inputs_def io_answer_def io_bind_def)
  have t: "j_eio_read t = replicate 8 (Inr 5)"
    using r by (auto simp: read_eio_def eval_nat_numeral sample_jtag_def eio_read_inputs_def io_answer_def io_bind_def)
  from read_eio_value [OF r] obtain pre x where p: "j_eio_read (sample_jtag 5) = map Inr (pre @ [x, x]) @ j_eio_read t"
    "d = decode_fields EIO_FIELDS x" by blast
  have "map Inr (pre @ [x, x]) = (map Inr [1, 2, 5, 5] :: nat res list)"
    using p(1) unfolding t by (simp add: sample_jtag_def eval_nat_numeral)
  then have "pre @ [x, x] = [1, 2, 5, 5]" by (simp only: inj_map_eq_map [OF inj_Inr])
  then have "last (pre @ [x, x]) = 5" by simp
  then show ?thesis using r p(2) by auto
qed

text \<open>C23: In the loopback build the output bit that clears the counters starts the tester; a session
  writes an output only after it has read a status word with the marker and layout of the
  throughput build.\<close>

theorem eio_session_checks_build_first:
  assumes "final (eio_session clear s) = Some t"
    and "EioWrite v \<in> set (drop (length (j_log s)) (j_log t))"
  shows "\<exists>x. Inr x \<in> set (j_eio_read s) \<and> right_build (decode_fields EIO_FIELDS x)"
proof -
  let ?s1 = "s\<lparr>j_log := j_log s @ [EioConnect]\<rparr>"
  have c: "j_call EioConnect s = Done () ?s1" by (simp add: j_call_def)
  obtain ws rest where ws: "j_eio_connect s = Inr ws # rest" "ws = (EIO_IN_W, EIO_OUT_W)"
    using assms
    by (auto simp: eio_session_def io_finally_def io_bind_def io_seq_def eio_connect_def c io_answer_def
        split: outcome.splits list.splits sum.splits if_splits)
  let ?s2 = "?s1\<lparr>j_eio_connect := rest\<rparr>"
  have c2: "eio_connect s = Done ws ?s2" using ws by (simp add: eio_connect_def c io_answer_Done)
  obtain d u where d: "read_eio ?s2 = Done d u" and r: "right_build d"
  proof (cases "read_eio ?s2")
    case (Done d u)
    then have "j_log u = j_log ?s2" using read_eio_log [of 10 None ?s2 u] by (simp add: read_eio_def)
    have "right_build d"
    proof (rule ccontr)
      assume "\<not> right_build d"
      then show False
        using assms ws(2) c2 Done \<open>j_log u = j_log ?s2\<close>
        by (auto simp: eio_session_def io_finally_def io_bind_def)
    qed
    then show ?thesis using that Done by blast
  next
    case (Raised e u)
    then have "j_log u = j_log ?s2" using read_eio_log [of 10 None ?s2 u] by (simp add: read_eio_def)
    then show ?thesis
      using assms ws(2) c2 Raised by (auto simp: eio_session_def io_finally_def io_bind_def)
  next
    case Starved
    then show ?thesis using assms ws(2) c2 by (auto simp: eio_session_def io_finally_def io_bind_def)
  qed
  from read_eio_value [OF d] obtain pre x where
    "j_eio_read ?s2 = map Inr (pre @ [x, x]) @ j_eio_read u" "d = decode_fields EIO_FIELDS x"
    by blast
  then show ?thesis using r by (intro exI [of _ x]) simp
qed

text \<open>Whatever fails, a retried session is run at most three times, and every controller that was
  opened is closed.\<close>

theorem retry_opens_and_closes:
  assumes "final (retry (eio_session clear) s) = Some t"
  shows "\<exists>new. j_log t = j_log s @ new \<and> last new = EioClose
    \<and> count_list new EioConnect = count_list new EioClose \<and> count_list new EioConnect \<le> 3"
  using retry_left_log [of 2 clear s t] assms by (auto simp: retry_def)

text \<open>A session with the MAC that returns has issued exactly the requested accesses in order, the
  PAUSE switch, the clears and the reads, and reads back the PAUSE switch it was asked for.\<close>

theorem mac_session_accesses:
  assumes "mac_session clear pause s = Done regs t"
  shows "map fst regs = map fst MAC_REGS @ [''pause_ctrl'']
    \<and> j_log t = j_log s @ [AxiConnect]
        @ (case pause of None \<Rightarrow> [] | Some p \<Rightarrow> [AxiWrite PAUSE_CTRL (if p then 2 else 0)])
        @ (if clear then map (\<lambda>(_, a). AxiWrite a 0) MAC_REGS else [])
        @ map (\<lambda>(_, a). AxiRead a) MAC_REGS @ [AxiRead PAUSE_CTRL, AxiClose]
    \<and> (pause = None \<or> pause = Some (snd (last regs) AND 2 \<noteq> 0))"
proof -
  from assms obtain s1 s2 s3 u2 u3 vs s4 ctrl s5 where
    1: "axi_connect s = Done () s1"
    and 2: "(case pause of None \<Rightarrow> io_ret () | Some p \<Rightarrow> mac_write PAUSE_CTRL (if p then 2 else 0)) s1 = Done u2 s2"
    and 3: "(if clear then clear_regs MAC_REGS else io_ret ()) s2 = Done u3 s3"
    and 4: "read_regs MAC_REGS s3 = Done vs s4"
    and 5: "axi_read PAUSE_CTRL s4 = Done ctrl s5"
    and 6: "\<not> (pause \<noteq> None \<and> (ctrl AND 2 \<noteq> 0) \<noteq> the pause)" "regs = vs @ [(''pause_ctrl'', ctrl)]"
    and t: "t = s5\<lparr>j_log := j_log s5 @ [AxiClose]\<rparr>"
    unfolding mac_session_def io_finally_Done io_seq_Done io_bind_Done by (force split: if_splits)
  have "j_log s1 = j_log s @ [AxiConnect]"
    using 1 by (auto simp: axi_connect_def j_call_def io_simps)
  moreover have "j_log s2 = j_log s1 @ (case pause of None \<Rightarrow> []
      | Some p \<Rightarrow> [AxiWrite PAUSE_CTRL (if p then 2 else 0)])"
    using 2 by (auto simp: mac_write_def axi_write_def j_call_def io_simps split: option.splits if_splits)
  moreover have "j_log s3 = j_log s2 @ (if clear then map (\<lambda>(_, a). AxiWrite a 0) MAC_REGS else [])"
    using 3 clear_regs_log [of MAC_REGS s2 u3 s3] by (auto split: if_splits)
  moreover have "j_log s4 = j_log s3 @ map (\<lambda>(_, a). AxiRead a) MAC_REGS" "map fst vs = map fst MAC_REGS"
    using read_regs_log [OF 4] by simp_all
  moreover have "j_log s5 = j_log s4 @ [AxiRead PAUSE_CTRL]"
    using 5 by (auto simp: axi_read_def j_call_def io_simps)
  ultimately show ?thesis using 6 t by (cases pause) auto
qed

theorem mac_session_accesses_witness:
  "\<exists>regs t. mac_session True (Some True) (sample_jtag 5) = Done regs t
    \<and> hd (j_log t) = AxiConnect \<and> last (j_log t) = AxiClose"
proof -
  obtain regs t where r: "mac_session True (Some True) (sample_jtag 5) = Done regs t"
    by (simp add: mac_session_def io_finally_def io_bind_def io_seq_def axi_connect_def j_call_def
        io_answer_def sample_jtag_def mac_write_def axi_write_def axi_read_def MAC_REGS_def eval_nat_numeral)
  show ?thesis using r mac_session_accesses [OF r] by (auto simp: sample_jtag_def)
qed

lemma read_eio_pair:
  "j_eio_read s = Inr w # Inr w # rest \<Longrightarrow>
    read_eio s = Done (decode_fields EIO_FIELDS w) (s\<lparr>j_eio_read := rest\<rparr>)"
  by (simp add: read_eio_def eval_nat_numeral io_bind_def eio_read_inputs_def io_answer_def)

definition clear_jtag :: "nat \<Rightarrow> jtag" where
  "clear_jtag w = (sample_jtag w)\<lparr>j_eio_read := [Inr w, Inr w, Inr w, Inr w]\<rparr>"

lemma clear_jtag_run:
  assumes "right_build (decode_fields EIO_FIELDS w)"
  shows "\<exists>t. final (eio_session True (clear_jtag w)) = Some t \<and> EioWrite 1 \<in> set (j_log t)"
  using assms
  by (simp add: clear_jtag_def sample_jtag_def eio_session_def io_finally_def io_bind_def io_seq_def
      eio_connect_def j_call_def io_answer_def read_eio_pair eio_write_def eio_write_outputs_def
      eio_read_outputs_def EIO_IN_W_def EIO_OUT_W_def EIO_CLEAR_def)

theorem eio_session_checks_build_first_witness:
  "\<exists>t x. final (eio_session True (clear_jtag (0x107 * 2 ^ 244 + 2 ^ 240))) = Some t \<and> EioWrite 1 \<in> set (j_log t)
    \<and> Inr x \<in> set (j_eio_read (clear_jtag (0x107 * 2 ^ 244 + 2 ^ 240)))
    \<and> right_build (decode_fields EIO_FIELDS x)"
proof -
  have "right_build (decode_fields EIO_FIELDS (0x107 * 2 ^ 244 + 2 ^ 240))"
    by (simp add: right_build_def item_def decode_fields_def EIO_FIELDS_def MARKER_def LAYOUT_def
        field_value [simplified])
  from clear_jtag_run [OF this] obtain t where
    t: "final (eio_session True (clear_jtag (0x107 * 2 ^ 244 + 2 ^ 240))) = Some t" "EioWrite 1 \<in> set (j_log t)"
    by blast
  then have "EioWrite 1 \<in> set (drop (length (j_log (clear_jtag (0x107 * 2 ^ 244 + 2 ^ 240)))) (j_log t))"
    by (simp add: clear_jtag_def sample_jtag_def)
  then show ?thesis using t eio_session_checks_build_first [OF t(1)] by blast
qed

theorem retry_opens_and_closes_witness:
  "\<exists>t. final (retry (eio_session False) ((sample_jtag 0)\<lparr>j_eio_connect := replicate 3 (Inl (RuntimeError ''scan''))\<rparr>)) = Some t
    \<and> count_list (j_log t) EioConnect = count_list (j_log t) EioClose \<and> 3 \<le> count_list (j_log t) EioConnect"
proof -
  let ?s = "(sample_jtag 0)\<lparr>j_eio_connect := replicate 3 (Inl (RuntimeError ''scan''))\<rparr>"
  obtain t where t: "final (retry (eio_session False) ?s) = Some t" "count_list (j_log t) EioConnect = 3"
    by (simp add: retry_def eval_nat_numeral io_catch_def eio_session_def io_finally_def io_bind_def io_seq_def
        eio_connect_def j_call_def io_answer_def sample_jtag_def)
  from retry_opens_and_closes [OF t(1)] show ?thesis using t by (auto simp: sample_jtag_def)
qed

end
