(* ===== verification/Emz_SfpLb.thy ===== *)
theory Emz_SfpLb
  imports Emz_RgmiiLb "HOL-Library.Char_ord" "HOL-Library.List_Lexorder"
begin

text \<open>
  \<open>fpga/zcu106/scripts/sfp_lb_test.py\<close>: the SFP loopback tests over JTAG. The world holds the
  answers of the EIO (to connecting, writing and closing in one list, the input words in another)
  and the readings of the clock; the log has what was done to the EIO and the sleeps. A result row
  has its verdict and its test; its text and the printed lines are left out.
\<close>

section \<open>Constants\<close>

definition SL_MARKER :: nat where "SL_MARKER = 0x106"
definition SL_LAYOUT :: nat where "SL_LAYOUT = 2"
definition SL_IN_W :: nat where "SL_IN_W = 608"

definition SL_FIELDS :: "field list" where
  "SL_FIELDS = [
    (''tx_count'', 0, 32), (''ok_arp'', 32, 32), (''ok_icmp'', 64, 32), (''ok_udp'', 96, 32),
    (''bad'', 128, 32), (''timeouts'', 160, 32), (''max_rtt'', 192, 16), (''first_reason'', 208, 4),
    (''first_kind'', 212, 2), (''first_idx'', 214, 16), (''first_got'', 230, 8),
    (''first_exp'', 238, 8), (''first_seq'', 246, 16), (''init_done'', 262, 1), (''run'', 263, 1),
    (''ok_neg'', 264, 32), (''neg_fail'', 296, 8), (''rx_bytes'', 304, 48),
    (''neg_replies'', 352, 32), (''sfp0_status'', 384, 16), (''sfp1_status'', 400, 16),
    (''sfp0_downs'', 416, 16), (''sfp1_downs'', 432, 16), (''demo_rx_frames'', 448, 16),
    (''demo_tx_frames'', 464, 16), (''tst_tx_frames'', 480, 16), (''tst_rx_frames'', 496, 16),
    (''demo_rx_errs'', 512, 16), (''tst_rx_errs'', 528, 16), (''userclk2_count'', 544, 24),
    (''sfp0_resetdone'', 576, 1), (''sfp1_resetdone'', 577, 1), (''refclk_ready'', 578, 1),
    (''an_disabled'', 579, 1), (''refclk_si5328'', 580, 1), (''mac_running'', 581, 1),
    (''layout'', 592, 4), (''marker'', 596, 12)]"

text \<open>The bits of the EIO output.\<close>

definition RUN :: int where "RUN = 1"
definition CLEAR :: int where "CLEAR = 2"
definition NEG :: int where "NEG = 4"
definition SHORT :: int where "SHORT = 8"
definition LASER1_OFF :: int where "LASER1_OFF = 16"
definition SFP1_RST :: int where "SFP1_RST = 32"
definition AN_OFF :: int where "AN_OFF = 64"
definition AN_RESTART :: int where "AN_RESTART = 128"
definition LASER0_OFF :: int where "LASER0_OFF = 256"

section \<open>The board\<close>

datatype sl_act =
    SlConnect
  | SlWrite int
  | SlClose
  | SlSleep rat

datatype sl_verdict = SlPass | SlFail | SlInfo | SlSkip

record sl =
  s_cmds :: "unit res list"
  s_reads :: "nat res list"
  s_times :: "rat list"
  s_in_w :: nat
  s_ctrl :: int
  s_log :: "sl_act list"
  s_rows :: "(sl_verdict \<times> string) list"

definition sl_act :: "sl_act \<Rightarrow> (sl, unit) io" where
  "sl_act a = io_modify (\<lambda>s. s\<lparr>s_log := s_log s @ [a]\<rparr>)"

definition sl_cmd :: "sl_act \<Rightarrow> (sl, unit) io" where
  "sl_cmd a = io_seq (sl_act a) (io_answer s_cmds (\<lambda>xs s. s\<lparr>s_cmds := xs\<rparr>))"

definition sl_sleep :: "rat \<Rightarrow> (sl, unit) io" where
  "sl_sleep d = (if d < 0 then io_raise (ValueError ''sleep length'') else sl_act (SlSleep d))"

definition sl_time :: "(sl, rat) io" where
  "sl_time = (\<lambda>s. case s_times s of [] \<Rightarrow> Starved | t # ts \<Rightarrow> Done t (s\<lparr>s_times := ts\<rparr>))"

text \<open>The end of \<open>__init__\<close>.\<close>

definition sl_connect :: "(sl, unit) io" where
  "sl_connect = io_seq (sl_cmd SlConnect) (io_modify (\<lambda>s. s\<lparr>s_ctrl := 0\<rparr>))"

definition sl_read :: "(sl, lb_status) io" where
  "sl_read = io_bind (io_answer s_reads (\<lambda>xs s. s\<lparr>s_reads := xs\<rparr>))
     (\<lambda>raw. io_ret (decode_fields SL_FIELDS raw))"

definition sl_write :: "int \<Rightarrow> (sl, unit) io" where
  "sl_write v = io_seq (io_modify (\<lambda>s. s\<lparr>s_ctrl := v\<rparr>)) (sl_cmd (SlWrite v))"

definition sl_set :: "int \<Rightarrow> bool \<Rightarrow> (sl, unit) io" where
  "sl_set bits on = io_bind (io_get s_ctrl) (\<lambda>ctrl. sl_write (if on then ctrl OR bits else ctrl AND NOT bits))"

definition sl_pulse :: "int \<Rightarrow> rat \<Rightarrow> (sl, unit) io" where
  "sl_pulse bits seconds = io_seq (sl_set bits True) (io_seq (sl_sleep seconds) (sl_set bits False))"

definition sl_clear :: "(sl, unit) io" where
  "sl_clear = sl_pulse CLEAR (1 / 20)"

definition links_up :: "lb_status \<Rightarrow> bool" where
  "links_up s \<longleftrightarrow> odd (lb_item s ''sfp0_status'') \<and> odd (lb_item s ''sfp1_status'')
     \<and> lb_item s ''mac_running'' \<noteq> 0 \<and> lb_item s ''init_done'' \<noteq> 0"

text \<open>A round of a polling loop takes a reading of the clock, so the readings left bound its rounds.\<close>

fun wait_from :: "'a list \<Rightarrow> rat \<Rightarrow> rat \<Rightarrow> (sl, rat option) io" where
  "wait_from [] timeout t0 = (\<lambda>s. Starved)"
| "wait_from (_ # left) timeout t0 = io_bind sl_time (\<lambda>t.
     if t - t0 < timeout then
       io_bind sl_read (\<lambda>st.
       if links_up st then io_bind sl_time (\<lambda>t'. io_ret (Some (t' - t0)))
       else io_seq (sl_sleep (1 / 10)) (wait_from left timeout t0))
     else io_ret None)"

definition wait_links :: "rat \<Rightarrow> (sl, rat option) io" where
  "wait_links timeout = io_bind sl_time (\<lambda>t0. io_bind (io_get s_times) (\<lambda>left. wait_from left timeout t0))"

text \<open>The loop of \<open>traffic\<close>: the progress reading is taken before the time in its label.\<close>

fun traffic_from :: "'a list \<Rightarrow> rat \<Rightarrow> rat \<Rightarrow> rat \<Rightarrow> rat \<Rightarrow> (sl, unit) io" where
  "traffic_from [] seconds progress t0 next_show = (\<lambda>s. Starved)"
| "traffic_from (_ # left) seconds progress t0 next_show = io_bind sl_time (\<lambda>t.
     if t - t0 < seconds then
       io_bind sl_time (\<lambda>t1.
       io_seq (sl_sleep (min (1 / 2) (max 0 (seconds - (t1 - t0)))))
       (if progress = 0 then traffic_from left seconds progress t0 next_show
        else io_bind sl_time (\<lambda>t2.
          if next_show \<le> t2 - t0 then
            io_bind sl_read (\<lambda>_. io_bind sl_time (\<lambda>_.
            traffic_from left seconds progress t0 (next_show + progress)))
          else traffic_from left seconds progress t0 next_show)))
     else io_ret ())"

definition traffic :: "rat \<Rightarrow> int \<Rightarrow> rat \<Rightarrow> (sl, lb_status) io" where
  "traffic seconds extra progress =
    io_seq (sl_set (RUN OR NEG OR SHORT) False)
    (io_seq sl_clear
    (io_seq (sl_set (RUN OR extra) True)
    (io_bind sl_time (\<lambda>t0.
     io_bind (io_get s_times) (\<lambda>left.
     io_seq (traffic_from left seconds progress t0 progress)
    (io_seq (sl_set (RUN OR extra) False)
    (io_seq (sl_sleep (3 / 10)) sl_read)))))))"

text \<open>\<open>Board.close\<close>: the EIO is closed whether or not the write succeeds.\<close>

definition sl_close :: "(sl, unit) io" where
  "sl_close = io_ensure (sl_write 0) (sl_cmd SlClose)"

section \<open>Checks\<close>

definition ok_valid :: "lb_status \<Rightarrow> nat" where
  "ok_valid s = lb_item s ''ok_arp'' + lb_item s ''ok_icmp'' + lb_item s ''ok_udp''"

definition userclk2_mhz :: "lb_status \<Rightarrow> rat" where
  "userclk2_mhz s = of_nat (lb_item s ''userclk2_count'') / (2 ^ 22 / 50000000) / 1000000"

definition row_add :: "sl_verdict \<Rightarrow> string \<Rightarrow> (sl, unit) io" where
  "row_add v test = io_modify (\<lambda>s. s\<lparr>s_rows := s_rows s @ [(v, test)]\<rparr>)"

definition row_check :: "string \<Rightarrow> bool \<Rightarrow> (sl, bool) io" where
  "row_check test cond = io_seq (row_add (if cond then SlPass else SlFail) test) (io_ret cond)"

definition clean_traffic :: "string \<Rightarrow> rat \<Rightarrow> rat \<Rightarrow> (sl, lb_status) io" where
  "clean_traffic test seconds progress =
    io_bind (traffic seconds 0 progress) (\<lambda>s.
    io_seq (row_check test (0 < lb_item s ''tx_count'' \<and> lb_item s ''ok_arp'' \<noteq> 0
              \<and> lb_item s ''ok_icmp'' \<noteq> 0 \<and> lb_item s ''ok_udp'' \<noteq> 0))
    (io_seq (row_check test (ok_valid s = lb_item s ''tx_count'' \<and> lb_item s ''bad'' = 0
              \<and> lb_item s ''timeouts'' = 0))
     (io_ret s)))"

section \<open>The tests\<close>

record sl_args =
  sa_tests :: string
  sa_seconds :: rat
  sa_neg_seconds :: rat
  sa_soak :: rat
  sa_interval :: rat

definition t_links :: "sl_args \<Rightarrow> (sl, unit) io" where
  "t_links a =
    io_bind sl_read (\<lambda>s.
    io_bind (io_get s_in_w) (\<lambda>in_w.
    io_bind (row_check ''links'' (lb_item s ''marker'' = SL_MARKER \<and> lb_item s ''layout'' = SL_LAYOUT
              \<and> in_w = SL_IN_W)) (\<lambda>ident.
    if \<not> ident then io_raise (SystemExit ''ERROR: not the current loopback bitstream'')
    else
      io_seq (row_add SlInfo ''links'')
     (io_seq (row_check ''links'' (\<bar>userclk2_mhz s - 125\<bar> < 1 / 10))
     (io_seq (row_check ''links'' (lb_item s ''refclk_ready'' \<noteq> 0))
     (io_seq (row_check ''links'' (lb_item s ''sfp0_resetdone'' \<noteq> 0 \<and> lb_item s ''sfp1_resetdone'' \<noteq> 0))
     (io_bind (wait_links 30) (\<lambda>t.
      io_seq (row_check ''links'' (t \<noteq> None)) (io_ret ())))))))))"

definition t_traffic :: "sl_args \<Rightarrow> (sl, unit) io" where
  "t_traffic a = io_seq (clean_traffic ''traffic'' (sa_seconds a) (sa_interval a)) (row_add SlInfo ''traffic'')"

definition t_soak :: "sl_args \<Rightarrow> (sl, unit) io" where
  "t_soak a =
    (if sa_soak a \<le> 0 then row_add SlSkip ''soak''
     else io_bind (clean_traffic ''soak'' (sa_soak a) (max (sa_interval a) 60)) (\<lambda>s.
       if lb_item s ''bad'' = 0 \<and> lb_item s ''timeouts'' = 0 \<and> 2 * 8 * lb_item s ''rx_bytes'' \<noteq> 0
       then row_add SlInfo ''soak'' else io_ret ()))"

definition NEG_VARIANTS :: "string list" where
  "NEG_VARIANTS = [''wrong destination MAC'', ''wrong destination IP'', ''ARP for another IP'',
     ''UDP to another port'', ''bad IPv4 header checksum'', ''bad ICMP checksum'', ''bad FCS'',
     ''GMII tx_er mid-frame'']"

fun neg_rows :: "nat \<Rightarrow> (nat \<times> string) list \<Rightarrow> (sl, unit) io" where
  "neg_rows fail [] = io_ret ()"
| "neg_rows fail ((v, name) # vs) =
    io_seq (row_check ''negative'' (\<not> odd (drop_bit v fail))) (neg_rows fail vs)"

definition t_negative :: "sl_args \<Rightarrow> (sl, unit) io" where
  "t_negative a =
    io_bind (traffic (sa_neg_seconds a) NEG 0) (\<lambda>s.
    io_seq (row_check ''negative'' (16 \<le> lb_item s ''ok_neg'' + lb_item s ''neg_replies''))
    (io_seq (neg_rows (lb_item s ''neg_fail'') (enumerate 0 NEG_VARIANTS))
    (io_seq (row_check ''negative''
        (ok_valid s + lb_item s ''ok_neg'' + lb_item s ''neg_replies'' = lb_item s ''tx_count''
         \<and> lb_item s ''bad'' = 0 \<and> lb_item s ''timeouts'' = 0))
     (io_ret ()))))"

definition t_short :: "sl_args \<Rightarrow> (sl, unit) io" where
  "t_short a =
    io_bind (traffic 5 SHORT 0) (\<lambda>s.
    io_seq (if lb_item s ''bad'' \<noteq> 0 \<or> lb_item s ''timeouts'' \<noteq> 0 then row_add SlInfo ''short'' else io_ret ())
    (io_seq (row_check ''short'' (ok_valid s = lb_item s ''tx_count'' \<and> 0 < lb_item s ''ok_icmp''
         \<and> 0 < lb_item s ''ok_udp'' \<and> lb_item s ''bad'' = 0 \<and> lb_item s ''timeouts'' = 0))
     (io_ret ())))"

text \<open>\<open>expect_down\<close> is \<open>None\<close> for a laser, which a jumper may force on.\<close>

definition link_event :: "string \<Rightarrow> int \<Rightarrow> rat \<Rightarrow> bool option \<Rightarrow> (sl, bool) io" where
  "link_event test bits hold expect_down =
    io_seq (sl_set (RUN OR NEG OR SHORT) False)
    (io_seq sl_clear
    (io_seq (sl_set bits True)
    (io_seq (sl_sleep hold)
    (io_bind sl_read (\<lambda>during.
     io_seq (sl_set bits False)
    (io_bind (wait_links 30) (\<lambda>t.
     io_bind sl_read (\<lambda>after.
     let dropped = (0 < lb_item after ''sfp0_downs'' + lb_item after ''sfp1_downs'' \<or> \<not> links_up during)
     in if expect_down = None \<and> \<not> dropped then io_seq (row_add SlSkip test) (io_ret False)
        else
          io_seq (case expect_down of
              None \<Rightarrow> io_ret ()
            | Some False \<Rightarrow> row_add SlInfo test
            | Some True \<Rightarrow> io_seq (row_check test dropped) (io_ret ()))
         (io_bind (row_check test (t \<noteq> None)) (\<lambda>back.
          if \<not> back then io_ret False
          else io_seq (clean_traffic test 5 0) (io_ret True)))))))))))"

definition t_sfp1_laser :: "sl_args \<Rightarrow> (sl, unit) io" where
  "t_sfp1_laser a = io_seq (link_event ''sfp1-laser'' LASER1_OFF 1 None) (io_ret ())"

definition t_sfp0_laser :: "sl_args \<Rightarrow> (sl, unit) io" where
  "t_sfp0_laser a = io_seq (link_event ''sfp0-laser'' LASER0_OFF 1 None) (io_ret ())"

definition t_sfp1_reset :: "sl_args \<Rightarrow> (sl, unit) io" where
  "t_sfp1_reset a = io_seq (link_event ''sfp1-reset'' SFP1_RST (1 / 5) (Some True)) (io_ret ())"

definition t_an_off :: "sl_args \<Rightarrow> (sl, unit) io" where
  "t_an_off a =
    io_bind sl_read (\<lambda>s0.
    if lb_item s0 ''an_disabled'' \<noteq> 0 then row_add SlSkip ''an-off''
    else
      io_seq (sl_set (RUN OR NEG OR SHORT) False)
     (io_seq (sl_set AN_OFF True)
     (io_seq (sl_sleep (1 / 5))
     (io_bind sl_read (\<lambda>s.
      io_seq (row_check ''an-off'' (lb_item s ''an_disabled'' \<noteq> 0))
     (io_bind (wait_links 10) (\<lambda>t1.
      io_bind (if t1 = None then io_seq (sl_pulse AN_RESTART (1 / 10)) (wait_links 10) else io_ret t1) (\<lambda>t.
      io_bind (row_check ''an-off'' (t \<noteq> None)) (\<lambda>up.
      io_seq (if up then io_seq (clean_traffic ''an-off'' 5 0) (io_ret ()) else io_ret ())
     (io_seq (sl_set AN_OFF False)
     (io_seq (sl_pulse AN_RESTART (1 / 10))
     (io_bind (wait_links 15) (\<lambda>t2.
      io_bind (row_check ''an-off'' (t2 \<noteq> None)) (\<lambda>again.
      if again then io_seq (clean_traffic ''an-off'' 5 0) (io_ret ()) else io_ret ()))))))))))))))"

definition t_an_restart :: "sl_args \<Rightarrow> (sl, unit) io" where
  "t_an_restart a = io_seq (link_event ''an-restart'' AN_RESTART (1 / 10) (Some False)) (io_ret ())"

definition SL_TESTS :: "(string \<times> (sl_args \<Rightarrow> (sl, unit) io)) list" where
  "SL_TESTS = [(''links'', t_links), (''traffic'', t_traffic), (''negative'', t_negative),
     (''short'', t_short), (''sfp1-laser'', t_sfp1_laser), (''sfp0-laser'', t_sfp0_laser),
     (''sfp1-reset'', t_sfp1_reset), (''an-off'', t_an_off), (''an-restart'', t_an_restart),
     (''soak'', t_soak)]"

section \<open>The run\<close>

definition sl_names :: "string \<Rightarrow> string list" where
  "sl_names tests = filter (\<lambda>t. t \<noteq> []) (map strip (split_at (CHR '','') tests))"

text \<open>The names to run: \<open>links\<close> first, and its first mention in the list taken out.\<close>

definition sl_order :: "string list \<Rightarrow> string list" where
  "sl_order names = ''links'' # remove1 ''links'' names"

fun sl_run_tests :: "sl_args \<Rightarrow> string list \<Rightarrow> (sl, unit) io" where
  "sl_run_tests a [] = io_ret ()"
| "sl_run_tests a (n # names) =
    (case map_of SL_TESTS n of
       None \<Rightarrow> io_raise (KeyError n)
     | Some t \<Rightarrow> io_seq (t a) (sl_run_tests a names))"

text \<open>The last line of the summary: how often each verdict was given, sorted by the verdict's name.\<close>

fun verdict_name :: "sl_verdict \<Rightarrow> string" where
  "verdict_name SlPass = ''PASS''"
| "verdict_name SlFail = ''FAIL''"
| "verdict_name SlInfo = ''INFO''"
| "verdict_name SlSkip = ''SKIP''"

lemma verdict_name_inj: "verdict_name v = verdict_name w \<longleftrightarrow> v = w"
  by (cases v; cases w) simp_all

instantiation sl_verdict :: linorder
begin

definition less_eq_sl_verdict :: "sl_verdict \<Rightarrow> sl_verdict \<Rightarrow> bool" where
  "less_eq_sl_verdict v w = (verdict_name v \<le> verdict_name w)"

definition less_sl_verdict :: "sl_verdict \<Rightarrow> sl_verdict \<Rightarrow> bool" where
  "less_sl_verdict v w = (verdict_name v < verdict_name w)"

instance
  by standard (auto simp: less_eq_sl_verdict_def less_sl_verdict_def less_le verdict_name_inj)

end

fun count_rows :: "(sl_verdict \<times> string) list \<Rightarrow> (sl_verdict \<times> nat) list \<Rightarrow> (sl_verdict \<times> nat) list" where
  "count_rows [] tally = tally"
| "count_rows ((v, test) # rows) tally =
    count_rows rows (AList.update v (case map_of tally v of None \<Rightarrow> 1 | Some n \<Rightarrow> n + 1) tally)"

definition sl_summary :: "(sl_verdict \<times> string) list \<Rightarrow> (sl_verdict \<times> nat) list" where
  "sl_summary rows = sort_key fst (count_rows rows [])"

definition sl_main :: "sl_args \<Rightarrow> (sl, nat) io" where
  "sl_main a =
    (let names = sl_names (sa_tests a)
     in if list_ex (\<lambda>n. map_of SL_TESTS n = None) names
        then io_raise (SystemExit ''ERROR: unknown test'')
        else io_seq sl_connect
         (io_seq (io_ensure (sl_run_tests a (sl_order names)) sl_close)
         (io_bind (io_get s_rows) (\<lambda>rows.
          io_ret (if (case map_of (count_rows rows []) SlFail of None \<Rightarrow> 0 | Some n \<Rightarrow> n) \<noteq> 0
                  then 1 else 0)))))"

section \<open>What a computation does to the controls\<close>

text \<open>\<open>drives c m R\<close>: from the output value \<open>c\<close>, whatever the answers, \<open>m\<close> writes admissible values
  only, and if it returns, its value and the output value it leaves are related by \<open>R\<close>. An admissible
  value has nine bits and does not clear the counters of a running test.\<close>

definition value_ok :: "int \<Rightarrow> bool" where
  "value_ok v \<longleftrightarrow> 0 \<le> v \<and> v < 512 \<and> \<not> (bit v 0 \<and> bit v 1)"

fun act_ok :: "sl_act \<Rightarrow> bool" where
  "act_ok (SlWrite v) = value_ok v"
| "act_ok (SlSleep d) = (0 \<le> d)"
| "act_ok SlConnect = False"
| "act_ok SlClose = False"

definition adds_ok :: "sl \<Rightarrow> sl \<Rightarrow> bool" where
  "adds_ok s t \<longleftrightarrow> (\<exists>new. s_log t = s_log s @ new \<and> list_all act_ok new)"

lemma adds_ok_refl: "s_log t = s_log s \<Longrightarrow> adds_ok s t"
  by (simp add: adds_ok_def)

lemma adds_ok_one: "s_log t = s_log s @ [a] \<Longrightarrow> act_ok a \<Longrightarrow> adds_ok s t"
  by (simp add: adds_ok_def)

lemma adds_ok_trans: "adds_ok s t \<Longrightarrow> adds_ok t u \<Longrightarrow> adds_ok s u"
  by (auto simp: adds_ok_def)

definition drives :: "int \<Rightarrow> (sl, 'a) io \<Rightarrow> ('a \<Rightarrow> int \<Rightarrow> bool) \<Rightarrow> bool" where
  "drives c m R \<longleftrightarrow> (\<forall>s. s_ctrl s = c \<longrightarrow>
    (case m s of Done x t \<Rightarrow> R x (s_ctrl t) \<and> adds_ok s t | Raised e t \<Rightarrow> adds_ok s t | Starved \<Rightarrow> True))"

named_theorems drives_intros \<open>rules for what a computation does to the controls\<close>

lemma drives_mono: "drives c m R \<Longrightarrow> (\<And>x c'. R x c' \<Longrightarrow> R' x c') \<Longrightarrow> drives c m R'"
  unfolding drives_def by (fastforce split: outcome.splits)

lemma drives_bind [drives_intros]:
  assumes "drives c m (\<lambda>x c'. drives c' (f x) R)"
  shows "drives c (io_bind m f) R"
  unfolding drives_def
proof (intro allI impI)
  fix s :: sl assume c: "s_ctrl s = c"
  show "case io_bind m f s of Done x t \<Rightarrow> R x (s_ctrl t) \<and> adds_ok s t | Raised e t \<Rightarrow> adds_ok s t | Starved \<Rightarrow> True"
  proof (cases "m s")
    case (Done x s')
    then have d: "drives (s_ctrl s') (f x) R" and a: "adds_ok s s'"
      using assms c unfolding drives_def by fastforce+
    have "case f x s' of Done y t \<Rightarrow> R y (s_ctrl t) \<and> adds_ok s' t | Raised e t \<Rightarrow> adds_ok s' t | Starved \<Rightarrow> True"
      using d unfolding drives_def by blast
    then show ?thesis using Done a by (auto simp: io_bind_def intro: adds_ok_trans split: outcome.splits)
  next
    case (Raised e s')
    then show ?thesis using assms c unfolding drives_def by (fastforce simp: io_bind_def)
  qed (simp add: io_bind_def)
qed

lemma drives_seq [drives_intros]:
  "drives c m (\<lambda>_ c'. drives c' n R) \<Longrightarrow> drives c (io_seq m n) R"
  unfolding io_seq_def by (rule drives_bind)

lemma drives_ret [drives_intros]: "R x c \<Longrightarrow> drives c (io_ret x) R"
  by (simp add: drives_def adds_ok_refl)

lemma drives_raise [drives_intros]: "drives c (io_raise e) R"
  by (simp add: drives_def adds_ok_refl)

lemma drives_starved [drives_intros]: "drives c (\<lambda>s. Starved) R"
  by (simp add: drives_def)

lemma drives_get [drives_intros]: "(\<And>x. R x c) \<Longrightarrow> drives c (io_get f) R"
  by (simp add: drives_def adds_ok_refl)

lemma drives_ctrl: "R c c \<Longrightarrow> drives c (io_get s_ctrl) R"
  by (simp add: drives_def adds_ok_refl)

lemma drives_time [drives_intros]: "(\<And>t. R t c) \<Longrightarrow> drives c sl_time R"
  by (simp add: drives_def sl_time_def adds_ok_refl split: list.split)

lemma drives_read [drives_intros]: "(\<And>st. R st c) \<Longrightarrow> drives c sl_read R"
  by (simp add: drives_def sl_read_def io_bind_def io_answer_def adds_ok_refl split: list.split sum.split)

lemma drives_sleep [drives_intros]: "R () c \<Longrightarrow> drives c (sl_sleep d) R"
  by (auto simp: drives_def sl_sleep_def sl_act_def intro: adds_ok_refl adds_ok_one [of _ _ "SlSleep d"])

lemma drives_row [drives_intros]: "R () c \<Longrightarrow> drives c (row_add v test) R"
  by (simp add: drives_def row_add_def adds_ok_refl)

lemma drives_check [drives_intros]: "R cond c \<Longrightarrow> drives c (row_check test cond) R"
  unfolding row_check_def by (intro drives_intros)

lemma drives_write: "value_ok v \<Longrightarrow> R () v \<Longrightarrow> drives c (sl_write v) R"
  by (auto simp: drives_def sl_write_def sl_cmd_def sl_act_def io_seq_def io_bind_def io_answer_def
      intro: adds_ok_one [of _ _ "SlWrite v"] split: list.split sum.split)

lemma drives_set [drives_intros]:
  "value_ok (if on then c OR bits else c AND NOT bits) \<Longrightarrow> R () (if on then c OR bits else c AND NOT bits)
    \<Longrightarrow> drives c (sl_set bits on) R"
  unfolding sl_set_def by (intro drives_bind drives_ctrl drives_write)

lemma drives_if [drives_intros]:
  "(b \<Longrightarrow> drives c m R) \<Longrightarrow> (\<not> b \<Longrightarrow> drives c n R) \<Longrightarrow> drives c (if b then m else n) R"
  by simp

lemma drives_option [drives_intros]:
  "(x = None \<Longrightarrow> drives c m R) \<Longrightarrow> (\<And>y. x = Some y \<Longrightarrow> drives c (f y) R)
    \<Longrightarrow> drives c (case x of None \<Rightarrow> m | Some y \<Rightarrow> f y) R"
  by (cases x) simp_all

lemma drives_bool [drives_intros]:
  "(b \<Longrightarrow> drives c m R) \<Longrightarrow> (\<not> b \<Longrightarrow> drives c n R) \<Longrightarrow> drives c (case b of True \<Rightarrow> m | False \<Rightarrow> n) R"
  by (cases b) simp_all

lemma drives_wait_from: "R None c \<Longrightarrow> (\<And>t. R (Some t) c) \<Longrightarrow> drives c (wait_from left timeout t0) R"
  by (induction left) (auto intro!: drives_intros)

lemma drives_wait [drives_intros]: "(\<And>t. R t c) \<Longrightarrow> drives c (wait_links timeout) R"
  unfolding wait_links_def by (intro drives_intros drives_wait_from)

lemma drives_traffic_from [drives_intros]:
  "R () c \<Longrightarrow> drives c (traffic_from left seconds progress t0 next_show) R"
  by (induction left arbitrary: next_show) (auto intro!: drives_intros)

lemmas control_bits = RUN_def CLEAR_def NEG_def SHORT_def LASER1_OFF_def SFP1_RST_def AN_OFF_def
  AN_RESTART_def LASER0_OFF_def

lemmas drives_defs = sl_clear_def sl_pulse_def

lemma drives_traffic [drives_intros]:
  assumes "c \<in> {0, AN_OFF}" "extra \<in> {0, NEG, SHORT}" "\<And>st. R st c"
  shows "drives c (traffic seconds extra progress) R"
  using assms unfolding traffic_def drives_defs
  by (auto intro!: drives_intros simp: control_bits value_ok_def)

lemma drives_clean_traffic [drives_intros]:
  "c \<in> {0, AN_OFF} \<Longrightarrow> (\<And>st. R st c) \<Longrightarrow> drives c (clean_traffic test seconds progress) R"
  unfolding clean_traffic_def by (intro drives_intros) auto

lemma drives_link_event [drives_intros]:
  assumes "bits \<in> {LASER0_OFF, LASER1_OFF, SFP1_RST, AN_RESTART}" "\<And>x. R x 0"
  shows "drives 0 (link_event test bits hold expect_down) R"
  using assms unfolding link_event_def Let_def drives_defs
  by (auto intro!: drives_intros simp: control_bits value_ok_def)

lemma drives_neg_rows [drives_intros]: "R () c \<Longrightarrow> drives c (neg_rows fail vs) R"
  by (induction fail vs rule: neg_rows.induct) (auto intro!: drives_intros)

lemma drives_an_off [drives_intros]: "R () 0 \<Longrightarrow> drives 0 (t_an_off a) R"
  unfolding t_an_off_def drives_defs
  by (auto intro!: drives_intros simp: control_bits value_ok_def)

text \<open>Every test leaves the controls off, as it finds them.\<close>

lemma drives_test: "map_of SL_TESTS n = Some t \<Longrightarrow> drives 0 (t a) (\<lambda>_ c. c = 0)"
  unfolding SL_TESTS_def
  by (auto split: if_splits intro!: drives_intros simp: t_links_def t_traffic_def t_soak_def t_negative_def
      t_short_def t_sfp1_laser_def t_sfp0_laser_def t_sfp1_reset_def t_an_restart_def)

lemma drives_tests: "drives 0 (sl_run_tests a names) (\<lambda>_ c. c = 0)"
proof (induction names)
  case (Cons n names)
  have "drives 0 (io_seq (t a) (sl_run_tests a names)) (\<lambda>_ c. c = 0)" if "map_of SL_TESTS n = Some t" for t
    using Cons by (intro drives_seq drives_mono [OF drives_test [OF that]]) simp
  then show ?case by (auto intro!: drives_option drives_raise)
next
  case Nil
  show ?case unfolding sl_run_tests.simps by (rule drives_ret) simp
qed

lemma cmd_log: "final (sl_cmd a s) = Some t \<Longrightarrow> s_log t = s_log s @ [a] \<and> s_ctrl t = s_ctrl s"
  by (auto simp: sl_cmd_def sl_act_def io_seq_def io_bind_def io_answer_def split: list.splits sum.splits)

lemma close_log:
  assumes "final (sl_close s) = Some t"
  shows "s_log t = s_log s @ [SlWrite 0, SlClose] \<and> s_ctrl t = 0"
proof -
  obtain s' where s': "final (sl_write 0 s) = Some s'" "final (sl_cmd SlClose s') = Some t"
    using final_ensure [OF assms [unfolded sl_close_def]] by blast
  have "s_log s' = s_log s @ [SlWrite 0] \<and> s_ctrl s' = 0"
    using s'(1) cmd_log [of "SlWrite 0" "s\<lparr>s_ctrl := 0\<rparr>" s'] by (simp add: sl_write_def io_seq_def io_bind_def)
  then show ?thesis using cmd_log [OF s'(2)] by simp
qed

lemma drives_final:
  "drives c m R \<Longrightarrow> s_ctrl s = c \<Longrightarrow> final (m s) = Some t \<Longrightarrow> adds_ok s t"
  unfolding drives_def by (cases "m s") fastforce+

lemma final_main:
  assumes "final (sl_main a s) = Some t"
  shows "s_log t = s_log s \<or> s_log t = s_log s @ [SlConnect]
    \<or> (\<exists>u s'. sl_connect s = Done () u \<and> final (sl_run_tests a (sl_order (sl_names (sa_tests a))) u) = Some s'
        \<and> s_log t = s_log s' @ [SlWrite 0, SlClose])"
proof (cases "list_ex (\<lambda>n. map_of SL_TESTS n = None) (sl_names (sa_tests a))")
  case True
  then show ?thesis using assms by (simp add: sl_main_def)
next
  case False
  let ?run = "sl_run_tests a (sl_order (sl_names (sa_tests a)))"
  let ?code = "\<lambda>rows. if (case map_of (count_rows rows []) SlFail of None \<Rightarrow> 0 | Some n \<Rightarrow> n) \<noteq> 0
      then 1 else 0 :: nat"
  have main: "sl_main a s = io_seq sl_connect (io_seq (io_ensure ?run sl_close)
      (io_bind (io_get s_rows) (\<lambda>rows. io_ret (?code rows)))) s"
    using False by (simp add: sl_main_def)
  have tail: "u = t" if "final (io_bind (io_get s_rows) (\<lambda>rows. io_ret (f rows)) u) = Some t" for u :: sl and f
    using that by (simp add: io_bind_def)
  have closed: ?thesis if c: "sl_connect s = Done x u" and e: "final (io_ensure ?run sl_close u) = Some t"
    for x u
  proof -
    obtain s' where s': "final (?run u) = Some s'" "final (sl_close s') = Some t"
      using final_ensure [OF e] by blast
    have "sl_connect s = Done () u" "s_log t = s_log s' @ [SlWrite 0, SlClose]"
      using c close_log [OF s'(2)] by simp_all
    then show ?thesis using s'(1) by blast
  qed
  from assms [unfolded main final_seq]
  show ?thesis
  proof (elim disjE exE conjE)
    fix e assume r: "sl_connect s = Raised e t"
    then have "final (sl_cmd SlConnect s) = Some t"
      by (auto simp: sl_connect_def io_seq_def io_bind_def split: outcome.splits)
    then show ?thesis using cmd_log by metis
  next
    fix x u e assume u: "sl_connect s = Done x u" and "io_ensure ?run sl_close u = Raised e t"
    then have "final (io_ensure ?run sl_close u) = Some t" by simp
    then show ?thesis by (rule closed [OF u])
  next
    fix x u y v assume u: "sl_connect s = Done x u" and v: "io_ensure ?run sl_close u = Done y v"
      and "final (io_bind (io_get s_rows) (\<lambda>rows. io_ret (?code rows)) v) = Some t"
    then have "final (io_ensure ?run sl_close u) = Some t" using tail by fastforce
    then show ?thesis by (rule closed [OF u])
  qed
qed

lemma connect_state: "sl_connect s = Done () u \<Longrightarrow> s_ctrl u = 0 \<and> s_log u = s_log s @ [SlConnect]
    \<and> s_reads u = s_reads s \<and> s_in_w u = s_in_w s"
  by (auto simp: sl_connect_def sl_cmd_def sl_act_def io_seq_Done io_answer_Done)

lemma links_wrong:
  assumes "s_reads u = Inr raw # others"
    and "\<not> (lb_item (decode_fields SL_FIELDS raw) ''marker'' = SL_MARKER
      \<and> lb_item (decode_fields SL_FIELDS raw) ''layout'' = SL_LAYOUT \<and> s_in_w u = SL_IN_W)"
  shows "\<exists>e u'. sl_run_tests a (sl_order names) u = Raised e u' \<and> s_log u' = s_log u"
proof -
  have "sl_read u = Done (decode_fields SL_FIELDS raw) (u\<lparr>s_reads := others\<rparr>)"
    using assms(1) by (simp add: sl_read_def io_bind_def io_answer_def)
  moreover have "row_check test cond v = Done cond (v\<lparr>s_rows := s_rows v @ [(if cond then SlPass else SlFail, test)]\<rparr>)"
    for test cond v by (simp add: row_check_def row_add_def io_seq_def io_bind_def)
  ultimately show ?thesis
    using assms(2) by (auto simp: sl_order_def SL_TESTS_def t_links_def io_seq_def io_bind_def)
qed

section \<open>Theorems\<close>

text \<open>C38: However a run ends, and whatever the board, the clock or the tests do: once the session is open,
  the run writes only values of nine bits that never set \<open>run\<close> and \<open>clear\<close> together, and the last
  it does to the EIO is to write 0 (traffic stopped, both lasers on, no reset held) and to close it.
  Otherwise it never wrote at all.\<close>

theorem sl_main_leaves_off:
  assumes "final (sl_main a s) = Some t" and "s_log s = []"
  shows "s_log t = [] \<or> s_log t = [SlConnect]
    \<or> (\<exists>acts. s_log t = SlConnect # acts @ [SlWrite 0, SlClose] \<and> list_all act_ok acts)"
  using final_main [OF assms(1)]
proof (elim disjE exE conjE)
  fix u s'
  assume u: "sl_connect s = Done () u"
    and s': "final (sl_run_tests a (sl_order (sl_names (sa_tests a))) u) = Some s'"
    and t: "s_log t = s_log s' @ [SlWrite 0, SlClose]"
  have "adds_ok u s'" using drives_final [OF drives_tests _ s'] connect_state [OF u] by blast
  then show ?thesis using t connect_state [OF u] assms(2) by (auto simp: adds_ok_def)
qed (simp_all add: assms(2))

text \<open>A run of \<open>links\<close> and \<open>traffic\<close> on a board that answers.\<close>

definition demo_word :: nat where
  "demo_word = 0x106 * 2 ^ 596 + 2 * 2 ^ 592 + 2 ^ 581 + 3 * 2 ^ 576 + 2 ^ 578 + 10485760 * 2 ^ 544
     + 2 ^ 400 + 2 ^ 384 + 2 ^ 262 + 2 ^ 96 + 2 ^ 64 + 2 ^ 32 + 3"

definition demo_sl :: sl where
  "demo_sl = \<lparr>s_cmds = [Inr (), Inr (), Inr (), Inr (), Inr (), Inr (), Inr (), Inr ()], s_reads = [Inr demo_word, Inr demo_word, Inr demo_word],
     s_times = [0, 0, 1, 1, 1, 1, 3], s_in_w = 608, s_ctrl = 0, s_log = [], s_rows = []\<rparr>"

definition demo_sl_args :: sl_args where
  "demo_sl_args = \<lparr>sa_tests = ''traffic'', sa_seconds = 1, sa_neg_seconds = 1, sa_soak = 0, sa_interval = 0\<rparr>"

definition demo_sl_end :: sl where
  "demo_sl_end = (case final (sl_main demo_sl_args demo_sl) of Some t \<Rightarrow> t | None \<Rightarrow> demo_sl)"

lemma lb_item_decode:
  "map_of fs n = Some (lsb, w) \<Longrightarrow> lb_item (decode_fields fs raw) n = raw div 2 ^ lsb mod 2 ^ w"
  unfolding lb_item_def decode_fields_def by (induction fs) (auto simp: field_value [simplified])

lemma demo_items:
  "lb_item (decode_fields SL_FIELDS demo_word) ''marker'' = SL_MARKER"
  "lb_item (decode_fields SL_FIELDS demo_word) ''layout'' = SL_LAYOUT"
  "lb_item (decode_fields SL_FIELDS demo_word) ''mac_running'' = 1"
  "lb_item (decode_fields SL_FIELDS demo_word) ''init_done'' = 1"
  "lb_item (decode_fields SL_FIELDS demo_word) ''sfp0_status'' = 1"
  "lb_item (decode_fields SL_FIELDS demo_word) ''sfp1_status'' = 1"
  by (subst lb_item_decode, simp add: SL_FIELDS_def, simp add: demo_word_def SL_MARKER_def SL_LAYOUT_def)+

lemma read_word:
  "s_reads s = Inr raw # rest \<Longrightarrow> sl_read s = Done (decode_fields SL_FIELDS raw) (s\<lparr>s_reads := rest\<rparr>)"
  by (simp add: sl_read_def io_bind_def io_answer_def)

lemma time_next: "s_times s = t # ts \<Longrightarrow> sl_time s = Done t (s\<lparr>s_times := ts\<rparr>)"
  by (simp add: sl_time_def)

lemma cmd_next: "s_cmds s = Inr () # cs \<Longrightarrow> sl_cmd c s = Done () (s\<lparr>s_log := s_log s @ [c], s_cmds := cs\<rparr>)"
  by (simp add: sl_cmd_def sl_act_def io_seq_def io_bind_def io_answer_def)

lemmas sl_run_simps = sl_main_def sl_names_def sl_order_def SL_TESTS_def t_links_def t_traffic_def
  clean_traffic_def traffic_def sl_connect_def sl_close_def io_ensure_def sl_clear_def sl_pulse_def
  sl_set_def sl_write_def sl_sleep_def sl_act_def row_check_def row_add_def wait_links_def
  read_word time_next cmd_next io_seq_def io_bind_def

lemma demo_sl_runs: "final (sl_main demo_sl_args demo_sl) \<noteq> None"
  by (simp add: sl_run_simps demo_sl_def demo_sl_args_def demo_items links_up_def control_bits SL_IN_W_def
      lstrip_def rstrip_def strip_def py_space_def Let_def
      del: count_rows.simps)

theorem sl_main_leaves_off_witness:
  "s_log demo_sl_end = [] \<or> s_log demo_sl_end = [SlConnect]
    \<or> (\<exists>acts. s_log demo_sl_end = SlConnect # acts @ [SlWrite 0, SlClose] \<and> list_all act_ok acts)"
proof (rule sl_main_leaves_off)
  show "final (sl_main demo_sl_args demo_sl) = Some demo_sl_end"
    using demo_sl_runs by (auto simp: demo_sl_end_def)
qed (simp add: demo_sl_def)

text \<open>A board that does not carry the loopback build is read once and not driven: whatever tests were
  asked for, the run ends with an exception, and all it wrote was the closing 0.\<close>

theorem sl_wrong_build_untouched:
  assumes "final (sl_main a s) = Some t" and "s_log s = []" and "s_reads s = Inr raw # others"
    and "\<not> (lb_item (decode_fields SL_FIELDS raw) ''marker'' = SL_MARKER
      \<and> lb_item (decode_fields SL_FIELDS raw) ''layout'' = SL_LAYOUT \<and> s_in_w s = SL_IN_W)"
  shows "(\<exists>e. sl_main a s = Raised e t) \<and> s_log t \<in> {[], [SlConnect], [SlConnect, SlWrite 0, SlClose]}"
proof
  have wrong: "\<exists>e u'. sl_run_tests a (sl_order names) u = Raised e u' \<and> s_log u' = [SlConnect]"
    if "sl_connect s = Done () u" for names u
    using links_wrong [of u raw others a names] connect_state [OF that] assms(2-4) by simp
  show "\<exists>e. sl_main a s = Raised e t"
  proof (cases "sl_main a s")
    case (Done code t')
    then obtain u where u: "sl_connect s = Done () u"
      "\<exists>x v. io_ensure (sl_run_tests a (sl_order (sl_names (sa_tests a)))) sl_close u = Done x v"
      by (auto simp: sl_main_def Let_def io_seq_Done split: if_splits)
    obtain e u' where "sl_run_tests a (sl_order (sl_names (sa_tests a))) u = Raised e u'"
      using wrong [OF u(1)] by blast
    then show ?thesis using u(2) by (auto simp: io_ensure_def split: outcome.splits)
  qed (use assms(1) in simp_all)
  show "s_log t \<in> {[], [SlConnect], [SlConnect, SlWrite 0, SlClose]}"
    using final_main [OF assms(1)]
  proof (elim disjE exE conjE)
    fix u s' assume u: "sl_connect s = Done () u"
      "final (sl_run_tests a (sl_order (sl_names (sa_tests a))) u) = Some s'"
      "s_log t = s_log s' @ [SlWrite 0, SlClose]"
    then have "s_log s' = [SlConnect]" using wrong [OF u(1), of "sl_names (sa_tests a)"] by auto
    then show ?thesis using u(3) by simp
  qed (simp_all add: assms(2))
qed

definition blank_sl :: sl where
  "blank_sl = demo_sl\<lparr>s_reads := [Inr 0]\<rparr>"

definition blank_sl_end :: sl where
  "blank_sl_end = (case final (sl_main demo_sl_args blank_sl) of Some t \<Rightarrow> t | None \<Rightarrow> blank_sl)"

lemma blank_items: "lb_item (decode_fields SL_FIELDS 0) ''marker'' \<noteq> SL_MARKER"
  by (simp add: decode_fields_def SL_FIELDS_def lb_item_def SL_MARKER_def)

lemma blank_sl_runs: "final (sl_main demo_sl_args blank_sl) \<noteq> None"
  by (simp add: sl_run_simps blank_sl_def demo_sl_def demo_sl_args_def blank_items
      lstrip_def rstrip_def strip_def py_space_def Let_def
      del: count_rows.simps)

theorem sl_wrong_build_untouched_witness:
  "(\<exists>e. sl_main demo_sl_args blank_sl = Raised e blank_sl_end)
    \<and> s_log blank_sl_end \<in> {[], [SlConnect], [SlConnect, SlWrite 0, SlClose]}"
proof (rule sl_wrong_build_untouched)
  show "final (sl_main demo_sl_args blank_sl) = Some blank_sl_end"
    using blank_sl_runs by (auto simp: blank_sl_end_def)
  show "\<not> (lb_item (decode_fields SL_FIELDS 0) ''marker'' = SL_MARKER
      \<and> lb_item (decode_fields SL_FIELDS 0) ''layout'' = SL_LAYOUT \<and> s_in_w blank_sl = SL_IN_W)"
    using blank_items by simp
qed (simp_all add: blank_sl_def demo_sl_def)

lemma count_rows_value:
  "(case map_of (count_rows rows tally) v of None \<Rightarrow> 0 | Some n \<Rightarrow> n)
    = (case map_of tally v of None \<Rightarrow> 0 | Some n \<Rightarrow> n) + length (filter (\<lambda>(w, test). w = v) rows)"
  by (induction rows tally rule: count_rows.induct) (auto simp: update_conv' split: option.splits)

lemma count_rows_keys: "distinct (map fst tally) \<Longrightarrow> distinct (map fst (count_rows rows tally))"
  by (induction rows tally rule: count_rows.induct) (simp_all add: distinct_update)

lemma sl_summary_sorted: "sorted (map fst (sl_summary rows)) \<and> distinct (map fst (sl_summary rows))"
proof
  show "sorted (map fst (sl_summary rows))" by (simp add: sl_summary_def)
  show "distinct (map fst (sl_summary rows))"
    using count_rows_keys [of "[]" rows] by (simp add: sl_summary_def distinct_map)
qed

text \<open>Otherwise the exit code is 0 exactly when no check of the report failed.\<close>

theorem sl_main_exit_code:
  assumes "sl_main a s = Done code t"
  shows "code = (if list_all (\<lambda>(v, test). v \<noteq> SlFail) (s_rows t) then 0 else 1)"
  using assms count_rows_value [of "s_rows t" "[]" SlFail]
  by (auto simp: sl_main_def Let_def io_seq_Done io_bind_Done filter_empty_conv list_all_iff split: if_splits)

text \<open>The two rows of a clean traffic window: both pass exactly when every request was answered
  correctly and every kind of request was among them.\<close>

lemma clean_traffic_rows:
  assumes "clean_traffic test seconds progress s = Done st t"
  shows "\<exists>rows v w. s_rows t = rows @ [(v, test), (w, test)] \<and> (v = SlPass \<and> w = SlPass \<longleftrightarrow>
    0 < lb_item st ''ok_arp'' \<and> 0 < lb_item st ''ok_icmp'' \<and> 0 < lb_item st ''ok_udp''
    \<and> ok_valid st = lb_item st ''tx_count'' \<and> lb_item st ''bad'' = 0 \<and> lb_item st ''timeouts'' = 0)"
  using assms
  by (fastforce simp: clean_traffic_def row_check_def row_add_def io_seq_Done io_bind_Done ok_valid_def)

end
