(* ===== verification/Emz_Linux.thy ===== *)
theory Emz_Linux
  imports Emz_Io Complex_Main
begin

text \<open>
  \<open>sw/linux/scripts/linux_bench.py\<close>: the throughput and accounting benchmark of the Linux driver.
  Modelled are the shell session over the serial console (the markers around a command's output),
  the counter snapshots, the accounting of MAC against interface counters with its notes, the
  retries of iperf3, the tests with their report lines, and the verdict of the run. The board's
  shell, iperf3 and the JSON parser are parameters.
\<close>

section \<open>Numbers with thousands separators\<close>

text \<open>\<open>{n:,}\<close> and \<open>{n:+,}\<close>.\<close>

fun group3 :: "string \<Rightarrow> string" where
  "group3 (a # b # c # d # ds) = a # b # c # CHR '','' # group3 (d # ds)"
| "group3 ds = ds"

definition commas :: "int \<Rightarrow> string" where
  "commas n = (if n < 0 then [CHR ''-''] else []) @ rev (group3 (rev (show_nat (nat (abs n)))))"

definition signed_commas :: "int \<Rightarrow> string" where
  "signed_commas n = (if 0 \<le> n then ''+'' else []) @ commas n"

section \<open>The board's shell\<close>

definition BEGIN_MARK :: string where "BEGIN_MARK = ''__EMZ_BENCH_BEGIN__''"
definition END_MARK :: string where "END_MARK = ''__EMZ_BENCH_END__''"

definition split_marker :: "string \<Rightarrow> string" where
  "split_marker name = take 6 name @ [CHR 0x22, CHR 0x22] @ drop 6 name"

text \<open>What \<open>SerialBoard.run\<close> sends.\<close>

definition serial_command :: "string \<Rightarrow> string" where
  "serial_command cmd = ''echo '' @ split_marker BEGIN_MARK @ ''; '' @ cmd @ ''; echo ''
     @ split_marker END_MARK @ '' $?'' @ [CHR 0x0A]"

text \<open>\<open>^END (\d+)$\<close> at the start of a line that has no newline in it.\<close>

definition end_line :: "string \<Rightarrow> bool" where
  "end_line l \<longleftrightarrow>
    (case m_lit (END_MARK @ '' '') l of
       Some r \<Rightarrow> r \<noteq> [] \<and> list_all py_digit r
     | None \<Rightarrow> False)"

text \<open>The output of a command: the lines between the first line that is the begin marker and the
  first end line after it.\<close>

definition serial_output :: "string \<Rightarrow> string \<Rightarrow> string res" where
  "serial_output cmd out =
    (let lines = split_at (CHR 0x0A) out;
         after = dropWhile (\<lambda>l. l \<noteq> BEGIN_MARK) lines
     in case after of
          [] \<Rightarrow> Inl (BoardError (''no answer to: '' @ cmd))
        | _ # body \<Rightarrow>
            if list_ex end_line body
            then Inr (join [CHR 0x0A] (takeWhile (\<lambda>l. \<not> end_line l) body))
            else Inl (BoardError (''no end of output for: '' @ cmd)))"

definition ssh_run :: "string \<Rightarrow> int \<Rightarrow> string \<Rightarrow> string \<Rightarrow> string res" where
  "ssh_run target rc out err =
    (if rc = 255 then Inl (BoardError (''ssh '' @ target @ '': '' @ strip err)) else Inr out)"

section \<open>Snapshots\<close>

type_synonym snapshot = "string \<rightharpoonup> int"

definition snapshot_command :: "string \<Rightarrow> string" where
  "snapshot_command ifname =
    (let stats = ''rx_packets tx_packets rx_dropped tx_dropped rx_errors tx_errors rx_length_errors''
     in ''ethtool -S '' @ ifname @ ''; for f in '' @ stats @ ''; do echo if_$f: $(cat /sys/class/net/''
        @ ifname @ ''/statistics/$f); done; echo bql_inflight: $(cat /sys/class/net/'' @ ifname
        @ ''/queues/tx-0/byte_queue_limits/inflight); echo mem_free_kb: $(awk ''
        @ [CHR 0x27] @ ''/MemFree/{print $2}'' @ [CHR 0x27] @ '' /proc/meminfo); echo dmesg_lines: $(dmesg | wc -l)'')"

text \<open>\<open>value.strip().lstrip("-").isdigit()\<close> and \<open>int(value)\<close>: digits after any number of dashes,
  of which \<open>int\<close> takes one at most (more are a \<open>ValueError\<close>).\<close>

definition counter_value :: "string \<Rightarrow> int option res" where
  "counter_value v =
    (let s = strip v; body = dropWhile (\<lambda>c. c = CHR ''-'') s;
         n = int (foldl (\<lambda>n c. 10 * n + digit_value c) 0 body)
     in if body = [] \<or> \<not> list_all py_digit body then Inr None
        else if length s = length body then Inr (Some n)
        else if length s = length body + 1 then Inr (Some (- n))
        else Inl (ValueError ''invalid literal for int()''))"

text \<open>One line: \<open>name: value\<close>.\<close>

fun snapshot_lines :: "string list \<Rightarrow> snapshot \<Rightarrow> snapshot res" where
  "snapshot_lines [] snap = Inr snap"
| "snapshot_lines (line # lines) snap =
    (let l = strip line; name = takeWhile (\<lambda>c. c \<noteq> CHR '':'') l; rest = dropWhile (\<lambda>c. c \<noteq> CHR '':'') l
     in if rest = [] then snapshot_lines lines snap
        else res_bind (counter_value (tl rest)) (\<lambda>v.
          snapshot_lines lines (case v of None \<Rightarrow> snap | Some n \<Rightarrow> snap(strip name \<mapsto> n))))"

definition snapshot :: "(string \<Rightarrow> string res) \<Rightarrow> string \<Rightarrow> snapshot res" where
  "snapshot run ifname =
    res_bind (run (snapshot_command ifname)) (\<lambda>out. snapshot_lines (splitlines out) Map.empty)"

section \<open>Accounting\<close>

definition REQUIRED :: "string list" where
  "REQUIRED = [''hw_tx_frames'', ''hw_rx_frames'', ''hw_rx_errors'', ''hw_rx_err_overflow'',
     ''hw_rx_err_csum'', ''hw_rx_drop_fifo_full'', ''if_tx_packets'', ''if_rx_packets'',
     ''if_rx_dropped'', ''if_rx_errors'', ''if_rx_length_errors'', ''dmesg_lines'']"

datatype verdict3 = Agree | Differ | Invalid

definition delta :: "snapshot \<Rightarrow> snapshot \<Rightarrow> string \<Rightarrow> int" where
  "delta before after k = the (after k) - the (before k)"

definition diff_note :: "int \<Rightarrow> int \<Rightarrow> string" where
  "diff_note mac lnx = (if mac = lnx then [] else '' (MAC '' @ signed_commas (mac - lnx) @ '')'')"

definition kernel_note :: "(string \<Rightarrow> string res) \<Rightarrow> int \<Rightarrow> string res" where
  "kernel_note run lines =
    (if 0 < lines then
       res_bind (run (''dmesg | tail -n '' @ show_int lines)) (\<lambda>out.
       Inr (''kernel messages:'' @ [CHR 0x0A]
         @ join [CHR 0x0A] (map (\<lambda>m. ''    '' @ m) (splitlines (strip out)))))
     else Inr ''no kernel messages'')"

definition get_int :: "snapshot \<Rightarrow> string \<Rightarrow> int" where
  "get_int snap k = (case snap k of Some v \<Rightarrow> v | None \<Rightarrow> 0)"

definition accounting ::
  "snapshot \<Rightarrow> snapshot \<Rightarrow> (string \<Rightarrow> string res) \<Rightarrow> (verdict3 \<times> string list) res" where
  "accounting before after run =
    (let missing = filter (\<lambda>k. before k = None \<or> after k = None) REQUIRED;
         d = delta before after;
         back = filter (\<lambda>k. d k < 0) REQUIRED;
         mac_tx = d ''hw_tx_frames''; if_tx = d ''if_tx_packets'';
         mac_rx = d ''hw_rx_frames''; bad = d ''hw_rx_errors''; if_rx = d ''if_rx_packets''
     in if missing \<noteq> [] then
          Inr (Invalid, [''invalid: counters missing: '' @ join '', '' missing])
        else if back \<noteq> [] then
          Inr (Invalid, [''invalid: counters went backwards (driver reloaded?): '' @ join '', '' back])
        else
          res_bind (kernel_note run (d ''dmesg_lines'')) (\<lambda>kernel.
          Inr (if mac_tx = if_tx \<and> mac_rx - bad = if_rx then Agree else Differ,
            [''TX: MAC '' @ commas mac_tx @ '', interface '' @ commas if_tx @ diff_note mac_tx if_tx,
             ''RX: MAC '' @ commas mac_rx @ '' - bad '' @ commas bad @ '' = '' @ commas (mac_rx - bad)
               @ '', interface '' @ commas if_rx @ diff_note (mac_rx - bad) if_rx,
             ''MAC RX bad checksum (in bad above) '' @ commas (d ''hw_rx_err_csum''),
             ''MAC RX overflow '' @ commas (d ''hw_rx_err_overflow'') @ '', dropped for FIFO full ''
               @ commas (d ''hw_rx_drop_fifo_full'') @ ''; interface RX dropped ''
               @ commas (d ''if_rx_dropped'') @ '', errors '' @ commas (d ''if_rx_errors'')
               @ '', length errors '' @ commas (d ''if_rx_length_errors''),
             kernel,
             ''BQL inflight after: '' @ (case after ''bql_inflight'' of Some v \<Rightarrow> show_int v | None \<Rightarrow> ''?'')
               @ '', free memory '' @ signed_commas (get_int after ''mem_free_kb'' - get_int before ''mem_free_kb'')
               @ '' kB''])))"

section \<open>Running the tests\<close>

record bench_args =
  b_board :: string
  b_bind :: "string option"
  b_iperf3 :: "string list"
  b_time :: nat
  b_soak :: nat
  b_udp_rate :: string
  b_conditions :: string
  b_ssh :: "string option"

text \<open>One direction's summary in iperf3's result, and the summaries by name.\<close>

record flow =
  f_bits_per_second :: rat
  f_retransmits :: int
  f_packets :: int
  f_lost_packets :: int

type_synonym ends = "string \<rightharpoonup> flow"

text \<open>What one run of the client gives: the \<open>error\<close> entry of its JSON, or the JSON without one.
  Output that is no JSON (\<open>parse\<close> gives \<open>None\<close>) counts as an error.\<close>

definition iperf3_answer :: "(string \<Rightarrow> (string + 'a) option) \<Rightarrow> string \<Rightarrow> string \<Rightarrow> string + 'a" where
  "iperf3_answer parse out err =
    (case parse out of
       Some data \<Rightarrow> data
     | None \<Rightarrow> Inl (if strip err = [] then ''no output'' else strip err))"

definition iperf3_argv :: "bench_args \<Rightarrow> string list \<Rightarrow> string list" where
  "iperf3_argv args cmd =
    b_iperf3 args @ [''-c'', b_board args, ''-J'', ''-f'', ''m''] @ cmd
    @ (case b_bind args of Some b \<Rightarrow> (if b = [] then [] else [''-B'', b]) | None \<Rightarrow> [])"

text \<open>The attempts from number \<open>attempt\<close> on: a busy server is a reason for another, up to three.\<close>

function iperf3_from :: "string list \<Rightarrow> (nat \<Rightarrow> string + 'a) \<Rightarrow> nat \<Rightarrow> 'a res" where
  "iperf3_from cmd client attempt =
    (case client attempt of
       Inr data \<Rightarrow> Inr data
     | Inl e \<Rightarrow>
         if \<not> contains ''busy'' e \<or> 2 \<le> attempt
         then Inl (RuntimeError (''iperf3 '' @ join '' '' cmd @ '': '' @ e))
         else iperf3_from cmd client (attempt + 1))"
  by pat_completeness auto
termination by (relation "measure (\<lambda>(cmd, client, attempt). 2 - attempt)") auto

declare iperf3_from.simps [simp del]

definition iperf3 :: "bench_args \<Rightarrow> string list \<Rightarrow> (string list \<Rightarrow> nat \<Rightarrow> string + 'a) \<Rightarrow> 'a res" where
  "iperf3 args cmd client = iperf3_from cmd (client (iperf3_argv args cmd)) 0"

text \<open>\<open>{mbps(section):.0f} Mb/s\<close>: a tie goes to the even number.\<close>

definition round_even :: "rat \<Rightarrow> int" where
  "round_even x =
    (let n = floor x; d = x - of_int n
     in if d < 1 / 2 \<or> (d = 1 / 2 \<and> even n) then n else n + 1)"

definition mbps :: "flow \<Rightarrow> string" where
  "mbps f = show_int (round_even (f_bits_per_second f / 10 ^ 6)) @ '' Mb/s''"

definition tcp_line :: "flow \<Rightarrow> flow \<Rightarrow> string" where
  "tcp_line received sent = mbps received @ '', '' @ show_int (f_retransmits sent) @ '' retransmits''"

definition udp_line :: "flow \<Rightarrow> flow \<Rightarrow> string" where
  "udp_line rx tx = mbps rx @ '' received ('' @ show_int (round_even (f_bits_per_second tx / 10 ^ 6))
     @ '' sent); iperf3: '' @ commas (f_packets tx) @ '' sent, receiver sequence to ''
     @ commas (f_packets rx) @ '', '' @ commas (f_lost_packets rx) @ '' gaps''"

definition flow_of :: "ends \<Rightarrow> string \<Rightarrow> flow res" where
  "flow_of e k = (case e k of Some f \<Rightarrow> Inr f | None \<Rightarrow> Inl (KeyError k))"

definition flows2 :: "ends \<Rightarrow> string \<Rightarrow> string \<Rightarrow> (flow \<Rightarrow> flow \<Rightarrow> 'a) \<Rightarrow> 'a res" where
  "flows2 e a b f = res_bind (flow_of e a) (\<lambda>x. res_bind (flow_of e b) (\<lambda>y. Inr (f x y)))"

text \<open>\<open>run_test\<close>: the description of the test and its result lines.\<close>

definition run_test ::
  "bench_args \<Rightarrow> (string list \<Rightarrow> nat \<Rightarrow> string + ends) \<Rightarrow> string
    \<Rightarrow> (string \<times> (string \<times> string) list) res" where
  "run_test args client name =
    (let tcp = [''-t'', show_nat (b_time args)];
         udp = [''-u'', ''-b'', b_udp_rate args, ''-l'', ''1472'', ''-t'', show_nat (b_time args)]
     in if name = ''tcp-rx'' then
          res_bind (iperf3 args tcp client) (\<lambda>e. flows2 e ''sum_received'' ''sum_sent'' (\<lambda>r s.
            (''TCP, board receives'', [(''board receives'', tcp_line r s)])))
        else if name = ''tcp-tx'' then
          res_bind (iperf3 args (tcp @ [''-R'']) client) (\<lambda>e. flows2 e ''sum_received'' ''sum_sent'' (\<lambda>r s.
            (''TCP, board sends'', [(''board sends'', tcp_line r s)])))
        else if name = ''udp-rx'' \<or> name = ''udp-tx'' then
          (let rev = (name = ''udp-tx''); key = (if rev then ''board sends'' else ''board receives'')
           in res_bind (iperf3 args (udp @ (if rev then [''-R''] else [])) client) (\<lambda>e.
              flows2 e ''sum_received'' ''sum_sent'' (\<lambda>r s.
              (''UDP 1472-byte, '' @ b_udp_rate args @ ''b/s offered, '' @ key, [(key, udp_line r s)]))))
        else if name = ''bidir'' \<or> name = ''soak'' then
          (let secs = show_nat (if name = ''soak'' then b_soak args else b_time args)
           in res_bind (iperf3 args [''-t'', secs, ''--bidir''] client) (\<lambda>e.
              res_bind (flows2 e ''sum_received'' ''sum_sent'' tcp_line) (\<lambda>r.
              res_bind (flows2 e ''sum_received_bidir_reverse'' ''sum_sent_bidir_reverse'' tcp_line) (\<lambda>s.
              Inr (''TCP, both directions, '' @ secs @ '' s'', [(''board receives'', r), (''board sends'', s)])))))
        else Inl (ValueError (''unknown test '' @ name)))"

definition test_names :: "string \<Rightarrow> string list" where
  "test_names tests = filter (\<lambda>t. t \<noteq> []) (map strip (split_at (CHR '','') tests))"

text \<open>What the world answers during one test: the readings of the counters before and after it,
  the iperf3 client, and the board's shell afterwards.\<close>

record trial =
  t_before :: "snapshot res"
  t_client :: "string list \<Rightarrow> nat \<Rightarrow> string + ends"
  t_after :: "snapshot res"
  t_shell :: "string \<Rightarrow> string res"

definition result_lines :: "string \<times> (string \<times> string) list \<Rightarrow> string list" where
  "result_lines r = [''## '' @ fst r, []] @ map (\<lambda>(k, v). ''- '' @ k @ '': '' @ v) (snd r)"

text \<open>One test: its verdict, if there is a board to read the counters of, and its block of the
  report.\<close>

definition bench_one :: "bench_args \<Rightarrow> bool \<Rightarrow> trial \<Rightarrow> string \<Rightarrow> (verdict3 list \<times> string list) res" where
  "bench_one args board t name =
    (if board then
       res_bind (t_before t) (\<lambda>before.
       res_bind (run_test args (t_client t) name) (\<lambda>r.
       res_bind (t_after t) (\<lambda>after.
       res_bind (accounting before after (t_shell t)) (\<lambda>(v, notes).
       Inr ([v], result_lines r @ map (\<lambda>n. ''- '' @ n) notes @ [[]])))))
     else
       res_bind (run_test args (t_client t) name) (\<lambda>r. Inr ([], result_lines r @ [[]])))"

fun bench_tests ::
  "bench_args \<Rightarrow> bool \<Rightarrow> (nat \<Rightarrow> trial) \<Rightarrow> (nat \<times> string) list \<Rightarrow> (verdict3 list \<times> string list) res" where
  "bench_tests args board trial [] = Inr ([], [])"
| "bench_tests args board trial ((i, name) # names) =
    res_bind (bench_one args board (trial i) name) (\<lambda>(v, block).
    res_bind (bench_tests args board trial names) (\<lambda>(vs, blocks). Inr (v @ vs, block @ blocks)))"

definition closing_line :: "verdict3 list \<Rightarrow> string" where
  "closing_line verdicts =
    (if list_all (\<lambda>v. v = Agree) verdicts then ''MAC and interface counts agree in every test.''
     else ''Tests: '' @ show_nat (count_list verdicts Agree) @ '' agree, ''
       @ show_nat (count_list verdicts Differ) @ '' differ, '' @ show_nat (count_list verdicts Invalid)
       @ '' invalid. A fold of the MAC counters into the driver's 64-bit totals loses what a counter ''
       @ ''takes during its read and clear (sw/linux/README.md, ''
       @ ''Statistics); a larger or persistent difference has another cause.'')"

text \<open>The head of the report: \<open>info\<close> is what the board's shell says about itself, \<open>host\<close> what
  \<open>iperf3 --version\<close> prints.\<close>

definition report_head :: "bench_args \<Rightarrow> string \<Rightarrow> string option \<Rightarrow> bool \<Rightarrow> string \<Rightarrow> string list" where
  "report_head args date info serial host =
    [''# emaczero Linux driver benchmark, '' @ date, []]
    @ (if b_conditions args = [] then [] else [b_conditions args, []])
    @ (case info of None \<Rightarrow> []
       | Some out \<Rightarrow>
           [''Board: '' @ join '', '' (splitlines (strip out)) @ ''; counters read over ''
             @ (if serial then ''the serial console''
                else ''ssh ('' @ (case b_ssh args of Some t \<Rightarrow> t | None \<Rightarrow> ''None'')
                  @ ''; approximate if over the interface under test)''), []])
    @ [''Host: '' @ (case splitlines host of l # _ \<Rightarrow> l | [] \<Rightarrow> ''iperf3'') @ ''; ''
         @ show_nat (b_time args) @ '' s per test unless stated'', []]"

text \<open>\<open>main\<close>: the report and the exit code.\<close>

definition bench_main ::
  "bench_args \<Rightarrow> bool \<Rightarrow> (nat \<Rightarrow> trial) \<Rightarrow> string list \<Rightarrow> string \<Rightarrow> (string \<times> nat) res" where
  "bench_main args board trial head tests =
    res_bind (bench_tests args board trial (enumerate 0 (test_names tests))) (\<lambda>(verdicts, blocks).
    Inr (join [CHR 0x0A] (head @ blocks @ (if board then [closing_line verdicts] else [])) @ [CHR 0x0A],
         if list_all (\<lambda>v. v = Agree) verdicts then 0 else 1))"

section \<open>Lemmas\<close>

lemma accounting_verdict:
  "(\<exists>notes. accounting before after run = Inr (Agree, notes)) \<longleftrightarrow>
    list_all (\<lambda>k. before k \<noteq> None \<and> after k \<noteq> None \<and> 0 \<le> delta before after k) REQUIRED
    \<and> returns (kernel_note run (delta before after ''dmesg_lines''))
    \<and> delta before after ''hw_tx_frames'' = delta before after ''if_tx_packets''
    \<and> delta before after ''hw_rx_frames'' - delta before after ''hw_rx_errors''
        = delta before after ''if_rx_packets''"
proof -
  let ?d = "delta before after"
  let ?missing = "filter (\<lambda>k. before k = None \<or> after k = None) REQUIRED"
  let ?neg = "filter (\<lambda>k. ?d k < 0) REQUIRED"
  have m: "?missing = [] \<longleftrightarrow> list_all (\<lambda>k. before k \<noteq> None \<and> after k \<noteq> None) REQUIRED"
    by (simp add: filter_empty_conv list_all_iff)
  have b: "?neg = [] \<longleftrightarrow> list_all (\<lambda>k. 0 \<le> ?d k) REQUIRED"
    by (simp add: filter_empty_conv list_all_iff not_less)
  have "(\<exists>notes. accounting before after run = Inr (Agree, notes)) \<longleftrightarrow>
      ?missing = [] \<and> ?neg = [] \<and> returns (kernel_note run (?d ''dmesg_lines''))
      \<and> ?d ''hw_tx_frames'' = ?d ''if_tx_packets''
      \<and> ?d ''hw_rx_frames'' - ?d ''hw_rx_errors'' = ?d ''if_rx_packets''"
    unfolding accounting_def Let_def
    by (cases "?missing = []"; cases "?neg = []"; cases "kernel_note run (?d ''dmesg_lines'')")
      simp_all
  then show ?thesis unfolding m b by (auto simp: list_all_iff)
qed

lemma split_at_append_sep:
  "sep \<notin> set w \<Longrightarrow> split_at sep (w @ sep # s) = w # split_at sep s"
  by (induction w) auto

lemma split_at_join:
  "ws \<noteq> [] \<Longrightarrow> \<forall>w \<in> set ws. sep \<notin> set w \<Longrightarrow> split_at sep (join [sep] ws) = ws"
  by (induction "[sep]" ws rule: join.induct) (simp_all add: split_at_plain split_at_append_sep)

lemma dropWhile_find:
  "\<forall>l \<in> set noise. l \<noteq> m \<Longrightarrow> dropWhile (\<lambda>l. l \<noteq> m) (noise @ m # rest) = m # rest"
  by (induction noise) simp_all

lemma takeWhile_body:
  "\<forall>l \<in> set body. \<not> P l \<Longrightarrow> P e \<Longrightarrow> takeWhile (\<lambda>l. \<not> P l) (body @ e # rest) = body"
  by (induction body) simp_all

lemma echo_not_marker: "prompt @ butlast (serial_command cmd) \<noteq> BEGIN_MARK"
proof -
  have "CHR 0x22 \<in> set (prompt @ butlast (serial_command cmd))"
    by (simp add: serial_command_def split_marker_def butlast_append)
  moreover have "CHR 0x22 \<notin> set BEGIN_MARK" by (simp add: BEGIN_MARK_def)
  ultimately show ?thesis by metis
qed

lemma session_lines:
  assumes "nl = CHR 0x0A" and "nl \<notin> set prompt" and "nl \<notin> set cmd"
    and "list_all (\<lambda>l. nl \<notin> set l) body" and "list_all py_digit status"
    and "list_all (\<lambda>l. nl \<notin> set l) after"
  shows "split_at nl (join [nl] ([prompt @ butlast (serial_command cmd), BEGIN_MARK] @ body
      @ [END_MARK @ '' '' @ status] @ after))
    = (prompt @ butlast (serial_command cmd)) # BEGIN_MARK # body @ (END_MARK @ '' '' @ status) # after"
proof -
  let ?echo = "prompt @ butlast (serial_command cmd)"
  let ?last = "END_MARK @ '' '' @ status"
  have "nl \<notin> set status"
  proof
    assume "nl \<in> set status"
    then have "py_digit nl" using assms(5) by (simp add: list_all_iff)
    then show False unfolding assms(1) by (simp add: py_digit_def)
  qed
  moreover have "nl \<notin> set END_MARK" "nl \<notin> set BEGIN_MARK"
    unfolding assms(1) by code_simp+
  moreover have "nl \<notin> set (butlast (serial_command cmd))"
    using assms(3) unfolding assms(1)
    by (simp add: serial_command_def split_marker_def BEGIN_MARK_def END_MARK_def butlast_append)
  moreover have "nl \<noteq> CHR 0x20" unfolding assms(1) by simp
  ultimately have "nl \<notin> set ?echo" "nl \<notin> set ?last" "nl \<notin> set BEGIN_MARK"
    using assms(2) by (simp_all only: set_append Un_iff list.set insert_iff empty_iff simp_thms)
  moreover have "\<forall>w \<in> set body. nl \<notin> set w" "\<forall>w \<in> set after. nl \<notin> set w"
    using assms(4, 6) by (simp_all add: list_all_iff)
  ultimately have plain: "\<forall>w \<in> set ([?echo, BEGIN_MARK] @ body @ [?last] @ after). nl \<notin> set w"
    by (simp only: set_append list.set ball_Un ball_simps simp_thms)
  show ?thesis using split_at_join [OF _ plain] by (simp only: append.simps list.distinct simp_thms)
qed

lemma end_line_status: "status \<noteq> [] \<Longrightarrow> list_all py_digit status \<Longrightarrow> end_line (END_MARK @ '' '' @ status)"
  by (simp add: end_line_def m_lit_def)

text \<open>A run that saw at least the start of an end line after the output returns the output.\<close>

lemma serial_output_lines:
  assumes "split_at (CHR 0x0A) out = echo # BEGIN_MARK # body @ e # after" and "echo \<noteq> BEGIN_MARK"
    and "\<forall>l \<in> set body. \<not> end_line l" and "end_line e"
  shows "serial_output cmd out = Inr (join [CHR 0x0A] body)"
proof -
  have "dropWhile (\<lambda>l. l \<noteq> BEGIN_MARK) (split_at (CHR 0x0A) out) = BEGIN_MARK # body @ e # after"
    using assms(1, 2) by simp
  moreover have "takeWhile (\<lambda>l. \<not> end_line l) (body @ e # after) = body"
    by (rule takeWhile_body) (use assms(3, 4) in simp_all)
  moreover have "list_ex end_line (body @ e # after)" using assms(4) by simp
  ultimately show ?thesis unfolding serial_output_def Let_def
    by (simp only: list.case if_True)
qed

lemma ex_Suc_iff: "(\<exists>k. P k) \<longleftrightarrow> P 0 \<or> (\<exists>k. P (Suc k))" for P :: "nat \<Rightarrow> bool"
  by (metis not0_implies_Suc)

lemma list_all_upt_Suc: "list_all P [0..<Suc k] \<longleftrightarrow> P 0 \<and> list_all (\<lambda>j. P (Suc j)) [0..<k]"
  by (induction k) auto

definition busy :: "string + 'a \<Rightarrow> bool" where
  "busy r = (case r of Inl e \<Rightarrow> contains ''busy'' e | Inr _ \<Rightarrow> False)"

lemma iperf3_from_data:
  "iperf3_from cmd client attempt = Inr d \<longleftrightarrow>
    (\<exists>k. (k = 0 \<or> attempt + k \<le> 2) \<and> client (attempt + k) = Inr d
      \<and> list_all (\<lambda>j. busy (client (attempt + j))) [0..<k])"
proof (induction cmd client attempt rule: iperf3_from.induct)
  case (1 cmd client attempt)
  let ?found = "\<lambda>a k. client (a + k) = Inr d \<and> list_all (\<lambda>j. busy (client (a + j))) [0..<k]"
  have split: "(\<exists>k. (k = 0 \<or> attempt + k \<le> 2) \<and> ?found attempt k) \<longleftrightarrow>
      client attempt = Inr d \<or> busy (client attempt) \<and> (\<exists>k. attempt + 1 + k \<le> 2 \<and> ?found (attempt + 1) k)"
    by (subst ex_Suc_iff, unfold list_all_upt_Suc) auto
  show ?case
  proof (cases "client attempt")
    case (Inl e)
    show ?thesis
    proof (cases "contains ''busy'' e \<and> attempt < 2")
      case True
      then have "(\<exists>k. (k = 0 \<or> attempt + 1 + k \<le> 2) \<and> ?found (attempt + 1) k)
          \<longleftrightarrow> (\<exists>k. attempt + 1 + k \<le> 2 \<and> ?found (attempt + 1) k)"
        by (intro arg_cong [of _ _ Ex] ext) auto
      then show ?thesis
        using 1 [OF Inl] Inl True unfolding split by (subst iperf3_from.simps) (simp add: busy_def)
    next
      case False
      then show ?thesis using Inl unfolding split by (subst iperf3_from.simps) (auto simp: busy_def)
    qed
  next
    case (Inr x)
    then show ?thesis unfolding split by (subst iperf3_from.simps) (simp add: busy_def)
  qed
qed

lemma bench_tests_agree:
  "(\<exists>blocks vs. bench_tests args True trial names = Inr (vs, blocks) \<and> list_all (\<lambda>v. v = Agree) vs) \<longleftrightarrow>
    list_all (\<lambda>(i, name). \<exists>block. bench_one args True (trial i) name = Inr ([Agree], block)) names"
proof (induction names)
  case (Cons x names)
  obtain i name where x: "x = (i, name)" by (cases x)
  have one: "\<exists>v. vs = [v]" if "bench_one args True (trial i) name = Inr (vs, block)" for vs block
    using that by (auto simp: bench_one_def res_bind_Inr_iff split: prod.splits)
  show ?case
    unfolding list.pred_inject Cons.IH [symmetric] x
    using one by (fastforce simp: res_bind_Inr_iff split: prod.splits)
qed simp

lemma bench_one_agree:
  "(\<exists>block. bench_one args True t name = Inr ([Agree], block)) \<longleftrightarrow>
    (\<exists>before after notes. t_before t = Inr before \<and> t_after t = Inr after
      \<and> returns (run_test args (t_client t) name)
      \<and> accounting before after (t_shell t) = Inr (Agree, notes))"
  unfolding returns_iff bench_one_def
  by (auto simp: res_bind_Inr_iff split: prod.splits)

section \<open>Theorems\<close>

text \<open>The accounting agrees exactly when every needed counter is in both snapshots and did not go
  backwards, and the counts match: frames the MAC sent against packets the interface sent, and
  frames the MAC received less the bad ones against packets the interface received (and the
  kernel messages, if there are new ones, could be read).\<close>

theorem accounting_agrees_iff:
  "(\<exists>notes. accounting before after run = Inr (Agree, notes)) \<longleftrightarrow>
    list_all (\<lambda>k. before k \<noteq> None \<and> after k \<noteq> None \<and> 0 \<le> delta before after k) REQUIRED
    \<and> returns (kernel_note run (delta before after ''dmesg_lines''))
    \<and> delta before after ''hw_tx_frames'' = delta before after ''if_tx_packets''
    \<and> delta before after ''hw_rx_frames'' - delta before after ''hw_rx_errors''
        = delta before after ''if_rx_packets''"
  by (rule accounting_verdict)

text \<open>The serial session recovers exactly what the command printed. The terminal first echoes the
  command behind a prompt, which is never taken for the marker, because the markers are sent split
  by an empty pair of quotes; then come the marker, the output, and the end marker with the exit
  status.\<close>

theorem serial_output_roundtrip:
  assumes "nl = CHR 0x0A" and "nl \<notin> set prompt" and "nl \<notin> set cmd"
    and "list_all (\<lambda>l. nl \<notin> set l \<and> \<not> end_line l) body"
    and "status \<noteq> []" and "list_all py_digit status" and "list_all (\<lambda>l. nl \<notin> set l) after"
  shows "serial_output cmd (join [nl] ([prompt @ butlast (serial_command cmd), BEGIN_MARK] @ body
      @ [END_MARK @ '' '' @ status] @ after)) = Inr (join [nl] body)"
proof -
  let ?echo = "prompt @ butlast (serial_command cmd)"
  have lines: "split_at nl (join [nl] ([?echo, BEGIN_MARK] @ body @ [END_MARK @ '' '' @ status] @ after))
      = ?echo # BEGIN_MARK # body @ (END_MARK @ '' '' @ status) # after"
    by (rule session_lines) (use assms in \<open>simp_all add: list_all_iff\<close>)
  show ?thesis
    unfolding assms(1)
    by (rule serial_output_lines [OF lines [unfolded assms(1)] echo_not_marker _ end_line_status])
      (use assms(4-6) in \<open>simp_all add: list_all_iff\<close>)
qed

theorem serial_output_roundtrip_witness:
  "serial_output ''uname -r'' (join [CHR 0x0A] ([''# '' @ butlast (serial_command ''uname -r''), BEGIN_MARK]
     @ [''6.1.0'', [], ''x''] @ [END_MARK @ '' '' @ ''0''] @ [''# ''])) = Inr (join [CHR 0x0A] [''6.1.0'', [], ''x''])"
  by (rule serial_output_roundtrip)
    (simp_all add: end_line_def m_lit_def END_MARK_def py_digit_def)

text \<open>C31: \<open>iperf3\<close> returns a result exactly when one of three attempts gives it and every attempt
  before that one failed because the server was busy.\<close>

theorem iperf3_returns_iff:
  "iperf3 args cmd client = Inr d \<longleftrightarrow>
    (\<exists>k. k \<le> 2 \<and> client (iperf3_argv args cmd) k = Inr d
      \<and> list_all (\<lambda>j. \<exists>e. client (iperf3_argv args cmd) j = Inl e \<and> contains ''busy'' e) [0..<k])"
proof -
  have b: "busy r \<longleftrightarrow> (\<exists>e. r = Inl e \<and> contains ''busy'' e)" for r :: "string + 'a"
    by (cases r) (simp_all add: busy_def)
  show ?thesis
    unfolding iperf3_def iperf3_from_data b by (auto intro: exI [of _ 0])
qed

text \<open>C30: With a board the benchmark exits with 0 exactly when every test is a known one whose client
  succeeds, whose counters can be read before and after it, and whose accounting agrees.\<close>

theorem bench_exit_zero_iff:
  "(\<exists>report. bench_main args True trial head tests = Inr (report, 0)) \<longleftrightarrow>
    list_all (\<lambda>(i, name). \<exists>before after notes.
        t_before (trial i) = Inr before \<and> t_after (trial i) = Inr after
        \<and> returns (run_test args (t_client (trial i)) name)
        \<and> accounting before after (t_shell (trial i)) = Inr (Agree, notes))
      (enumerate 0 (test_names tests))"
proof -
  have "(\<exists>report. bench_main args True trial head tests = Inr (report, 0)) \<longleftrightarrow>
      (\<exists>blocks vs. bench_tests args True trial (enumerate 0 (test_names tests)) = Inr (vs, blocks)
        \<and> list_all (\<lambda>v. v = Agree) vs)"
    by (fastforce simp: bench_main_def res_bind_Inr_iff split: prod.splits if_splits)
  then show ?thesis unfolding bench_tests_agree bench_one_agree .
qed

end
