(* ===== verification/Emz_Console.thy ===== *)
theory Emz_Console
  imports Emz_Linux
begin

text \<open>
  The serial console of \<open>sw/linux/scripts/linux_bench.py\<close>: \<open>SerialBoard\<close> with its read loop, the
  login and the commands, and the files that \<open>main\<close> writes. The world holds what each read of
  the port returns and the readings of the clock, in order; the log has what was written to the port.
  \<open>bytes.decode\<close> is a parameter that copies ASCII.
\<close>

section \<open>The port\<close>

record console =
  k_reads :: "string res list"
  k_times :: "rat list"
  k_sent :: string

definition k_time :: "(console, rat) io" where
  "k_time = (\<lambda>s. case k_times s of [] \<Rightarrow> Starved | t # ts \<Rightarrow> Done t (s\<lparr>k_times := ts\<rparr>))"

definition k_read :: "(console, string) io" where
  "k_read = io_answer k_reads (\<lambda>xs s. s\<lparr>k_reads := xs\<rparr>)"

definition k_write :: "string \<Rightarrow> (console, unit) io" where
  "k_write data = io_modify (\<lambda>s. s\<lparr>k_sent := k_sent s @ data\<rparr>)"

text \<open>\<open>buf.decode(errors="replace").replace("\r", "")\<close>\<close>

definition clean_text :: "(string \<Rightarrow> string) \<Rightarrow> string \<Rightarrow> string" where
  "clean_text dec buf = filter (\<lambda>c. c \<noteq> CHR 0x0D) (dec buf)"

section \<open>The read loop\<close>

text \<open>A round takes one read of the port, so the reads left bound the rounds.\<close>

fun read_loop :: "'a list \<Rightarrow> (string \<Rightarrow> string) \<Rightarrow> (string \<Rightarrow> bool) option \<Rightarrow> rat \<Rightarrow> rat \<Rightarrow> rat \<Rightarrow> rat
    \<Rightarrow> string \<Rightarrow> (console, string) io" where
  "read_loop [] dec until idle cap start seen buf = io_bind k_time (\<lambda>t.
     if t - start < cap then (\<lambda>s. Starved) else io_ret (clean_text dec buf))"
| "read_loop (_ # left) dec until idle cap start seen buf = io_bind k_time (\<lambda>t.
     if t - start < cap then
       io_bind k_read (\<lambda>data.
       if data \<noteq> [] then
         io_bind k_time (\<lambda>now.
         if (case until of Some found \<Rightarrow> found (clean_text dec (buf @ data)) | None \<Rightarrow> False)
         then io_ret (clean_text dec (buf @ data))
         else read_loop left dec until idle cap start now (buf @ data))
       else (case until of
           Some found \<Rightarrow> read_loop left dec until idle cap start seen buf
         | None \<Rightarrow> io_bind k_time (\<lambda>now.
             if idle < now - seen then io_ret (clean_text dec buf)
             else read_loop left dec until idle cap start seen buf)))
     else io_ret (clean_text dec buf))"

definition serial_read :: "(string \<Rightarrow> string) \<Rightarrow> (string \<Rightarrow> bool) option \<Rightarrow> rat \<Rightarrow> (console, string) io" where
  "serial_read dec until idle =
    io_bind k_time (\<lambda>start. io_bind k_time (\<lambda>seen.
    io_bind (io_get k_reads) (\<lambda>left. read_loop left dec until idle 120 start seen [])))"

section \<open>The session\<close>

text \<open>\<open>SerialBoard.__init__\<close>: log in as root if the console asks.\<close>

definition serial_login :: "(string \<Rightarrow> string) \<Rightarrow> (console, unit) io" where
  "serial_login dec =
    io_seq (k_write [CHR 0x0A])
    (io_bind (serial_read dec None (3 / 2)) (\<lambda>out.
     io_seq (if contains ''login:'' out
             then io_seq (k_write (''root'' @ [CHR 0x0A]))
                  (io_seq (serial_read dec None 2) (io_ret ()))
             else io_ret ())
     (io_seq (serial_read dec None (1 / 2)) (io_ret ()))))"

text \<open>\<open>end.search\<close>, with \<open>re.M\<close>: some line is an end line.\<close>

definition end_found :: "string \<Rightarrow> bool" where
  "end_found out = list_ex end_line (split_at (CHR 0x0A) out)"

definition serial_run :: "(string \<Rightarrow> string) \<Rightarrow> string \<Rightarrow> (console, string) io" where
  "serial_run dec cmd =
    io_seq (k_write (serial_command cmd))
    (io_bind (serial_read dec (Some end_found) 1) (\<lambda>out.
     case serial_output cmd out of Inl e \<Rightarrow> io_raise e | Inr x \<Rightarrow> io_ret x))"

section \<open>The files\<close>

text \<open>The raw snapshots of a test; \<open>dumps\<close> is \<open>json.dumps\<close> with an indent of 1.\<close>

type_synonym raw_test = "string \<times> snapshot \<times> snapshot \<times> verdict3"

definition raw_one :: "bool \<Rightarrow> trial \<Rightarrow> string \<Rightarrow> raw_test list res" where
  "raw_one board t name =
    (if board then
       res_bind (t_before t) (\<lambda>before.
       res_bind (t_after t) (\<lambda>after.
       res_bind (accounting before after (t_shell t)) (\<lambda>(v, notes).
       Inr [(name, before, after, v)])))
     else Inr [])"

fun raw_tests :: "bool \<Rightarrow> (nat \<Rightarrow> trial) \<Rightarrow> (nat \<times> string) list \<Rightarrow> raw_test list res" where
  "raw_tests board trial [] = Inr []"
| "raw_tests board trial ((i, name) # names) =
    res_bind (raw_one board (trial i) name) (\<lambda>r.
    res_bind (raw_tests board trial names) (\<lambda>rs. Inr (r @ rs)))"

text \<open>A path that is empty or not given is skipped; the directory of a path is made first.\<close>

fun write_reports :: "(string option \<times> string) list \<Rightarrow> (string \<rightharpoonup> string) \<Rightarrow> (string \<rightharpoonup> string)" where
  "write_reports [] fs = fs"
| "write_reports ((path, content) # ps) fs =
    write_reports ps (case path of None \<Rightarrow> fs | Some p \<Rightarrow> if p = [] then fs else fs(p \<mapsto> content))"

definition bench_report ::
  "(raw_test list \<Rightarrow> string) \<Rightarrow> bench_args \<Rightarrow> bool \<Rightarrow> (nat \<Rightarrow> trial) \<Rightarrow> string list \<Rightarrow> string
    \<Rightarrow> string option \<Rightarrow> string option \<Rightarrow> (string \<rightharpoonup> string) \<Rightarrow> (string \<times> nat \<times> (string \<rightharpoonup> string)) res" where
  "bench_report dumps args board trial head tests out raw fs =
    res_bind (bench_main args board trial head tests) (\<lambda>(report, code).
    res_bind (raw_tests board trial (enumerate 0 (test_names tests))) (\<lambda>rs.
    Inr (report, code, write_reports [(out, report), (raw, dumps rs @ [CHR 0x0A])] fs)))"

section \<open>Lemmas\<close>

lemma k_time_Cons [simp]: "k_times s = t # ts \<Longrightarrow> k_time s = Done t (s\<lparr>k_times := ts\<rparr>)"
  by (simp add: k_time_def)

lemma k_read_Cons [simp]: "k_reads s = Inr d # ds \<Longrightarrow> k_read s = Done d (s\<lparr>k_reads := ds\<rparr>)"
  by (simp add: k_read_def io_answer_def)

text \<open>The loop with a pattern: it stops at the first text in which the pattern is found, if the
  reads hold one and the clock stays within the cap.\<close>

lemma read_until:
  assumes "k_reads s = map Inr chunks @ others"
    and "list_all (\<lambda>t. t - start < cap) (k_times s)" and "2 * length chunks \<le> length (k_times s)"
    and "\<not> p (clean_text dec buf)" and "p (clean_text dec (buf @ concat chunks))"
  shows "\<exists>j s'. read_loop (k_reads s) dec (Some p) idle cap start seen buf s
      = Done (clean_text dec (buf @ concat (take j chunks))) s'
    \<and> p (clean_text dec (buf @ concat (take j chunks))) \<and> k_sent s' = k_sent s"
  using assms
proof (induction chunks arbitrary: s buf seen)
  case (Cons c chunks)
  obtain t now ts where t: "k_times s = t # now # ts"
    using Cons.prems(3) by (cases "k_times s"; cases "tl (k_times s)") auto
  have cap: "t - start < cap" using Cons.prems(2) t by simp
  let ?left = "map Inr chunks @ others"
  let ?s1 = "s\<lparr>k_times := now # ts, k_reads := ?left\<rparr>"
  have left: "k_reads s = Inr c # ?left" using Cons.prems(1) by simp
  show ?case
  proof (cases "c = []")
    case True
    have step: "read_loop (k_reads s) dec (Some p) idle cap start seen buf s
        = read_loop (k_reads ?s1) dec (Some p) idle cap start seen buf ?s1"
      unfolding left using t cap True left by (simp add: io_bind_def k_time_def k_read_def io_answer_def)
    have "\<exists>j s'. read_loop (k_reads ?s1) dec (Some p) idle cap start seen buf ?s1
        = Done (clean_text dec (buf @ concat (take j chunks))) s'
      \<and> p (clean_text dec (buf @ concat (take j chunks))) \<and> k_sent s' = k_sent ?s1"
      by (rule Cons.IH) (use Cons.prems t True in simp_all)
    then obtain j s' where "read_loop (k_reads ?s1) dec (Some p) idle cap start seen buf ?s1
        = Done (clean_text dec (buf @ concat (take j chunks))) s'"
      "p (clean_text dec (buf @ concat (take j chunks)))" "k_sent s' = k_sent ?s1" by blast
    then show ?thesis using True step by (intro exI [of _ "Suc j"] exI [of _ s']) simp
  next
    case False
    let ?s2 = "s\<lparr>k_reads := ?left, k_times := ts\<rparr>"
    show ?thesis
    proof (cases "p (clean_text dec (buf @ c))")
      case True
      have "read_loop (k_reads s) dec (Some p) idle cap start seen buf s = Done (clean_text dec (buf @ c)) ?s2"
        unfolding left using t cap True False left
        by (simp add: io_bind_def k_time_def k_read_def io_answer_def)
      then show ?thesis using True by (intro exI [of _ 1] exI [of _ ?s2]) simp
    next
      case no: False
      have step: "read_loop (k_reads s) dec (Some p) idle cap start seen buf s
          = read_loop (k_reads ?s2) dec (Some p) idle cap start now (buf @ c) ?s2"
        unfolding left using t cap no False left
        by (simp add: io_bind_def k_time_def k_read_def io_answer_def)
      have "\<exists>j s'. read_loop (k_reads ?s2) dec (Some p) idle cap start now (buf @ c) ?s2
          = Done (clean_text dec ((buf @ c) @ concat (take j chunks))) s'
        \<and> p (clean_text dec ((buf @ c) @ concat (take j chunks))) \<and> k_sent s' = k_sent ?s2"
        by (rule Cons.IH) (use Cons.prems t no in simp_all)
      then obtain j s' where "read_loop (k_reads ?s2) dec (Some p) idle cap start now (buf @ c) ?s2
          = Done (clean_text dec ((buf @ c) @ concat (take j chunks))) s'"
        "p (clean_text dec ((buf @ c) @ concat (take j chunks)))" "k_sent s' = k_sent ?s2" by blast
      then show ?thesis using step by (intro exI [of _ "Suc j"] exI [of _ s']) simp
    qed
  qed
qed simp

text \<open>The lines of a prefix of a text: some lines of the text, then the start of the next.\<close>

lemma split_at_prefix:
  "prefix a b \<Longrightarrow> \<exists>k l. split_at sep a = take k (split_at sep b) @ [l] \<and> k < length (split_at sep b)
    \<and> prefix l (split_at sep b ! k)"
proof (induction b arbitrary: a)
  case (Cons x b)
  obtain w ws where w: "split_at sep b = w # ws"
    using split_at_nonempty [of sep b] by (cases "split_at sep b") auto
  show ?case
  proof (cases a)
    case Nil
    then show ?thesis using split_at_nonempty [of sep "x # b"]
      by (intro exI [of _ 0] exI [of _ "[]"]) (cases "split_at sep (x # b)", auto)
  next
    case c: (Cons y a')
    then have "y = x" "prefix a' b" using Cons.prems by simp_all
    from Cons.IH [OF this(2)] obtain k l where
      k: "split_at sep a' = take k (split_at sep b) @ [l]" "k < length (split_at sep b)"
        "prefix l (split_at sep b ! k)" by blast
    show ?thesis
    proof (cases "x = sep")
      case True
      then show ?thesis using k c \<open>y = x\<close> by (intro exI [of _ "Suc k"] exI [of _ l]) simp
    next
      case False
      show ?thesis
      proof (cases k)
        case 0
        then show ?thesis using k c \<open>y = x\<close> False w
          by (intro exI [of _ 0] exI [of _ "x # l"]) simp
      next
        case (Suc m)
        then show ?thesis using k c \<open>y = x\<close> False w
          by (intro exI [of _ k] exI [of _ l]) simp
      qed
    qed
  qed
qed simp

lemma end_line_starts: "end_line l \<Longrightarrow> prefix (END_MARK @ '' '') l"
  by (auto simp: end_line_def m_lit_def split: option.splits if_splits)

lemma prefix_before: "prefix p (a @ c # b) \<Longrightarrow> c \<notin> set p \<Longrightarrow> prefix p a"
proof (induction p arbitrary: a)
  case (Cons x p)
  show ?case using Cons.IH [of "tl a"] Cons.prems by (cases a) simp_all
qed simp

lemma echo_starts:
  assumes "prefix (END_MARK @ '' '') (prompt @ butlast (serial_command cmd))"
  shows "prefix (END_MARK @ '' '') prompt"
proof -
  obtain r where r: "serial_command cmd = CHR ''e'' # r" "r \<noteq> []"
    by (rule that [of "tl (serial_command cmd)"]) (simp_all add: serial_command_def)
  have "CHR ''e'' \<notin> set (END_MARK @ '' '')" by (simp add: END_MARK_def)
  moreover have "butlast (serial_command cmd) = CHR ''e'' # butlast r" using r by simp
  ultimately show ?thesis using prefix_before assms by metis
qed

text \<open>Cutting the text of a session short does not matter once an end line can be seen in it.\<close>

lemma serial_output_prefix:
  assumes lines: "split_at (CHR 0x0A) text' = echo # BEGIN_MARK # body @ e # after"
    and "echo \<noteq> BEGIN_MARK" and "end_line e" and "\<not> prefix (END_MARK @ '' '') echo"
    and "\<forall>l \<in> set body. \<not> prefix (END_MARK @ '' '') l"
    and "prefix out text'" and "end_found out"
  shows "serial_output cmd out = Inr (join [CHR 0x0A] body)"
proof -
  let ?ls = "echo # BEGIN_MARK # body"
  obtain k l where k: "split_at (CHR 0x0A) out = take k (?ls @ e # after) @ [l]"
      "k < length (?ls @ e # after)" "prefix l ((?ls @ e # after) ! k)"
    using split_at_prefix [OF assms(6), of "CHR 0x0A"] unfolding lines by auto
  have no: "\<not> end_line m" if "prefix m w" "w \<in> set ?ls" for m w
    using that assms(4, 5) end_line_starts [of m] prefix_order.trans [of "END_MARK @ '' ''" m w]
    by (auto simp: BEGIN_MARK_def END_MARK_def)
  have body: "\<forall>m \<in> set body. \<not> end_line m" using no [OF prefix_order.refl] by simp
  have "length ?ls \<le> k"
  proof (rule ccontr)
    assume a: "\<not> length ?ls \<le> k"
    then have "set (take k (?ls @ e # after)) \<subseteq> set ?ls" "prefix l (?ls ! k)" "?ls ! k \<in> set ?ls"
      using k(3) by (simp_all only: take_append set_take_subset nth_append not_le if_True
          diff_is_0_eq' take0 append_Nil2 nth_mem less_imp_le)
    then have "\<not> end_found out"
      unfolding end_found_def k(1) using no by (auto simp: list_ex_iff)
    then show False using assms(7) by simp
  qed
  then obtain j where j: "k = length ?ls + j" by (metis le_add_diff_inverse)
  show ?thesis
  proof (cases j)
    case 0
    then have out: "split_at (CHR 0x0A) out = echo # BEGIN_MARK # body @ l # []" using k(1) j by simp
    have "\<forall>m \<in> set ?ls. \<not> end_line m" using no [OF prefix_order.refl] by blast
    then have "end_line l" using assms(7) out unfolding end_found_def by (auto simp: list_ex_iff)
    then show ?thesis using serial_output_lines [OF out assms(2) body] by simp
  next
    case (Suc i)
    then have "split_at (CHR 0x0A) out = echo # BEGIN_MARK # body @ e # take i after @ [l]"
      using k(1) j by simp
    then show ?thesis using serial_output_lines [OF _ assms(2) body assms(3)] by blast
  qed
qed

definition ascii_text :: "string \<Rightarrow> bool" where
  "ascii_text s = list_all (\<lambda>c. (of_char c :: nat) < 128) s"

definition decodes_ascii :: "(string \<Rightarrow> string) \<Rightarrow> bool" where
  "decodes_ascii dec \<longleftrightarrow> (\<forall>s. ascii_text s \<longrightarrow> dec s = s)"

lemma clean_ascii: "decodes_ascii dec \<Longrightarrow> ascii_text s \<Longrightarrow> clean_text dec s = filter (\<lambda>c. c \<noteq> CHR 0x0D) s"
  by (simp add: clean_text_def decodes_ascii_def)

lemma ascii_take: "ascii_text (concat chunks) \<Longrightarrow> ascii_text (concat (take j chunks))"
  by (auto simp: ascii_text_def list_all_iff dest: in_set_takeD)

lemma concat_take_prefix: "prefix (concat (take j chunks)) (concat chunks)"
proof -
  have "concat chunks = concat (take j chunks) @ concat (drop j chunks)"
    by (simp flip: concat_append)
  then show ?thesis by (rule prefixI)
qed

lemma filter_prefix: "prefix a b \<Longrightarrow> prefix (filter P a) (filter P b)"
  by (auto simp: prefix_def)

section \<open>Theorems\<close>

text \<open>C28: However the port cuts the bytes of a session into reads, with any number of reads that time out
  between them, a command returns exactly the lines it printed, if the console echoes the command
  after a prompt, the bytes are ASCII, and they arrive within the cap of 120 seconds. Neither the
  prompt nor a line of the output may start with the end marker.\<close>

theorem serial_run_roundtrip:
  assumes "decodes_ascii dec"
    and "k_reads s = map Inr chunks @ others" and "ascii_text (concat chunks)"
    and "filter (\<lambda>c. c \<noteq> CHR 0x0D) (concat chunks)
      = join [CHR 0x0A] ([prompt @ butlast (serial_command cmd), BEGIN_MARK] @ body
          @ [END_MARK @ '' '' @ status] @ after)"
    and "CHR 0x0A \<notin> set prompt" and "CHR 0x0A \<notin> set cmd" and "\<not> prefix (END_MARK @ '' '') prompt"
    and "list_all (\<lambda>l. CHR 0x0A \<notin> set l \<and> \<not> prefix (END_MARK @ '' '') l) body"
    and "status \<noteq> []" and "list_all py_digit status" and "list_all (\<lambda>l. CHR 0x0A \<notin> set l) after"
    and "k_times s = start # seen # ts" and "list_all (\<lambda>t. t - start < 120) ts"
    and "2 * length chunks \<le> length ts"
  shows "\<exists>s'. serial_run dec cmd s = Done (join [CHR 0x0A] body) s'
    \<and> k_sent s' = k_sent s @ serial_command cmd"
proof -
  let ?text = "join [CHR 0x0A] ([prompt @ butlast (serial_command cmd), BEGIN_MARK] @ body
      @ [END_MARK @ '' '' @ status] @ after)"
  let ?e = "END_MARK @ '' '' @ status"
  have lines: "split_at (CHR 0x0A) ?text
      = (prompt @ butlast (serial_command cmd)) # BEGIN_MARK # body @ ?e # after"
    by (rule session_lines) (use assms(5-11) in \<open>simp_all add: list_all_iff\<close>)
  have e: "end_line ?e" by (rule end_line_status) (rule assms(9, 10))+
  let ?s = "s\<lparr>k_sent := k_sent s @ serial_command cmd, k_times := ts\<rparr>"
  have all: "clean_text dec (concat chunks) = ?text"
    using clean_ascii [OF assms(1, 3)] assms(4) by simp
  have "end_found (clean_text dec (concat chunks))"
    unfolding all end_found_def lines using e by simp
  moreover have "\<not> end_found (clean_text dec [])"
    using clean_ascii [OF assms(1), of "[]"] by (simp add: ascii_text_def end_found_def end_line_def m_lit_def END_MARK_def)
  ultimately obtain j s' where j: "read_loop (k_reads ?s) dec (Some end_found) 1 120 start seen [] ?s
      = Done (clean_text dec (concat (take j chunks))) s'" "end_found (clean_text dec (concat (take j chunks)))"
      "k_sent s' = k_sent ?s"
    using read_until [of ?s chunks others start 120 end_found dec "[]" 1 seen] assms(2, 13, 14) by auto
  have "prefix (clean_text dec (concat (take j chunks))) ?text"
    unfolding all [symmetric] clean_ascii [OF assms(1, 3)] clean_ascii [OF assms(1) ascii_take [OF assms(3)]]
    by (intro filter_prefix concat_take_prefix)
  moreover have "\<not> prefix (END_MARK @ '' '') (prompt @ butlast (serial_command cmd))"
    using assms(7) echo_starts by blast
  moreover have "\<forall>l \<in> set body. \<not> prefix (END_MARK @ '' '') l"
    using assms(8) unfolding list_all_iff by blast
  ultimately have "serial_output cmd (clean_text dec (concat (take j chunks))) = Inr (join [CHR 0x0A] body)"
    using serial_output_prefix [OF lines echo_not_marker e] j(2) by blast
  then show ?thesis
    using j(1, 3) assms(12)
    by (simp add: serial_run_def serial_read_def k_write_def io_seq_def io_bind_def k_time_def)
qed

definition demo_chunks :: "string list" where
  "demo_chunks = [''# '' @ butlast (serial_command ''id'') @ [CHR 0x0D, CHR 0x0A], [],
     BEGIN_MARK @ [CHR 0x0A] @ ''ro'', ''ot'' @ [CHR 0x0A] @ ''__EMZ_BENCH'', ''_END__ 1'', [],
     ''27'' @ [CHR 0x0A] @ ''# '']"

definition demo_console :: console where
  "demo_console = \<lparr>k_reads = map Inr demo_chunks, k_times = 0 # 0 # replicate 14 1, k_sent = []\<rparr>"

theorem serial_run_roundtrip_witness:
  "\<exists>s'. serial_run id ''id'' demo_console = Done (join [CHR 0x0A] [''root'']) s'
    \<and> k_sent s' = k_sent demo_console @ serial_command ''id''"
  by (rule serial_run_roundtrip [where chunks = demo_chunks and status = "''127''" and prompt = "''# ''"
        and after = "[''# '']" and others = "[]" and start = 0 and seen = 0 and ts = "replicate 14 1"])
    (simp_all add: decodes_ascii_def ascii_text_def demo_chunks_def demo_console_def serial_command_def
      split_marker_def BEGIN_MARK_def END_MARK_def py_digit_def list_all_iff)

text \<open>A read gives back what arrived: the text is decoded from the reads it took off the port, in
  order, with none lost, and nothing is sent.\<close>

lemma k_time_Done: "k_time s = Done t s' \<longleftrightarrow> (\<exists>ts. k_times s = t # ts \<and> s' = s\<lparr>k_times := ts\<rparr>)"
  by (auto simp: k_time_def split: list.splits)

lemma k_read_Done:
  "k_read s = Done d s' \<longleftrightarrow> (\<exists>ds. k_reads s = Inr d # ds \<and> s' = s\<lparr>k_reads := ds\<rparr>)"
  by (simp add: k_read_def io_answer_Done)

definition reads_of :: "(string \<Rightarrow> string) \<Rightarrow> string \<Rightarrow> (console, string) io \<Rightarrow> bool" where
  "reads_of dec buf m \<longleftrightarrow> (\<forall>s out s'. m s = Done out s' \<longrightarrow>
    (\<exists>used. k_reads s = map Inr used @ k_reads s' \<and> out = clean_text dec (buf @ concat used) \<and> k_sent s' = k_sent s))"

lemma reads_of_ret: "reads_of dec buf (io_ret (clean_text dec buf))"
  unfolding reads_of_def by (auto intro: exI [of _ "[]"])

lemma reads_of_time: "(\<And>t. reads_of dec buf (f t)) \<Longrightarrow> reads_of dec buf (io_bind k_time f)"
  unfolding reads_of_def by (fastforce simp: io_bind_Done k_time_Done)

lemma reads_of_read:
  assumes "\<And>d. reads_of dec (buf @ d) (f d)"
  shows "reads_of dec buf (io_bind k_read f)"
  unfolding reads_of_def
proof (intro allI impI)
  fix s out s' assume "io_bind k_read f s = Done out s'"
  then obtain d ds where d: "k_reads s = Inr d # ds" "f d (s\<lparr>k_reads := ds\<rparr>) = Done out s'"
    by (auto simp: io_bind_Done k_read_Done)
  obtain used where "k_reads (s\<lparr>k_reads := ds\<rparr>) = map Inr used @ k_reads s'"
    "out = clean_text dec ((buf @ d) @ concat used)" "k_sent s' = k_sent (s\<lparr>k_reads := ds\<rparr>)"
    using assms [of d] d(2) unfolding reads_of_def by blast
  then show "\<exists>used. k_reads s = map Inr used @ k_reads s' \<and> out = clean_text dec (buf @ concat used)
      \<and> k_sent s' = k_sent s"
    using d(1) by (intro exI [of _ "d # used"]) simp
qed

lemma reads_of_starved: "reads_of dec buf (\<lambda>s. Starved)"
  by (simp add: reads_of_def)

lemma read_loop_reads: "reads_of dec buf (read_loop left dec until idle cap start seen buf)"
proof (induction left arbitrary: seen buf until)
  case Nil
  show ?case by (auto intro!: reads_of_time reads_of_ret reads_of_starved)
next
  case (Cons x left)
  show ?case
    unfolding read_loop.simps
    by (auto intro!: reads_of_time reads_of_read reads_of_ret Cons.IH
        simp del: append_assoc split: option.splits)
qed

text \<open>What the login sends: a newline, and the user name exactly when the console asked for one.\<close>

theorem serial_login_sends:
  assumes "serial_login dec s = Done () s'"
  shows "\<exists>used rest. k_reads s = map Inr used @ rest
    \<and> k_sent s' = k_sent s @ [CHR 0x0A]
      @ (if contains ''login:'' (clean_text dec (concat used)) then ''root'' @ [CHR 0x0A] else [])"
proof -
  have r: "\<exists>used. k_reads t = map Inr used @ k_reads t' \<and> out = clean_text dec (concat used) \<and> k_sent t' = k_sent t"
    if "serial_read dec until idle t = Done out t'" for until idle t out t'
  proof -
    have "reads_of dec [] (serial_read dec until idle)"
      unfolding serial_read_def
      by (intro reads_of_time) (use read_loop_reads in \<open>fastforce simp: reads_of_def io_bind_Done\<close>)
    then show ?thesis using that unfolding reads_of_def by fastforce
  qed
  from assms show ?thesis
    unfolding serial_login_def k_write_def
    by (fastforce simp: io_bind_Done io_seq_Done dest: r split: if_splits)
qed

text \<open>The report and the raw snapshots end up in the files they were asked for, and no other file changes.\<close>

lemma bench_report_files:
  assumes "bench_report dumps args board trial head tests (Some out) (Some raw) fs = Inr (report, code, fs')"
    and "out \<noteq> []" "raw \<noteq> []" "out \<noteq> raw"
  shows "fs' out = Some report \<and> (\<exists>rs. fs' raw = Some (dumps rs @ [CHR 0x0A])
      \<and> raw_tests board trial (enumerate 0 (test_names tests)) = Inr rs)
    \<and> (\<forall>p. p \<noteq> out \<and> p \<noteq> raw \<longrightarrow> fs' p = fs p)"
  using assms by (auto simp: bench_report_def res_bind_Inr_iff split: prod.splits)

end
