(* ===== verification/Emz_Cocotb.thy ===== *)
theory Emz_Cocotb
  imports Emz_Text "HOL-Library.Char_ord" "HOL-Library.List_Lexorder"
begin

text \<open>
  \<open>sim/cocotb/run.py\<close>: the runner of the cocotb suites. Modelled are the discovery of the suites
  in the test modules, the VHDL source lists, what a suite is built and run with, the plan of
  suite runs, the arguments of the child processes, and the exit code. The syntax trees of the test
  modules (\<open>ast\<close>), the cocotb runner and the child processes are parameters.
\<close>

section \<open>Literal dictionaries\<close>

text \<open>The values \<open>ast.literal_eval\<close> gives; a dictionary is an association list in insertion
  order.\<close>

datatype lit =
    LStr string
  | LInt int
  | LList "lit list"
  | LDict "(string \<times> lit) list"

type_synonym spec = "(string \<times> lit) list"
type_synonym suites = "(string \<times> spec) list"

fun truthy :: "lit \<Rightarrow> bool" where
  "truthy (LStr s) = (s \<noteq> [])"
| "truthy (LInt n) = (n \<noteq> 0)"
| "truthy (LList xs) = (xs \<noteq> [])"
| "truthy (LDict d) = (d \<noteq> [])"

fun lit_str :: "lit \<Rightarrow> string res" where
  "lit_str (LStr s) = Inr s"
| "lit_str _ = Inl (AttributeError ''str'')"

fun lit_strs :: "lit list \<Rightarrow> string list res" where
  "lit_strs [] = Inr []"
| "lit_strs (x # xs) = res_bind (lit_str x) (\<lambda>s. res_bind (lit_strs xs) (\<lambda>ss. Inr (s # ss)))"

fun lit_list :: "lit \<Rightarrow> lit list res" where
  "lit_list (LList xs) = Inr xs"
| "lit_list _ = Inl (TypeError ''list'')"

fun lit_dict :: "lit \<Rightarrow> (string \<times> lit) list res" where
  "lit_dict (LDict d) = Inr d"
| "lit_dict _ = Inl (TypeError ''dict'')"

definition key :: "spec \<Rightarrow> string \<Rightarrow> lit res" where
  "key spec k = (case map_of spec k of Some v \<Rightarrow> Inr v | None \<Rightarrow> Inl (KeyError k))"

definition key_or :: "spec \<Rightarrow> string \<Rightarrow> lit \<Rightarrow> lit" where
  "key_or spec k v = (case map_of spec k of Some v \<Rightarrow> v | None \<Rightarrow> v)"

definition py_repr :: "string \<Rightarrow> string" where
  "py_repr s = CHR 0x27 # s @ [CHR 0x27]"

section \<open>Discovery\<close>

definition SPEC_KEYS :: "string list" where
  "SPEC_KEYS = [''toplevel'', ''sources'', ''params'', ''target'', ''vhdl_sources'', ''env'', ''skip_vhdl'']"

text \<open>A test module: its name without \<open>.py\<close>, and either why it could not be read or parsed, or the
  assignments to \<open>SUITES\<close> at its top level, each a literal dictionary or why it is none.\<close>

type_synonym test_module = "string \<times> (string + (string + suites) list)"

fun found_suites :: "(string + suites) list \<Rightarrow> suites \<Rightarrow> string + suites" where
  "found_suites [] found = Inr found"
| "found_suites (Inl e # assigns) found = Inl e"
| "found_suites (Inr d # assigns) found = found_suites assigns (dict_update found d)"

text \<open>The first reason to refuse a suite of a module.\<close>

fun suite_fault :: "suites \<Rightarrow> suites \<Rightarrow> string option" where
  "suite_fault suites [] = None"
| "suite_fault suites ((name, spec) # found) =
    (let unknown = filter (\<lambda>k. k \<notin> set SPEC_KEYS) (map fst spec)
     in case map_of suites name of
          Some old \<Rightarrow> Some (''suite '' @ py_repr name @ '' already declared in ''
            @ (case map_of old ''test_module'' of Some (LStr m) \<Rightarrow> m | _ \<Rightarrow> []) @ ''.py'')
        | None \<Rightarrow>
            if unknown \<noteq> []
            then Some (''suite '' @ py_repr name @ '': unknown keys [''
              @ join '', '' (map py_repr (sort unknown)) @ '']'')
            else suite_fault suites found)"

definition module_suites :: "suites \<Rightarrow> test_module \<Rightarrow> string + suites" where
  "module_suites suites m =
    (case snd m of
       Inl e \<Rightarrow> Inl e
     | Inr assigns \<Rightarrow>
         (case found_suites assigns [] of
            Inl e \<Rightarrow> Inl e
          | Inr found \<Rightarrow>
              (case suite_fault suites found of Some e \<Rightarrow> Inl e | None \<Rightarrow> Inr found)))"

definition with_module :: "string \<Rightarrow> suites \<Rightarrow> suites" where
  "with_module file found = map (\<lambda>(n, spec). (n, AList.update ''test_module'' (LStr file) spec)) found"

definition discover_module :: "suites \<times> string list \<Rightarrow> test_module \<Rightarrow> suites \<times> string list" where
  "discover_module acc m =
    (case module_suites (fst acc) m of
       Inl e \<Rightarrow> (fst acc, snd acc @ [fst m @ ''.py: '' @ e])
     | Inr found \<Rightarrow> (dict_update (fst acc) (with_module (fst m) found), snd acc))"

definition discover :: "test_module list \<Rightarrow> suites \<times> string list" where
  "discover modules = foldl discover_module ([], []) (sort_key (\<lambda>m. fst m @ ''.py'') modules)"

section \<open>VHDL sources\<close>

definition VHDL_UTIL :: string where "VHDL_UTIL = ''rtl/vhdl/emz_util_pkg.vhd''"

definition VHDL_EXTRA_DEPS :: "(string \<times> string list) list" where
  "VHDL_EXTRA_DEPS =
    [(''eth_mac_rx'', [''rtl/vhdl/csum_calc.vhd'']),
     (''axilite_regs'', [''rtl/vhdl/emz_version_pkg.vhd''])]"

text \<open>\<open>Path(s).stem\<close>: a dot at either end of the name starts no suffix.\<close>

definition path_stem :: "string \<Rightarrow> string" where
  "path_stem p =
    (let name = basename p; parts = split_at (CHR ''.'') name; front = join ''.'' (butlast parts)
     in if last parts = [] \<or> front = [] then name else front)"

definition with_vhd :: "string \<Rightarrow> string" where
  "with_vhd p = take (length p - length (basename p)) p @ path_stem p @ ''.vhd''"

definition vhd_of :: "string \<Rightarrow> string" where
  "vhd_of p = (if hd (split_at (CHR ''/'') p) = ''rtl'' then ''rtl/vhdl/'' @ path_stem p @ ''.vhd''
               else with_vhd p)"

definition extra_deps :: "string \<Rightarrow> string list" where
  "extra_deps name = (case map_of VHDL_EXTRA_DEPS name of Some deps \<Rightarrow> deps | None \<Rightarrow> [])"

definition mapped :: "string \<Rightarrow> string list" where
  "mapped p = extra_deps (path_stem p) @ [vhd_of p]"

fun add_new :: "string list \<Rightarrow> string list \<Rightarrow> string list" where
  "add_new out [] = out"
| "add_new out (f # files) = add_new (if f \<in> set out then out else out @ [f]) files"

definition target_pkg :: "string \<Rightarrow> string" where
  "target_pkg target = ''rtl/vhdl/target/emz_target_'' @ lower target @ ''.vhd''"

definition suite_vhdl_sources :: "spec \<Rightarrow> string list res" where
  "suite_vhdl_sources spec =
    res_bind (lit_str (key_or spec ''target'' (LStr ''SIM''))) (\<lambda>target.
    res_bind (case map_of spec ''vhdl_sources'' of
        Some l \<Rightarrow> res_bind (lit_list l) lit_strs
      | None \<Rightarrow> res_bind (key spec ''sources'') (\<lambda>l. res_bind (lit_list l) (\<lambda>xs.
          res_bind (lit_strs xs) (\<lambda>ss. Inr (concat (map mapped ss)))))) (\<lambda>files.
    Inr (add_new [target_pkg target, VHDL_UTIL] files)))"

section \<open>Running one suite\<close>

record cocotb_args =
  c_suite :: "string list"
  c_hdl :: string
  c_jobs :: int
  c_list :: bool
  c_seed :: "int option"
  c_test :: "string option"
  c_waves :: bool

text \<open>The environment of a run: \<open>HERE\<close> and \<open>TESTS\<close> first on the Python path, then the suite's own
  settings.\<close>

definition run_env :: "string \<Rightarrow> string \<Rightarrow> (string \<times> lit) list \<Rightarrow> spec \<Rightarrow> (string \<times> lit) list res" where
  "run_env pathsep here env spec =
    res_bind (lit_str (key_or env ''PYTHONPATH'' (LStr []))) (\<lambda>old.
    res_bind (lit_dict (key_or spec ''env'' (LDict []))) (\<lambda>own.
    Inr (dict_update (AList.update ''PYTHONPATH''
      (LStr (join pathsep [here, here @ ''/tests'', old])) env) own)))"

text \<open>What the cocotb runner is asked to build and to run.\<close>

record build_request =
  r_runner :: string
  r_sources :: "string list"
  r_toplevel :: string
  r_params :: "(string \<times> lit) list"
  r_dir :: string
  r_args :: "string list"
  r_timescale :: "(string \<times> string) option"
  r_defines :: "(string \<times> int) list"
  r_includes :: "string list"

record test_request =
  q_module :: string
  q_toplevel :: string
  q_dir :: string
  q_build_dir :: string
  q_seed :: "int option"
  q_test :: "string option"
  q_results :: string

text \<open>Icarus reads parameters as expressions: a string gets quotes.\<close>

definition icarus_param :: "string \<times> lit \<Rightarrow> string \<times> lit" where
  "icarus_param kv = (fst kv, case snd kv of LStr v \<Rightarrow> LStr (quoted v) | v \<Rightarrow> v)"

definition run_one :: "string \<Rightarrow> string \<Rightarrow> spec \<Rightarrow> string \<Rightarrow> cocotb_args \<Rightarrow> (build_request \<times> test_request) res" where
  "run_one repo name spec hdl args =
    (let here = repo @ ''/sim/cocotb''; vhdl = (hdl = ''vhdl'');
         build_name = (if vhdl then ''vhdl_'' @ name else name);
         dir = here @ ''/sim_build/'' @ build_name
     in res_bind (lit_dict (key_or spec ''params'' (LDict []))) (\<lambda>params.
        res_bind (if vhdl then suite_vhdl_sources spec
                  else res_bind (key spec ''sources'') (\<lambda>l. res_bind (lit_list l) lit_strs)) (\<lambda>sources.
        res_bind (if vhdl then Inr [] else res_bind (lit_str (key_or spec ''target'' (LStr ''SIM'')))
                  (\<lambda>t. Inr [(t, 1)])) (\<lambda>dfns.
        res_bind (res_bind (key spec ''toplevel'') lit_str) (\<lambda>top.
        res_bind (res_bind (key spec ''test_module'') lit_str) (\<lambda>module.
        Inr (\<lparr>r_runner = (if vhdl then ''ghdl'' else ''icarus''),
              r_sources = map (\<lambda>s. repo @ ''/'' @ s) sources,
              r_toplevel = top,
              r_params = (if vhdl then params else map icarus_param params),
              r_dir = dir,
              r_args = (if vhdl then [''--std=93''] else []),
              r_timescale = (if vhdl then None else Some (''1ns'', ''1ps'')),
              r_defines = dfns,
              r_includes = (if vhdl then [] else [repo @ ''/rtl''])\<rparr>,
             \<lparr>q_module = module, q_toplevel = top,
              q_dir = (if vhdl then dir else here @ ''/tests''),
              q_build_dir = dir, q_seed = c_seed args, q_test = c_test args,
              q_results = ''results_'' @ build_name @ ''.xml''\<rparr>)))))))"

text \<open>The results file: the runner's own count, or the \<open>failure\<close> and \<open>error\<close> elements in every
  \<open>testcase\<close>.\<close>

datatype xml = Elem string "xml list"

fun xml_iter :: "string \<Rightarrow> xml \<Rightarrow> xml list" where
  "xml_iter tag (Elem t kids) = (if t = tag then [Elem t kids] else []) @ concat (map (xml_iter tag) kids)"

definition count_failures :: "nat option \<Rightarrow> xml \<Rightarrow> nat" where
  "count_failures result root =
    (case result of
       Some failed \<Rightarrow> failed
     | None \<Rightarrow> sum_list (map (\<lambda>tc. length (xml_iter ''failure'' tc) + length (xml_iter ''error'' tc))
                (xml_iter ''testcase'' root)))"

section \<open>The plan\<close>

definition hdls :: "cocotb_args \<Rightarrow> string list" where
  "hdls args = (if c_hdl args = ''both'' then [''verilog'', ''vhdl''] else [c_hdl args])"

definition skips_vhdl :: "suites \<Rightarrow> string \<Rightarrow> bool" where
  "skips_vhdl suites name =
    (case map_of suites name of
       Some spec \<Rightarrow> (case map_of spec ''skip_vhdl'' of Some v \<Rightarrow> truthy v | None \<Rightarrow> False)
     | None \<Rightarrow> False)"

definition suite_names :: "suites \<Rightarrow> cocotb_args \<Rightarrow> string list" where
  "suite_names suites args = (if c_suite args = [] then sort (map fst suites) else c_suite args)"

definition plan_jobs :: "suites \<Rightarrow> cocotb_args \<Rightarrow> (string \<times> string) list" where
  "plan_jobs suites args =
    [(name, hdl). name \<leftarrow> suite_names suites args, hdl \<leftarrow> hdls args,
      \<not> (hdl = ''vhdl'' \<and> skips_vhdl suites name)]"

definition plan_skipped :: "suites \<Rightarrow> cocotb_args \<Rightarrow> string list" where
  "plan_skipped suites args =
    [name. name \<leftarrow> suite_names suites args, hdl \<leftarrow> hdls args, hdl = ''vhdl'' \<and> skips_vhdl suites name]"

text \<open>The arguments of the child process of one run, after the interpreter and the script.\<close>

definition child_argv :: "string \<Rightarrow> string \<Rightarrow> cocotb_args \<Rightarrow> string list" where
  "child_argv name hdl args =
    [''--suite'', name, ''--hdl'', hdl]
    @ (case c_seed args of Some n \<Rightarrow> [''--seed'', show_int n] | None \<Rightarrow> [])
    @ (case c_test args of Some t \<Rightarrow> (if t = [] then [] else [''--test'', t]) | None \<Rightarrow> [])
    @ (if c_waves args then [''--waves''] else [])"

text \<open>The command line: options and values as separate arguments, the form \<open>child_argv\<close> uses. An
  argument that begins with a dash is no value unless it is a negative number. \<open>None\<close>: a usage
  error.\<close>

definition is_value :: "string \<Rightarrow> bool" where
  "is_value v \<longleftrightarrow> \<not> prefix ''-'' v \<or> (tl v \<noteq> [] \<and> list_all py_digit (tl v))"

definition read_int :: "string \<Rightarrow> int option" where
  "read_int v =
    (let body = (if prefix ''-'' v then tl v else v);
         n = int (foldl (\<lambda>n c. 10 * n + digit_value c) 0 body)
     in if body = [] \<or> \<not> list_all py_digit body then None
        else Some (if prefix ''-'' v then - n else n))"

fun parse_argv :: "string list \<Rightarrow> cocotb_args \<Rightarrow> cocotb_args option" where
  "parse_argv [] a = Some a"
| "parse_argv (x # xs) a =
    (if x = ''--waves'' then parse_argv xs (a\<lparr>c_waves := True\<rparr>)
     else if x = ''--list'' then parse_argv xs (a\<lparr>c_list := True\<rparr>)
     else (case xs of
        [] \<Rightarrow> None
      | v # rest \<Rightarrow>
          if \<not> is_value v then None
          else if x = ''--suite'' then parse_argv rest (a\<lparr>c_suite := c_suite a @ [v]\<rparr>)
          else if x = ''--hdl'' then
            (if v \<in> {''verilog'', ''vhdl'', ''both''} then parse_argv rest (a\<lparr>c_hdl := v\<rparr>) else None)
          else if x = ''--test'' then parse_argv rest (a\<lparr>c_test := Some v\<rparr>)
          else if x = ''--seed'' then
            (case read_int v of Some n \<Rightarrow> parse_argv rest (a\<lparr>c_seed := Some n\<rparr>) | None \<Rightarrow> None)
          else if x = ''-j'' \<or> x = ''--jobs'' then
            (case read_int v of Some n \<Rightarrow> parse_argv rest (a\<lparr>c_jobs := n\<rparr>) | None \<Rightarrow> None)
          else None))"

definition no_args :: cocotb_args where
  "no_args = \<lparr>c_suite = [], c_hdl = ''verilog'', c_jobs = 1, c_list = False, c_seed = None,
     c_test = None, c_waves = False\<rparr>"

text \<open>\<open>main\<close>: the exit code. \<open>run\<close> is the number of failures of a suite in this process (an
  exception ends the process with code 1), \<open>child\<close> the exit code of a child process.\<close>

type_synonym suite_run = "int option \<Rightarrow> string option \<Rightarrow> bool \<Rightarrow> string \<Rightarrow> string \<Rightarrow> nat res"

definition cocotb_main ::
  "suites \<Rightarrow> string list \<Rightarrow> suite_run \<Rightarrow> (string list \<Rightarrow> int) \<Rightarrow> cocotb_args \<Rightarrow> int" where
  "cocotb_main suites broken run child args =
    (let broken_fails = (broken \<noteq> [] \<and> c_suite args = []);
         jobs = plan_jobs suites args;
         failed = filter (\<lambda>(name, hdl). child (child_argv name hdl args) \<noteq> 0) jobs
     in if \<not> set (c_suite args) \<subseteq> set (map fst suites) then 2
        else if c_list args then 0
        else if length jobs = 1 \<and> c_jobs args \<le> 1 then
          (case run (c_seed args) (c_test args) (c_waves args) (fst (hd jobs)) (snd (hd jobs)) of
             Inl e \<Rightarrow> 1
           | Inr n \<Rightarrow> if n \<noteq> 0 \<or> broken_fails then 1 else 0)
        else if failed \<noteq> [] then 1
        else if broken_fails then 1 else 0)"

text \<open>The exit code of this script run with some arguments; a usage error is code 2.\<close>

definition script :: "suites \<Rightarrow> string list \<Rightarrow> suite_run \<Rightarrow> (string list \<Rightarrow> int) \<Rightarrow> string list \<Rightarrow> int" where
  "script suites broken run child argv =
    (case parse_argv argv no_args of None \<Rightarrow> 2 | Some a \<Rightarrow> cocotb_main suites broken run child a)"

section \<open>Lemmas\<close>

subsection \<open>Source lists\<close>

lemma set_add_new [simp]: "set (add_new out files) = set out \<union> set files"
  by (induction files arbitrary: out) auto

lemma distinct_add_new: "distinct out \<Longrightarrow> distinct (add_new out files)"
  by (induction files arbitrary: out) auto

lemma add_new_append: "add_new out (xs @ ys) = add_new (add_new out xs) ys"
  by (induction xs arbitrary: out) simp_all

lemma add_new_extends: "\<exists>zs. add_new out files = out @ zs"
proof (induction files arbitrary: out)
  case (Cons f files)
  show ?case using Cons.IH [of out] Cons.IH [of "out @ [f]"] by auto
qed simp

text \<open>What comes first in the list of files stays in front of what comes later.\<close>

lemma add_new_order:
  assumes "v \<notin> set out" "v \<notin> set A" "d \<in> set A \<union> set out"
  shows "\<exists>xs ys. add_new out (A @ v # B) = xs @ v # ys \<and> d \<in> set xs"
proof -
  have "v \<notin> set (add_new out A)" using assms by simp
  then have "add_new out (A @ v # B) = add_new (add_new out A @ [v]) B" by (simp add: add_new_append)
  moreover obtain ys where "add_new (add_new out A @ [v]) B = (add_new out A @ [v]) @ ys"
    using add_new_extends by blast
  moreover have "d \<in> set (add_new out A)" using assms(3) by auto
  ultimately show ?thesis by auto
qed

subsection \<open>Names of paths\<close>

lemma split_at_tl: "sep \<in> set s \<Longrightarrow> tl (split_at sep s) \<noteq> []"
  by (induction s) (auto split: list.splits simp: split_at_nonempty)

lemma split_at_hd: "hd (split_at sep s) = takeWhile (\<lambda>c. c \<noteq> sep) s"
  by (induction s) (auto split: list.splits simp: split_at_nonempty)

lemma split_at_part: "w \<in> set (split_at sep s) \<Longrightarrow> set w \<subseteq> set s"
  by (induction s arbitrary: w) (fastforce split: list.splits if_splits)+

lemma split_at_last: "last (split_at sep s) = rev (takeWhile (\<lambda>c. c \<noteq> sep) (rev s))"
proof (induction s)
  case (Cons c s)
  show ?case
  proof (cases "sep \<in> set s")
    case True
    obtain w ws where w: "split_at sep s = w # ws" "ws \<noteq> []"
      using split_at_tl [OF True] split_at_nonempty [of sep s] by (cases "split_at sep s") auto
    have "takeWhile (\<lambda>c. c \<noteq> sep) (rev s @ [c]) = takeWhile (\<lambda>c. c \<noteq> sep) (rev s)"
      using True by (intro takeWhile_append1) auto
    then show ?thesis using Cons.IH w by auto
  next
    case False
    then have "\<forall>x \<in> set (rev s). x \<noteq> sep" by auto
    then have "takeWhile (\<lambda>c. c \<noteq> sep) (rev s @ [c]) = rev s @ takeWhile (\<lambda>c. c \<noteq> sep) [c]"
      by (intro takeWhile_append2) blast
    then show ?thesis using False by (simp add: split_at_plain)
  qed
qed simp

lemma basename_after: "CHR ''/'' \<notin> set w \<Longrightarrow> basename (d @ CHR ''/'' # w) = w"
proof -
  assume "CHR ''/'' \<notin> set w"
  then have "\<forall>x \<in> set (rev w). x \<noteq> CHR ''/''" by auto
  then have "takeWhile (\<lambda>c. c \<noteq> CHR ''/'') (rev w @ CHR ''/'' # rev d) = rev w"
    by (subst takeWhile_append2) auto
  then show ?thesis by (simp add: basename_def split_at_last)
qed

lemma basename_slash: "CHR ''/'' \<notin> set (basename p)"
  by (auto simp: basename_def split_at_last dest: set_takeWhileD)

lemma split_path: "p = take (length p - length (basename p)) p @ basename p"
proof -
  have "rev p = takeWhile (\<lambda>c. c \<noteq> CHR ''/'') (rev p) @ drop (length (basename p)) (rev p)"
    by (simp add: basename_def split_at_last flip: dropWhile_eq_drop)
  then have "p = rev (drop (length (basename p)) (rev p)) @ basename p"
    by (metis basename_def rev_append rev_rev_ident split_at_last)
  then show ?thesis by (simp add: rev_drop)
qed

lemma basename_replaced:
  assumes "CHR ''/'' \<notin> set w"
  shows "basename (take (length p - length (basename p)) p @ w) = w"
proof -
  let ?P = "\<lambda>c. c \<noteq> CHR ''/''"
  have "take (length p - length (basename p)) p = rev (dropWhile ?P (rev p))"
    by (simp add: basename_def split_at_last dropWhile_eq_drop rev_drop)
  moreover have "takeWhile ?P (dropWhile ?P xs) = []" for xs by (induction xs) auto
  moreover have "\<forall>x \<in> set (rev w). ?P x" using assms by auto
  ultimately have "takeWhile ?P (rev (take (length p - length (basename p)) p @ w)) = rev w"
    by (simp only: rev_append rev_rev_ident) (subst takeWhile_append2, auto)
  then show ?thesis by (simp add: basename_def split_at_last)
qed

lemma set_join: "set (join sep ws) \<subseteq> set sep \<union> \<Union> (set ` set ws)"
  by (induction sep ws rule: join.induct) auto

lemma path_stem_slash: "CHR ''/'' \<notin> set (path_stem p)"
proof -
  have "set (join ''.'' (butlast (split_at (CHR ''.'') (basename p)))) \<subseteq> set ''.'' \<union> set (basename p)"
    using set_join [of "''.''" "butlast (split_at (CHR ''.'') (basename p))"] split_at_part
    by (fastforce dest: in_set_butlastD)
  then show ?thesis using basename_slash [of p] by (auto simp: path_stem_def Let_def)
qed

lemma basename_vhd_of: "basename (vhd_of p) = path_stem p @ ''.vhd''"
proof (cases "hd (split_at (CHR ''/'') p) = ''rtl''")
  case True
  then have "vhd_of p = ''rtl/vhdl'' @ CHR ''/'' # path_stem p @ ''.vhd''" by (simp add: vhd_of_def)
  then show ?thesis using path_stem_slash by (simp only:) (rule basename_after, simp)
next
  case False
  then show ?thesis using path_stem_slash by (simp add: vhd_of_def with_vhd_def basename_replaced)
qed

lemma vhd_of_not_target: "path_stem p \<in> fst ` set VHDL_EXTRA_DEPS \<Longrightarrow> vhd_of p \<noteq> target_pkg t"
proof
  assume stem: "path_stem p \<in> fst ` set VHDL_EXTRA_DEPS" and eq: "vhd_of p = target_pkg t"
  show False
  proof (cases "hd (split_at (CHR ''/'') p) = ''rtl''")
    case True
    then show False using stem eq by (auto simp: vhd_of_def VHDL_EXTRA_DEPS_def target_pkg_def)
  next
    case False
    let ?dir = "take (length p - length (basename p)) p"
    let ?hd = "takeWhile (\<lambda>c. c \<noteq> CHR ''/'')"
    have w: "?dir @ path_stem p @ ''.vhd'' = target_pkg t"
      using eq False by (simp add: vhd_of_def with_vhd_def)
    have "CHR ''/'' \<in> set (target_pkg t)" by (simp add: target_pkg_def)
    then have "CHR ''/'' \<in> set ?dir"
      using path_stem_slash [of p] unfolding w [symmetric] by auto
    then have "?hd (?dir @ x) = ?hd ?dir" for x by (intro takeWhile_append1) auto
    then have "?hd (target_pkg t) = ?hd p" using w split_path [of p] by metis
    then show False using False by (simp add: split_at_hd target_pkg_def)
  qed
qed

lemma lit_strs_map [simp]: "lit_strs (map LStr ss) = Inr ss"
  by (induction ss) simp_all

lemma extra_deps_stem: "d \<in> set (extra_deps name) \<Longrightarrow> name \<in> fst ` set VHDL_EXTRA_DEPS"
  by (auto simp: extra_deps_def VHDL_EXTRA_DEPS_def split: if_splits)

lemma extra_dep_basename:
  "d \<in> set (extra_deps name) \<Longrightarrow> basename d = ''csum_calc.vhd'' \<or> basename d = ''emz_version_pkg.vhd''"
  by (auto simp: extra_deps_def VHDL_EXTRA_DEPS_def basename_def split: if_splits)

subsection \<open>Dictionaries\<close>

lemma found_suites_distinct:
  "found_suites assigns found = Inr r \<Longrightarrow> distinct (map fst found) \<Longrightarrow> distinct (map fst r)"
  by (induction assigns found rule: found_suites.induct) (simp_all add: distinct_dict_update)

lemma map_of_with_module:
  "map_of (with_module file found) name = map_option (AList.update ''test_module'' (LStr file)) (map_of found name)"
  by (induction found) (auto simp: with_module_def)

lemma map_fst_with_module [simp]: "map fst (with_module file found) = map fst found"
  by (induction found) (auto simp: with_module_def)

lemma suite_fault_None: "suite_fault suites found = None \<Longrightarrow> name \<in> fst ` set found \<Longrightarrow> map_of suites name = None"
  by (induction suites found rule: suite_fault.induct) (auto simp: Let_def split: option.splits if_splits)

text \<open>What a module contributes when it is accepted: nothing of it was there before.\<close>

lemma module_suites_lookup:
  assumes "module_suites S m = Inr found"
  shows "map_of (dict_update S (with_module (fst m) found)) name = Some spec \<longleftrightarrow>
    map_of S name = Some spec
    \<or> (\<exists>raw. map_of found name = Some raw \<and> spec = AList.update ''test_module'' (LStr (fst m)) raw)"
proof -
  obtain assigns where a: "found_suites assigns [] = Inr found" and f: "suite_fault S found = None"
    using assms by (auto simp: module_suites_def split: sum.splits option.splits)
  have d: "distinct (map fst found)" using found_suites_distinct [OF a] by simp
  have "map_of (dict_update S (with_module (fst m) found)) = map_of S ++ map_of (with_module (fst m) found)"
    using d by (simp add: map_of_dict_update map_of_rev)
  moreover have "map_of S name = None" if "map_of found name = Some raw" for raw
    using suite_fault_None [OF f] map_of_SomeD [OF that] by force
  ultimately show ?thesis
    by (cases "map_of found name") (auto simp: map_add_def map_of_with_module)
qed

text \<open>The specification a module declares for a suite, with the name of the module added.\<close>

definition declared :: "test_module \<Rightarrow> string \<Rightarrow> spec option" where
  "declared m name =
    (case snd m of
       Inl e \<Rightarrow> None
     | Inr assigns \<Rightarrow>
         (case found_suites assigns [] of
            Inl e \<Rightarrow> None
          | Inr found \<Rightarrow> map_option (AList.update ''test_module'' (LStr (fst m))) (map_of found name)))"

lemma declared_iff:
  "module_suites S m = Inr found \<Longrightarrow> declared m name = Some spec \<longleftrightarrow>
    (\<exists>raw. map_of found name = Some raw \<and> spec = AList.update ''test_module'' (LStr (fst m)) raw)"
  by (auto simp: declared_def module_suites_def split: sum.splits option.splits)

lemma discover_module_cases:
  "module_suites (fst acc) m = Inl e \<Longrightarrow> discover_module acc m = (fst acc, snd acc @ [fst m @ ''.py: '' @ e])"
  "module_suites (fst acc) m = Inr found \<Longrightarrow>
    discover_module acc m = (dict_update (fst acc) (with_module (fst m) found), snd acc)"
  by (simp_all add: discover_module_def)

lemma discover_module_errors:
  "\<exists>more. snd (foldl discover_module acc ms) = snd acc @ more"
proof (induction ms arbitrary: acc)
  case (Cons m ms)
  obtain more where "snd (foldl discover_module (discover_module acc m) ms) = snd (discover_module acc m) @ more"
    using Cons.IH by blast
  then show ?case by (cases "module_suites (fst acc) m") (auto simp: discover_module_cases)
qed simp

lemma discover_from:
  assumes "foldl discover_module (S, []) ms = (suites, [])"
  shows "map_of suites name = Some spec \<longleftrightarrow> map_of S name = Some spec \<or> (\<exists>m \<in> set ms. declared m name = Some spec)"
  using assms
proof (induction ms arbitrary: S)
  case (Cons m ms)
  obtain found where f: "module_suites S m = Inr found"
  proof (cases "module_suites S m")
    case (Inl e)
    then show ?thesis
      using Cons.prems discover_module_errors [of "(S, [fst m @ ''.py: '' @ e])" ms]
      by (auto simp: discover_module_cases)
  qed (use that in blast)
  then have "foldl discover_module (dict_update S (with_module (fst m) found), []) ms = (suites, [])"
    using Cons.prems by (simp add: discover_module_cases)
  from Cons.IH [OF this] show ?case
    unfolding module_suites_lookup [OF f] declared_iff [OF f, symmetric] by auto
qed simp

lemma discover_distinct:
  "distinct (map fst (fst acc)) \<Longrightarrow> distinct (map fst (fst (foldl discover_module acc ms)))"
proof (induction ms arbitrary: acc)
  case (Cons m ms)
  then show ?case
    by (cases "module_suites (fst acc) m") (simp_all add: discover_module_cases distinct_dict_update)
qed simp

text \<open>A module that cannot be read takes nothing away from the others.\<close>

definition readable :: "test_module \<Rightarrow> bool" where
  "readable m = (case snd m of Inl e \<Rightarrow> False
     | Inr assigns \<Rightarrow> (case found_suites assigns [] of Inl e \<Rightarrow> False | Inr found \<Rightarrow> True))"

lemma discover_from_readable:
  "fst (foldl discover_module (S, es) ms) = fst (foldl discover_module (S, fs) (filter readable ms))"
proof (induction ms arbitrary: S es fs)
  case (Cons m ms)
  show ?case
  proof (cases "readable m")
    case True
    then show ?thesis
      using Cons.IH by (cases "module_suites S m") (simp_all add: discover_module_cases)
  next
    case False
    then have "\<exists>e. module_suites S m = Inl e"
      by (auto simp: readable_def module_suites_def split: sum.splits)
    then show ?thesis using False Cons.IH by (auto simp: discover_module_cases)
  qed
qed simp

subsection \<open>Child processes\<close>

lemma show_nat_no_dash: "\<not> prefix ''-'' (show_nat n)"
  using show_nat_digits [of n] by (cases "show_nat n") (auto simp: py_digit_def)

lemma read_show_int: "read_int (show_int n) = Some n"
  using show_nat_no_dash [of "nat n"]
  by (simp add: show_int_def read_int_def Let_def show_nat_nonempty show_nat_digits foldl_show_nat)

lemma is_value_show_int: "is_value (show_int n)"
  by (simp add: show_int_def is_value_def show_nat_no_dash show_nat_nonempty show_nat_digits)

definition child_args :: "string \<Rightarrow> string \<Rightarrow> cocotb_args \<Rightarrow> cocotb_args" where
  "child_args name hdl args =
    \<lparr>c_suite = [name], c_hdl = hdl, c_jobs = 1, c_list = False, c_seed = c_seed args,
     c_test = c_test args, c_waves = c_waves args\<rparr>"

definition plain_test :: "cocotb_args \<Rightarrow> bool" where
  "plain_test args = (case c_test args of None \<Rightarrow> True | Some t \<Rightarrow> t \<noteq> [] \<and> \<not> prefix ''-'' t)"

lemma parse_child_argv:
  assumes "\<not> prefix ''-'' name" "hdl \<in> {''verilog'', ''vhdl''}" "plain_test args"
  shows "parse_argv (child_argv name hdl args) no_args = Some (child_args name hdl args)"
proof -
  have v: "is_value name" "is_value hdl" using assms by (auto simp: is_value_def)
  have w: "parse_argv (if c_waves args then [''--waves''] else []) a = Some (a\<lparr>c_waves := c_waves a \<or> c_waves args\<rparr>)" for a
    by simp
  have t: "parse_argv ((case c_test args of Some t \<Rightarrow> (if t = [] then [] else [''--test'', t]) | None \<Rightarrow> []) @ rest) a
      = parse_argv rest (case c_test args of None \<Rightarrow> a | Some t \<Rightarrow> a\<lparr>c_test := Some t\<rparr>)" for rest a
    using assms(3) by (auto simp: plain_test_def is_value_def split: option.splits)
  have n: "parse_argv ((case c_seed args of Some n \<Rightarrow> [''--seed'', show_int n] | None \<Rightarrow> []) @ rest) a
      = parse_argv rest (case c_seed args of None \<Rightarrow> a | Some n \<Rightarrow> a\<lparr>c_seed := Some n\<rparr>)" for rest a
    by (auto simp: is_value_show_int read_show_int split: option.splits)
  have "parse_argv ([''--suite'', name, ''--hdl'', hdl] @ rest) no_args
      = parse_argv rest (no_args\<lparr>c_suite := [name], c_hdl := hdl\<rparr>)" for rest
    using v assms(2) by (auto simp: no_args_def)
  then show ?thesis
    unfolding child_argv_def by (simp add: n t w del: parse_argv.simps)
      (auto simp: no_args_def child_args_def split: option.splits)
qed

lemma plan_jobs_in: "(name, hdl) \<in> set (plan_jobs suites args) \<longleftrightarrow>
    name \<in> set (suite_names suites args) \<and> hdl \<in> set (hdls args)
    \<and> \<not> (hdl = ''vhdl'' \<and> skips_vhdl suites name)"
  by (auto simp: plan_jobs_def)

lemma plan_jobs_child:
  "hdl \<in> {''verilog'', ''vhdl''} \<Longrightarrow> \<not> (hdl = ''vhdl'' \<and> skips_vhdl suites name) \<Longrightarrow>
    plan_jobs suites (child_args name hdl args) = [(name, hdl)]"
  by (auto simp: plan_jobs_def suite_names_def hdls_def child_args_def)

lemma suite_names_known:
  "set (c_suite args) \<subseteq> fst ` set suites \<Longrightarrow> name \<in> set (suite_names suites args) \<Longrightarrow> name \<in> fst ` set suites"
  by (auto simp: suite_names_def split: if_splits)

lemma hdls_cases:
  "c_hdl args \<in> {''verilog'', ''vhdl'', ''both''} \<Longrightarrow> hdl \<in> set (hdls args) \<Longrightarrow> hdl \<in> {''verilog'', ''vhdl''}"
  by (auto simp: hdls_def)

text \<open>A child runs the one suite it was started for and reports whether it failed.\<close>

lemma script_child:
  assumes "name \<in> fst ` set suites" "\<not> prefix ''-'' name" "hdl \<in> {''verilog'', ''vhdl''}"
    "\<not> (hdl = ''vhdl'' \<and> skips_vhdl suites name)" "plain_test args"
  shows "script suites broken run child (child_argv name hdl args) = 0 \<longleftrightarrow>
    run (c_seed args) (c_test args) (c_waves args) name hdl = Inr 0"
proof -
  have c: "c_suite (child_args name hdl args) = [name]" "c_list (child_args name hdl args) = False"
    "c_jobs (child_args name hdl args) = 1" "c_seed (child_args name hdl args) = c_seed args"
    "c_test (child_args name hdl args) = c_test args" "c_waves (child_args name hdl args) = c_waves args"
    by (simp_all add: child_args_def)
  show ?thesis
    unfolding script_def parse_child_argv [OF assms(2, 3, 5)] cocotb_main_def
      plan_jobs_child [OF assms(3, 4)] Let_def option.case c
    using assms(1) by (auto split: sum.splits)
qed

section \<open>Theorems\<close>

text \<open>The VHDL source list of a suite without its own: the packages first, every mapped file once,
  and every dependency that the Verilog sources do not show in front of the entity that needs it.\<close>

theorem vhdl_sources_ordered:
  assumes "map_of spec ''vhdl_sources'' = None" "map_of spec ''sources'' = Some (LList (map LStr ss))"
    and "suite_vhdl_sources spec = Inr out" and "s \<in> set ss" and "d \<in> set (extra_deps (path_stem s))"
  shows "distinct out \<and> (\<exists>xs ys. out = xs @ vhd_of s # ys \<and> d \<in> set xs)"
proof -
  obtain target where out: "out = add_new [target_pkg target, VHDL_UTIL] (concat (map mapped ss))"
    using assms(1, 2, 3) by (auto simp: suite_vhdl_sources_def key_def res_bind_Inr_iff)
  have stem: "path_stem s \<in> {''eth_mac_rx'', ''axilite_regs''}"
    using extra_deps_stem [OF assms(5)] by (auto simp: VHDL_EXTRA_DEPS_def)
  have base: "basename (vhd_of s) = path_stem s @ ''.vhd''" by (rule basename_vhd_of)
  have "basename VHDL_UTIL = ''emz_util_pkg.vhd''" by (simp add: VHDL_UTIL_def basename_def)
  then have notin: "vhd_of s \<notin> set [target_pkg target, VHDL_UTIL]"
    using stem base vhd_of_not_target [OF extra_deps_stem [OF assms(5)]] by auto
  have nodep: "vhd_of s \<notin> set (extra_deps name)" for name
    using stem base extra_dep_basename [of "vhd_of s" name] by auto
  obtain A s' B where ss: "ss = A @ s' # B" and s': "vhd_of s' = vhd_of s"
    and A: "\<forall>a \<in> set A. vhd_of a \<noteq> vhd_of s"
    using split_list_first_prop [of ss "\<lambda>x. vhd_of x = vhd_of s"] assms(4) by blast
  have "path_stem s' = path_stem s"
    using basename_vhd_of [of s'] basename_vhd_of [of s] s' by simp
  then have files: "concat (map mapped ss)
      = (concat (map mapped A) @ extra_deps (path_stem s)) @ vhd_of s # concat (map mapped B)"
    by (simp add: ss mapped_def s')
  have "vhd_of s \<notin> set (concat (map mapped A) @ extra_deps (path_stem s))"
    using A nodep by (auto simp: mapped_def)
  then have "\<exists>xs ys. out = xs @ vhd_of s # ys \<and> d \<in> set xs"
    unfolding out files by (rule add_new_order [OF notin]) (use assms(5) in simp)
  moreover have "distinct out"
    unfolding out by (rule distinct_add_new) (simp add: target_pkg_def VHDL_UTIL_def)
  ultimately show ?thesis by blast
qed

theorem vhdl_sources_ordered_witness:
  "distinct [target_pkg ''SIM'', VHDL_UTIL, ''rtl/vhdl/csum_calc.vhd'', ''rtl/vhdl/eth_mac_rx.vhd'']
    \<and> (\<exists>xs ys. [target_pkg ''SIM'', VHDL_UTIL, ''rtl/vhdl/csum_calc.vhd'', ''rtl/vhdl/eth_mac_rx.vhd'']
        = xs @ vhd_of ''rtl/eth_mac_rx.v'' # ys \<and> ''rtl/vhdl/csum_calc.vhd'' \<in> set xs)"
  by (rule vhdl_sources_ordered [of "[(''sources'', LList (map LStr [''rtl/eth_mac_rx.v'', ''rtl/net/csum_calc.v'']))]"
        "[''rtl/eth_mac_rx.v'', ''rtl/net/csum_calc.v'']"]; code_simp)

text \<open>C27: When discovery reports no error, the suites are exactly those the modules declare, under their
  own names and with their own specification: nothing is lost and nothing overwritten.\<close>

theorem discover_complete:
  assumes "discover modules = (suites, [])"
  shows "distinct (map fst suites) \<and>
    (map_of suites name = Some spec \<longleftrightarrow> list_ex (\<lambda>m. declared m name = Some spec) modules)"
proof -
  have d: "foldl discover_module ([], []) (sort_key (\<lambda>m. fst m @ ''.py'') modules) = (suites, [])"
    using assms by (simp add: discover_def)
  have "distinct (map fst suites)"
    using discover_distinct [of "([], [])" "sort_key (\<lambda>m. fst m @ ''.py'') modules"] d by simp
  then show ?thesis using discover_from [OF d] by (simp add: list_ex_iff)
qed

definition two_modules :: "test_module list" where
  "two_modules = [(''test_rx'', Inr [Inr [(''rx'', [(''toplevel'', LStr ''eth_mac_rx'')])]]),
     (''test_crc'', Inr [Inr [(''crc'', [(''toplevel'', LStr ''crc32'')])]])]"

theorem discover_complete_witness:
  "distinct (map fst (fst (discover two_modules))) \<and>
    (map_of (fst (discover two_modules)) ''rx''
      = Some [(''toplevel'', LStr ''eth_mac_rx''), (''test_module'', LStr ''test_rx'')]
      \<longleftrightarrow> list_ex (\<lambda>m. declared m ''rx'' = Some [(''toplevel'', LStr ''eth_mac_rx''), (''test_module'', LStr ''test_rx'')])
            two_modules)"
proof (rule discover_complete)
  have "snd (discover two_modules) = []" by code_simp
  then show "discover two_modules = (fst (discover two_modules), [])" by (simp add: prod_eq_iff)
qed

text \<open>A test module that cannot be read is skipped: the suites are those of the other modules.\<close>

theorem broken_module_isolated:
  "fst (discover modules) = fst (discover (filter readable modules))"
  unfolding discover_def filter_sort [symmetric] by (rule discover_from_readable)

text \<open>C22: The runner exits with 0 exactly when every planned suite run ends without a failure and no test
  module was broken (unless suites were named), whether the runs are made in this process or by
  child processes of the same script.\<close>

theorem cocotb_exit_zero_iff:
  assumes "set (c_suite args) \<subseteq> set (map fst suites)" and "\<not> c_list args"
    and "c_hdl args \<in> {''verilog'', ''vhdl'', ''both''}" and "plain_test args"
    and "list_all (\<lambda>name. \<not> prefix ''-'' name) (map fst suites)"
  shows "cocotb_main suites broken run (script suites broken run child) args = 0 \<longleftrightarrow>
    list_all (\<lambda>(name, hdl). run (c_seed args) (c_test args) (c_waves args) name hdl = Inr 0)
      (plan_jobs suites args)
    \<and> (broken = [] \<or> c_suite args \<noteq> [])"
proof -
  let ?run = "run (c_seed args) (c_test args) (c_waves args)"
  let ?jobs = "plan_jobs suites args"
  have "script suites broken run child (child_argv name hdl args) = 0 \<longleftrightarrow> ?run name hdl = Inr 0"
    if "(name, hdl) \<in> set ?jobs" for name hdl
  proof (rule script_child)
    show "name \<in> fst ` set suites"
      using that suite_names_known assms(1) by (simp add: plan_jobs_in)
    then show "\<not> prefix ''-'' name" using assms(5) by (auto simp: list_all_iff)
  qed (use that assms hdls_cases in \<open>auto simp: plan_jobs_in\<close>)
  then have "filter (\<lambda>(name, hdl). script suites broken run child (child_argv name hdl args) \<noteq> 0) ?jobs = []
      \<longleftrightarrow> list_all (\<lambda>(name, hdl). ?run name hdl = Inr 0) ?jobs"
    by (auto simp: filter_empty_conv list_all_iff)
  moreover have "list_all (\<lambda>(name, hdl). ?run name hdl = Inr 0) ?jobs \<longleftrightarrow> ?run (fst (hd ?jobs)) (snd (hd ?jobs)) = Inr 0"
    if "length ?jobs = 1"
    using that by (cases ?jobs) (auto simp: split_beta)
  ultimately show ?thesis
    using assms(1, 2) unfolding cocotb_main_def Let_def
    by (cases "?run (fst (hd ?jobs)) (snd (hd ?jobs))") auto
qed

theorem cocotb_exit_zero_iff_witness:
  "cocotb_main (fst (discover two_modules)) [] (\<lambda>_ _ _ _ _. Inr 0)
      (script (fst (discover two_modules)) [] (\<lambda>_ _ _ _ _. Inr 0) (\<lambda>_. 1))
      (no_args\<lparr>c_hdl := ''both'', c_seed := Some (- 3)\<rparr>) = 0 \<longleftrightarrow>
    list_all (\<lambda>(name, hdl). (Inr 0 :: nat res) = Inr 0)
      (plan_jobs (fst (discover two_modules)) (no_args\<lparr>c_hdl := ''both'', c_seed := Some (- 3)\<rparr>))
    \<and> (([] :: string list) = [] \<or> c_suite (no_args\<lparr>c_hdl := ''both'', c_seed := Some (- 3)\<rparr>) \<noteq> [])"
  by (rule cocotb_exit_zero_iff; code_simp)

end
