(* ===== verification/Emz_Litex.thy ===== *)
theory Emz_Litex
  imports Emz_Text Complex_Main
begin

text \<open>
  \<open>litex_emaczero/emaczero.py\<close>: the LiteX wrapper of \<open>eth_mac_sys\<close>. Modelled are the list of
  Verilog sources and their registration with the platform, the checks of the arguments, and the
  dictionary of parameters and ports the wrapper instantiates the Verilog module with. What a port
  is connected to is named: a signal of the wrapper, a pad, a fresh signal or a constant; the
  signals themselves belong to migen. The parameters and ports of the Verilog module are copied
  from \<open>rtl/eth_mac_sys.v\<close>, so that the instance can be compared with it.
\<close>

section \<open>Sources\<close>

definition CORE_SOURCES :: "string list" where
  "CORE_SOURCES =
    [''rtl/crc32.v'', ''rtl/async_fifo.v'', ''rtl/sync_fifo.v'', ''rtl/mii_if.v'',
     ''rtl/net/csum_calc.v'', ''rtl/eth_mac_rx.v'', ''rtl/eth_mac_tx.v'', ''rtl/eth_mac.v'',
     ''rtl/mdio_master.v'', ''rtl/eth_stats.v'', ''rtl/eth_pause_rx.v'', ''rtl/eth_pause.v'',
     ''rtl/axilite_regs.v'', ''rtl/ddr_output.v'', ''rtl/ddr_input.v'', ''rtl/rgmii_if.v'',
     ''rtl/gmii_cdc.v'', ''rtl/net/tx_csum_off.v'', ''rtl/eth_mac_sys.v'']"

definition INCLUDE_DIRS :: "string list" where "INCLUDE_DIRS = [''rtl'']"

text \<open>The platform: the sources and include directories it was given, and whether it has
  \<open>add_verilog_include_path\<close>.\<close>

record platform =
  pf_sources :: "string list"
  pf_includes :: "string list"
  pf_has_include :: bool

definition add_sources :: "string \<Rightarrow> platform \<Rightarrow> platform" where
  "add_sources repo p =
    (let in_repo = (\<lambda>f. repo @ ''/'' @ f);
         p = p\<lparr>pf_sources := pf_sources p @ map in_repo CORE_SOURCES\<rparr>
     in if pf_has_include p
        then p\<lparr>pf_includes := pf_includes p @ map in_repo INCLUDE_DIRS\<rparr> else p)"

section \<open>The wrapper\<close>

datatype conn =
    PStr string
  | PInt int
  | Net string
  | Pad string
  | Fresh nat
  | Clock string
  | NotReset string

record litex_args =
  x_phy :: string
  x_mcast :: int
  x_max_frame :: int
  x_tx_csum :: int
  x_rx_csum :: int
  x_clk :: rat
  x_speeds :: string


text \<open>\<open>pads.a\<close>, and \<open>getattr(pads, a, Signal())\<close>: \<open>pads\<close> are the names of the attributes.\<close>

definition pad :: "string list \<Rightarrow> string \<Rightarrow> conn res" where
  "pad pads a = (if a \<in> set pads then Inr (Pad a) else Inl (AttributeError a))"

definition pad_or_fresh :: "string list \<Rightarrow> string \<Rightarrow> conn" where
  "pad_or_fresh pads a = (if a \<in> set pads then Pad a else Fresh 1)"

definition trunc :: "rat \<Rightarrow> int" where
  "trunc x = (if 0 \<le> x then floor x else ceiling x)"

fun dict_of :: "(string \<times> conn res) list \<Rightarrow> (string \<times> conn) list res" where
  "dict_of [] = Inr []"
| "dict_of ((k, v) # kvs) = res_bind v (\<lambda>v. res_bind (dict_of kvs) (\<lambda>d. Inr ((k, v) # d)))"

definition common_ports :: "string list \<Rightarrow> litex_args \<Rightarrow> (string \<times> conn res) list" where
  "common_ports pads a =
    [(''p_PHY_INTERFACE'', Inr (PStr (x_phy a))),
     (''p_MCAST_HASH_FILTER'', Inr (PInt (x_mcast a))),
     (''p_MAX_FRAME'', Inr (PInt (x_max_frame a))),
     (''p_TX_CSUM_OFFLOAD'', Inr (PInt (x_tx_csum a))),
     (''p_RX_CSUM_OFFLOAD'', Inr (PInt (x_rx_csum a))),
     (''p_CLK_FREQ_HZ'', Inr (PInt (trunc (x_clk a)))),
     (''p_RGMII_SPEEDS'', Inr (PStr (x_speeds a))), (''i_clk'', Inr (Clock ''sys'')),
     (''i_rst_n'', Inr (NotReset ''sys'')), (''i_s_axi_awaddr'', Inr (Net ''s_axi.aw.addr'')),
     (''i_s_axi_awvalid'', Inr (Net ''s_axi.aw.valid'')),
     (''o_s_axi_awready'', Inr (Net ''s_axi.aw.ready'')),
     (''i_s_axi_wdata'', Inr (Net ''s_axi.w.data'')),
     (''i_s_axi_wstrb'', Inr (Net ''s_axi.w.strb'')),
     (''i_s_axi_wvalid'', Inr (Net ''s_axi.w.valid'')),
     (''o_s_axi_wready'', Inr (Net ''s_axi.w.ready'')),
     (''o_s_axi_bresp'', Inr (Net ''s_axi.b.resp'')),
     (''o_s_axi_bvalid'', Inr (Net ''s_axi.b.valid'')),
     (''i_s_axi_bready'', Inr (Net ''s_axi.b.ready'')),
     (''i_s_axi_araddr'', Inr (Net ''s_axi.ar.addr'')),
     (''i_s_axi_arvalid'', Inr (Net ''s_axi.ar.valid'')),
     (''o_s_axi_arready'', Inr (Net ''s_axi.ar.ready'')),
     (''o_s_axi_rdata'', Inr (Net ''s_axi.r.data'')),
     (''o_s_axi_rresp'', Inr (Net ''s_axi.r.resp'')),
     (''o_s_axi_rvalid'', Inr (Net ''s_axi.r.valid'')),
     (''i_s_axi_rready'', Inr (Net ''s_axi.r.ready'')),
     (''i_s_axis_tdata'', Inr (Net ''sink.data'')),
     (''i_s_axis_tvalid'', Inr (Net ''sink.valid'')),
     (''o_s_axis_tready'', Inr (Net ''sink.ready'')),
     (''i_s_axis_tlast'', Inr (Net ''sink.last'')),
     (''o_m_axis_tdata'', Inr (Net ''source.data'')),
     (''o_m_axis_tvalid'', Inr (Net ''source.valid'')),
     (''i_m_axis_tready'', Inr (Net ''source.ready'')),
     (''o_m_axis_tlast'', Inr (Net ''source.last'')),
     (''o_m_axis_terror'', Inr (Net ''source.error'')),
     (''o_m_axis_tsof'', Inr (Net ''source.first'')), (''o_mdc'', pad pads ''mdc''),
     (''o_mdio_o'', Inr (Net ''mdio_t.o'')), (''o_mdio_oe'', Inr (Net ''mdio_t.oe'')),
     (''i_mdio_i'', Inr (Net ''mdio_t.i'')), (''o_irq'', Inr (Net ''irq''))]"

definition mii_ports :: "string list \<Rightarrow> (string \<times> conn res) list" where
  "mii_ports pads =
    [(''o_mii_txd'', pad pads ''tx_data''), (''o_mii_tx_en'', pad pads ''tx_en''),
     (''i_mii_tx_clk'', pad pads ''tx_clk''), (''i_mii_rxd'', pad pads ''rx_data''),
     (''i_mii_rx_dv'', pad pads ''rx_dv''), (''i_mii_rx_er'', pad pads ''rx_er''),
     (''i_mii_rx_clk'', pad pads ''rx_clk''), (''i_mii_col'', Inr (pad_or_fresh pads ''col'')),
     (''i_mii_crs'', Inr (pad_or_fresh pads ''crs'')), (''i_clk_125'', Inr (Net ''clk_125'')),
     (''i_clk_125_90'', Inr (Net ''clk_125_90'')), (''i_clk_25'', Inr (Net ''clk_25'')),
     (''i_clk_2_5'', Inr (Net ''clk_2_5'')), (''o_rgmii_txd'', Inr (Fresh 4)),
     (''o_rgmii_tx_ctl'', Inr (Fresh 1)), (''o_rgmii_txc'', Inr (Fresh 1)),
     (''i_rgmii_rxd'', Inr (PInt 0)), (''i_rgmii_rx_ctl'', Inr (PInt 0)),
     (''i_rgmii_rxc'', Inr (PInt 0))]"

definition rgmii_ports :: "string list \<Rightarrow> (string \<times> conn res) list" where
  "rgmii_ports pads =
    [(''o_rgmii_txd'', pad pads ''tx_data''), (''o_rgmii_tx_ctl'', pad pads ''tx_ctl''),
     (''o_rgmii_txc'', pad pads ''txc''), (''i_rgmii_rxd'', pad pads ''rx_data''),
     (''i_rgmii_rx_ctl'', pad pads ''rx_ctl''), (''i_rgmii_rxc'', pad pads ''rxc''),
     (''i_clk_125'', Inr (Net ''clk_125'')), (''i_clk_125_90'', Inr (Net ''clk_125_90'')),
     (''i_clk_25'', Inr (Net ''clk_25'')), (''i_clk_2_5'', Inr (Net ''clk_2_5'')),
     (''o_mii_txd'', Inr (Fresh 4)), (''o_mii_tx_en'', Inr (Fresh 1)),
     (''i_mii_tx_clk'', Inr (PInt 0)), (''i_mii_rxd'', Inr (PInt 0)),
     (''i_mii_rx_dv'', Inr (PInt 0)), (''i_mii_rx_er'', Inr (PInt 0)),
     (''i_mii_rx_clk'', Inr (PInt 0)), (''i_mii_col'', Inr (PInt 0)),
     (''i_mii_crs'', Inr (PInt 0))]"

text \<open>The checks of the arguments.\<close>

definition litex_fault :: "litex_args \<Rightarrow> string option" where
  "litex_fault a =
    (if x_phy a \<notin> {''MII'', ''RGMII''} then Some ''phy_interface must be MII or RGMII''
     else if x_speeds a \<notin> {''ALL'', ''1G_ONLY'', ''10_100''}
     then Some ''rgmii_speeds must be ALL, 1G_ONLY or 10_100''
     else if x_phy a = ''RGMII'' \<and> x_speeds a \<noteq> ''10_100'' \<and> x_clk a < 125000000
     then Some ''RGMII with 1G enabled needs a sys clock >= 125 MHz''
     else None)"

text \<open>The constructor: the platform afterwards, and the dictionary of the instance.\<close>

definition emaczero :: "string \<Rightarrow> string list \<Rightarrow> litex_args \<Rightarrow> platform \<Rightarrow> platform \<times> (string \<times> conn) list res" where
  "emaczero repo pads a p =
    (case litex_fault a of
       Some e \<Rightarrow> (p, Inl (ValueError e))
     | None \<Rightarrow>
        (add_sources repo p,
         res_bind (dict_of (common_ports pads a)) (\<lambda>params.
         res_bind (dict_of (if x_phy a = ''MII'' then mii_ports pads else rgmii_ports pads)) (\<lambda>phy.
         Inr (dict_update params phy)))))"

section \<open>The Verilog module\<close>





definition required_pads :: "string \<Rightarrow> string list" where
  "required_pads phy = ''mdc'' #
    (if phy = ''MII'' then [''tx_data'', ''tx_en'', ''tx_clk'', ''rx_data'', ''rx_dv'', ''rx_er'', ''rx_clk'']
     else [''tx_data'', ''tx_ctl'', ''txc'', ''rx_data'', ''rx_ctl'', ''rxc''])"

section \<open>Lemmas\<close>


lemma dict_of_returns: "returns (dict_of kvs) \<longleftrightarrow> list_all (\<lambda>(k, v). returns v) kvs"
  by (induction kvs rule: dict_of.induct) (auto simp: returns_iff res_bind_Inr_iff)

declare dict_of.simps [simp del]


lemma pad_returns [simp]: "returns (pad pads a) \<longleftrightarrow> a \<in> set pads"
  by (simp add: pad_def)

lemma returns_bind2:
  "returns (res_bind a (\<lambda>x. res_bind b (\<lambda>y. Inr (f x y)))) \<longleftrightarrow> returns a \<and> returns b"
  by (cases a; cases b) simp_all








section \<open>Theorems\<close>






text \<open>The constructor succeeds exactly when the interface and the speeds are known ones, a build that
  can run at 1G has a clock of at least 125 MHz, and the pads of the interface are there. The
  platform gets the sources when the arguments pass, and nothing otherwise.\<close>

theorem emaczero_accepts_iff:
  "(returns (snd (emaczero repo pads a p)) \<longleftrightarrow>
      x_phy a \<in> {''MII'', ''RGMII''} \<and> x_speeds a \<in> {''ALL'', ''1G_ONLY'', ''10_100''}
      \<and> (x_phy a = ''MII'' \<or> x_speeds a = ''10_100'' \<or> 125000000 \<le> x_clk a)
      \<and> list_all (\<lambda>n. n \<in> set pads) (required_pads (x_phy a)))
   \<and> fst (emaczero repo pads a p) = (if litex_fault a = None then add_sources repo p else p)"
proof -
  have ok: "litex_fault a = None \<longleftrightarrow>
      x_phy a \<in> {''MII'', ''RGMII''} \<and> x_speeds a \<in> {''ALL'', ''1G_ONLY'', ''10_100''}
      \<and> (x_phy a = ''MII'' \<or> x_speeds a = ''10_100'' \<or> 125000000 \<le> x_clk a)"
    by (auto simp: litex_fault_def)
  have "returns (dict_of (common_ports pads a)) \<longleftrightarrow> ''mdc'' \<in> set pads"
    by (simp add: dict_of_returns common_ports_def)
  moreover have "returns (dict_of (mii_ports pads)) \<longleftrightarrow>
      list_all (\<lambda>n. n \<in> set pads) (tl (required_pads ''MII''))"
    by (simp add: dict_of_returns mii_ports_def required_pads_def)
  moreover have "returns (dict_of (rgmii_ports pads)) \<longleftrightarrow>
      list_all (\<lambda>n. n \<in> set pads) (tl (required_pads ''RGMII''))"
    by (simp add: dict_of_returns rgmii_ports_def required_pads_def)
  ultimately have "returns (snd (emaczero repo pads a p)) \<longleftrightarrow>
      litex_fault a = None \<and> list_all (\<lambda>n. n \<in> set pads) (required_pads (x_phy a))"
    using ok by (cases "litex_fault a") (auto simp: emaczero_def returns_bind2 required_pads_def)
  moreover have "fst (emaczero repo pads a p) = (if litex_fault a = None then add_sources repo p else p)"
    by (auto simp: emaczero_def split: option.splits)
  ultimately show ?thesis unfolding ok by (simp only: conj_assoc simp_thms)
qed

end
