(* ===== verification/Emz_Udp.thy ===== *)
theory Emz_Udp
  imports Emz_Serial
begin

unbundle bit_operations_syntax

text \<open>
  \<open>fpga/arty_a7/scripts/udp_throughput.py\<close>: the one-way UDP throughput test of the Arty A7. The
  sender is modelled against the readings of the clock and the outcomes of \<open>sendto\<close>, one record
  per round of its loop; the UART monitor against the lines it reads; then the results and the
  verdict. Times and rates are rationals where the program has floats.
\<close>

section \<open>The sender\<close>

definition uart_port :: "port list \<Rightarrow> string option" where
  "uart_port ports =
    (case List.find (\<lambda>p. p_vid p = Some 0x0403 \<and> suffix ''B'' (or_empty (p_serial p))) ports of
       Some p \<Rightarrow> Some (p_device p)
     | None \<Rightarrow> map_option p_device (List.find (\<lambda>p. p_vid p = Some 0x0403) ports))"

text \<open>Ethernet, IP and UDP headers, padding, FCS, preamble and inter-frame gap.\<close>

definition psize_wire :: "nat \<Rightarrow> nat" where
  "psize_wire n = 14 + 20 + 8 + max n 18 + 4 + 8 + 12"

definition send_interval :: "rat \<Rightarrow> nat \<Rightarrow> rat" where
  "send_interval mbps n =
    (let pps = (if 0 < mbps then mbps * 1000000 / 8 / of_nat (psize_wire n) else 10 ^ 9)
     in if 0 < pps then 1 / pps else 0)"

text \<open>A round of the loop: the stop flag and the reading of the clock for the loop condition,
  whether \<open>sendto\<close> succeeded, the reading for the slack and the one for giving up the pacing.\<close>

record send_round =
  r_stop :: bool
  r_now :: rat
  r_sent :: bool
  r_slack :: rat
  r_reset :: rat

record sender =
  sd_pkts :: nat
  sd_bytes :: nat
  sd_next :: rat

definition sender_init :: "rat \<Rightarrow> sender" where
  "sender_init start = \<lparr>sd_pkts = 0, sd_bytes = 0, sd_next = start\<rparr>"

text \<open>After a datagram was sent: the state, and the time asked to sleep.\<close>

definition sender_sent :: "rat \<Rightarrow> nat \<Rightarrow> send_round \<Rightarrow> sender \<Rightarrow> sender \<times> rat" where
  "sender_sent interval n r s =
    (let s = s\<lparr>sd_pkts := sd_pkts s + 1, sd_bytes := sd_bytes s + n\<rparr>;
         t = sd_next s + interval; slack = t - r_slack r
     in if \<not> 0 < interval then (s, 0)
        else if slack > 5 / 10000 then (s\<lparr>sd_next := t\<rparr>, slack)
        else if slack < - 5 / 100 then (s\<lparr>sd_next := r_reset r\<rparr>, 0)
        else (s\<lparr>sd_next := t\<rparr>, 0))"

definition sender_round :: "rat \<Rightarrow> nat \<Rightarrow> send_round \<Rightarrow> sender \<Rightarrow> sender \<times> rat" where
  "sender_round interval n r s = (if r_sent r then sender_sent interval n r s else (s, 1 / 1000))"

text \<open>The loop; the result comes with the reading that ended it. \<open>None\<close>: the rounds ended first.\<close>

fun sender_run :: "rat \<Rightarrow> nat \<Rightarrow> rat \<Rightarrow> send_round list \<Rightarrow> sender \<Rightarrow> (sender \<times> rat) option" where
  "sender_run interval n stop_at [] s = None"
| "sender_run interval n stop_at (r # rs) s =
    (if \<not> r_stop r \<and> r_now r < stop_at
     then sender_run interval n stop_at rs (fst (sender_round interval n r s))
     else Some (s, r_now r))"

definition actual_mbps :: "sender \<Rightarrow> rat \<Rightarrow> rat" where
  "actual_mbps s elapsed = (if 0 < elapsed then of_nat (sd_bytes s) * 8 / elapsed / 1000000 else 0)"

section \<open>The UART monitor\<close>

definition STAT_KEYS :: "string list" where
  "STAT_KEYS = [''RXF'', ''RXB'', ''RXE'', ''OVF'']"

text \<open>\<open>LINE_RE\<close> on a stripped line.\<close>

definition stat_line :: "string \<Rightarrow> (string \<times> nat) option" where
  "stat_line line =
    Option.bind (m_word STAT_KEYS line) (\<lambda>(k, s). Option.bind (m_lit '':'' s) (\<lambda>s.
    let d = spaces0 s
    in if 1 \<le> length d \<and> length d \<le> 8 \<and> list_all py_hex d
       then Some (k, foldl (\<lambda>n c. 16 * n + digit_value c) 0 d) else None))"

type_synonym sample = "rat \<times> string \<times> int"

text \<open>Each line comes with the reading of the clock (since the start) that a sample gets;
  \<open>None\<close> is the exception of the port. The list ends where the stop event is set.\<close>

fun monitor_uart :: "(rat \<times> string option) list \<Rightarrow> sample list" where
  "monitor_uart [] = []"
| "monitor_uart ((t, None) # rest) = []"
| "monitor_uart ((t, Some raw) # rest) =
    (case (if strip raw = [] then None else stat_line (strip raw)) of
       None \<Rightarrow> monitor_uart rest
     | Some (k, v) \<Rightarrow> (t, k, int v) # monitor_uart rest)"

fun deltas_from :: "(string \<rightharpoonup> int) \<Rightarrow> sample list \<Rightarrow> (rat \<times> string \<times> int \<times> int) list" where
  "deltas_from prev [] = []"
| "deltas_from prev ((t, k, v) # xs) =
    (t, k, v, case prev k of Some p \<Rightarrow> v - p | None \<Rightarrow> 0) # deltas_from (prev(k \<mapsto> v)) xs"

definition deltas :: "sample list \<Rightarrow> (rat \<times> string \<times> int \<times> int) list" where
  "deltas xs = deltas_from Map.empty xs"

section \<open>Results\<close>

definition last_values :: "sample list \<Rightarrow> string \<rightharpoonup> int" where
  "last_values xs = map_of (rev (map snd xs))"

text \<open>The baseline: the last eight samples of the warm-up, whose keys are all counters.\<close>

definition baseline :: "sample list \<Rightarrow> string \<rightharpoonup> int" where
  "baseline xs = last_values (filter (\<lambda>(_, k, _). k \<in> set STAT_KEYS) (drop (length xs - 8) xs))"

definition get0 :: "(string \<rightharpoonup> int) \<Rightarrow> string \<Rightarrow> int" where
  "get0 d k = (case d k of Some v \<Rightarrow> v | None \<Rightarrow> 0)"

definition counter_delta :: "(string \<rightharpoonup> int) \<Rightarrow> (string \<rightharpoonup> int) \<Rightarrow> string \<Rightarrow> int" where
  "counter_delta base fin k = (get0 fin k - get0 base k) AND 0xFFFFFFFF"

record board_rx =
  rx_frames_d :: int
  rx_bytes_d :: int
  rx_errors_d :: int
  rx_overflow_d :: int
  rx_window :: rat
  rx_mbps :: rat
  rx_pps :: rat
  rx_loss_pct :: rat

definition board_results ::
  "(string \<rightharpoonup> int) \<Rightarrow> sample list \<Rightarrow> nat \<Rightarrow> rat \<Rightarrow> board_rx option" where
  "board_results base samples sent_pkts t_send =
    (let fin = last_values samples; d = counter_delta base fin;
         ts = map fst (filter (\<lambda>(_, k, _). k = ''RXB'') samples);
         win = (if 2 \<le> length ts then last ts - hd ts else max t_send 1)
     in if base ''RXB'' \<noteq> None \<and> fin ''RXB'' \<noteq> None then
          Some \<lparr>rx_frames_d = d ''RXF'', rx_bytes_d = d ''RXB'', rx_errors_d = d ''RXE'',
            rx_overflow_d = d ''OVF'', rx_window = win,
            rx_mbps = of_int (d ''RXB'') * 8 / win / 1000000,
            rx_pps = of_int (d ''RXF'') / win,
            rx_loss_pct = 100 * of_int (int sent_pkts - d ''RXF'') / of_nat (max sent_pkts 1)\<rparr>
        else None)"

text \<open>The exit code: 1 for an overflow, 2 without a port (or when it cannot be opened).\<close>

definition udp_verdict :: "(string \<rightharpoonup> int) \<Rightarrow> sample list \<Rightarrow> nat" where
  "udp_verdict base samples =
    (case last_values samples ''OVF'' of
       Some v \<Rightarrow> if v \<noteq> get0 base ''OVF'' then 1 else 0
     | None \<Rightarrow> 0)"

definition udp_exit ::
  "string option \<Rightarrow> port list \<Rightarrow> (string \<Rightarrow> bool) \<Rightarrow> sample list \<Rightarrow> sample list \<Rightarrow> nat" where
  "udp_exit arg ports opens warmup samples =
    (case (case arg of Some p \<Rightarrow> (if p = [] then uart_port ports else Some p) | None \<Rightarrow> uart_port ports) of
       None \<Rightarrow> 2
     | Some p \<Rightarrow> if p = [] \<or> \<not> opens p then 2 else udp_verdict (baseline warmup) samples)"

section \<open>Lemmas\<close>

text \<open>The earliest reading the next round can have: a sleep lasts at least as long as asked, and the
  clock does not go back.\<close>

definition not_before :: "rat \<Rightarrow> nat \<Rightarrow> send_round \<Rightarrow> sender \<Rightarrow> rat" where
  "not_before interval n r s =
    (let slack = sd_next s + interval - r_slack r
     in if \<not> r_sent r then r_now r + 1 / 1000
        else if slack > 5 / 10000 then r_slack r + slack
        else if slack < - 5 / 100 then r_reset r
        else r_slack r)"

fun timely :: "rat \<Rightarrow> nat \<Rightarrow> rat \<Rightarrow> send_round list \<Rightarrow> sender \<Rightarrow> bool" where
  "timely interval n now [] s = True"
| "timely interval n now (r # rs) s =
    (now \<le> r_now r \<and> r_now r \<le> r_slack r \<and> r_slack r \<le> r_reset r
     \<and> timely interval n (not_before interval n r s) rs (fst (sender_round interval n r s)))"

text \<open>The invariant of the pacing: the next datagram is due no earlier than its place in the
  schedule, and the clock lags at most half a millisecond behind that.\<close>

definition paced :: "rat \<Rightarrow> rat \<Rightarrow> rat \<Rightarrow> sender \<Rightarrow> bool" where
  "paced interval start now s \<longleftrightarrow>
    start + of_nat (sd_pkts s) * interval \<le> sd_next s \<and> sd_next s \<le> now + 5 / 10000"

lemma paced_round:
  assumes "paced interval start now s" "0 < interval"
    and "now \<le> r_now r" "r_now r \<le> r_slack r" "r_slack r \<le> r_reset r"
  shows "paced interval start (not_before interval n r s) (fst (sender_round interval n r s))"
  using assms by (auto simp: paced_def not_before_def sender_round_def sender_sent_def Let_def algebra_simps)

lemma paced_run:
  "sender_run interval n stop_at rs s = Some (s', t) \<Longrightarrow> timely interval n now rs s \<Longrightarrow>
    paced interval start now s \<Longrightarrow> 0 < interval \<Longrightarrow>
    start + of_nat (sd_pkts s') * interval \<le> t + 5 / 10000"
proof (induction rs arbitrary: s now)
  case (Cons r rs)
  have t: "now \<le> r_now r" "r_now r \<le> r_slack r" "r_slack r \<le> r_reset r"
    "timely interval n (not_before interval n r s) rs (fst (sender_round interval n r s))"
    using Cons.prems(2) by simp_all
  show ?case
  proof (cases "\<not> r_stop r \<and> r_now r < stop_at")
    case True
    then have run: "sender_run interval n stop_at rs (fst (sender_round interval n r s)) = Some (s', t)"
      using Cons.prems(1) by simp
    show ?thesis
      using Cons.IH [OF run t(4) paced_round [OF Cons.prems(3, 4) t(1, 2, 3)] Cons.prems(4)] .
  next
    case False
    then have "s' = s" "t = r_now r" using Cons.prems(1) by (auto split: if_splits)
    then show ?thesis using Cons.prems(3) t(1) by (auto simp: paced_def)
  qed
qed simp

lemma send_interval_pos: "0 < send_interval mbps n"
  by (simp add: send_interval_def psize_wire_def Let_def)

lemma send_interval_rate:
  "0 < mbps \<Longrightarrow> send_interval mbps n * (mbps * 1000000) = 8 * of_nat (psize_wire n)"
  by (simp add: send_interval_def psize_wire_def Let_def)

lemma sender_bytes:
  "sender_run interval n stop_at rs s = Some (s', t) \<Longrightarrow> sd_bytes s = sd_pkts s * n \<Longrightarrow>
    sd_bytes s' = sd_pkts s' * n"
proof (induction rs arbitrary: s)
  case (Cons r rs)
  have "sd_bytes (fst (sender_round interval n r s)) = sd_pkts (fst (sender_round interval n r s)) * n"
    using Cons.prems(2) by (simp add: sender_round_def sender_sent_def Let_def)
  then show ?case using Cons by (auto split: if_splits)
qed simp

text \<open>The values of one counter.\<close>

definition values_of :: "string \<Rightarrow> sample list \<Rightarrow> int list" where
  "values_of k xs = map (\<lambda>(_, _, v). v) (filter (\<lambda>(_, k', _). k' = k) xs)"

definition delta_sum :: "string \<Rightarrow> (rat \<times> string \<times> int \<times> int) list \<Rightarrow> int" where
  "delta_sum k ds = sum_list (map (\<lambda>(_, _, _, d). d) (filter (\<lambda>(_, k', _, _). k' = k) ds))"

lemma deltas_from_sum:
  "delta_sum k (deltas_from prev xs) =
    (case values_of k xs of [] \<Rightarrow> 0
     | v # vs \<Rightarrow> last (v # vs) - (case prev k of Some p \<Rightarrow> p | None \<Rightarrow> v))"
proof (induction prev xs rule: deltas_from.induct)
  case (2 prev t k' v xs)
  show ?case
  proof (cases "k' = k")
    case True
    have "delta_sum k (deltas_from prev ((t, k', v) # xs))
        = (case prev k of Some p \<Rightarrow> v - p | None \<Rightarrow> 0) + delta_sum k (deltas_from (prev(k' \<mapsto> v)) xs)"
      using True by (simp add: delta_sum_def)
    then show ?thesis
      unfolding 2 using True by (auto simp: values_of_def split: list.splits option.splits)
  next
    case False
    then have "delta_sum k (deltas_from prev ((t, k', v) # xs)) = delta_sum k (deltas_from (prev(k' \<mapsto> v)) xs)"
      by (simp add: delta_sum_def)
    moreover have "values_of k ((t, k', v) # xs) = values_of k xs" using False by (simp add: values_of_def)
    moreover have "(prev(k' \<mapsto> v)) k = prev k" using False by simp
    ultimately show ?thesis unfolding 2 by (cases "values_of k xs") simp_all
  qed
qed (simp add: delta_sum_def values_of_def)

lemma map_of_append_last: "map_of (xs @ [(k, v)]) k' = (case map_of xs k' of Some w \<Rightarrow> Some w | None \<Rightarrow> if k' = k then Some v else None)"
  by (auto simp: map_add_def split: option.splits)

lemma last_values_last:
  "last_values xs k = (if values_of k xs = [] then None else Some (last (values_of k xs)))"
proof (induction xs rule: rev_induct)
  case (snoc x xs)
  then show ?case by (cases x) (auto simp: last_values_def values_of_def)
qed (simp add: last_values_def values_of_def)

section \<open>Theorems\<close>

text \<open>C26: Pacing: whatever the operating system does with the sleeps and the datagrams, the bits put on
  the wire up to the end of the loop are at most what the target rate allows for the elapsed time
  and half a millisecond more.\<close>

theorem sender_rate_bound:
  assumes "0 < mbps" and "timely (send_interval mbps n) n start rs (sender_init start)"
    and "sender_run (send_interval mbps n) n (start + secs) rs (sender_init start) = Some (s, t)"
  shows "of_nat (8 * sd_pkts s * psize_wire n) \<le> mbps * 1000000 * (t - start + 1 / 2000)
    \<and> sd_bytes s = sd_pkts s * n"
proof -
  let ?i = "send_interval mbps n"
  have "paced ?i start start (sender_init start)" by (simp add: paced_def sender_init_def)
  from paced_run [OF assms(3, 2) this send_interval_pos]
  have "of_nat (sd_pkts s) * ?i \<le> t - start + 1 / 2000" by simp
  then have "of_nat (sd_pkts s) * ?i * (mbps * 1000000) \<le> (t - start + 1 / 2000) * (mbps * 1000000)"
    by (rule mult_right_mono) (use assms(1) in simp)
  moreover have "of_nat (sd_pkts s) * ?i * (mbps * 1000000) = of_nat (8 * sd_pkts s * psize_wire n)"
    unfolding mult.assoc send_interval_rate [OF assms(1)] by simp
  moreover have "sd_bytes s = sd_pkts s * n"
    by (rule sender_bytes [OF assms(3)]) (simp add: sender_init_def)
  ultimately show ?thesis by (simp only: mult.commute [of _ "mbps * 1000000"] simp_thms)
qed

definition one_round :: "send_round list" where
  "one_round = [\<lparr>r_stop = False, r_now = 0, r_sent = True, r_slack = 0, r_reset = 0\<rparr>,
     \<lparr>r_stop = False, r_now = 2, r_sent = False, r_slack = 2, r_reset = 2\<rparr>]"

theorem sender_rate_bound_witness:
  "of_nat (8 * 1 * psize_wire 1472) \<le> (50 :: rat) * 1000000 * (2 - 0 + 1 / 2000)
    \<and> sd_bytes \<lparr>sd_pkts = 1, sd_bytes = 1472, sd_next = send_interval 50 1472\<rparr> = 1 * 1472"
  using sender_rate_bound [of 50 1472 0 one_round 1 "\<lparr>sd_pkts = 1, sd_bytes = 1472, sd_next = send_interval 50 1472\<rparr>" 2]
  by (simp add: one_round_def sender_init_def sender_round_def sender_sent_def send_interval_def
      psize_wire_def not_before_def Let_def)

text \<open>The deltas of a counter add up to the difference of its last and first value.\<close>

theorem deltas_telescope:
  "delta_sum k (deltas xs) = (if values_of k xs = [] then 0 else last (values_of k xs) - hd (values_of k xs))"
  unfolding deltas_def deltas_from_sum by (cases "values_of k xs") simp_all

text \<open>A difference of two readings of a 32-bit counter is what it counted in between, also when it
  wrapped, as long as it counted less than \<open>2 ^ 32\<close>.\<close>

theorem counter_delta_counts:
  assumes "base k = Some ((c :: int) mod 2 ^ 32)" "fin k = Some ((c + n) mod 2 ^ 32)" "0 \<le> n" "n < 2 ^ 32"
  shows "counter_delta base fin k = n"
proof -
  have "counter_delta base fin k = ((c + n) mod 2 ^ 32 - c mod 2 ^ 32) AND mask 32"
    using assms(1, 2) by (simp add: counter_delta_def get0_def mask_eq_exp_minus_1)
  also have "\<dots> = (c + n - c) mod 2 ^ 32"
    unfolding take_bit_eq_mask [symmetric] take_bit_eq_mod by (rule mod_diff_eq)
  finally show ?thesis using assms(3, 4) by simp
qed

theorem counter_delta_counts_witness:
  "counter_delta [''RXB'' \<mapsto> (4294967290 :: int) mod 2 ^ 32] [''RXB'' \<mapsto> (4294967290 + 100) mod 2 ^ 32] ''RXB'' = 100"
  by (rule counter_delta_counts [of _ _ 4294967290]) simp_all

text \<open>The verdict is an overflow exactly when an overflow count was read and the last one differs from
  the baseline's (0 if the baseline has none).\<close>

theorem udp_verdict_iff:
  "udp_verdict (baseline warmup) samples = 1 \<longleftrightarrow>
    values_of ''OVF'' samples \<noteq> [] \<and>
    last (values_of ''OVF'' samples) \<noteq>
      (let vs = values_of ''OVF'' (drop (length warmup - 8) warmup) in if vs = [] then 0 else last vs)"
proof -
  have "values_of ''OVF'' (filter (\<lambda>(_, k, _). k \<in> set STAT_KEYS) xs) = values_of ''OVF'' xs" for xs
    by (induction xs) (auto simp: values_of_def STAT_KEYS_def)
  then show ?thesis
    by (auto simp: udp_verdict_def baseline_def last_values_last get0_def Let_def)
qed

end
