(* ===== verification/Spec2Isabelle.thy ===== *)
theory Spec2Isabelle
  imports Emz_Blast Emz_Echo Emz_Scapy Emz_Bidir Emz_HwBuild Emz_Sens Emz_Rom Emz_Prove Emz_Sniff Emz_Parity Emz_Board Emz_GmiiLb Emz_RunAll Emz_Bench Emz_Packet Emz_Verdicts Emz_Sfp Emz_SfpLb Emz_RgmiiLb Emz_Serial Emz_Console Emz_Cocotb Emz_Litex Emz_Udp
begin

text \<open>
  emacZero is an Ethernet MAC in Verilog and VHDL with its benches, board scripts, software driver
  and build tooling. This development verifies the Python of the repository: the reference models
  and bench components against which the core is checked, the driver that builds and tests it, the
  generators of the formal models, and the host scripts that run it on boards. The RTL itself is
  not modelled; a fault in this Python would let a fault of the RTL pass.

  \<^bold>\<open>How the parts interact.\<close> \<open>build_and_test.py\<close> runs phases in order: the version check, the
  generated-model and sensitivity checks, lint, the Icarus and xsim simulations, the cocotb suites.
  The cocotb phase runs \<open>sim/cocotb/run.py\<close>, which discovers the suites, builds the source lists and
  starts the tests; the tests drive the core with the components of \<open>sim/cocotb/lib\<close> (drivers,
  monitors, sinks) and compare against its reference models. The scripts under \<open>sim/parity\<close> produce
  and check the models for the Verilog / VHDL equivalence proofs. The board scripts under \<open>fpga\<close> and
  \<open>sw/linux\<close> read counters over JTAG, UART, UDP or ssh and decide whether a run passed.
  \<open>litex_emaczero\<close> instantiates the core in LiteX.

  \<^bold>\<open>Theories.\<close>
  \<^item> \<open>Emz_Prelude\<close>: exceptions (\<open>py_error\<close>, \<open>'a res\<close>), byte strings, slices, integer conversions.
    \<open>Emz_Text\<close>: the \<open>str\<close>, path and \<open>re\<close> operations the host scripts use. \<open>Emz_Io\<close>: computations
    against a world of answers, with their log; bit-field decoding. \<open>Emz_Regex\<close>: the backtracking
    matcher of \<open>re\<close>, for the patterns that need one.
  \<^item> \<open>Emz_Rng\<close>, \<open>Emz_Crc\<close>, \<open>Emz_Eth\<close>, \<open>Emz_Csum\<close>, \<open>Emz_Packet\<close>, \<open>Emz_Saf\<close>, \<open>Emz_RxModel\<close>,
    \<open>Emz_Score\<close>: the reference side of \<open>sim/cocotb/lib\<close> (\<open>eth.py\<close>, \<open>csum.py\<close>, \<open>frame_gen.py\<close>,
    \<open>model.py\<close>, \<open>rx_model.py\<close>, \<open>gmii_cdc_model.py\<close>): CRC and checksum arithmetic, packets and what
    is expected of them, the transmit policy, scoreboards.
  \<^item> \<open>Emz_Link\<close>, \<open>Emz_Axis\<close>, \<open>Emz_Bench\<close>: drivers, monitors and sinks as folds over sampled clock
    edges (\<open>gmii_*.py\<close>, \<open>mii_monitor.py\<close>, \<open>axis_*.py\<close>, \<open>axil_master.py\<close>, \<open>rx_loop.py\<close>) and the
    plumbing of the ported Verilog benches.
  \<^item> \<open>Emz_Version\<close>, \<open>Emz_Tests\<close>, \<open>Emz_Build\<close>, \<open>Emz_Phases\<close>, \<open>Emz_Verdicts\<close>: \<open>build_and_test.py\<close>;
    \<open>Emz_Cocotb\<close>: \<open>sim/cocotb/run.py\<close>.
  \<^item> \<open>Emz_Edit\<close>, \<open>Emz_Parity\<close>, \<open>Emz_RunAll\<close>, \<open>Emz_Sens\<close>, \<open>Emz_Rom\<close>, \<open>Emz_Prove\<close>: \<open>sim/parity\<close>
    (the model generators, the runner of the proofs, \<open>sens_check.py\<close>, \<open>check_rom.py\<close>, and the
    netlist edits of \<open>prove_rgmii_if.py\<close> and \<open>prove_arp_responder.py\<close>).
  \<^item> \<open>Emz_Sfp\<close>, \<open>Emz_SfpLb\<close>, \<open>Emz_RgmiiLb\<close>, \<open>Emz_GmiiLb\<close>, \<open>Emz_Serial\<close>, \<open>Emz_Udp\<close>, \<open>Emz_Board\<close>,
    \<open>Emz_Sniff\<close>: the board scripts \<open>sfp_counters.py\<close>, \<open>sfp_lb_test.py\<close>, \<open>rgmii_lb_selftest.py\<close>,
    \<open>gmii_lb_selftest.py\<close>, \<open>serial_monitor.py\<close>, \<open>udp_throughput.py\<close>, \<open>udp_iperf_stats.py\<close> with
    \<open>run_hw_regression.py\<close>, \<open>udp_blast_sniff.py\<close>. \<open>Emz_Linux\<close>, \<open>Emz_Console\<close>: \<open>linux_bench.py\<close> and
    its serial console. \<open>Emz_Perf\<close>, \<open>Emz_Bidir\<close>, \<open>Emz_Blast\<close>: the throughput tests
    \<open>sfp_perf_test.py\<close>, \<open>udp_bidirectional_test.py\<close> and \<open>udp_blast_test.py\<close>, over the sequence
    counters of \<open>Emz_Seq\<close>. \<open>Emz_Echo\<close>: \<open>udp_echo_test.py\<close>. \<open>Emz_Scapy\<close>: \<open>scapy_test.py\<close>. \<open>Emz_HwBuild\<close>:
    \<open>hw_build_test.py\<close>, which builds, programs and smoke-tests the board.
    \<open>Emz_Litex\<close>: \<open>litex_emaczero/emaczero.py\<close>.

  \<^bold>\<open>State and operations.\<close> A Python object is a record, a method a function on it; a coroutine that
  waits for clock edges is a function of the samples it sees. What a raise or an early exit does is
  a value of \<open>'a res\<close> or of \<open>outcome\<close>. Bytes are \<open>8 word\<close>, Python integers are \<open>int\<close> or \<open>nat\<close>,
  floats are exact rationals. A dictionary is an association list in insertion order. Draws of
  \<open>random.Random\<close> are a list of numbers. Tools, files, sockets, clocks and child processes are
  parameters or lists of answers.

  \<^bold>\<open>What the lemmas show.\<close> The interfaces are locales with the modelled operations as instances:
  \<open>framed_link\<close> (what a monitor recovers from what a driver sends), the scoreboard contract of
  \<open>Emz_Score\<close>, \<open>parity_generator\<close> (writing the models and then checking them agree),
  \<open>word_pattern\<close> (what a \<open>\b...\b\<close> pattern finds), \<open>seq_counter\<close> and \<open>filtering_counter\<close> (what a
  receive loop counts, from the sequence numbers it sees). On top are: the algebra of CRC and checksum
  and the equivalence of their implementations; round trips through drivers and monitors, packets,
  serial sessions and counter replies; the transmit and receive policies as specifications the
  reference models refine; exact conditions for every verdict and exit code; the order of register
  accesses; and the errors of the code, among them those listed as findings.

  \<^bold>\<open>Bounds.\<close> Every function terminates. Loops of the code that retry have its own bounds: ten reads
  of the EIO, three sessions, five fcapz runs, three iperf3 runs. Loops that poll are recursive in
  the answers they consume; they are \<open>Starved\<close> only when these run out, and the theorems say which
  answers are enough. \<open>gm_traffic\<close> is bounded by the readings of the clock left, which
  \<open>gm_traffic_bound\<close> shows to be immaterial.

  \<^bold>\<open>Not modelled.\<close> The RTL, the C and Linux driver sources, the test cases under \<open>sim/cocotb/tests\<close>; code of other projects
  (cocotb, fcapz, scapy, iperf3, GHDL, the prover of translateHDL), which is a parameter; the
  wording, colour and layout of most messages; the start of clocks and tasks inside cocotb.
\<close>

end
